(* ===== verification/Prelude.thy ===== *)
theory Prelude
  imports Main "HOL-Library.Word"
begin

text \<open>
  Shared vocabulary of the development.

  \<^item> Types: Rust's unsigned integers are words of their width, a \<open>Uuid\<close> is a 128-bit word,
    byte strings and byte arrays are lists of 8-bit words (an array type \<open>[u8; n]\<close> is a list
    whose length is fixed by a well-formedness predicate).
  \<^item> Arithmetic: \<open>checked_add\<close> and \<open>saturating_add\<close> with their readings on \<open>nat\<close>.
  \<^item> Results: \<open>Result<T, E>\<close> is the sum \<open>'e + 't\<close>; \<open>res_bind\<close> is Rust's question mark operator
    and \<open>ensure\<close> an early return.
  \<^item> Mutation: a fallible method on \<open>&mut self\<close> is a function \<open>'s \<Rightarrow> ('e + 'a) \<times> 's\<close>: the state
    survives an error as far as the method had changed it. \<open>op_then\<close> sequences such methods,
    \<open>for_each\<close> and \<open>iter_mut_try\<close> are the two loop shapes the code uses.
  \<^item> Searching: \<open>position\<close>, \<open>update_first\<close> and \<open>has_repeat\<close> (the duplicate check by
    inserting into a fresh \<open>BTreeSet\<close>).
\<close>

named_theorems res_simps "rewriting of results and of state-passing methods"
named_theorems arith_specs "checked and saturating arithmetic read on natural numbers"

type_synonym u8 = "8 word"
type_synonym u16 = "16 word"
type_synonym u32 = "32 word"
type_synonym u64 = "64 word"
type_synonym uuid = "128 word"
type_synonym bytes = "8 word list"

abbreviation nil_uuid :: uuid where
  "nil_uuid \<equiv> 0"

definition zeros :: "nat \<Rightarrow> bytes" where
  "zeros n = replicate n 0"

subsection \<open>Checked and saturating arithmetic\<close>

definition checked_add :: "'a::len word \<Rightarrow> 'a word \<Rightarrow> 'a word option" where
  "checked_add a b = (if unat a + unat b < 2 ^ LENGTH('a) then Some (a + b) else None)"

definition saturating_add :: "'a::len word \<Rightarrow> 'a word \<Rightarrow> 'a word" where
  "saturating_add a b = (if unat a + unat b < 2 ^ LENGTH('a) then a + b else - 1)"

lemma checked_add_SomeD [arith_specs]:
  fixes a b c :: "'a::len word"
  shows "checked_add a b = Some c \<Longrightarrow> unat c = unat a + unat b"
  by (auto simp: checked_add_def unat_word_ariths split: if_splits)

lemma checked_add_NoneD:
  fixes a b :: "'a::len word"
  shows "checked_add a b = None \<Longrightarrow> 2 ^ LENGTH('a) \<le> unat a + unat b"
  by (auto simp: checked_add_def split: if_splits)

lemma checked_add_one_None_iff:
  fixes a :: "'a::len word"
  shows "checked_add a 1 = None \<longleftrightarrow> a = - 1"
proof -
  have top: "unat (- 1 :: 'a word) = 2 ^ LENGTH('a) - 1"
    by (simp add: unsigned_minus_1_eq_mask mask_eq_exp_minus_1)
  have lt: "unat a < 2 ^ LENGTH('a)"
    by (rule unsigned_less)
  have "a = - 1 \<longleftrightarrow> unat a = 2 ^ LENGTH('a) - 1"
    by (metis top unsigned_word_eqI)
  also have "\<dots> \<longleftrightarrow> \<not> unat a + 1 < 2 ^ LENGTH('a)"
    using lt by linarith
  finally show ?thesis
    by (simp add: checked_add_def)
qed

lemma unat_saturating_add [arith_specs]:
  fixes a b :: "'a::len word"
  shows "unat (saturating_add a b) = min (unat a + unat b) (2 ^ LENGTH('a) - 1)"
proof (cases "unat a + unat b < 2 ^ LENGTH('a)")
  case True
  then show ?thesis
    by (auto simp: saturating_add_def unat_word_ariths)
next
  case False
  then show ?thesis
    by (auto simp: saturating_add_def unsigned_minus_1_eq_mask mask_eq_exp_minus_1)
qed

lemma saturating_add_ge: "a \<le> saturating_add a (b :: 'a::len word)"
proof -
  have "unat a < 2 ^ LENGTH('a)"
    by (rule unsigned_less)
  then have "unat a \<le> 2 ^ LENGTH('a) - 1"
    by linarith
  then show ?thesis
    by (simp add: word_le_nat_alt unat_saturating_add)
qed

lemma unat_u64_bound: "unat (a :: u64) < 2 ^ 64"
  using unsigned_less [of a, where 'a = nat] by simp

lemma unat_u32_u64: "unat (ucast (w :: u32) :: u64) = unat w"
proof -
  have "unat w < 2 ^ 32" using unsigned_less [of w, where 'a = nat] by simp
  then show ?thesis by (simp add: unsigned_ucast_eq take_bit_eq_mod)
qed

lemma unat_of_nat_word: "n < 2 ^ LENGTH('a) \<Longrightarrow> unat (of_nat n :: 'a::len word) = n"
  by (simp add: unat_of_nat take_bit_eq_mod)

definition saturating_sub :: "'a::len word \<Rightarrow> 'a word \<Rightarrow> 'a word" where
  "saturating_sub a b = (if b \<le> a then a - b else 0)"

definition saturating_mul :: "'a::len word \<Rightarrow> 'a word \<Rightarrow> 'a word" where
  "saturating_mul a b = (if unat a * unat b < 2 ^ LENGTH('a) then a * b else - 1)"

definition checked_sub :: "'a::len word \<Rightarrow> 'a word \<Rightarrow> 'a word option" where
  "checked_sub a b = (if b \<le> a then Some (a - b) else None)"

definition checked_mul :: "'a::len word \<Rightarrow> 'a word \<Rightarrow> 'a word option" where
  "checked_mul a b = (if unat a * unat b < 2 ^ LENGTH('a) then Some (a * b) else None)"

lemma unat_saturating_sub [arith_specs]:
  "unat (saturating_sub a (b :: 'a::len word)) = unat a - unat b"
  by (auto simp: saturating_sub_def word_le_nat_alt unat_sub not_le)

lemma unat_fold_saturating:
  fixes f :: "'b \<Rightarrow> 'a::len word"
  shows "unat (foldl (\<lambda>n x. saturating_add n (f x)) a xs) =
     min (unat a + sum_list (map (\<lambda>x. unat (f x)) xs)) (2 ^ LENGTH('a) - 1)"
proof (induction xs arbitrary: a)
  case Nil
  have "unat a < 2 ^ LENGTH('a)" by (rule unsigned_less)
  then have "unat a \<le> 2 ^ LENGTH('a) - 1" by linarith
  then show ?case by (simp add: min_def)
next
  case (Cons x xs)
  then show ?case by (simp add: unat_saturating_add)
qed

lemma checked_sub_SomeD [arith_specs]:
  fixes a b c :: "'a::len word"
  shows "checked_sub a b = Some c \<Longrightarrow> unat c + unat b = unat a"
  by (auto simp: checked_sub_def word_le_nat_alt unat_sub split: if_splits)

lemma checked_mul_SomeD [arith_specs]:
  fixes a b c :: "'a::len word"
  shows "checked_mul a b = Some c \<Longrightarrow> unat c = unat a * unat b"
  by (auto simp: checked_mul_def unat_word_ariths split: if_splits)

subsection \<open>Results\<close>

definition ok_or :: "'a option \<Rightarrow> 'e \<Rightarrow> 'e + 'a" where
  "ok_or x e = (case x of None \<Rightarrow> Inl e | Some a \<Rightarrow> Inr a)"

fun res_bind :: "'e + 'a \<Rightarrow> ('a \<Rightarrow> 'e + 'b) \<Rightarrow> 'e + 'b" where
  "res_bind (Inl e) f = Inl e"
| "res_bind (Inr a) f = f a"

definition ensure :: "bool \<Rightarrow> 'e \<Rightarrow> 'e + unit" where
  "ensure p e = (if p then Inr () else Inl e)"

fun is_ok :: "'e + 'a \<Rightarrow> bool" where
  "is_ok (Inr a) = True"
| "is_ok (Inl e) = False"

lemma ok_or_simps [simp]:
  "ok_or None e = Inl e"
  "ok_or (Some a) e = Inr a"
  by (simp_all add: ok_or_def)

lemma ok_or_Inr_iff [res_simps]: "ok_or x e = Inr a \<longleftrightarrow> x = Some a"
  by (cases x) auto

lemma ok_or_Inl_iff [res_simps]: "ok_or x e = Inl e' \<longleftrightarrow> x = None \<and> e' = e"
  by (cases x) auto

lemma ensure_Inr_iff [res_simps]: "ensure p e = Inr u \<longleftrightarrow> p"
  by (auto simp: ensure_def)

lemma ensure_Inl_iff [res_simps]: "ensure p e = Inl e' \<longleftrightarrow> \<not> p \<and> e' = e"
  by (auto simp: ensure_def)

lemma ensure_simps [simp]: "ensure True e = Inr ()" "ensure False e = Inl e"
  by (simp_all add: ensure_def)

lemma res_bind_Inr_iff [res_simps]:
  "res_bind r f = Inr b \<longleftrightarrow> (\<exists>a. r = Inr a \<and> f a = Inr b)"
  by (cases r) auto

lemma res_bind_Inl_iff [res_simps]:
  "res_bind r f = Inl e \<longleftrightarrow> r = Inl e \<or> (\<exists>a. r = Inr a \<and> f a = Inl e)"
  by (cases r) auto

lemma is_ok_iff [res_simps]: "is_ok r \<longleftrightarrow> (\<exists>a. r = Inr a)"
  by (cases r) auto

text \<open>Collecting an iterator of results into a result of a list.\<close>

fun map_results :: "('x \<Rightarrow> 'e + 'y) \<Rightarrow> 'x list \<Rightarrow> 'e + 'y list" where
  "map_results f [] = Inr []"
| "map_results f (x # xs) =
     res_bind (f x) (\<lambda>y. res_bind (map_results f xs) (\<lambda>ys. Inr (y # ys)))"

lemma map_results_list_all2 [res_simps]:
  "map_results f xs = Inr ys \<longleftrightarrow> list_all2 (\<lambda>x y. f x = Inr y) xs ys"
  by (induction xs arbitrary: ys) (auto simp: res_bind_Inr_iff list_all2_Cons1)

text \<open>A loop that threads a value and is left at the first error.\<close>

fun try_fold :: "('x \<Rightarrow> 's \<Rightarrow> 'e + 's) \<Rightarrow> 'x list \<Rightarrow> 's \<Rightarrow> 'e + 's" where
  "try_fold f [] s = Inr s"
| "try_fold f (x # xs) s = res_bind (f x s) (try_fold f xs)"

lemma try_fold_invariant:
  assumes "try_fold f xs s = Inr t" and "I s"
    and "\<And>x u v. x \<in> set xs \<Longrightarrow> I u \<Longrightarrow> f x u = Inr v \<Longrightarrow> I v"
  shows "I t"
  using assms by (induction xs arbitrary: s) (auto simp: res_bind_Inr_iff)

lemma try_fold_append: "try_fold f (xs @ ys) s = res_bind (try_fold f xs s) (try_fold f ys)"
proof (induction xs arbitrary: s)
  case (Cons x xs)
  then show ?case by (cases "f x s") auto
qed simp

text \<open>A fact that one step establishes for its element and later steps keep holds at the end.\<close>

lemma try_fold_establishes:
  assumes run: "try_fold f xs s = Inr t" and x: "x \<in> set xs" and init: "I s"
    and inv: "\<And>y u v. y \<in> set xs \<Longrightarrow> I u \<Longrightarrow> f y u = Inr v \<Longrightarrow> I v"
    and est: "\<And>u v. I u \<Longrightarrow> f x u = Inr v \<Longrightarrow> Q v"
    and keep: "\<And>y u v. y \<in> set xs \<Longrightarrow> I u \<Longrightarrow> Q u \<Longrightarrow> f y u = Inr v \<Longrightarrow> Q v"
  shows "Q t"
proof -
  obtain ys zs where xs: "xs = ys @ x # zs" using x by (meson split_list)
  from run obtain u v where u: "try_fold f ys s = Inr u" "f x u = Inr v" "try_fold f zs v = Inr t"
    by (auto simp: xs try_fold_append res_bind_Inr_iff)
  have "I u" by (rule try_fold_invariant [where I = I, OF u(1) init]) (auto simp: xs intro: inv)
  then have "I v \<and> Q v" using u(2) inv [of x u v] est x by auto
  moreover have "y \<in> set xs" if "y \<in> set zs" for y using that by (simp add: xs)
  ultimately have "I t \<and> Q t"
    by (intro try_fold_invariant [where I = "\<lambda>w. I w \<and> Q w", OF u(3)]) (use inv keep in \<open>blast+\<close>)
  then show ?thesis by simp
qed

subsection \<open>Methods on mutable state\<close>

type_synonym ('s, 'e, 'a) meth = "'s \<Rightarrow> ('e + 'a) \<times> 's"

definition op_then ::
  "('s, 'e, 'a) meth \<Rightarrow> ('a \<Rightarrow> ('s, 'e, 'b) meth) \<Rightarrow> ('s, 'e, 'b) meth" where
  "op_then m k s = (case m s of (Inl e, s') \<Rightarrow> (Inl e, s') | (Inr a, s') \<Rightarrow> k a s')"

lemma op_then_Inr_iff [res_simps]:
  "op_then m k s = (Inr b, t) \<longleftrightarrow> (\<exists>a s'. m s = (Inr a, s') \<and> k a s' = (Inr b, t))"
  by (auto simp: op_then_def split: prod.splits sum.splits)

text \<open>A step that only computes a result, and a method whose errors are translated.\<close>

definition lift_result :: "'e + 'a \<Rightarrow> ('s, 'e, 'a) meth" where
  "lift_result r s = (r, s)"

definition map_err :: "('d \<Rightarrow> 'e) \<Rightarrow> ('s, 'd, 'a) meth \<Rightarrow> ('s, 'e, 'a) meth" where
  "map_err f m s = (case m s of (r, s') \<Rightarrow> (map_sum f id r, s'))"

lemma lift_result_iff [res_simps]: "lift_result r s = (q, t) \<longleftrightarrow> r = q \<and> s = t"
  by (auto simp: lift_result_def)

lemma map_err_Inr_iff [res_simps]: "map_err f m s = (Inr a, t) \<longleftrightarrow> m s = (Inr a, t)"
  by (cases "m s"; cases "fst (m s)") (auto simp: map_err_def)

lemma op_then_lift_Inr [simp]: "op_then (lift_result (Inr a)) k s = k a s"
  by (simp add: op_then_def lift_result_def)

lemma op_then_lift_Inl [simp]: "op_then (lift_result (Inl e)) k s = (Inl e, s)"
  by (simp add: op_then_def lift_result_def)

lemma snd_lift_result [simp]: "snd (lift_result r s) = s"
  by (simp add: lift_result_def)

text \<open>Methods on one part of a pair of states.\<close>

definition on_fst :: "('a, 'e, 'r) meth \<Rightarrow> ('a \<times> 'b, 'e, 'r) meth" where
  "on_fst m s = (case m (fst s) of (r, a) \<Rightarrow> (r, (a, snd s)))"

definition on_snd :: "('b, 'e, 'r) meth \<Rightarrow> ('a \<times> 'b, 'e, 'r) meth" where
  "on_snd m s = (case m (snd s) of (r, b) \<Rightarrow> (r, (fst s, b)))"

lemma on_fst_iff [res_simps]: "on_fst m x = (r, y) \<longleftrightarrow> m (fst x) = (r, fst y) \<and> snd y = snd x"
  by (cases y) (auto simp: on_fst_def split: prod.splits)

lemma on_snd_iff [res_simps]: "on_snd m x = (r, y) \<longleftrightarrow> m (snd x) = (r, snd y) \<and> fst y = fst x"
  by (cases y) (auto simp: on_snd_def split: prod.splits)

lemma op_then_Inl_iff:
  "op_then m k s = (Inl e, t) \<longleftrightarrow> m s = (Inl e, t) \<or> (\<exists>a s'. m s = (Inr a, s') \<and> k a s' = (Inl e, t))"
  by (auto simp: op_then_def split: prod.splits sum.splits)

lemma map_err_Inl_iff: "map_err f m s = (Inl e, t) \<longleftrightarrow> (\<exists>d. m s = (Inl d, t) \<and> e = f d)"
  by (cases "m s"; cases "fst (m s)") (auto simp: map_err_def)

text \<open>A \<open>for\<close> loop over a list of indices or values, left at the first error.\<close>

fun for_each :: "('x \<Rightarrow> ('s, 'e, unit) meth) \<Rightarrow> 'x list \<Rightarrow> ('s, 'e, unit) meth" where
  "for_each f [] s = (Inr (), s)"
| "for_each f (x # xs) s =
     (case f x s of (Inl e, s') \<Rightarrow> (Inl e, s') | (Inr u, s') \<Rightarrow> for_each f xs s')"

text \<open>
  An invariant that the body keeps, whatever it returns, holds after the loop, whatever the
  loop returns.
\<close>

lemma for_each_invariant:
  assumes body: "\<And>x s r s'. x \<in> set xs \<Longrightarrow> I s \<Longrightarrow> f x s = (r, s') \<Longrightarrow> I s'"
    and init: "I s" and run: "for_each f xs s = (r, s')"
  shows "I s'"
  using body init run
proof (induction xs arbitrary: s)
  case Nil
  then show ?case by simp
next
  case (Cons x xs)
  obtain q t where step: "f x s = (q, t)" by (cases "f x s")
  have "I t" using Cons.prems(1) [OF _ Cons.prems(2) step] by simp
  then show ?case
    using Cons.IH [of t] Cons.prems(1,3) step by (auto split: sum.splits)
qed

text \<open>
  When the loop succeeds every body succeeded, so a fact that each body establishes for its own
  element and that later bodies keep holds for every element at the end.
\<close>

lemma for_each_establishes:
  assumes body: "\<And>x s s'. x \<in> set xs \<Longrightarrow> I s \<Longrightarrow> f x s = (Inr (), s') \<Longrightarrow> I s' \<and> Q x s'"
    and keep: "\<And>x y s s'. x \<in> set xs \<Longrightarrow> y \<in> set xs \<Longrightarrow> I s \<Longrightarrow> Q y s \<Longrightarrow>
                 f x s = (Inr (), s') \<Longrightarrow> Q y s'"
    and init: "I s" and run: "for_each f xs s = (Inr (), s')"
  shows "I s' \<and> (\<forall>x \<in> set xs. Q x s')"
proof -
  have "I s' \<and> (\<forall>x \<in> set done \<union> set rest. Q x s')"
    if "set done \<union> set rest \<subseteq> set xs" "I t" "\<forall>x \<in> set done. Q x t"
      "for_each f rest t = (Inr (), s')" for "done" rest t
    using that
  proof (induction rest arbitrary: "done" t)
    case Nil
    then show ?case by simp
  next
    case (Cons x rest)
    from Cons.prems(4) obtain u t' where step: "f x t = (Inr u, t')"
      and tail: "for_each f rest t' = (Inr (), s')"
      by (auto split: prod.splits sum.splits)
    have x: "x \<in> set xs" using Cons.prems(1) by simp
    have "I t' \<and> Q x t'" using body [OF x Cons.prems(2)] step by simp
    moreover have "\<forall>y \<in> set done. Q y t'"
      using keep [OF x] Cons.prems(1,2,3) step by (auto simp: subset_iff)
    ultimately have "I s' \<and> (\<forall>y \<in> set (x # done) \<union> set rest. Q y s')"
      using Cons.prems(1) tail by (intro Cons.IH [of "x # done" t']) auto
    then show ?case by auto
  qed
  from this [of "[]" xs s] init run show ?thesis by simp
qed

text \<open>A \<open>for\<close> loop over \<open>&mut xs\<close> whose body may return an error.\<close>

fun iter_mut_try :: "('x, 'e, unit) meth \<Rightarrow> ('x list, 'e, unit) meth" where
  "iter_mut_try f [] = (Inr (), [])"
| "iter_mut_try f (x # xs) =
     (case f x of
        (Inl e, x') \<Rightarrow> (Inl e, x' # xs)
      | (Inr u, x') \<Rightarrow> (case iter_mut_try f xs of (r, xs') \<Rightarrow> (r, x' # xs')))"

lemma iter_mut_try_length:
  "iter_mut_try f xs = (r, xs') \<Longrightarrow> length xs' = length xs"
  by (induction xs arbitrary: xs' r) (auto split: prod.splits sum.splits)

lemma iter_mut_try_list_all2:
  assumes "iter_mut_try f xs = (r, xs')"
    and "\<And>x. x \<in> set xs \<Longrightarrow> R x x" and "\<And>x q x'. x \<in> set xs \<Longrightarrow> f x = (q, x') \<Longrightarrow> R x x'"
  shows "list_all2 R xs xs'"
  using assms
proof (induction xs arbitrary: xs' r)
  case Nil
  then show ?case by simp
next
  case (Cons x xs)
  have refl: "list_all2 R xs xs"
    using Cons.prems(2) by (auto simp: list_all2_conv_all_nth)
  show ?case
    using Cons.prems Cons.IH refl
    by (fastforce split: prod.splits sum.splits)
qed

lemma iter_mut_try_Inr_map:
  assumes "iter_mut_try f xs = (Inr u, xs')"
  shows "xs' = map (\<lambda>x. snd (f x)) xs \<and> (\<forall>x \<in> set xs. \<exists>v. fst (f x) = Inr v)"
  using assms by (induction xs arbitrary: xs') (auto split: prod.splits sum.splits)

lemma iter_mut_try_all_ok:
  assumes "\<And>x. x \<in> set xs \<Longrightarrow> \<exists>v. fst (f x) = Inr v"
  shows "iter_mut_try f xs = (Inr (), map (\<lambda>x. snd (f x)) xs)"
  using assms by (induction xs) (fastforce split: prod.splits sum.splits)+

subsection \<open>Searching and in-place updates\<close>

fun position :: "('a \<Rightarrow> bool) \<Rightarrow> 'a list \<Rightarrow> nat option" where
  "position P [] = None"
| "position P (x # xs) = (if P x then Some 0 else map_option Suc (position P xs))"

lemma position_SomeD:
  "position P xs = Some i \<Longrightarrow> i < length xs \<and> P (xs ! i) \<and> (\<forall>j < i. \<not> P (xs ! j))"
proof (induction xs arbitrary: i)
  case Nil
  then show ?case by simp
next
  case (Cons x xs)
  then show ?case
    by (auto split: if_splits simp: less_Suc_eq_0_disj)
qed

lemma position_NoneD: "position P xs = None \<Longrightarrow> x \<in> set xs \<Longrightarrow> \<not> P x"
  by (induction xs) (auto split: if_splits)

lemma position_None_iff: "position P xs = None \<longleftrightarrow> (\<forall>x \<in> set xs. \<not> P x)"
  by (induction xs) auto

definition positions :: "('a \<Rightarrow> bool) \<Rightarrow> 'a list \<Rightarrow> nat list" where
  "positions P xs = map fst (filter (\<lambda>(i, x). P x) (enumerate 0 xs))"

lemma set_positions: "set (positions P xs) = {i. i < length xs \<and> P (xs ! i)}"
  by (force simp: positions_def in_set_enumerate_eq)

fun update_first :: "('a \<Rightarrow> bool) \<Rightarrow> ('a \<Rightarrow> 'a) \<Rightarrow> 'a list \<Rightarrow> 'a list" where
  "update_first P f [] = []"
| "update_first P f (x # xs) = (if P x then f x # xs else x # update_first P f xs)"

lemma length_update_first [simp]: "length (update_first P f xs) = length xs"
  by (induction xs) auto

lemma map_update_first:
  "(\<And>x. P x \<Longrightarrow> g (f x) = g x) \<Longrightarrow> map g (update_first P f xs) = map g xs"
  by (induction xs) auto

lemma find_update_first:
  assumes "find P xs = Some x" and "P (f x)"
  shows "find P (update_first P f xs) = Some (f x)"
  using assms by (induction xs) (auto split: if_splits)

lemma update_first_None: "find P xs = None \<Longrightarrow> update_first P f xs = xs"
  by (induction xs) (auto split: if_splits)

lemma find_SomeD: "find P xs = Some x \<Longrightarrow> x \<in> set xs \<and> P x"
  by (induction xs) (auto split: if_splits)

lemma find_NoneD: "find P xs = None \<Longrightarrow> x \<in> set xs \<Longrightarrow> \<not> P x"
  by (auto simp: find_None_iff)

text \<open>
  \<open>let mut seen = BTreeSet::new(); xs.iter().any(|x| !seen.insert(x))\<close>: some element is met a
  second time.
\<close>

fun has_repeat :: "'a set \<Rightarrow> 'a list \<Rightarrow> bool" where
  "has_repeat seen [] = False"
| "has_repeat seen (x # xs) = (x \<in> seen \<or> has_repeat (insert x seen) xs)"

lemma has_repeat_iff: "has_repeat seen xs \<longleftrightarrow> \<not> distinct xs \<or> set xs \<inter> seen \<noteq> {}"
  by (induction xs arbitrary: seen) auto

lemma has_repeat_empty [simp]: "has_repeat {} xs \<longleftrightarrow> \<not> distinct xs"
  by (simp add: has_repeat_iff)

lemma list_all2_mem_right: "list_all2 R xs ys \<Longrightarrow> y \<in> set ys \<Longrightarrow> \<exists>x \<in> set xs. R x y"
  by (induction rule: list_all2_induct) auto

lemma list_all2_mem_left: "list_all2 R xs ys \<Longrightarrow> x \<in> set xs \<Longrightarrow> \<exists>y \<in> set ys. R x y"
  by (induction rule: list_all2_induct) auto

lemma list_all2_map_eq: "list_all2 (\<lambda>x y. g x = g y) xs ys \<longleftrightarrow> map g xs = map g ys"
  by (induction xs ys rule: list_induct2') auto

lemma map_list_update_same: "i < length xs \<Longrightarrow> g y = g (xs ! i) \<Longrightarrow> map g (xs[i := y]) = map g xs"
  by (simp add: map_update list_update_same_conv)

end
