(* ===== verification/Machines.thy ===== *)
theory Machines
  imports Prelude
begin

text \<open>
  Contracts that several components of the wallet share, stated as locales.

  \<^item> \<open>ranked_machine\<close>: a state machine whose steps only go up in a bounded rank. Its clients get
    that no state is ever met twice and that runs are short. The swap session and the rescan plan
    are such machines.
  \<^item> \<open>completing_machine\<close>: a ranked machine in which exactly the final states have no step; from
    every state a final one can be reached, and every run that cannot be extended ends in one.
  \<^item> \<open>allocator\<close>: a method that hands out indices at or above a low-water mark that no operation
    of the component ever lowers; the indices of any interleaved run are pairwise different.
\<close>

subsection \<open>Machines that only go forward\<close>

fun steps_path :: "('s \<Rightarrow> 's \<Rightarrow> bool) \<Rightarrow> 's \<Rightarrow> 's list \<Rightarrow> bool" where
  "steps_path step s [] = True"
| "steps_path step s (t # ts) = (step s t \<and> steps_path step t ts)"

lemma steps_path_append:
  "steps_path step s (ts @ us) \<longleftrightarrow> steps_path step s ts \<and> steps_path step (last (s # ts)) us"
  by (induction ts arbitrary: s) auto

locale ranked_machine =
  fixes step :: "'s \<Rightarrow> 's \<Rightarrow> bool" and rank :: "'s \<Rightarrow> nat" and top :: nat
  assumes step_rank: "step s t \<Longrightarrow> rank s < rank t"
    and rank_top: "rank s \<le> top"
begin

lemma path_rank: "steps_path step s ts \<Longrightarrow> rank s + length ts \<le> rank (last (s # ts))"
proof (induction ts arbitrary: s)
  case Nil
  then show ?case by simp
next
  case (Cons t ts)
  then have "rank s < rank t" and "rank t + length ts \<le> rank (last (t # ts))"
    by (auto intro: step_rank)
  then show ?case by simp
qed

lemma path_length: "steps_path step s ts \<Longrightarrow> length ts \<le> top - rank s"
  using path_rank [of s ts] rank_top [of "last (s # ts)"] by linarith

lemma path_above: "steps_path step s ts \<Longrightarrow> t \<in> set ts \<Longrightarrow> rank s < rank t"
proof (induction ts arbitrary: s)
  case Nil
  then show ?case by simp
next
  case (Cons u ts)
  then have "rank s < rank u" by (auto intro: step_rank)
  with Cons show ?case by fastforce
qed

lemma path_distinct: "steps_path step s ts \<Longrightarrow> distinct (s # ts)"
proof (induction ts arbitrary: s)
  case Nil
  then show ?case by simp
next
  case (Cons t ts)
  then have "distinct (t # ts)" by (intro Cons.IH) simp
  moreover have "s \<notin> set (t # ts)"
    using path_above [OF Cons.prems] by fastforce
  ultimately show ?case by simp
qed

lemma never_back: "step\<^sup>+\<^sup>+ s t \<Longrightarrow> rank s < rank t"
  by (induction rule: tranclp_induct) (auto dest: step_rank)

end

locale completing_machine = ranked_machine step rank top
  for step :: "'s \<Rightarrow> 's \<Rightarrow> bool" and rank :: "'s \<Rightarrow> nat" and top :: nat +
  fixes final :: "'s \<Rightarrow> bool"
  assumes final_stuck: "final s \<Longrightarrow> \<not> step s t"
    and progress: "\<not> final s \<Longrightarrow> \<exists>t. step s t"
begin

lemma reaches_final: "\<exists>ts. steps_path step s ts \<and> final (last (s # ts))"
proof (induction "top - rank s" arbitrary: s rule: less_induct)
  case less
  show ?case
  proof (cases "final s")
    case True
    then show ?thesis by (intro exI [of _ "[]"]) simp
  next
    case False
    then obtain t where t: "step s t" using progress by blast
    then have "top - rank t < top - rank s"
      using step_rank [OF t] rank_top [of t] by linarith
    from less [OF this] obtain ts where "steps_path step t ts" "final (last (t # ts))"
      by blast
    with t show ?thesis by (intro exI [of _ "t # ts"]) auto
  qed
qed

lemma maximal_ends_final:
  assumes "\<And>t. \<not> step (last (s # ts)) t"
  shows "final (last (s # ts))"
  using assms progress by blast

lemma final_last: "steps_path step s ts \<Longrightarrow> final s \<Longrightarrow> ts = []"
  by (cases ts) (auto dest: final_stuck)

end

subsection \<open>Allocation without reuse\<close>

inductive alloc_trace ::
  "('s, 'e, 'i) meth \<Rightarrow> ('s \<Rightarrow> 's \<Rightarrow> bool) \<Rightarrow> 's \<Rightarrow> 'i list \<Rightarrow> 's \<Rightarrow> bool"
  for alloc other where
  idle: "alloc_trace alloc other s [] s"
| handed_out: "alloc s = (Inr i, s') \<Longrightarrow> alloc_trace alloc other s' is t \<Longrightarrow>
     alloc_trace alloc other s (i # is) t"
| refused: "alloc s = (Inl e, s') \<Longrightarrow> alloc_trace alloc other s' is t \<Longrightarrow>
     alloc_trace alloc other s is t"
| elsewhere: "other s s' \<Longrightarrow> alloc_trace alloc other s' is t \<Longrightarrow>
     alloc_trace alloc other s is t"

locale allocator =
  fixes alloc :: "('s, 'e, 'i) meth" and other :: "'s \<Rightarrow> 's \<Rightarrow> bool"
    and mark :: "'s \<Rightarrow> nat" and idx :: "'i \<Rightarrow> nat"
  assumes alloc_fresh: "alloc s = (Inr i, s') \<Longrightarrow> mark s \<le> idx i \<and> idx i < mark s'"
    and alloc_refused: "alloc s = (Inl e, s') \<Longrightarrow> mark s \<le> mark s'"
    and other_mono: "other s s' \<Longrightarrow> mark s \<le> mark s'"
begin

lemma trace_fresh:
  "alloc_trace alloc other s is t \<Longrightarrow>
     mark s \<le> mark t \<and> (\<forall>i \<in> set is. mark s \<le> idx i \<and> idx i < mark t) \<and>
     sorted_wrt (\<lambda>i j. idx i < idx j) is"
proof (induction rule: alloc_trace.induct)
  case (idle s)
  then show ?case by simp
next
  case (handed_out s i s' "is" t)
  then show ?case using alloc_fresh [OF handed_out.hyps(1)] by fastforce
next
  case (refused s e s' "is" t)
  then show ?case using alloc_refused [OF refused.hyps(1)] by fastforce
next
  case (elsewhere s s' "is" t)
  then show ?case using other_mono [OF elsewhere.hyps(1)] by fastforce
qed

lemma trace_distinct: "alloc_trace alloc other s is t \<Longrightarrow> distinct (map idx is)"
  using trace_fresh [of s "is" t]
  by (auto simp: distinct_conv_nth sorted_wrt_iff_nth_less nat_neq_iff)

end

end
