(* ===== verification/Text_Codec.thy ===== *)
theory Text_Codec
  imports Prelude
begin

text \<open>
  Strings, bytes and numbers as the code moves between them: byte views of strings, UTF-8
  validation, little-endian integers, UUID bytes, decimal text, splitting and chunking. These are
  the functions of Rust's standard library that the storage contexts, the HTTP source and the
  manual transport use.
\<close>

unbundle bit_operations_syntax

subsection \<open>Strings\<close>

definition starts_with :: "string \<Rightarrow> string \<Rightarrow> bool" where
  "starts_with s p = (take (length p) s = p)"

lemma starts_with_append [simp]: "starts_with (p @ s) p"
  by (simp add: starts_with_def)

lemma starts_withD: "starts_with s p \<Longrightarrow> s = p @ drop (length p) s"
  unfolding starts_with_def by (metis append_take_drop_id)

definition is_ascii :: "string \<Rightarrow> bool" where
  "is_ascii s \<longleftrightarrow> (\<forall>c \<in> set s. (of_char c :: nat) < 128)"

definition is_ascii_whitespace :: "char \<Rightarrow> bool" where
  "is_ascii_whitespace c \<longleftrightarrow> (of_char c :: nat) \<in> {9, 10, 12, 13, 32}"

definition is_ascii_digit :: "char \<Rightarrow> bool" where
  "is_ascii_digit c \<longleftrightarrow> 48 \<le> (of_char c :: nat) \<and> (of_char c :: nat) \<le> 57"

definition is_lower_hex :: "char \<Rightarrow> bool" where
  "is_lower_hex c \<longleftrightarrow> is_ascii_digit c \<or> 97 \<le> (of_char c :: nat) \<and> (of_char c :: nat) \<le> 102"

subsection \<open>Bytes of a string\<close>

definition ascii :: "string \<Rightarrow> bytes" where
  "ascii s = map (\<lambda>c. of_nat (of_char c)) s"

definition string_of_bytes :: "bytes \<Rightarrow> string" where
  "string_of_bytes bs = map (\<lambda>b. char_of (unat b)) bs"

lemma unat_of_char [simp]: "unat (of_nat (of_char c) :: u8) = of_char c"
  by (simp add: unat_of_nat take_bit_eq_mod)

lemma string_of_ascii [simp]: "string_of_bytes (ascii s) = s"
  by (simp add: string_of_bytes_def ascii_def o_def)

lemma of_char_char_of_byte: "(of_char (char_of (unat (b :: u8))) :: nat) = unat b"
proof -
  have "unat b < 256" using unsigned_less [of b, where 'a = nat] by simp
  then show ?thesis by (simp add: char_of_mod_256 of_char_of)
qed

lemma ascii_of_string [simp]: "ascii (string_of_bytes bs) = bs"
proof -
  have "of_nat (of_char (char_of (unat b))) = b" for b :: u8
    unfolding of_char_char_of_byte by simp
  then show ?thesis by (simp add: string_of_bytes_def ascii_def o_def del: of_char_of)
qed

lemma length_ascii [simp]: "length (ascii s) = length s"
  by (simp add: ascii_def)

lemma length_string_of_bytes [simp]: "length (string_of_bytes bs) = length bs"
  by (simp add: string_of_bytes_def)

text \<open>What \<open>String::from_utf8\<close> accepts.\<close>

fun utf8_valid :: "bytes \<Rightarrow> bool" where
  "utf8_valid [] = True"
| "utf8_valid (b # bs) =
     (let cont = (\<lambda>x :: u8. 128 \<le> x \<and> x \<le> 191) in
      if b < 128 then utf8_valid bs
      else if 194 \<le> b \<and> b \<le> 223
      then (case bs of c # rest \<Rightarrow> cont c \<and> utf8_valid rest | [] \<Rightarrow> False)
      else if 224 \<le> b \<and> b \<le> 239
      then (case bs of c # d # rest \<Rightarrow>
              (if b = 224 then 160 \<le> c \<and> c \<le> 191 else if b = 237 then 128 \<le> c \<and> c \<le> 159 else cont c)
              \<and> cont d \<and> utf8_valid rest
            | _ \<Rightarrow> False)
      else if 240 \<le> b \<and> b \<le> 244
      then (case bs of c # d # e # rest \<Rightarrow>
              (if b = 240 then 144 \<le> c \<and> c \<le> 191 else if b = 244 then 128 \<le> c \<and> c \<le> 143 else cont c)
              \<and> cont d \<and> cont e \<and> utf8_valid rest
            | _ \<Rightarrow> False)
      else False)"

lemma utf8_valid_ascii: "is_ascii s \<Longrightarrow> utf8_valid (ascii s)"
  by (induction s) (simp_all add: is_ascii_def ascii_def word_less_nat_alt)

subsection \<open>Integers as bytes\<close>

definition le_bytes :: "nat \<Rightarrow> 'a::len word \<Rightarrow> bytes" where
  "le_bytes n x = map (\<lambda>i. ucast (drop_bit (8 * i) x)) [0 ..< n]"

definition of_le_bytes :: "bytes \<Rightarrow> 'a::len word" where
  "of_le_bytes bs = foldr (\<lambda>b acc. ucast b OR push_bit 8 acc) bs 0"

lemma of_le_bytes_simps [simp]:
  "of_le_bytes [] = 0"
  "of_le_bytes (b # bs) = ucast b OR push_bit 8 (of_le_bytes bs)"
  by (simp_all add: of_le_bytes_def)

lemma length_le_bytes [simp]: "length (le_bytes n x) = n"
  by (simp add: le_bytes_def)

lemma bit_of_le_bytes:
  "bit (of_le_bytes bs :: 'a::len word) k \<longleftrightarrow>
     k < LENGTH('a) \<and> k div 8 < length bs \<and> bit (bs ! (k div 8)) (k mod 8)"
proof (induction bs arbitrary: k)
  case Nil
  then show ?case by simp
next
  case (Cons b bs)
  show ?case
  proof (cases "k < 8")
    case True
    then show ?thesis by (auto simp: bit_or_iff bit_push_bit_iff bit_ucast_iff)
  next
    case False
    then have "k div 8 = Suc ((k - 8) div 8)" "k mod 8 = (k - 8) mod 8"
      by (simp_all add: le_div_geq le_mod_geq)
    moreover have "\<not> bit b k" using False by (auto dest: bit_imp_le_length)
    ultimately show ?thesis
      using False Cons.IH [of "k - 8"] by (auto simp: bit_or_iff bit_push_bit_iff bit_ucast_iff)
  qed
qed

lemma of_le_bytes_le_bytes [simp]:
  assumes "LENGTH('a) = 8 * n"
  shows "of_le_bytes (le_bytes n x) = (x :: 'a::len word)"
proof (rule bit_word_eqI)
  fix k
  assume k: "k < LENGTH('a)"
  then have "k div 8 < n" using assms by auto
  moreover have "8 * (k div 8) + k mod 8 = k" by simp
  ultimately show "bit (of_le_bytes (le_bytes n x) :: 'a word) k = bit x k"
    using k by (simp add: bit_of_le_bytes le_bytes_def bit_ucast_iff bit_drop_bit_eq)
qed

lemma le_bytes_of_le_bytes [simp]:
  assumes "LENGTH('a) = 8 * n" and "length bs = n"
  shows "le_bytes n (of_le_bytes bs :: 'a::len word) = bs"
proof (rule nth_equalityI)
  fix i
  assume "i < length (le_bytes n (of_le_bytes bs :: 'a word))"
  then have i: "i < n" by simp
  have "(ucast (drop_bit (8 * i) (of_le_bytes bs :: 'a word)) :: u8) = bs ! i"
  proof (rule bit_word_eqI)
    fix k
    assume "k < LENGTH(8)"
    then have k: "k < 8" by simp
    then have "8 * i + k < LENGTH('a)" using i assms by auto
    moreover have "(8 * i + k) div 8 = i" "(8 * i + k) mod 8 = k" using k by simp_all
    ultimately show "bit (ucast (drop_bit (8 * i) (of_le_bytes bs :: 'a word)) :: u8) k = bit (bs ! i) k"
      using k i assms by (simp add: bit_ucast_iff bit_drop_bit_eq bit_of_le_bytes)
  qed
  then show "le_bytes n (of_le_bytes bs :: 'a word) ! i = bs ! i" using i by (simp add: le_bytes_def)
qed (simp add: assms)

definition u64_le_bytes :: "u64 \<Rightarrow> bytes" where "u64_le_bytes n = le_bytes 8 n"
definition u32_le_bytes :: "u32 \<Rightarrow> bytes" where "u32_le_bytes n = le_bytes 4 n"
definition u16_le_bytes :: "u16 \<Rightarrow> bytes" where "u16_le_bytes n = le_bytes 2 n"
definition uuid_bytes :: "uuid \<Rightarrow> bytes" where "uuid_bytes u = rev (le_bytes 16 u)"
definition uuid_from_bytes :: "bytes \<Rightarrow> uuid" where "uuid_from_bytes bs = of_le_bytes (rev bs)"

lemma le_bytes_lengths [simp]:
  "length (u64_le_bytes x) = 8" "length (u32_le_bytes y) = 4" "length (u16_le_bytes z) = 2"
  "length (uuid_bytes u) = 16"
  by (simp_all add: u64_le_bytes_def u32_le_bytes_def u16_le_bytes_def uuid_bytes_def)

lemma u32_le_bytes_inverse [simp]:
  "of_le_bytes (u32_le_bytes x) = x" "length bs = 4 \<Longrightarrow> u32_le_bytes (of_le_bytes bs) = bs"
  by (simp_all add: u32_le_bytes_def)

lemma uuid_bytes_inverse [simp]:
  "uuid_from_bytes (uuid_bytes u) = u" "length bs = 16 \<Longrightarrow> uuid_bytes (uuid_from_bytes bs) = bs"
  by (simp_all add: uuid_from_bytes_def uuid_bytes_def)

lemma u64_le_bytes_inject [simp]: "u64_le_bytes x = u64_le_bytes y \<longleftrightarrow> x = y"
proof
  assume "u64_le_bytes x = u64_le_bytes y"
  then have "of_le_bytes (u64_le_bytes x) = (of_le_bytes (u64_le_bytes y) :: u64)" by simp
  then show "x = y" by (simp add: u64_le_bytes_def)
qed simp

lemma uuid_bytes_inject [simp]: "uuid_bytes x = uuid_bytes y \<longleftrightarrow> x = y"
  by (metis uuid_bytes_inverse(1))

subsection \<open>Decimal text\<close>

fun nat_to_string :: "nat \<Rightarrow> string" where
  "nat_to_string n =
     (if n < 10 then [char_of (48 + n)]
      else nat_to_string (n div 10) @ [char_of (48 + n mod 10)])"

declare nat_to_string.simps [simp del]

abbreviation u64_to_string :: "u64 \<Rightarrow> string" where
  "u64_to_string n \<equiv> nat_to_string (unat n)"

definition digits_value :: "string \<Rightarrow> nat" where
  "digits_value s = foldl (\<lambda>acc c. acc * 10 + (of_char c - 48)) 0 s"

text \<open>\<open>str::parse::<u16>\<close>: an optional plus sign, then at least one digit, without overflow.\<close>

definition parse_u16 :: "string \<Rightarrow> u16 option" where
  "parse_u16 s =
     (let t = (if take 1 s = ''+'' then drop 1 s else s) in
      if t = [] \<or> \<not> list_all is_ascii_digit t \<or> 65536 \<le> digits_value t then None
      else Some (of_nat (digits_value t)))"

lemma digit_char: "k < 10 \<Longrightarrow> (of_char (char_of (48 + k) :: char) :: nat) = 48 + k"
  by (simp add: of_char_of)

lemma nat_to_string_digits: "c \<in> set (nat_to_string n) \<Longrightarrow> is_ascii_digit c"
proof (induction n rule: nat_to_string.induct)
  case (1 n)
  then show ?case
    by (subst (asm) nat_to_string.simps) (auto simp: is_ascii_digit_def digit_char split: if_splits)
qed

lemma nat_to_string_not_Nil [simp]: "nat_to_string n \<noteq> []"
  by (subst nat_to_string.simps) simp

lemma digits_value_nat_to_string [simp]: "digits_value (nat_to_string n) = n"
proof (induction n rule: nat_to_string.induct)
  case (1 n)
  then show ?case
    by (subst nat_to_string.simps) (auto simp: digits_value_def digit_char)
qed

lemma nat_to_string_no_sign: "take 1 (nat_to_string n) \<noteq> ''+''"
proof
  assume "take 1 (nat_to_string n) = ''+''"
  then have "CHR ''+'' \<in> set (nat_to_string n)" by (cases "nat_to_string n") auto
  then show False using nat_to_string_digits by (fastforce simp: is_ascii_digit_def)
qed

lemma parse_u16_nat_to_string [simp]: "parse_u16 (nat_to_string (unat n)) = Some n"
proof -
  have "unat n < 65536" using unsigned_less [of n, where 'a = nat] by simp
  then show ?thesis
    using nat_to_string_no_sign [of "unat n"] nat_to_string_digits
    by (auto simp: parse_u16_def list_all_iff Let_def)
qed

lemma length_nat_to_string_le: "n < 1000 \<Longrightarrow> length (nat_to_string n) \<le> 3"
  by (subst nat_to_string.simps, subst nat_to_string.simps, subst nat_to_string.simps) auto

subsection \<open>Splitting and chunking\<close>

fun split_on :: "'a \<Rightarrow> 'a list \<Rightarrow> 'a list list" where
  "split_on c [] = [[]]"
| "split_on c (x # xs) =
     (if x = c then [] # split_on c xs
      else case split_on c xs of y # ys \<Rightarrow> (x # y) # ys | [] \<Rightarrow> [[x]])"

lemma split_on_not_Nil [simp]: "split_on c xs \<noteq> []"
  by (induction xs) (auto split: list.split)

lemma split_on_separator [simp]: "c \<notin> set a \<Longrightarrow> split_on c (a @ c # b) = a # split_on c b"
  by (induction a) auto

lemma split_on_none [simp]: "c \<notin> set a \<Longrightarrow> split_on c a = [a]"
  by (induction a) auto

function chunks_of :: "nat \<Rightarrow> 'a list \<Rightarrow> 'a list list" where
  "chunks_of k xs = (if xs = [] \<or> k = 0 then [] else take k xs # chunks_of k (drop k xs))"
  by auto
termination by (relation "measure (\<lambda>(k, xs). length xs)") auto

declare chunks_of.simps [simp del]

lemma chunks_of_Nil [simp]: "chunks_of k [] = []"
  by (simp add: chunks_of.simps)

lemma concat_chunks_of [simp]: "0 < k \<Longrightarrow> concat (chunks_of k xs) = xs"
proof (induction k xs rule: chunks_of.induct)
  case (1 k xs)
  then show ?case by (subst chunks_of.simps) auto
qed

lemma chunks_of_length: "c \<in> set (chunks_of k xs) \<Longrightarrow> length c \<le> k \<and> c \<noteq> []"
proof (induction k xs rule: chunks_of.induct)
  case (1 k xs)
  then show ?case by (subst (asm) (2) chunks_of.simps) (auto split: if_splits)
qed

lemma length_chunks_of: "0 < k \<Longrightarrow> length (chunks_of k xs) = (length xs + k - 1) div k"
proof (induction k xs rule: chunks_of.induct)
  case (1 k xs)
  show ?case
  proof (cases "xs = []")
    case False
    then have "length (chunks_of k xs) = Suc ((length (drop k xs) + k - 1) div k)"
      using 1 by (subst chunks_of.simps) simp
    also have "\<dots> = (length xs + k - 1) div k"
    proof (cases "length xs \<le> k")
      case True
      moreover have "(k - 1) div k = 0" using 1(2) by simp
      moreover have "(length xs + k - 1) div k = 1"
        using True False 1(2) by (intro div_nat_eqI) (auto simp: Suc_le_eq neq_Nil_conv)
      ultimately show ?thesis by simp
    next
      case gt: False
      then have "length xs + k - 1 = (length xs - k + k - 1) + k" by simp
      then have "(length xs + k - 1) div k = Suc ((length xs - k + k - 1) div k)"
        using 1(2) by (metis add.commute div_add_self1 not_less_zero plus_1_eq_Suc)
      then show ?thesis by simp
    qed
    finally show ?thesis .
  qed (use 1 in simp)
qed

end
