(* ===== verification/Domain_Base.thy ===== *)
theory Domain_Base
  imports Machines Text_Codec
begin

text \<open>
  The small value types of \<open>dom-wallet-domain\<close>: the error type, network identity, canonical
  cursor, scan bounds and scan target, synchronisation status, account, and the node
  configuration with its redacted view. Each \<open>validate\<close> keeps the order of the checks in the
  source, so the error it returns is the one the code returns.
\<close>

datatype domain_error =
    UnsupportedVersion
  | InvalidState
  | InvalidNodeConfiguration
  | TlsRequired
  | IdentityMismatch
  | InvalidScanTarget
  | InvalidScanBounds
  | ProvisionalTargetMismatch
  | AllocationOverflow
  | GenerationOverflow
  | InvalidSwapTransition
  | SwapSessionNotFound
  | NonReuseFloorRegression
  | InvalidTransactionIntent
  | InvalidScriptlessFundingReservation
  | InvalidScriptlessPayoutReservation
  | InvalidTransactionTransition
  | DuplicateKernelEvidence
  | AmbiguousKernelEvidence
  | InvalidRescanPlan
  | RescanAlreadyActive
  | InvalidRescanTransition
  | InvalidRescanPage

definition MODEL_VERSION :: u16 where "MODEL_VERSION = 1"
definition SECRET_PROFILE_VERSION :: u16 where "SECRET_PROFILE_VERSION = 1"
definition TRANSACTION_EXPOSURE_VERSION :: u16 where "TRANSACTION_EXPOSURE_VERSION = 1"
definition SCRIPTLESS_FUNDING_RESERVATION_VERSION :: u16 where
  "SCRIPTLESS_FUNDING_RESERVATION_VERSION = 1"
definition SCRIPTLESS_PAYOUT_RESERVATION_VERSION :: u16 where
  "SCRIPTLESS_PAYOUT_RESERVATION_VERSION = 1"
definition SCRIPTLESS_PARTICIPANT_COUNT_V1 :: u32 where "SCRIPTLESS_PARTICIPANT_COUNT_V1 = 2"
definition MAX_ACCOUNTS :: nat where "MAX_ACCOUNTS = 64"
definition MAX_OUTPUTS :: nat where "MAX_OUTPUTS = 100000"

lemmas domain_consts =
  MODEL_VERSION_def SECRET_PROFILE_VERSION_def TRANSACTION_EXPOSURE_VERSION_def
  SCRIPTLESS_FUNDING_RESERVATION_VERSION_def SCRIPTLESS_PAYOUT_RESERVATION_VERSION_def
  SCRIPTLESS_PARTICIPANT_COUNT_V1_def MAX_ACCOUNTS_def MAX_OUTPUTS_def

subsection \<open>Network identity\<close>

datatype network = PrivateTestnet | PublicTestnet | Mainnet

fun network_display :: "network \<Rightarrow> string" where
  "network_display PrivateTestnet = ''PRIVATE_TESTNET''"
| "network_display PublicTestnet = ''PUBLIC_TESTNET''"
| "network_display Mainnet = ''MAINNET''"

record network_identity =
  ni_network :: network
  ni_chain_id :: bytes
  ni_genesis_id :: bytes

definition identity_matches :: "network_identity \<Rightarrow> network_identity \<Rightarrow> bool" where
  "identity_matches a b = (a = b)"

record canonical_cursor =
  cc_height :: u64
  cc_block_hash :: bytes

subsection \<open>Scan bounds and targets\<close>

record scan_bounds =
  sb_start_height :: u64
  sb_end_height :: u64
  sb_max_pages :: u32
  sb_max_records_per_page :: u32

definition scan_bounds_validate :: "scan_bounds \<Rightarrow> domain_error + unit" where
  "scan_bounds_validate b =
     (if sb_end_height b < sb_start_height b
       \<or> sb_max_pages b = 0
       \<or> sb_max_records_per_page b = 0
      then Inl InvalidScanBounds else Inr ())"

record scan_target =
  st_target_height :: u64
  st_target_block_hash :: bytes
  st_source_identity :: string
  st_scan_bounds :: scan_bounds
  st_evidence_version :: u16

definition scan_target_validate :: "scan_target \<Rightarrow> domain_error + unit" where
  "scan_target_validate t =
     (if st_source_identity t = []
       \<or> 128 < length (st_source_identity t)
       \<or> st_evidence_version t = 0
      then Inl InvalidScanTarget
      else if st_target_height t \<noteq> sb_end_height (st_scan_bounds t)
      then Inl InvalidScanTarget
      else scan_bounds_validate (st_scan_bounds t))"

definition scan_target_cursor :: "scan_target \<Rightarrow> canonical_cursor" where
  "scan_target_cursor t =
     \<lparr>cc_height = st_target_height t, cc_block_hash = st_target_block_hash t\<rparr>"

lemma scan_bounds_validate_ok:
  "scan_bounds_validate b = Inr u \<longleftrightarrow>
     sb_start_height b \<le> sb_end_height b \<and> sb_max_pages b \<noteq> 0 \<and> sb_max_records_per_page b \<noteq> 0"
  by (auto simp: scan_bounds_validate_def)

lemma scan_target_validate_ok:
  "scan_target_validate t = Inr u \<longleftrightarrow>
     st_source_identity t \<noteq> [] \<and> length (st_source_identity t) \<le> 128 \<and>
     st_evidence_version t \<noteq> 0 \<and> st_target_height t = sb_end_height (st_scan_bounds t) \<and>
     sb_start_height (st_scan_bounds t) \<le> sb_end_height (st_scan_bounds t) \<and>
     sb_max_pages (st_scan_bounds t) \<noteq> 0 \<and> sb_max_records_per_page (st_scan_bounds t) \<noteq> 0"
  by (auto simp: scan_target_validate_def scan_bounds_validate_ok split: if_splits)

datatype sync_status =
    Idle
  | Synchronizing
  | Synced
  | Degraded string
  | RecoveryRequired string

record account =
  acc_id :: uuid
  acc_label :: string
  acc_created_generation :: u64

subsection \<open>Node configuration\<close>

record node_configuration =
  nc_endpoint_url :: string
  nc_expected_identity :: network_identity
  nc_source_identity :: string
  nc_api_compatibility_version :: u16
  nc_connect_timeout_ms :: u64
  nc_request_timeout_ms :: u64
  nc_poll_interval_ms :: u64
  nc_retry_ceiling :: u32
  nc_max_backoff_ms :: u64
  nc_stable_success_threshold :: u32
  nc_tls_required :: bool
  nc_credential_reference :: "string option"

definition node_configuration_validate :: "node_configuration \<Rightarrow> domain_error + unit" where
  "node_configuration_validate c =
     (if nc_endpoint_url c = []
       \<or> 2048 < length (nc_endpoint_url c)
       \<or> nc_source_identity c = []
       \<or> 128 < length (nc_source_identity c)
       \<or> nc_api_compatibility_version c = 0
       \<or> nc_connect_timeout_ms c = 0
       \<or> nc_request_timeout_ms c = 0
       \<or> nc_poll_interval_ms c = 0
       \<or> nc_retry_ceiling c = 0
       \<or> nc_max_backoff_ms c < nc_poll_interval_ms c
       \<or> nc_stable_success_threshold c = 0
      then Inl InvalidNodeConfiguration
      else if nc_tls_required c \<and> \<not> starts_with (nc_endpoint_url c) ''https://''
      then Inl TlsRequired
      else if (case nc_credential_reference c of None \<Rightarrow> False | Some v \<Rightarrow> 256 < length v)
      then Inl InvalidNodeConfiguration
      else Inr ())"

record redacted_node_configuration =
  rc_endpoint_url :: string
  rc_expected_network :: network
  rc_source_identity :: string
  rc_api_compatibility_version :: u16
  rc_tls_required :: bool
  rc_has_credential_reference :: bool

definition redacted :: "node_configuration \<Rightarrow> redacted_node_configuration" where
  "redacted c =
     \<lparr>rc_endpoint_url = nc_endpoint_url c,
      rc_expected_network = ni_network (nc_expected_identity c),
      rc_source_identity = nc_source_identity c,
      rc_api_compatibility_version = nc_api_compatibility_version c,
      rc_tls_required = nc_tls_required c,
      rc_has_credential_reference = (nc_credential_reference c \<noteq> None)\<rparr>"

lemma node_configuration_validate_tls:
  "node_configuration_validate c = Inr u \<Longrightarrow> nc_tls_required c \<Longrightarrow>
     starts_with (nc_endpoint_url c) ''https://''"
  by (auto simp: node_configuration_validate_def split: if_splits)

lemma redacted_hides_credential:
  "redacted (c\<lparr>nc_credential_reference := Some a\<rparr>) =
   redacted (c\<lparr>nc_credential_reference := Some b\<rparr>)"
  by (simp add: redacted_def)

end
