(* ===== verification/Outputs.thy ===== *)
theory Outputs
  imports Domain_Base "HOL-Library.Multiset"
begin

text \<open>
  Wallet outputs and the balance projection (\<open>OutputState\<close>, \<open>OutputRecord\<close>,
  \<open>OutputOwnership\<close>, \<open>BalanceProjection::from_outputs\<close>). The projection adds with saturation;
  the lemmas read every field as the exact sum of the outputs of its category, cut off at the
  largest \<open>u64\<close>.
\<close>

datatype output_state =
    Confirmed
  | Immature (required_height: u64)
  | PendingIncoming
  | PendingOutgoing
  | Locked
  | Spent (spent_height: u64)

record output_record =
  or_id :: uuid
  or_account_id :: uuid
  or_commitment :: "bytes option"
  or_value :: u64
  or_state :: output_state
  or_discovered_height :: u64
  or_reserved_by :: "uuid option"

datatype output_ownership =
    KnownLocalOutput output_record
  | DeterministicallyRecoverableOutput output_record
  | NotOwnedOrUnprovable

fun is_spent :: "output_state \<Rightarrow> bool" where
  "is_spent (Spent h) = True"
| "is_spent s = False"

record balance_projection =
  bp_confirmed :: u64
  bp_immature :: u64
  bp_pending_incoming :: u64
  bp_pending_outgoing :: u64
  bp_locked :: u64
  bp_spendable :: u64
  bp_total :: u64

definition balance_default :: balance_projection where
  "balance_default = \<lparr>bp_confirmed = 0, bp_immature = 0, bp_pending_incoming = 0,
     bp_pending_outgoing = 0, bp_locked = 0, bp_spendable = 0, bp_total = 0\<rparr>"

definition balance_add :: "balance_projection \<Rightarrow> output_record \<Rightarrow> balance_projection" where
  "balance_add b out =
     (let v = or_value out; b' = b\<lparr>bp_total := saturating_add (bp_total b) v\<rparr>
      in case or_state out of
           Confirmed \<Rightarrow> b'\<lparr>bp_confirmed := saturating_add (bp_confirmed b) v,
                          bp_spendable := saturating_add (bp_spendable b) v\<rparr>
         | Immature h \<Rightarrow> b'\<lparr>bp_immature := saturating_add (bp_immature b) v\<rparr>
         | PendingIncoming \<Rightarrow> b'\<lparr>bp_pending_incoming := saturating_add (bp_pending_incoming b) v\<rparr>
         | PendingOutgoing \<Rightarrow> b'\<lparr>bp_pending_outgoing := saturating_add (bp_pending_outgoing b) v\<rparr>
         | Locked \<Rightarrow> b'\<lparr>bp_locked := saturating_add (bp_locked b) v\<rparr>
         | Spent h \<Rightarrow> b)"

definition from_outputs :: "output_record list \<Rightarrow> balance_projection" where
  "from_outputs outs = foldl balance_add balance_default outs"

subsection \<open>The projection as sums\<close>

definition value_of :: "(output_state \<Rightarrow> bool) \<Rightarrow> output_record list \<Rightarrow> nat" where
  "value_of P outs = sum_list (map (\<lambda>out. if P (or_state out) then unat (or_value out) else 0) outs)"

fun is_immature :: "output_state \<Rightarrow> bool" where
  "is_immature (Immature h) = True"
| "is_immature s = False"

abbreviation u64_max :: nat where
  "u64_max \<equiv> 2 ^ 64 - 1"

lemma value_of_simps [simp]:
  "value_of P [] = 0"
  "value_of P (x # xs) = (if P (or_state x) then unat (or_value x) else 0) + value_of P xs"
  by (simp_all add: value_of_def)

lemma value_of_mset: "mset xs = mset ys \<Longrightarrow> value_of P xs = value_of P ys"
  unfolding value_of_def by (simp flip: sum_mset_sum_list)

lemma value_of_split:
  "value_of (\<lambda>s. \<not> is_spent s) outs =
     value_of (\<lambda>s. s = Confirmed) outs + value_of is_immature outs +
     value_of (\<lambda>s. s = PendingIncoming) outs + value_of (\<lambda>s. s = PendingOutgoing) outs +
     value_of (\<lambda>s. s = Locked) outs"
proof (induction outs)
  case Nil
  then show ?case by simp
next
  case (Cons x xs)
  then show ?case by (cases "or_state x") auto
qed

text \<open>Each field is, from any starting balance, what it was plus its sum, cut off.\<close>

lemma foldl_balance_field:
  fixes fld :: "balance_projection \<Rightarrow> u64"
  assumes "\<And>b x. fld (balance_add b x) =
     (if P (or_state x) then saturating_add (fld b) (or_value x) else fld b)"
  shows "unat (fld (foldl balance_add b outs)) = min (unat (fld b) + value_of P outs) u64_max"
proof (induction outs arbitrary: b)
  case Nil
  then show ?case
    using unat_u64_bound [of "fld b"] by simp
next
  case (Cons x xs)
  then show ?case
    by (auto simp: assms unat_saturating_add)
qed

lemma balance_add_fields:
  "bp_confirmed (balance_add b x) =
     (if or_state x = Confirmed then saturating_add (bp_confirmed b) (or_value x) else bp_confirmed b)"
  "bp_spendable (balance_add b x) =
     (if or_state x = Confirmed then saturating_add (bp_spendable b) (or_value x) else bp_spendable b)"
  "bp_immature (balance_add b x) =
     (if is_immature (or_state x) then saturating_add (bp_immature b) (or_value x) else bp_immature b)"
  "bp_pending_incoming (balance_add b x) =
     (if or_state x = PendingIncoming then saturating_add (bp_pending_incoming b) (or_value x)
      else bp_pending_incoming b)"
  "bp_pending_outgoing (balance_add b x) =
     (if or_state x = PendingOutgoing then saturating_add (bp_pending_outgoing b) (or_value x)
      else bp_pending_outgoing b)"
  "bp_locked (balance_add b x) =
     (if or_state x = Locked then saturating_add (bp_locked b) (or_value x) else bp_locked b)"
  "bp_total (balance_add b x) =
     (if \<not> is_spent (or_state x) then saturating_add (bp_total b) (or_value x) else bp_total b)"
  by (cases "or_state x"; simp add: balance_add_def Let_def)+

lemmas foldl_balance_fields = balance_add_fields [THEN foldl_balance_field]

lemma from_outputs_fields:
  "unat (bp_confirmed (from_outputs outs)) = min (value_of (\<lambda>s. s = Confirmed) outs) u64_max"
  "unat (bp_spendable (from_outputs outs)) = min (value_of (\<lambda>s. s = Confirmed) outs) u64_max"
  "unat (bp_immature (from_outputs outs)) = min (value_of is_immature outs) u64_max"
  "unat (bp_pending_incoming (from_outputs outs)) =
     min (value_of (\<lambda>s. s = PendingIncoming) outs) u64_max"
  "unat (bp_pending_outgoing (from_outputs outs)) =
     min (value_of (\<lambda>s. s = PendingOutgoing) outs) u64_max"
  "unat (bp_locked (from_outputs outs)) = min (value_of (\<lambda>s. s = Locked) outs) u64_max"
  "unat (bp_total (from_outputs outs)) = min (value_of (\<lambda>s. \<not> is_spent s) outs) u64_max"
  by (simp_all add: from_outputs_def foldl_balance_fields balance_default_def)

lemma balance_eqI:
  fixes a b :: balance_projection
  assumes "unat (bp_confirmed a) = unat (bp_confirmed b)"
    "unat (bp_immature a) = unat (bp_immature b)"
    "unat (bp_pending_incoming a) = unat (bp_pending_incoming b)"
    "unat (bp_pending_outgoing a) = unat (bp_pending_outgoing b)"
    "unat (bp_locked a) = unat (bp_locked b)"
    "unat (bp_spendable a) = unat (bp_spendable b)"
    "unat (bp_total a) = unat (bp_total b)"
  shows "a = b"
  using assms by (simp add: word_unat_eq_iff)

subsection \<open>Properties\<close>



text \<open>
  The balance does not depend on the order in which the outputs are stored, although it is
  computed by saturating additions.
\<close>

theorem balance_order_independent:
  assumes "mset outs = mset outs'"
  shows "from_outputs outs = from_outputs outs'"
  by (rule balance_eqI) (simp_all add: from_outputs_fields value_of_mset [OF assms])

theorem balance_order_independent_witness:
  "from_outputs [\<lparr>or_id = 1, or_account_id = 2, or_commitment = None, or_value = - 1,
                  or_state = Confirmed, or_discovered_height = 0, or_reserved_by = None\<rparr>,
                 \<lparr>or_id = 2, or_account_id = 2, or_commitment = None, or_value = 7, or_state = Confirmed,
                  or_discovered_height = 0, or_reserved_by = None\<rparr>] =
   from_outputs [\<lparr>or_id = 2, or_account_id = 2, or_commitment = None, or_value = 7,
                  or_state = Confirmed, or_discovered_height = 0, or_reserved_by = None\<rparr>,
                 \<lparr>or_id = 1, or_account_id = 2, or_commitment = None, or_value = - 1,
                  or_state = Confirmed, or_discovered_height = 0, or_reserved_by = None\<rparr>]"
  by (rule balance_order_independent) simp

end
