(* ===== verification/Tx_Lifecycle.thy ===== *)
theory Tx_Lifecycle
  imports Domain_Base
begin

text \<open>
  The transaction lifecycle of \<open>dom-wallet-domain\<close>: \<open>TransactionLifecycle\<close>,
  \<open>BroadcastExposure\<close> with its derived order, the cancellation policy, the exposure floors
  \<open>infer_legacy_exposure\<close> and \<open>minimum_current_exposure\<close>, the record
  \<open>LocalTransactionIntent\<close> and its method \<open>transition\<close>, which is the only way the program
  moves a lifecycle. The lemmas show that exposure never goes down, that every transition keeps
  the exposure floor the wallet validator demands, and which lifecycles can follow which.
\<close>

datatype tx_lifecycle =
    L_Draft
  | L_InputsReserved
  | L_RequestExported
  | L_RequestImported
  | L_ResponsePrepared
  | L_ResponseExported
  | L_ResponseImported
  | L_Finalized
  | L_Submitting
  | L_Submitted
  | L_AcceptedNotRelayed
  | L_InMempool
  | L_Confirmed (conf_height: u64) (conf_block_hash: bytes)
  | L_Reorged
  | L_RetransmitRequired
  | L_Cancelled
  | L_Failed
  | L_ReconciliationRequired

fun is_confirmed :: "tx_lifecycle \<Rightarrow> bool" where
  "is_confirmed (L_Confirmed h b) = True"
| "is_confirmed l = False"

subsection \<open>Broadcast exposure\<close>

datatype broadcast_exposure =
    NeverBroadcast
  | SubmissionStarted
  | PossiblyRelayed
  | ObservedInMempool
  | ExposureConfirmed

fun exposure_rank :: "broadcast_exposure \<Rightarrow> nat" where
  "exposure_rank NeverBroadcast = 0"
| "exposure_rank SubmissionStarted = 1"
| "exposure_rank PossiblyRelayed = 2"
| "exposure_rank ObservedInMempool = 3"
| "exposure_rank ExposureConfirmed = 4"

lemma exposure_rank_inject: "exposure_rank a = exposure_rank b \<Longrightarrow> a = b"
  by (cases a; cases b) simp_all

text \<open>The derived \<open>Ord\<close>: variants compare by their order of declaration.\<close>

instantiation broadcast_exposure :: linorder
begin

definition less_eq_broadcast_exposure where
  "a \<le> b \<longleftrightarrow> exposure_rank a \<le> exposure_rank b"

definition less_broadcast_exposure where
  "a < b \<longleftrightarrow> exposure_rank a < exposure_rank b"

instance
  by standard
    (auto simp: less_eq_broadcast_exposure_def less_broadcast_exposure_def
      intro: exposure_rank_inject)

end

lemmas exposure_order = less_eq_broadcast_exposure_def less_broadcast_exposure_def

lemma NeverBroadcast_least [simp]: "NeverBroadcast \<le> e"
  by (simp add: exposure_order)

lemma exposure_le_Never [simp]: "e \<le> NeverBroadcast \<longleftrightarrow> e = NeverBroadcast"
  by (cases e) (simp_all add: exposure_order)

datatype cancellation_decision_t =
    ReleaseNeverBroadcastReservations
  | DenyPossiblyBroadcast
  | RequireReconciliation

fun cancellation_decision :: "broadcast_exposure \<Rightarrow> cancellation_decision_t" where
  "cancellation_decision NeverBroadcast = ReleaseNeverBroadcastReservations"
| "cancellation_decision SubmissionStarted = RequireReconciliation"
| "cancellation_decision PossiblyRelayed = RequireReconciliation"
| "cancellation_decision ObservedInMempool = RequireReconciliation"
| "cancellation_decision ExposureConfirmed = RequireReconciliation"

lemma cancellation_decision_release_iff:
  "cancellation_decision e = ReleaseNeverBroadcastReservations \<longleftrightarrow> e = NeverBroadcast"
  by (cases e) simp_all

definition infer_legacy_exposure :: "tx_lifecycle \<Rightarrow> bool \<Rightarrow> broadcast_exposure" where
  "infer_legacy_exposure l sub =
     (if sub \<or> l \<in> {L_Submitting, L_Submitted, L_AcceptedNotRelayed, L_InMempool,
                     L_RetransmitRequired, L_ReconciliationRequired, L_Reorged, L_Failed}
         \<or> is_confirmed l
      then PossiblyRelayed else NeverBroadcast)"

definition minimum_current_exposure :: "tx_lifecycle \<Rightarrow> bool \<Rightarrow> broadcast_exposure" where
  "minimum_current_exposure l sub =
     (if sub then PossiblyRelayed
      else case l of
        L_Submitting \<Rightarrow> SubmissionStarted
      | L_Submitted \<Rightarrow> PossiblyRelayed
      | L_AcceptedNotRelayed \<Rightarrow> PossiblyRelayed
      | L_InMempool \<Rightarrow> PossiblyRelayed
      | L_Confirmed h b \<Rightarrow> PossiblyRelayed
      | L_Reorged \<Rightarrow> PossiblyRelayed
      | L_RetransmitRequired \<Rightarrow> PossiblyRelayed
      | L_Failed \<Rightarrow> PossiblyRelayed
      | L_ReconciliationRequired \<Rightarrow> PossiblyRelayed
      | _ \<Rightarrow> NeverBroadcast)"

lemma minimum_le_legacy: "minimum_current_exposure l sub \<le> infer_legacy_exposure l sub"
  by (cases l) (auto simp: minimum_current_exposure_def infer_legacy_exposure_def exposure_order)

subsection \<open>The transaction record\<close>

datatype transition_evidence =
    E_LocalConstruction
  | E_RecipientResponse
  | E_Finalization
  | E_SubmissionStarted
  | E_SubmissionOutcome
  | E_MempoolObservation
  | E_ConfirmationEvidence
  | E_ReorgEvidence
  | E_ReconciliationEvidence
  | E_Cancellation

datatype transaction_role = Sender | Recipient

datatype cancellation_reason = Manual | ExpiredBeforeFinalization

record private_transaction_context =
  ptc_sender_excess_blinding :: "bytes option"
  ptc_sender_nonce :: "bytes option"
  ptc_recipient_output_blinding :: "bytes option"

record local_transaction_intent =
  tx_id :: uuid
  tx_created_at_height :: u64
  tx_created_at_unix_seconds :: u64
  tx_cancellation_reason :: "cancellation_reason option"
  tx_cancelled_at_height :: "u64 option"
  tx_kernel_excess :: bytes
  tx_lifecycle :: tx_lifecycle
  tx_submitted :: bool
  tx_exposure :: broadcast_exposure
  tx_slate_id :: "uuid option"
  tx_role :: "transaction_role option"
  tx_amount :: u64
  tx_fee :: u64
  tx_reserved_output_ids :: "uuid list"
  tx_request_bytes :: bytes
  tx_response_bytes :: bytes
  tx_finalized_transaction_bytes :: bytes
  tx_transaction_hash :: "bytes option"
  tx_attempt_count :: u32
  tx_private_context :: "private_transaction_context option"
  tx_recipient_output_id :: "uuid option"
  tx_change_output_id :: "uuid option"
  tx_expires_at_height :: u64

subsection \<open>Transitions\<close>

definition transition_table :: "tx_lifecycle \<Rightarrow> tx_lifecycle \<Rightarrow> transition_evidence \<Rightarrow> bool" where
  "transition_table cur nxt ev \<longleftrightarrow>
     cur = L_Draft \<and> nxt = L_InputsReserved \<and> ev = E_LocalConstruction
   \<or> cur = L_RequestImported \<and> nxt = L_ResponsePrepared \<and> ev = E_RecipientResponse
   \<or> cur \<in> {L_InputsReserved, L_RequestExported} \<and> nxt = L_ResponseImported
       \<and> ev = E_RecipientResponse
   \<or> cur = L_ResponseImported \<and> nxt = L_Finalized \<and> ev = E_Finalization
   \<or> cur \<in> {L_Finalized, L_RetransmitRequired} \<and> nxt = L_Submitting \<and> ev = E_SubmissionStarted
   \<or> cur = L_Submitting
       \<and> nxt \<in> {L_Submitted, L_AcceptedNotRelayed, L_InMempool, L_RetransmitRequired, L_Failed,
                 L_ReconciliationRequired}
       \<and> ev = E_SubmissionOutcome
   \<or> cur \<in> {L_Submitting, L_Submitted, L_AcceptedNotRelayed, L_RetransmitRequired,
             L_ReconciliationRequired, L_Reorged}
       \<and> nxt = L_InMempool \<and> ev = E_MempoolObservation
   \<or> cur \<in> {L_ResponsePrepared, L_ResponseExported, L_Submitting, L_Submitted,
             L_AcceptedNotRelayed, L_InMempool, L_RetransmitRequired, L_ReconciliationRequired,
             L_Reorged}
       \<and> is_confirmed nxt \<and> ev = E_ConfirmationEvidence
   \<or> is_confirmed cur \<and> nxt = L_Reorged \<and> ev = E_ReorgEvidence
   \<or> (cur \<in> {L_Submitting, L_Submitted, L_AcceptedNotRelayed, L_InMempool, L_Reorged,
              L_RetransmitRequired, L_Failed} \<or> is_confirmed cur)
       \<and> nxt = L_ReconciliationRequired \<and> ev = E_ReconciliationEvidence
   \<or> cur \<in> {L_Draft, L_InputsReserved, L_RequestExported, L_RequestImported, L_ResponsePrepared,
             L_ResponseExported, L_ResponseImported, L_Finalized, L_Failed}
       \<and> nxt = L_Cancelled \<and> ev = E_Cancellation"

definition transition_permitted ::
  "tx_lifecycle \<Rightarrow> tx_lifecycle \<Rightarrow> transition_evidence \<Rightarrow> bool" where
  "transition_permitted cur nxt ev \<longleftrightarrow>
     (cur = nxt \<or> transition_table cur nxt ev) \<and> \<not> (cur = L_Cancelled \<and> nxt \<noteq> L_Cancelled)"

fun observed_exposure :: "transition_evidence \<Rightarrow> broadcast_exposure" where
  "observed_exposure E_SubmissionStarted = SubmissionStarted"
| "observed_exposure E_SubmissionOutcome = PossiblyRelayed"
| "observed_exposure E_ReconciliationEvidence = PossiblyRelayed"
| "observed_exposure E_ReorgEvidence = PossiblyRelayed"
| "observed_exposure E_MempoolObservation = ObservedInMempool"
| "observed_exposure E_ConfirmationEvidence = ExposureConfirmed"
| "observed_exposure E_LocalConstruction = NeverBroadcast"
| "observed_exposure E_RecipientResponse = NeverBroadcast"
| "observed_exposure E_Finalization = NeverBroadcast"
| "observed_exposure E_Cancellation = NeverBroadcast"

definition tx_transition ::
  "tx_lifecycle \<Rightarrow> transition_evidence \<Rightarrow> (local_transaction_intent, domain_error, unit) meth"
  where
  "tx_transition nxt ev t =
     (if \<not> transition_permitted (tx_lifecycle t) nxt ev
      then (Inl InvalidTransactionTransition, t)
      else (Inr (), t\<lparr>tx_exposure := max (tx_exposure t) (observed_exposure ev),
                      tx_lifecycle := nxt\<rparr>))"

lemma tx_transition_Inr_iff:
  "tx_transition nxt ev t = (Inr u, t') \<longleftrightarrow>
     transition_permitted (tx_lifecycle t) nxt ev \<and>
     t' = t\<lparr>tx_exposure := max (tx_exposure t) (observed_exposure ev), tx_lifecycle := nxt\<rparr>"
  by (auto simp: tx_transition_def)

lemma tx_transition_error: "tx_transition nxt ev t = (Inl e, t') \<Longrightarrow>
    e = InvalidTransactionTransition \<and> t' = t"
  by (auto simp: tx_transition_def split: if_splits)

text \<open>What a transition cannot touch.\<close>

definition tx_core_frame :: "local_transaction_intent \<Rightarrow> local_transaction_intent \<Rightarrow> bool" where
  "tx_core_frame t t' \<longleftrightarrow>
     (\<exists>e l. t' = t\<lparr>tx_exposure := e, tx_lifecycle := l\<rparr> \<and> tx_exposure t \<le> e)"

lemma tx_core_frame_refl [simp]: "tx_core_frame t t"
  unfolding tx_core_frame_def
  by (rule exI [of _ "tx_exposure t"], rule exI [of _ "tx_lifecycle t"]) simp

lemma tx_core_frame_trans: "tx_core_frame a b \<Longrightarrow> tx_core_frame b c \<Longrightarrow> tx_core_frame a c"
  by (force simp: tx_core_frame_def)

lemma tx_transition_frame: "tx_transition nxt ev t = (r, t') \<Longrightarrow> tx_core_frame t t'"
proof (cases r)
  case (Inl e)
  assume "tx_transition nxt ev t = (r, t')"
  with Inl show ?thesis by (auto dest: tx_transition_error)
next
  case (Inr u)
  assume "tx_transition nxt ev t = (r, t')"
  with Inr show ?thesis by (auto simp: tx_transition_Inr_iff tx_core_frame_def)
qed

definition exposure_floor_ok :: "local_transaction_intent \<Rightarrow> bool" where
  "exposure_floor_ok t \<longleftrightarrow>
     minimum_current_exposure (tx_lifecycle t) (tx_submitted t) \<le> tx_exposure t"

lemma minimum_current_exposure_split:
  "minimum_current_exposure l sub \<le> e \<longleftrightarrow>
     (sub \<longrightarrow> PossiblyRelayed \<le> e) \<and> minimum_current_exposure l False \<le> e"
  by (cases l) (auto simp: minimum_current_exposure_def exposure_order)

text \<open>A new lifecycle's own floor is covered by the evidence that moved the record there.\<close>

lemma table_evidence_covers_floor:
  "transition_table cur nxt ev \<Longrightarrow> minimum_current_exposure nxt False \<le> observed_exposure ev"
  by (cases nxt) (auto simp: transition_table_def minimum_current_exposure_def exposure_order)

lemma tx_transition_floor:
  assumes "exposure_floor_ok t" and "tx_transition nxt ev t = (r, t')"
  shows "exposure_floor_ok t'"
proof (cases r)
  case (Inl e)
  with assms show ?thesis by (auto dest: tx_transition_error)
next
  case (Inr u)
  with assms(2) have perm: "transition_permitted (tx_lifecycle t) nxt ev"
    and t': "t' = t\<lparr>tx_exposure := max (tx_exposure t) (observed_exposure ev), tx_lifecycle := nxt\<rparr>"
    by (auto simp: tx_transition_Inr_iff)
  have old: "(tx_submitted t \<longrightarrow> PossiblyRelayed \<le> tx_exposure t) \<and>
      minimum_current_exposure (tx_lifecycle t) False \<le> tx_exposure t"
    using assms(1) unfolding exposure_floor_ok_def by (subst (asm) minimum_current_exposure_split)
  have "minimum_current_exposure nxt False \<le> max (tx_exposure t) (observed_exposure ev)"
    using perm old table_evidence_covers_floor
    by (auto simp: transition_permitted_def le_max_iff_disj)
  moreover have "tx_submitted t \<longrightarrow> PossiblyRelayed \<le> tx_exposure t"
    using old by simp
  ultimately have "minimum_current_exposure nxt (tx_submitted t)
      \<le> max (tx_exposure t) (observed_exposure ev)"
    by (subst minimum_current_exposure_split) (simp add: le_max_iff_disj)
  then show ?thesis
    by (simp add: exposure_floor_ok_def t')
qed

subsection \<open>Runs of transitions\<close>

inductive tx_step :: "local_transaction_intent \<Rightarrow> local_transaction_intent \<Rightarrow> bool" where
  "tx_transition nxt ev t = (Inr (), t') \<Longrightarrow> tx_step t t'"

inductive_simps tx_step_iff: "tx_step t t'"

lemma tx_steps_frame: "tx_step\<^sup>*\<^sup>* t t' \<Longrightarrow> tx_core_frame t t'"
proof (induction rule: rtranclp_induct)
  case base
  show ?case by simp
next
  case (step y z)
  then have "tx_core_frame y z" by (auto simp: tx_step_iff dest: tx_transition_frame)
  with step.IH show ?case by (rule tx_core_frame_trans)
qed

lemma tx_steps_floor: "tx_step\<^sup>*\<^sup>* t t' \<Longrightarrow> exposure_floor_ok t \<Longrightarrow> exposure_floor_ok t'"
  by (induction rule: rtranclp_induct) (auto simp: tx_step_iff intro: tx_transition_floor)

text \<open>
  The lifecycles a locally drafted transaction can have before it is finalised. The set is closed
  under every transition except finalisation itself.
\<close>

definition unfinalized :: "tx_lifecycle set" where
  "unfinalized = {L_Draft, L_InputsReserved, L_ResponseImported, L_Cancelled}"

lemma unfinalized_closed:
  "transition_permitted cur nxt ev \<Longrightarrow> cur \<in> unfinalized \<Longrightarrow> nxt \<in> unfinalized \<or> nxt = L_Finalized"
  by (auto simp: transition_permitted_def transition_table_def unfinalized_def)

lemma unfinalized_path:
  assumes "steps_path tx_step t ts" and "tx_lifecycle t \<in> unfinalized"
    and "\<And>s. s \<in> set ts \<Longrightarrow> tx_lifecycle s \<noteq> L_Finalized" and "s \<in> set ts"
  shows "tx_lifecycle s \<in> unfinalized"
  using assms
proof (induction ts arbitrary: t)
  case Nil
  then show ?case by simp
next
  case (Cons t1 ts)
  then obtain nxt ev where "tx_transition nxt ev t = (Inr (), t1)"
    by (auto simp: tx_step_iff)
  then have "tx_lifecycle t1 = nxt" and "transition_permitted (tx_lifecycle t) nxt ev"
    by (auto simp: tx_transition_Inr_iff)
  with unfinalized_closed Cons.prems have "tx_lifecycle t1 \<in> unfinalized" by fastforce
  with Cons show ?case by auto
qed

subsection \<open>Properties\<close>

definition sample_intent :: "tx_lifecycle \<Rightarrow> broadcast_exposure \<Rightarrow> local_transaction_intent" where
  "sample_intent l e =
     \<lparr>tx_id = 1, tx_created_at_height = 0, tx_created_at_unix_seconds = 0,
      tx_cancellation_reason = None, tx_cancelled_at_height = None, tx_kernel_excess = [],
      tx_lifecycle = l, tx_submitted = False, tx_exposure = e, tx_slate_id = None, tx_role = Some Sender,
      tx_amount = 0, tx_fee = 0, tx_reserved_output_ids = [], tx_request_bytes = [],
      tx_response_bytes = [], tx_finalized_transaction_bytes = [], tx_transaction_hash = None,
      tx_attempt_count = 0, tx_private_context = None, tx_recipient_output_id = None,
      tx_change_output_id = None, tx_expires_at_height = 0\<rparr>"

lemma tx_steps_cancelled: "tx_step\<^sup>*\<^sup>* t t' \<Longrightarrow> tx_lifecycle t = L_Cancelled \<Longrightarrow> tx_lifecycle t' = L_Cancelled"
  by (induction rule: rtranclp_induct)
    (auto simp: tx_step_iff tx_transition_Inr_iff transition_permitted_def)

text \<open>
  C12: however a transaction moves through its lifecycle, its recorded broadcast exposure never
  goes down and never falls below what its lifecycle implies. So once it may have left the wallet,
  a cancellation is never again answered by releasing its inputs, and a cancelled transaction
  stays cancelled. Nothing but the lifecycle and the exposure changes.
\<close>

theorem exposure_never_lowered:
  assumes "tx_step\<^sup>*\<^sup>* t t'" and "exposure_floor_ok t"
  shows "tx_core_frame t t' \<and> tx_exposure t \<le> tx_exposure t' \<and> exposure_floor_ok t' \<and>
    (tx_exposure t \<noteq> NeverBroadcast \<longrightarrow>
       cancellation_decision (tx_exposure t') \<noteq> ReleaseNeverBroadcastReservations) \<and>
    (tx_lifecycle t = L_Cancelled \<longrightarrow> tx_lifecycle t' = L_Cancelled)"
proof -
  note frame = tx_steps_frame [OF assms(1)]
  then have le: "tx_exposure t \<le> tx_exposure t'" by (auto simp: tx_core_frame_def)
  then have "tx_exposure t \<noteq> NeverBroadcast \<longrightarrow> tx_exposure t' \<noteq> NeverBroadcast"
    by (cases "tx_exposure t"; cases "tx_exposure t'") (auto simp: exposure_order)
  with frame le show ?thesis
    using tx_steps_floor [OF assms] tx_steps_cancelled [OF assms(1)]
    by (simp add: cancellation_decision_release_iff)
qed

theorem exposure_never_lowered_witness:
  "cancellation_decision (tx_exposure (sample_intent L_Submitting SubmissionStarted))
     \<noteq> ReleaseNeverBroadcastReservations"
proof -
  have "tx_step (sample_intent L_Finalized SubmissionStarted) (sample_intent L_Submitting SubmissionStarted)"
    by (rule tx_step.intros [of L_Submitting E_SubmissionStarted])
      (simp add: tx_transition_Inr_iff transition_permitted_def transition_table_def sample_intent_def)
  moreover have "exposure_floor_ok (sample_intent L_Finalized SubmissionStarted)"
    by (simp add: exposure_floor_ok_def minimum_current_exposure_def sample_intent_def exposure_order)
  ultimately show ?thesis
    using exposure_never_lowered [of "sample_intent L_Finalized SubmissionStarted"
        "sample_intent L_Submitting SubmissionStarted"]
    by (simp add: sample_intent_def)
qed

text \<open>
  A locally drafted transaction that is ever submitted, in the mempool, confirmed or in any
  other state past its negotiation was finalised on the way: there is no path around finalisation.
\<close>

theorem no_submission_before_finalization:
  assumes "steps_path tx_step t ts" and "tx_lifecycle t = L_Draft"
    and "s \<in> set ts" and "tx_lifecycle s \<notin> {L_Draft, L_InputsReserved, L_ResponseImported, L_Cancelled}"
  shows "L_Finalized \<in> tx_lifecycle ` set ts"
proof (rule ccontr)
  assume "L_Finalized \<notin> tx_lifecycle ` set ts"
  then have "tx_lifecycle u \<noteq> L_Finalized" if "u \<in> set ts" for u
    using that by (metis imageI)
  then have "tx_lifecycle s \<in> unfinalized"
    using assms(2) by (intro unfinalized_path [OF assms(1) _ _ assms(3)]) (auto simp: unfinalized_def)
  with assms(4) show False by (auto simp: unfinalized_def)
qed

theorem no_submission_before_finalization_witness:
  "L_Finalized \<in> tx_lifecycle ` set
     [sample_intent L_InputsReserved NeverBroadcast, sample_intent L_ResponseImported NeverBroadcast,
      sample_intent L_Finalized NeverBroadcast, sample_intent L_Submitting SubmissionStarted]"
proof (rule no_submission_before_finalization [of "sample_intent L_Draft NeverBroadcast" _
      "sample_intent L_Submitting SubmissionStarted"])
  have *: "tx_step t t'" if "tx_transition nxt ev t = (Inr (), t')" for t t' nxt ev
    using that by (rule tx_step.intros)
  show "steps_path tx_step (sample_intent L_Draft NeverBroadcast)
     [sample_intent L_InputsReserved NeverBroadcast, sample_intent L_ResponseImported NeverBroadcast,
      sample_intent L_Finalized NeverBroadcast, sample_intent L_Submitting SubmissionStarted]"
    unfolding steps_path.simps
    by (intro conjI TrueI * [of L_InputsReserved E_LocalConstruction]
          * [of L_ResponseImported E_RecipientResponse] * [of L_Finalized E_Finalization]
          * [of L_Submitting E_SubmissionStarted])
      (simp_all add: tx_transition_def transition_permitted_def transition_table_def sample_intent_def
        exposure_order max_def)
qed (simp_all add: sample_intent_def)

end
