(* ===== verification/Swap_Session.thy ===== *)
theory Swap_Session
  imports Domain_Base
begin

text \<open>
  Durable swap sessions (\<open>SwapSessionState\<close>, \<open>SwapSessionRecord\<close> and their methods).
  The lifecycle map is interpreted as a \<open>completing_machine\<close>, which gives forward-only progress,
  short runs and a terminal state within reach; on top of it come the facts about the record: the
  history is exactly the run, a session past quote acceptance carries its quote and fee, and once
  a leg can be locked the only exits are settlement and refund.
\<close>

definition MAX_SWAP_SESSIONS :: nat where "MAX_SWAP_SESSIONS = 256"
definition SWAP_LEG_GAP_LIMIT :: u32 where "SWAP_LEG_GAP_LIMIT = 20"
definition MAX_SWAP_LEG_INDEX :: u32 where "MAX_SWAP_LEG_INDEX = 100000"

datatype swap_session_state =
    IntentDraft
  | IntentPublished
  | QuoteAccepted
  | RefundsArmed
  | UserFunding
  | UserFunded
  | SolverFunded
  | Claiming
  | Settled
  | CancelTimelockExpired
  | CancelPublished
  | Refunded
  | SafelyAborted

definition is_terminal :: "swap_session_state \<Rightarrow> bool" where
  "is_terminal s \<longleftrightarrow> s \<in> {Settled, Refunded, SafelyAborted}"

definition free_cancellation :: "swap_session_state \<Rightarrow> bool" where
  "free_cancellation s \<longleftrightarrow> s \<in> {IntentDraft, IntentPublished, QuoteAccepted, RefundsArmed}"

definition may_transition_to :: "swap_session_state \<Rightarrow> swap_session_state \<Rightarrow> bool" where
  "may_transition_to s nxt \<longleftrightarrow>
     (if is_terminal s then False
      else (s, nxt) \<in> {(IntentDraft, IntentPublished),
                        (IntentPublished, QuoteAccepted),
                        (QuoteAccepted, RefundsArmed),
                        (RefundsArmed, UserFunding),
                        (UserFunding, UserFunded),
                        (UserFunded, SolverFunded),
                        (SolverFunded, Claiming),
                        (Claiming, Settled),
                        (UserFunding, CancelTimelockExpired),
                        (UserFunded, CancelTimelockExpired),
                        (SolverFunded, CancelTimelockExpired),
                        (Claiming, CancelTimelockExpired),
                        (CancelTimelockExpired, CancelPublished),
                        (CancelPublished, Refunded)}
           \<or> free_cancellation s \<and> nxt = SafelyAborted)"

lemmas swap_state_defs = is_terminal_def free_cancellation_def may_transition_to_def

record swap_session_transition =
  sst_state :: swap_session_state
  sst_at_unix :: u64

record swap_deposit_watch =
  dw_address :: string
  dw_minimum_base_units :: u64
  dw_maximum_base_units :: u64
  dw_required_confirmations :: u64
  dw_observed_confirmations :: u64
  dw_observed_base_units :: u64
  dw_insufficient_after_fees :: bool

record swap_accepted_quote =
  aq_solver_label :: string
  aq_output_base_units :: u64
  aq_quote_fee_base_units :: u64
  aq_dom_leg_amount_base_units :: u64
  aq_estimated_seconds :: u64

record swap_session_record =
  ss_id :: uuid
  ss_created_unix :: u64
  ss_updated_unix :: u64
  ss_from_asset :: string
  ss_to_asset :: string
  ss_amount_base_units :: u64
  ss_minimum_output_base_units :: u64
  ss_fee_payment_asset :: string
  ss_fee_bps :: u64
  ss_fee_noms :: u64
  ss_leg_index :: u32
  ss_state :: swap_session_state
  ss_state_history :: "swap_session_transition list"
  ss_last_error :: "string option"
  ss_quote :: "swap_accepted_quote option"
  ss_deposit :: "swap_deposit_watch option"
  ss_refund_unlock_unix :: "u64 option"
  ss_user_leg_funding_txid :: "string option"
  ss_solver_leg_funding_txid :: "string option"
  ss_claim_txid :: "string option"
  ss_cancel_txid :: "string option"
  ss_refund_txid :: "string option"

definition is_open :: "swap_session_record \<Rightarrow> bool" where
  "is_open r = (\<not> is_terminal (ss_state r))"

definition swap_transition ::
  "swap_session_state \<Rightarrow> u64 \<Rightarrow> (swap_session_record, domain_error, unit) meth" where
  "swap_transition nxt now_unix r =
     (if \<not> may_transition_to (ss_state r) nxt then (Inl InvalidSwapTransition, r)
      else if nxt = QuoteAccepted \<and> (ss_quote r = None \<or> ss_fee_noms r = 0)
      then (Inl InvalidState, r)
      else (Inr (), r\<lparr>ss_state := nxt, ss_updated_unix := now_unix,
                      ss_state_history :=
                        ss_state_history r @ [\<lparr>sst_state = nxt, sst_at_unix = now_unix\<rparr>]\<rparr>))"

definition accept_quote ::
  "swap_accepted_quote \<Rightarrow> u64 \<Rightarrow> u64 \<Rightarrow> (swap_session_record, domain_error, unit) meth" where
  "accept_quote quote fee_noms now_unix r =
     (if aq_dom_leg_amount_base_units quote = 0 \<or> fee_noms = 0 then (Inl InvalidState, r)
      else if \<not> may_transition_to (ss_state r) QuoteAccepted then (Inl InvalidSwapTransition, r)
      else swap_transition QuoteAccepted now_unix
             (r\<lparr>ss_quote := Some quote, ss_fee_noms := fee_noms\<rparr>))"

definition bounded :: "string \<Rightarrow> nat \<Rightarrow> bool" where
  "bounded value limit = (value \<noteq> [] \<and> length value \<le> limit)"

definition swap_session_validate :: "swap_session_record \<Rightarrow> domain_error + unit" where
  "swap_session_validate r =
     (if \<not> bounded (ss_from_asset r) 32
       \<or> \<not> bounded (ss_to_asset r) 32
       \<or> \<not> bounded (ss_fee_payment_asset r) 32
       \<or> 64 < length (ss_state_history r)
       \<or> (case ss_last_error r of None \<Rightarrow> False | Some e \<Rightarrow> 256 < length e)
       \<or> MAX_SWAP_LEG_INDEX < ss_leg_index r
      then Inl InvalidState
      else if (case ss_deposit r of None \<Rightarrow> False
               | Some d \<Rightarrow> \<not> bounded (dw_address d) 128
                          \<or> dw_maximum_base_units d < dw_minimum_base_units d)
      then Inl InvalidState
      else if (case ss_quote r of None \<Rightarrow> False | Some q \<Rightarrow> \<not> bounded (aq_solver_label q) 64)
      then Inl InvalidState
      else if (\<exists>x \<in> set [ss_user_leg_funding_txid r, ss_solver_leg_funding_txid r,
                          ss_claim_txid r, ss_cancel_txid r, ss_refund_txid r].
                 case x of None \<Rightarrow> False | Some txid \<Rightarrow> \<not> bounded txid 128)
      then Inl InvalidState
      else Inr ())"

subsection \<open>The lifecycle map as a completing machine\<close>

fun swap_rank :: "swap_session_state \<Rightarrow> nat" where
  "swap_rank IntentDraft = 0"
| "swap_rank IntentPublished = 1"
| "swap_rank QuoteAccepted = 2"
| "swap_rank RefundsArmed = 3"
| "swap_rank UserFunding = 4"
| "swap_rank UserFunded = 5"
| "swap_rank SolverFunded = 6"
| "swap_rank Claiming = 7"
| "swap_rank CancelTimelockExpired = 8"
| "swap_rank CancelPublished = 9"
| "swap_rank Settled = 10"
| "swap_rank Refunded = 10"
| "swap_rank SafelyAborted = 10"

interpretation swap: completing_machine may_transition_to swap_rank 10 is_terminal
proof unfold_locales
  show "swap_rank s < swap_rank t" if "may_transition_to s t" for s t
    using that by (cases s) (auto simp: swap_state_defs)
  show "swap_rank s \<le> 10" for s
    by (cases s) simp_all
  show "\<not> may_transition_to s t" if "is_terminal s" for s t
    using that by (simp add: may_transition_to_def)
  show "\<exists>t. may_transition_to s t" if "\<not> is_terminal s" for s
    using that by (cases s) (auto simp: swap_state_defs)
qed

definition locked_states :: "swap_session_state set" where
  "locked_states = {UserFunding, UserFunded, SolverFunded, Claiming, CancelTimelockExpired,
     CancelPublished}"

lemma locked_step:
  "may_transition_to s t \<Longrightarrow> s \<in> locked_states \<Longrightarrow> t \<in> locked_states \<union> {Settled, Refunded}"
  by (cases s) (auto simp: swap_state_defs locked_states_def)

lemma locked_path:
  "steps_path may_transition_to s ts \<Longrightarrow> s \<in> locked_states \<union> {Settled, Refunded} \<Longrightarrow>
     last (s # ts) \<in> locked_states \<union> {Settled, Refunded}"
proof (induction ts arbitrary: s)
  case Nil
  then show ?case by simp
next
  case (Cons t ts)
  then have step: "may_transition_to s t" and path: "steps_path may_transition_to t ts"
    by simp_all
  have "s \<in> locked_states"
    using Cons.prems(2) swap.final_stuck [of s t] step by (auto simp: is_terminal_def)
  with step have "t \<in> locked_states \<union> {Settled, Refunded}"
    by (rule locked_step)
  from Cons.IH [OF path this] show ?case by simp
qed

lemma refund_ladder:
  assumes "s \<in> locked_states"
  shows "\<exists>ts. steps_path may_transition_to s ts \<and> last (s # ts) = Refunded"
proof -
  have cp: "steps_path may_transition_to CancelTimelockExpired [CancelPublished, Refunded]"
    by (simp add: swap_state_defs)
  show ?thesis
  proof (cases "s = CancelPublished")
    case True
    then show ?thesis by (intro exI [of _ "[Refunded]"]) (simp add: swap_state_defs)
  next
    case False
    show ?thesis
    proof (cases "s = CancelTimelockExpired")
      case True
      then show ?thesis
        using cp by (intro exI [of _ "[CancelPublished, Refunded]"]) simp
    next
      case no: False
      with False assms have "may_transition_to s CancelTimelockExpired"
        by (auto simp: locked_states_def swap_state_defs)
      with cp show ?thesis
        by (intro exI [of _ "[CancelTimelockExpired, CancelPublished, Refunded]"]) simp
    qed
  qed
qed

subsection \<open>Runs of a session record\<close>

inductive swap_step :: "swap_session_record \<Rightarrow> swap_session_record \<Rightarrow> bool" where
  by_transition: "swap_transition nxt now_unix r = (Inr (), r') \<Longrightarrow> swap_step r r'"
| by_quote: "accept_quote quote fee now_unix r = (Inr (), r') \<Longrightarrow> swap_step r r'"

lemma swap_transition_Inr_iff:
  "swap_transition nxt now_unix r = (Inr u, r') \<longleftrightarrow>
     may_transition_to (ss_state r) nxt \<and>
     (nxt = QuoteAccepted \<longrightarrow> ss_quote r \<noteq> None \<and> ss_fee_noms r \<noteq> 0) \<and>
     r' = r\<lparr>ss_state := nxt, ss_updated_unix := now_unix,
            ss_state_history := ss_state_history r @ [\<lparr>sst_state = nxt, sst_at_unix = now_unix\<rparr>]\<rparr>"
  by (auto simp: swap_transition_def)

lemma accept_quote_Inr_iff:
  "accept_quote q fee now_unix r = (Inr u, r') \<longleftrightarrow>
     aq_dom_leg_amount_base_units q \<noteq> 0 \<and> fee \<noteq> 0 \<and> may_transition_to (ss_state r) QuoteAccepted \<and>
     r' = r\<lparr>ss_quote := Some q, ss_fee_noms := fee, ss_state := QuoteAccepted,
            ss_updated_unix := now_unix, ss_state_history := ss_state_history r @
              [\<lparr>sst_state = QuoteAccepted, sst_at_unix = now_unix\<rparr>]\<rparr>"
  by (auto simp: accept_quote_def swap_transition_def)

lemma swap_error_keeps_record:
  "swap_transition nxt now_unix r = (Inl e, r') \<Longrightarrow> r' = r"
  "accept_quote q fee now_unix r = (Inl e, r') \<Longrightarrow> r' = r"
  by (auto simp: swap_transition_def accept_quote_def split: if_splits)

lemma swap_step_cases:
  assumes "swap_step r r'"
  shows "may_transition_to (ss_state r) (ss_state r') \<and>
     map sst_state (ss_state_history r') = map sst_state (ss_state_history r) @ [ss_state r'] \<and>
     (ss_state r' = QuoteAccepted \<longrightarrow> ss_quote r' \<noteq> None \<and> ss_fee_noms r' \<noteq> 0) \<and>
     (ss_state r' \<noteq> QuoteAccepted \<longrightarrow> ss_quote r' = ss_quote r \<and> ss_fee_noms r' = ss_fee_noms r)"
  using assms
  by (cases rule: swap_step.cases) (auto simp: swap_transition_Inr_iff accept_quote_Inr_iff)

lemma swap_run_states:
  "steps_path swap_step r rs \<Longrightarrow> steps_path may_transition_to (ss_state r) (map ss_state rs)"
  by (induction rs arbitrary: r) (auto dest: swap_step_cases)

lemma swap_run_history:
  "steps_path swap_step r rs \<Longrightarrow>
     map sst_state (ss_state_history (last (r # rs))) =
     map sst_state (ss_state_history r) @ map ss_state rs"
proof (induction rs arbitrary: r)
  case Nil
  then show ?case by simp
next
  case (Cons r1 rs)
  then have "map sst_state (ss_state_history r1) =
      map sst_state (ss_state_history r) @ [ss_state r1]"
    by (auto dest: swap_step_cases)
  with Cons show ?case by (cases rs) auto
qed

lemma swap_run_quote:
  assumes "steps_path swap_step r rs" and "2 \<le> swap_rank (ss_state r) \<longrightarrow>
      ss_state r = SafelyAborted \<or> ss_quote r \<noteq> None \<and> ss_fee_noms r \<noteq> 0"
  shows "2 \<le> swap_rank (ss_state (last (r # rs))) \<longrightarrow>
      ss_state (last (r # rs)) = SafelyAborted \<or>
      ss_quote (last (r # rs)) \<noteq> None \<and> ss_fee_noms (last (r # rs)) \<noteq> 0"
  using assms
proof (induction rs arbitrary: r)
  case Nil
  then show ?case by simp
next
  case (Cons r1 rs)
  from Cons.prems(1) have st: "swap_step r r1" by simp
  note facts = swap_step_cases [OF st]
  have "2 \<le> swap_rank (ss_state r1) \<longrightarrow>
      ss_state r1 = SafelyAborted \<or> ss_quote r1 \<noteq> None \<and> ss_fee_noms r1 \<noteq> 0"
  proof (cases "ss_state r1 = QuoteAccepted \<or> ss_state r1 = SafelyAborted")
    case True
    with facts show ?thesis by auto
  next
    case False
    then have "2 \<le> swap_rank (ss_state r1) \<longrightarrow>
        2 \<le> swap_rank (ss_state r) \<and> ss_state r \<noteq> SafelyAborted"
      using conjunct1 [OF facts] by (cases "ss_state r") (auto simp: swap_state_defs)
    with False facts Cons.prems(2) show ?thesis by auto
  qed
  with Cons show ?case by simp
qed

subsection \<open>Properties\<close>

definition sample_session :: "swap_session_state \<Rightarrow> swap_session_state list \<Rightarrow> swap_accepted_quote option \<Rightarrow> u64 \<Rightarrow>
     swap_session_record" where
  "sample_session st hist q fee =
     \<lparr>ss_id = 1, ss_created_unix = 0, ss_updated_unix = 0, ss_from_asset = ''DOM'', ss_to_asset = ''BTC'',
      ss_amount_base_units = 1, ss_minimum_output_base_units = 1, ss_fee_payment_asset = ''DOM'',
      ss_fee_bps = 0, ss_fee_noms = fee, ss_leg_index = 0, ss_state = st,
      ss_state_history = map (\<lambda>x. \<lparr>sst_state = x, sst_at_unix = 0\<rparr>) hist, ss_last_error = None,
      ss_quote = q, ss_deposit = None, ss_refund_unlock_unix = None, ss_user_leg_funding_txid = None,
      ss_solver_leg_funding_txid = None, ss_claim_txid = None, ss_cancel_txid = None,
      ss_refund_txid = None\<rparr>"

definition sample_quote :: swap_accepted_quote where
  "sample_quote = \<lparr>aq_solver_label = ''s'', aq_output_base_units = 1, aq_quote_fee_base_units = 0,
     aq_dom_leg_amount_base_units = 1, aq_estimated_seconds = 0\<rparr>"

lemmas sample_session_defs = sample_session_def sample_quote_def swap_state_defs swap_transition_def
  accept_quote_def

lemma sample_published: "swap_step (sample_session IntentDraft [IntentDraft] None 0)
    (sample_session IntentPublished [IntentDraft, IntentPublished] None 0)"
  by (rule swap_step.by_transition [of IntentPublished 0]) (simp add: sample_session_defs)

lemma sample_quoted: "swap_step (sample_session IntentPublished [IntentDraft, IntentPublished] None 0)
    (sample_session QuoteAccepted [IntentDraft, IntentPublished, QuoteAccepted] (Some sample_quote) 3)"
  by (rule swap_step.by_quote [of sample_quote 3 0]) (simp add: sample_session_defs)

text \<open>
  A swap session makes at most ten transitions, never comes back to a state it has left, and
  its durable history is exactly the sequence of states it went through.
\<close>

theorem swap_run_shape:
  assumes "steps_path swap_step r rs"
  shows "length rs \<le> 10 - swap_rank (ss_state r) \<and> distinct (ss_state r # map ss_state rs) \<and>
    map sst_state (ss_state_history (last (r # rs))) =
      map sst_state (ss_state_history r) @ map ss_state rs"
proof -
  note states = swap_run_states [OF assms]
  from swap.path_length [OF states] swap.path_distinct [OF states] swap_run_history [OF assms]
  show ?thesis by (simp del: last.simps)
qed

theorem swap_run_shape_witness:
  "distinct (map ss_state
     [sample_session IntentDraft [IntentDraft] None 0,
      sample_session IntentPublished [IntentDraft, IntentPublished] None 0])"
  using swap_run_shape [of "sample_session IntentDraft [IntentDraft] None 0"
      "[sample_session IntentPublished [IntentDraft, IntentPublished] None 0]"] sample_published
  by (simp add: sample_session_def)

text \<open>
  C31: once the user's leg is being funded, no run of the session leads anywhere but to further
  locked states, to a settlement or to a refund: it cannot be cancelled for free or safely aborted;
  and from every locked state it can be in, the timelock ladder reaches the refund.
\<close>

theorem swap_locked_funds:
  assumes "steps_path swap_step r rs" and "ss_state r \<in> locked_states"
  shows "ss_state (last (r # rs)) \<in> locked_states \<union> {Settled, Refunded} \<and>
    \<not> free_cancellation (ss_state (last (r # rs))) \<and>
    (ss_state (last (r # rs)) \<in> locked_states \<longrightarrow>
       (\<exists>ts. steps_path may_transition_to (ss_state (last (r # rs))) ts \<and>
             last (ss_state (last (r # rs)) # ts) = Refunded))"
proof -
  have "last (ss_state r # map ss_state rs) = ss_state (last (r # rs))"
    by (metis last_map list.discI list.simps(9))
  then have "ss_state (last (r # rs)) \<in> locked_states \<union> {Settled, Refunded}"
    using locked_path [OF swap_run_states [OF assms(1)]] assms(2) by auto
  moreover have "\<not> free_cancellation s" if "s \<in> locked_states \<union> {Settled, Refunded}" for s
    using that by (auto simp: locked_states_def free_cancellation_def)
  ultimately show ?thesis using refund_ladder by blast
qed

theorem swap_locked_funds_witness:
  "\<not> free_cancellation (ss_state (sample_session CancelTimelockExpired [CancelTimelockExpired] None 0))"
  using swap_locked_funds [of "sample_session UserFunded [] None 0"
      "[sample_session CancelTimelockExpired [CancelTimelockExpired] None 0]"]
    swap_step.by_transition [of CancelTimelockExpired 0 "sample_session UserFunded [] None 0"
      "sample_session CancelTimelockExpired [CancelTimelockExpired] None 0"]
  by (simp add: sample_session_defs locked_states_def)

text \<open>
  A session that started as a draft holds an authenticated quote and a nonzero fee in every
  state from quote acceptance on, unless it was safely aborted.
\<close>

theorem swap_quote_bound:
  assumes "steps_path swap_step r rs" and "ss_state r = IntentDraft"
    and "ss_state (last (r # rs)) \<notin> {IntentDraft, IntentPublished, SafelyAborted}"
  shows "ss_quote (last (r # rs)) \<noteq> None \<and> ss_fee_noms (last (r # rs)) \<noteq> 0"
proof -
  have "2 \<le> swap_rank (ss_state (last (r # rs)))"
    using assms(3) by (cases "ss_state (last (r # rs))") auto
  then show ?thesis using swap_run_quote [OF assms(1)] assms(2,3) by simp
qed

theorem swap_quote_bound_witness:
  "ss_quote (sample_session QuoteAccepted [IntentDraft, IntentPublished, QuoteAccepted]
     (Some sample_quote) 3) \<noteq> None"
  using swap_quote_bound [of "sample_session IntentDraft [IntentDraft] None 0"
      "[sample_session IntentPublished [IntentDraft, IntentPublished] None 0,
        sample_session QuoteAccepted [IntentDraft, IntentPublished, QuoteAccepted] (Some sample_quote) 3]"]
    sample_published sample_quoted
  by (simp add: sample_session_def)

end
