(* ===== verification/Scriptless.thy ===== *)
theory Scriptless
  imports Domain_Base
begin

text \<open>
  The durable common-wallet side of Scriptless transactions: the private contexts, the two
  reservation records with their exposure states, and the two-party template binding
  (\<open>PrivateScriptlessFundingContext\<close>, \<open>ScriptlessFundingReservation\<close>,
  \<open>PrivateScriptlessPayoutContext\<close>, \<open>ScriptlessPayoutReservation\<close>,
  \<open>ScriptlessTemplateParticipantBindingV1\<close>). A \<open>copy_..._to(&mut destination)\<close> method is
  modelled by the new content of the destination together with the returned flag.
\<close>

subsection \<open>Funding\<close>

record private_funding_context =
  fc_wallet_excess_contribution :: bytes
  fc_change_output_blinding :: "bytes option"

definition funding_context_new :: "bytes \<Rightarrow> bytes option \<Rightarrow> private_funding_context" where
  "funding_context_new w c =
     \<lparr>fc_wallet_excess_contribution = w, fc_change_output_blinding = c\<rparr>"

definition copy_wallet_excess_contribution_to :: "private_funding_context \<Rightarrow> bytes \<Rightarrow> bytes" where
  "copy_wallet_excess_contribution_to c dest = fc_wallet_excess_contribution c"

definition copy_change_output_blinding_to ::
  "private_funding_context \<Rightarrow> bytes \<Rightarrow> bool \<times> bytes" where
  "copy_change_output_blinding_to c dest =
     (case fc_change_output_blinding c of Some b \<Rightarrow> (True, b) | None \<Rightarrow> (False, dest))"

definition funding_context_valid :: "private_funding_context \<Rightarrow> bool \<Rightarrow> bool" where
  "funding_context_valid c expects_change \<longleftrightarrow>
     fc_wallet_excess_contribution c \<noteq> zeros 32
   \<and> (fc_change_output_blinding c \<noteq> None) = expects_change
   \<and> (case fc_change_output_blinding c of None \<Rightarrow> True | Some b \<Rightarrow> b \<noteq> zeros 32)"

datatype funding_state =
    FR_Reserved
  | FR_Prepared
  | FR_SessionBound
  | FR_Exported
  | FR_TemplateBound
  | FR_AbandonedRetained
  | FR_Cancelled

definition retains_inputs :: "funding_state \<Rightarrow> bool" where
  "retains_inputs s = (s \<noteq> FR_Cancelled)"

definition may_cancel_and_release :: "funding_state \<Rightarrow> bool" where
  "may_cancel_and_release s = (s \<in> {FR_Reserved, FR_Prepared})"

record template_participants =
  tp_ordered_offset_contributions :: "bytes list"
  tp_ordered_kernel_excess_points :: "bytes list"

definition template_participants_new ::
  "bytes \<times> bytes \<Rightarrow> bytes \<times> bytes \<Rightarrow> template_participants" where
  "template_participants_new offs points =
     \<lparr>tp_ordered_offset_contributions = [fst offs, snd offs],
      tp_ordered_kernel_excess_points = [fst points, snd points]\<rparr>"

definition template_participants_valid :: "template_participants \<Rightarrow> bool" where
  "template_participants_valid p \<longleftrightarrow>
     length (tp_ordered_offset_contributions p) = unat SCRIPTLESS_PARTICIPANT_COUNT_V1
   \<and> length (tp_ordered_kernel_excess_points p) = unat SCRIPTLESS_PARTICIPANT_COUNT_V1
   \<and> list_all (\<lambda>c. length c = 32 \<and> list_ex (\<lambda>b. b \<noteq> 0) c) (tp_ordered_offset_contributions p)
   \<and> list_all (\<lambda>c. length c = 33 \<and> list_ex (\<lambda>b. b \<noteq> 0) c) (tp_ordered_kernel_excess_points p)"

definition empty_bytes_33 :: bytes where
  "empty_bytes_33 = zeros 33"

record funding_reservation =
  fr_version :: u16
  fr_id :: uuid
  fr_session_id :: bytes
  fr_shared_output_commitment :: bytes
  fr_created_at_height :: u64
  fr_local_debit_noms :: u64
  fr_funding_fee_noms :: u64
  fr_expected_input_count :: u32
  fr_expected_output_count :: u32
  fr_reserved_output_ids :: "uuid list"
  fr_input_commitments :: "bytes list"
  fr_change_value_noms :: u64
  fr_change_derivation_index :: "u64 option"
  fr_change_output_id :: "uuid option"
  fr_change_commitment :: "bytes option"
  fr_change_output_bytes :: bytes
  fr_offset_contribution :: "bytes option"
  fr_wallet_excess_public_key :: bytes
  fr_template_hash :: "bytes option"
  fr_session_share_binding_digest :: "bytes option"
  fr_participant_position :: "u32 option"
  fr_template_participants :: "template_participants option"
  fr_private_context :: "private_funding_context option"
  fr_state :: funding_state

subsection \<open>Payout\<close>

record private_payout_context =
  pc_payout_excess_contribution :: bytes
  pc_output_blinding :: "bytes option"

definition payout_context_new :: "bytes \<Rightarrow> bytes option \<Rightarrow> private_payout_context" where
  "payout_context_new e b = \<lparr>pc_payout_excess_contribution = e, pc_output_blinding = b\<rparr>"

definition copy_payout_excess_contribution_to :: "private_payout_context \<Rightarrow> bytes \<Rightarrow> bytes" where
  "copy_payout_excess_contribution_to c dest = pc_payout_excess_contribution c"

definition copy_output_blinding_to :: "private_payout_context \<Rightarrow> bytes \<Rightarrow> bool \<times> bytes" where
  "copy_output_blinding_to c dest =
     (case pc_output_blinding c of Some b \<Rightarrow> (True, b) | None \<Rightarrow> (False, dest))"

definition payout_context_valid :: "private_payout_context \<Rightarrow> bool \<Rightarrow> bool" where
  "payout_context_valid c expects_output \<longleftrightarrow>
     pc_payout_excess_contribution c \<noteq> zeros 32
   \<and> (pc_output_blinding c \<noteq> None) = expects_output
   \<and> (case pc_output_blinding c of None \<Rightarrow> True | Some b \<Rightarrow> b \<noteq> zeros 32)"

datatype payout_role = Claim | Refund

datatype payout_state =
    PR_Reserved
  | PR_Prepared
  | PR_SessionBound
  | PR_ComponentsExposed
  | PR_TemplateBound
  | PR_AbandonedRetained
  | PR_Cancelled

definition has_prepared_material :: "payout_state \<Rightarrow> bool" where
  "has_prepared_material s =
     (s \<in> {PR_Prepared, PR_SessionBound, PR_ComponentsExposed, PR_TemplateBound,
            PR_AbandonedRetained})"

definition may_cancel_unexposed :: "payout_state \<Rightarrow> bool" where
  "may_cancel_unexposed s = (s \<in> {PR_Reserved, PR_Prepared})"

record payout_reservation =
  pr_version :: u16
  pr_id :: uuid
  pr_session_id :: bytes
  pr_role :: payout_role
  pr_created_at_height :: u64
  pr_shared_output_commitment :: bytes
  pr_payout_value_noms :: u64
  pr_kernel_fee_noms :: u64
  pr_expected_output_count :: u32
  pr_refund_lock_height :: u64
  pr_output_id :: "uuid option"
  pr_derivation_index :: "u64 option"
  pr_output_commitment :: "bytes option"
  pr_output_bytes :: bytes
  pr_offset_contribution :: "bytes option"
  pr_payout_excess_public_key :: bytes
  pr_template_hash :: "bytes option"
  pr_session_share_binding_digest :: "bytes option"
  pr_participant_position :: "u32 option"
  pr_template_participants :: "template_participants option"
  pr_private_context :: "private_payout_context option"
  pr_state :: payout_state

subsection \<open>Facts about the contexts and bindings\<close>

lemma zeros_iff: "x = zeros n \<longleftrightarrow> length x = n \<and> (\<forall>b \<in> set x. b = 0)"
  by (auto simp: zeros_def intro: replicate_eqI)

text \<open>A binding built from two participants is well formed exactly when no part is zero.\<close>

lemma template_participants_new_valid:
  assumes "length (fst offs) = 32" "length (snd offs) = 32"
    and "length (fst points) = 33" "length (snd points) = 33"
  shows "template_participants_valid (template_participants_new offs points) \<longleftrightarrow>
     fst offs \<noteq> zeros 32 \<and> snd offs \<noteq> zeros 32 \<and> fst points \<noteq> zeros 33 \<and> snd points \<noteq> zeros 33"
  using assms
  by (auto simp: template_participants_valid_def template_participants_new_def domain_consts
      zeros_iff list_ex_iff)

lemma payout_context_valid_copy:
  "payout_context_valid c True \<Longrightarrow>
     \<exists>b. copy_output_blinding_to c dest = (True, b) \<and> pc_output_blinding c = Some b \<and> b \<noteq> zeros 32"
  by (auto simp: payout_context_valid_def copy_output_blinding_to_def split: option.splits)

lemma funding_context_valid_copy:
  "funding_context_valid c True \<Longrightarrow>
     \<exists>b. copy_change_output_blinding_to c dest = (True, b) \<and> fc_change_output_blinding c = Some b"
  by (auto simp: funding_context_valid_def copy_change_output_blinding_to_def split: option.splits)

end
