(* ===== verification/Wallet_State.thy ===== *)
theory Wallet_State
  imports Outputs Tx_Lifecycle Swap_Session Scriptless
begin

text \<open>
  The canonical wallet state (\<open>WalletState\<close>) with the records it is made of, its constructor,
  the allocation floors (\<open>allocate\<close>, \<open>reserve_recovery_coordinate\<close>,
  \<open>resume_recovery_coordinate\<close>), the exposure migration, and the accessors for private output
  blindings. \<open>Uuid::new_v4()\<close> is an argument: the fresh identifiers are supplied by the caller.
\<close>

definition RECOVERY_SCHEME_BIP39_256_V1 :: string where
  "RECOVERY_SCHEME_BIP39_256_V1 = ''BIP39_ENTROPY_256_V1''"

record recovery_metadata =
  rm_scheme :: string
  rm_phrase_confirmed :: bool

datatype recovery_output_class = ReceiveRequest | ReceiveSlate | Change | SelfTransfer | Coinbase

record recovery_allocation_floors =
  raf_received :: u64
  raf_change :: u64
  raf_self_transfer :: u64
  raf_coinbase :: u64

definition floors_default :: recovery_allocation_floors where
  "floors_default = \<lparr>raf_received = 0, raf_change = 0, raf_self_transfer = 0, raf_coinbase = 0\<rparr>"

datatype recovered_output_domain = D_Received | D_Change | D_SelfTransfer | D_Coinbase

record recovered_output_metadata =
  rom_output_id :: uuid
  rom_recovery_account :: u32
  rom_derivation_index :: u64
  rom_domain :: recovered_output_domain
  rom_is_coinbase :: bool
  rom_block_hash :: bytes
  rom_output_position :: u32

record recovered_account_mapping =
  ram_recovery_account :: u32
  ram_account_id :: uuid

record recovery_canonical_block =
  rcb_height :: u64
  rcb_block_hash :: bytes
  rcb_previous_block_hash :: bytes
  rcb_output_count :: u32
  rcb_legacy_proof_only_outputs :: u32

datatype seed_restore_status = InProgress | Complete

record reserved_recovery_coordinate =
  rrc_account :: u32
  rrc_derivation_index :: u64
  rrc_class :: recovery_output_class

record private_output_blinding =
  pob_output_id :: uuid
  pob_blinding :: bytes

datatype rescan_phase =
    RP_Prepared
  | RP_Scanning
  | RP_ValidatingTarget
  | RP_ReadyToActivate
  | RP_Activating
  | RP_Complete
  | RP_Invalidated
  | RP_Failed

record rescan_plan =
  rp_version :: u16
  rp_plan_id :: uuid
  rp_wallet_id :: uuid
  rp_identity :: network_identity
  rp_source_identity :: string
  rp_target :: scan_target
  rp_recovery_start_height :: u64
  rp_next_page :: u32
  rp_next_page_height :: u64
  rp_provisional_generation_id :: u64
  rp_retained_canonical_generation_id :: u64
  rp_phase :: rescan_phase
  rp_provisional_outputs :: "output_record list"
  rp_provisional_transactions :: "local_transaction_intent list"

record mining_preferences =
  mp_enabled :: bool
  mp_cpu_threads :: nat

definition mining_default :: mining_preferences where
  "mining_default = \<lparr>mp_enabled = False, mp_cpu_threads = 0\<rparr>"

record wallet_state =
  ws_model_version :: u16
  ws_secret_profile_version :: u16
  ws_wallet_id :: uuid
  ws_identity :: network_identity
  ws_generation :: u64
  ws_default_account :: account
  ws_allocation_floor :: u64
  ws_non_reuse_floor :: u64
  ws_cursor :: "canonical_cursor option"
  ws_outputs :: "output_record list"
  ws_private_output_blindings :: "private_output_blinding list"
  ws_transactions :: "local_transaction_intent list"
  ws_funding_reservations :: "funding_reservation list"
  ws_payout_reservations :: "payout_reservation list"
  ws_transaction_exposure_version :: u16
  ws_sync_status :: sync_status
  ws_provisional_target :: "scan_target option"
  ws_rescan_plan :: "rescan_plan option"
  ws_recovery :: "recovery_metadata option"
  ws_recovery_allocation_floors :: recovery_allocation_floors
  ws_core_scan_cursor :: "bytes option"
  ws_recovery_canonical_blocks :: "recovery_canonical_block list"
  ws_recovered_accounts :: "recovered_account_mapping list"
  ws_recovered_output_metadata :: "recovered_output_metadata list"
  ws_seed_restore_status :: "seed_restore_status option"
  ws_legacy_proof_only_outputs :: u64
  ws_recovery_scanned_blocks :: u64
  ws_recovery_scanned_outputs :: u64
  ws_node_configuration :: node_configuration
  ws_mining_preferences :: mining_preferences
  ws_swap_sessions :: "swap_session_record list"
  ws_next_swap_leg_index :: u32
  ws_root_material :: bytes

type_synonym 'a wallet_op = "(wallet_state, domain_error, 'a) meth"

definition wallet_new ::
  "uuid \<Rightarrow> uuid \<Rightarrow> network_identity \<Rightarrow> bytes \<Rightarrow> node_configuration \<Rightarrow> wallet_state" where
  "wallet_new fresh_wallet_id fresh_account_id identity root_material node_configuration =
     \<lparr>ws_model_version = MODEL_VERSION,
      ws_secret_profile_version = SECRET_PROFILE_VERSION,
      ws_wallet_id = fresh_wallet_id,
      ws_identity = identity,
      ws_generation = 0,
      ws_default_account = \<lparr>acc_id = fresh_account_id, acc_label = ''Default account'',
                            acc_created_generation = 0\<rparr>,
      ws_allocation_floor = 0,
      ws_non_reuse_floor = 0,
      ws_cursor = None,
      ws_outputs = [],
      ws_private_output_blindings = [],
      ws_transactions = [],
      ws_funding_reservations = [],
      ws_payout_reservations = [],
      ws_transaction_exposure_version = TRANSACTION_EXPOSURE_VERSION,
      ws_sync_status = Idle,
      ws_provisional_target = None,
      ws_rescan_plan = None,
      ws_recovery = None,
      ws_recovery_allocation_floors = floors_default,
      ws_core_scan_cursor = None,
      ws_recovery_canonical_blocks = [],
      ws_recovered_accounts = [],
      ws_recovered_output_metadata = [],
      ws_seed_restore_status = None,
      ws_legacy_proof_only_outputs = 0,
      ws_recovery_scanned_blocks = 0,
      ws_recovery_scanned_outputs = 0,
      ws_node_configuration = node_configuration,
      ws_mining_preferences = mining_default,
      ws_swap_sessions = [],
      ws_next_swap_leg_index = 0,
      ws_root_material = root_material\<rparr>"

subsection \<open>Exposure migration\<close>

text \<open>
  The loop raises each exposure to its floor and remembers whether anything changed.
\<close>

fun migrate_exposures ::
  "bool \<Rightarrow> bool \<Rightarrow> local_transaction_intent list \<Rightarrow> bool \<times> local_transaction_intent list" where
  "migrate_exposures legacy changed [] = (changed, [])"
| "migrate_exposures legacy changed (t # ts) =
     (let inferred = (if legacy then infer_legacy_exposure (tx_lifecycle t) (tx_submitted t)
                      else minimum_current_exposure (tx_lifecycle t) (tx_submitted t))
      in if tx_exposure t < inferred
         then (case migrate_exposures legacy True ts of
                 (c, ts') \<Rightarrow> (c, t\<lparr>tx_exposure := inferred\<rparr> # ts'))
         else (case migrate_exposures legacy changed ts of (c, ts') \<Rightarrow> (c, t # ts')))"

definition migrate_transaction_exposure :: "bool wallet_op" where
  "migrate_transaction_exposure s =
     (let v = ws_transaction_exposure_version s
      in if v = 0 \<or> v = TRANSACTION_EXPOSURE_VERSION
         then (case migrate_exposures (v = 0) (v = 0) (ws_transactions s) of
                 (changed, ts) \<Rightarrow>
                   (Inr changed, s\<lparr>ws_transactions := ts,
                      ws_transaction_exposure_version := TRANSACTION_EXPOSURE_VERSION\<rparr>))
         else (Inl UnsupportedVersion, s))"

subsection \<open>Allocation floors\<close>

definition allocate :: "u64 wallet_op" where
  "allocate s =
     (case checked_add (ws_allocation_floor s) 1 of
        None \<Rightarrow> (Inl AllocationOverflow, s)
      | Some pos \<Rightarrow> (Inr pos, s\<lparr>ws_allocation_floor := pos,
                               ws_non_reuse_floor := max (ws_non_reuse_floor s) pos\<rparr>))"

fun class_floor :: "recovery_output_class \<Rightarrow> recovery_allocation_floors \<Rightarrow> u64" where
  "class_floor ReceiveRequest f = raf_received f"
| "class_floor ReceiveSlate f = raf_received f"
| "class_floor Change f = raf_change f"
| "class_floor SelfTransfer f = raf_self_transfer f"
| "class_floor Coinbase f = raf_coinbase f"

fun set_class_floor ::
  "recovery_output_class \<Rightarrow> u64 \<Rightarrow> recovery_allocation_floors \<Rightarrow> recovery_allocation_floors" where
  "set_class_floor ReceiveRequest v f = f\<lparr>raf_received := v\<rparr>"
| "set_class_floor ReceiveSlate v f = f\<lparr>raf_received := v\<rparr>"
| "set_class_floor Change v f = f\<lparr>raf_change := v\<rparr>"
| "set_class_floor SelfTransfer v f = f\<lparr>raf_self_transfer := v\<rparr>"
| "set_class_floor Coinbase v f = f\<lparr>raf_coinbase := v\<rparr>"

definition reserve_recovery_coordinate ::
  "u32 \<Rightarrow> recovery_output_class \<Rightarrow> reserved_recovery_coordinate wallet_op" where
  "reserve_recovery_coordinate account class s =
     (case checked_add (class_floor class (ws_recovery_allocation_floors s)) 1 of
        None \<Rightarrow> (Inl AllocationOverflow, s)
      | Some index \<Rightarrow>
          (Inr \<lparr>rrc_account = account, rrc_derivation_index = index, rrc_class = class\<rparr>,
           s\<lparr>ws_recovery_allocation_floors :=
                set_class_floor class index (ws_recovery_allocation_floors s),
              ws_non_reuse_floor := max (ws_non_reuse_floor s) index\<rparr>))"

definition resume_recovery_coordinate ::
  "u32 \<Rightarrow> u64 \<Rightarrow> recovery_output_class \<Rightarrow> wallet_state \<Rightarrow>
     domain_error + reserved_recovery_coordinate" where
  "resume_recovery_coordinate account index class s =
     (if index = 0 \<or> class_floor class (ws_recovery_allocation_floors s) < index
      then Inl InvalidState
      else Inr \<lparr>rrc_account = account, rrc_derivation_index = index, rrc_class = class\<rparr>)"

subsection \<open>Private output blindings and ownership\<close>

definition output_blinding :: "wallet_state \<Rightarrow> uuid \<Rightarrow> bytes option" where
  "output_blinding s oid =
     map_option pob_blinding
       (find (\<lambda>secret. pob_output_id secret = oid) (ws_private_output_blindings s))"

definition remember_output_blinding :: "uuid \<Rightarrow> bytes \<Rightarrow> wallet_state \<Rightarrow> wallet_state" where
  "remember_output_blinding oid blinding s =
     (case find (\<lambda>secret. pob_output_id secret = oid) (ws_private_output_blindings s) of
        Some existing \<Rightarrow>
          s\<lparr>ws_private_output_blindings :=
              update_first (\<lambda>secret. pob_output_id secret = oid)
                (\<lambda>secret. secret\<lparr>pob_blinding := blinding\<rparr>) (ws_private_output_blindings s)\<rparr>
      | None \<Rightarrow>
          s\<lparr>ws_private_output_blindings := ws_private_output_blindings s
              @ [\<lparr>pob_output_id = oid, pob_blinding = blinding\<rparr>]\<rparr>)"

definition classify_commitment :: "wallet_state \<Rightarrow> bytes \<Rightarrow> output_ownership" where
  "classify_commitment s c =
     (case find (\<lambda>out. or_commitment out = Some c) (ws_outputs s) of
        Some out \<Rightarrow> KnownLocalOutput out
      | None \<Rightarrow> NotOwnedOrUnprovable)"

definition wallet_balance :: "wallet_state \<Rightarrow> balance_projection" where
  "wallet_balance s = from_outputs (ws_outputs s)"

subsection \<open>Lemmas\<close>

lemma class_floor_set_class_floor [simp]: "class_floor c (set_class_floor c v f) = v"
  by (cases c) simp_all

lemma migrate_exposures_spec:
  assumes "migrate_exposures legacy c ts = (c', ts')"
  shows "list_all2 (\<lambda>t t'. t' = t\<lparr>tx_exposure := max (tx_exposure t)
      (if legacy then infer_legacy_exposure (tx_lifecycle t) (tx_submitted t)
       else minimum_current_exposure (tx_lifecycle t) (tx_submitted t))\<rparr>) ts ts'"
  using assms
  by (induction ts arbitrary: c c' ts') (auto simp: Let_def max_def split: if_splits prod.splits)

lemma exposure_update_changes: "t\<lparr>tx_exposure := e\<rparr> = t \<Longrightarrow> tx_exposure t = e"
  by (metis local_transaction_intent.select_convs(9) local_transaction_intent.surjective
      local_transaction_intent.update_convs(9))

lemma migrate_exposures_changed:
  "migrate_exposures legacy c ts = (c', ts') \<Longrightarrow> c' \<longleftrightarrow> c \<or> ts' \<noteq> ts"
proof (induction ts arbitrary: c c' ts')
  case Nil
  then show ?case by simp
next
  case (Cons t ts)
  then show ?case
    by (auto simp: Let_def split: if_splits prod.splits dest: exposure_update_changes)
qed

lemma migrate_exposures_floor:
  assumes "migrate_exposures legacy c ts = (c', ts')"
  shows "\<forall>t \<in> set ts'. exposure_floor_ok t"
proof -
  have "exposure_floor_ok t'" if "t' = t\<lparr>tx_exposure := max (tx_exposure t)
      (if legacy then infer_legacy_exposure (tx_lifecycle t) (tx_submitted t)
       else minimum_current_exposure (tx_lifecycle t) (tx_submitted t))\<rparr>" for t t'
    using that minimum_le_legacy [of "tx_lifecycle t" "tx_submitted t"]
    by (auto simp: exposure_floor_ok_def le_max_iff_disj)
  with migrate_exposures_spec [OF assms] show ?thesis
    by (fastforce simp: list_all2_conv_all_nth in_set_conv_nth)
qed

lemma find_append: "find P (xs @ ys) = (case find P xs of None \<Rightarrow> find P ys | Some x \<Rightarrow> Some x)"
  by (induction xs) auto

lemma find_update_first_other:
  assumes "\<And>x. P x \<Longrightarrow> \<not> Q x" and "\<And>x. P x \<Longrightarrow> \<not> Q (f x)"
  shows "find Q (update_first P f xs) = find Q xs"
  using assms by (induction xs) auto

lemma output_blinding_remember:
  "output_blinding (remember_output_blinding oid b s) oid' =
     (if oid' = oid then Some b else output_blinding s oid')"
proof (cases "find (\<lambda>secret. pob_output_id secret = oid) (ws_private_output_blindings s)")
  case None
  then show ?thesis
    by (auto simp: output_blinding_def remember_output_blinding_def find_append split: option.splits)
next
  case (Some e)
  let ?P = "\<lambda>oid secret. pob_output_id secret = oid"
  let ?f = "\<lambda>secret. secret\<lparr>pob_blinding := b\<rparr>"
  have "find (?P oid) (update_first (?P oid) ?f (ws_private_output_blindings s)) = Some (?f e)"
    using Some find_SomeD [OF Some] by (intro find_update_first) auto
  moreover have "oid' \<noteq> oid \<Longrightarrow>
      find (?P oid') (update_first (?P oid) ?f (ws_private_output_blindings s)) =
      find (?P oid') (ws_private_output_blindings s)"
    by (intro find_update_first_other) auto
  ultimately show ?thesis
    using Some by (auto simp: output_blinding_def remember_output_blinding_def)
qed

text \<open>What remembering a blinding leaves alone.\<close>

lemma remember_output_blinding_frame [simp]:
  "ws_outputs (remember_output_blinding oid b s) = ws_outputs s"
  "ws_transactions (remember_output_blinding oid b s) = ws_transactions s"
  "ws_funding_reservations (remember_output_blinding oid b s) = ws_funding_reservations s"
  "ws_payout_reservations (remember_output_blinding oid b s) = ws_payout_reservations s"
  "ws_default_account (remember_output_blinding oid b s) = ws_default_account s"
  "ws_allocation_floor (remember_output_blinding oid b s) = ws_allocation_floor s"
  "ws_non_reuse_floor (remember_output_blinding oid b s) = ws_non_reuse_floor s"
  "ws_recovery_allocation_floors (remember_output_blinding oid b s) =
     ws_recovery_allocation_floors s"
  "ws_generation (remember_output_blinding oid b s) = ws_generation s"
  "ws_swap_sessions (remember_output_blinding oid b s) = ws_swap_sessions s"
  "ws_next_swap_leg_index (remember_output_blinding oid b s) = ws_next_swap_leg_index s"
  "ws_wallet_id (remember_output_blinding oid b s) = ws_wallet_id s"
  "ws_identity (remember_output_blinding oid b s) = ws_identity s"
  "ws_rescan_plan (remember_output_blinding oid b s) = ws_rescan_plan s"
  by (simp_all add: remember_output_blinding_def split: option.split)

lemma allocate_ok:
  "allocate s = (Inr i, s') \<Longrightarrow>
     unat i = unat (ws_allocation_floor s) + 1 \<and> ws_allocation_floor s' = i \<and>
     ws_non_reuse_floor s' = max (ws_non_reuse_floor s) i"
  by (auto simp: allocate_def split: option.splits dest: checked_add_SomeD)

lemma allocate_error: "allocate s = (Inl e, s') \<Longrightarrow> s' = s \<and> e = AllocationOverflow"
  by (auto simp: allocate_def split: option.splits)

lemma reserve_ok:
  "reserve_recovery_coordinate acct class s = (Inr rc, s') \<Longrightarrow>
     unat (rrc_derivation_index rc) = unat (class_floor class (ws_recovery_allocation_floors s)) + 1 \<and>
     ws_recovery_allocation_floors s' =
       set_class_floor class (rrc_derivation_index rc) (ws_recovery_allocation_floors s) \<and>
     ws_non_reuse_floor s' = max (ws_non_reuse_floor s) (rrc_derivation_index rc) \<and>
     rrc_account rc = acct \<and> rrc_class rc = class"
  by (auto simp: reserve_recovery_coordinate_def split: option.splits dest: checked_add_SomeD)

lemma reserve_error:
  "reserve_recovery_coordinate acct class s = (Inl e, s') \<Longrightarrow> s' = s \<and> e = AllocationOverflow"
  by (auto simp: reserve_recovery_coordinate_def split: option.splits)

subsection \<open>Properties\<close>

definition sample_identity :: network_identity where
  "sample_identity = \<lparr>ni_network = Mainnet, ni_chain_id = zeros 32, ni_genesis_id = zeros 32\<rparr>"

definition sample_node :: node_configuration where
  "sample_node =
     \<lparr>nc_endpoint_url = ''https://node'', nc_expected_identity = sample_identity,
      nc_source_identity = ''node'', nc_api_compatibility_version = 1, nc_connect_timeout_ms = 1000,
      nc_request_timeout_ms = 1000, nc_poll_interval_ms = 1000, nc_retry_ceiling = 5,
      nc_max_backoff_ms = 60000, nc_stable_success_threshold = 2, nc_tls_required = True,
      nc_credential_reference = None\<rparr>"

definition sample_wallet :: wallet_state where
  "sample_wallet = wallet_new 1 2 sample_identity (zeros 32) sample_node"

lemma migrate_exposures_stable:
  "\<forall>t \<in> set ts. exposure_floor_ok t \<Longrightarrow> migrate_exposures False c ts = (c, ts)"
  by (induction ts) (auto simp: exposure_floor_ok_def Let_def)

text \<open>
  The exposure migration refuses unknown versions without touching the wallet; otherwise it
  only raises exposures, leaves every transaction at or above the floor that the validator asks
  for, and a second run changes nothing.
\<close>

theorem exposure_migration:
  assumes "migrate_transaction_exposure s = (r, s')"
  shows "case r of
      Inl e \<Rightarrow> s' = s \<and> e = UnsupportedVersion
    | Inr changed \<Rightarrow>
        list_all2 (\<lambda>t t'. \<exists>e. t' = t\<lparr>tx_exposure := e\<rparr> \<and> tx_exposure t \<le> e)
          (ws_transactions s) (ws_transactions s') \<and>
        (\<forall>t \<in> set (ws_transactions s'). exposure_floor_ok t) \<and>
        migrate_transaction_exposure s' = (Inr False, s')"
proof (cases r)
  case (Inl e)
  then show ?thesis
    using assms by (auto simp: migrate_transaction_exposure_def Let_def split: if_splits prod.splits)
next
  case (Inr changed)
  let ?v = "ws_transaction_exposure_version s"
  obtain ts where run: "migrate_exposures (?v = 0) (?v = 0) (ws_transactions s) = (changed, ts)"
    and s': "s' = s\<lparr>ws_transactions := ts, ws_transaction_exposure_version := TRANSACTION_EXPOSURE_VERSION\<rparr>"
    using assms Inr by (auto simp: migrate_transaction_exposure_def Let_def split: if_splits prod.splits)
  note floor = migrate_exposures_floor [OF run]
  have "list_all2 (\<lambda>t t'. \<exists>e. t' = t\<lparr>tx_exposure := e\<rparr> \<and> tx_exposure t \<le> e) (ws_transactions s) ts"
    using migrate_exposures_spec [OF run] by (rule list_all2_mono) (use max.cobounded1 in blast)
  moreover have "migrate_transaction_exposure s' = (Inr False, s')"
    using migrate_exposures_stable [OF floor]
    by (simp add: s' migrate_transaction_exposure_def TRANSACTION_EXPOSURE_VERSION_def)
  ultimately show ?thesis using Inr floor s' by simp
qed

theorem exposure_migration_witness:
  "let s = sample_wallet\<lparr>ws_transaction_exposure_version := 0,
             ws_transactions := [sample_intent L_Submitted NeverBroadcast]\<rparr>
   in case migrate_transaction_exposure s of (r, s') \<Rightarrow>
        r = Inr True \<and> list_all exposure_floor_ok (ws_transactions s')"
proof -
  let ?s = "sample_wallet\<lparr>ws_transaction_exposure_version := 0,
      ws_transactions := [sample_intent L_Submitted NeverBroadcast]\<rparr>"
  obtain s' where run: "migrate_transaction_exposure ?s = (Inr True, s')"
    by (simp add: migrate_transaction_exposure_def Let_def infer_legacy_exposure_def sample_intent_def
        exposure_order)
  show ?thesis using exposure_migration [OF run] run by (simp add: Let_def list_all_iff)
qed

end
