(* ===== verification/Wallet_Validate.thy ===== *)
theory Wallet_Validate
  imports Wallet_State
begin

text \<open>
  The state validator: \<open>WalletState::validate\<close> with its two sub-validators
  \<open>validate_scriptless_funding_reservations\<close> and \<open>validate_scriptless_payout_reservations\<close>.
  The loops carry the \<open>BTreeSet\<close>s of the source as sets in an accumulator record, and every
  early return is a branch. The lemmas extract what a validated state is known to satisfy.
\<close>

subsection \<open>Funding reservations\<close>

record funding_seen =
  fs_ids :: "uuid set"
  fs_sessions :: "bytes set"
  fs_inputs :: "uuid set"
  fs_commitments :: "bytes set"

definition funding_seen_empty :: funding_seen where
  "funding_seen_empty = \<lparr>fs_ids = {}, fs_sessions = {}, fs_inputs = {}, fs_commitments = {}\<rparr>"

definition funding_has_change :: "funding_reservation \<Rightarrow> bool" where
  "funding_has_change r = (fr_change_value_noms r \<noteq> 0)"

definition funding_prepared :: "funding_state \<Rightarrow> bool" where
  "funding_prepared st =
     (st \<in> {FR_Prepared, FR_SessionBound, FR_Exported, FR_TemplateBound, FR_AbandonedRetained})"

text \<open>The structural checks on one reservation, before its inputs are looked at.\<close>

definition funding_header_bad ::
  "recovery_allocation_floors \<Rightarrow> funding_seen \<Rightarrow> funding_reservation \<Rightarrow> bool" where
  "funding_header_bad floors seen r \<longleftrightarrow>
     (let is_zero_debit_signer = (fr_local_debit_noms r = 0); has_change = funding_has_change r in
      fr_version r \<noteq> SCRIPTLESS_FUNDING_RESERVATION_VERSION
    \<or> fr_id r = nil_uuid
    \<or> fr_session_id r = zeros 32
    \<or> fr_shared_output_commitment r = zeros 33
    \<or> fr_funding_fee_noms r = 0
    \<or> (\<not> is_zero_debit_signer \<and> fr_expected_input_count r = 0)
    \<or> fr_expected_output_count r = 0
    \<or> (fr_reserved_output_ids r = []) \<noteq> is_zero_debit_signer
    \<or> length (fr_reserved_output_ids r) \<noteq> length (fr_input_commitments r)
    \<or> unat (fr_expected_input_count r) < length (fr_reserved_output_ids r)
    \<or> unat (fr_expected_output_count r) < (if has_change then 1 else 0) + (1::nat)
    \<or> (is_zero_debit_signer
        \<and> (has_change \<or> fr_change_derivation_index r \<noteq> None \<or> fr_change_output_id r \<noteq> None))
    \<or> list_ex (\<lambda>c. length c \<noteq> 33) (fr_input_commitments r)
    \<or> fr_id r \<in> fs_ids seen
    \<or> fr_session_id r \<in> fs_sessions seen
    \<or> has_change \<noteq> (fr_change_derivation_index r \<noteq> None)
    \<or> has_change \<noteq> (fr_change_output_id r \<noteq> None)
    \<or> (case fr_change_derivation_index r of None \<Rightarrow> False
       | Some index \<Rightarrow> index = 0 \<or> raf_change floors < index))"

definition has_prepared_fields :: "funding_reservation \<Rightarrow> bool" where
  "has_prepared_fields r \<longleftrightarrow>
     (fr_change_commitment r \<noteq> None) = funding_has_change r
   \<and> (fr_change_output_bytes r = []) \<noteq> funding_has_change r
   \<and> fr_offset_contribution r \<noteq> None
   \<and> length (fr_wallet_excess_public_key r) = 33
   \<and> (case fr_private_context r of None \<Rightarrow> False
      | Some c \<Rightarrow> funding_context_valid c (funding_has_change r))"

definition funding_no_material :: "funding_reservation \<Rightarrow> bool" where
  "funding_no_material r \<longleftrightarrow>
     fr_change_commitment r = None
   \<and> fr_change_output_bytes r = []
   \<and> fr_offset_contribution r = None
   \<and> fr_wallet_excess_public_key r = []
   \<and> fr_template_hash r = None
   \<and> fr_session_share_binding_digest r = None
   \<and> fr_participant_position r = None
   \<and> fr_template_participants r = None
   \<and> fr_private_context r = None"

definition none_or_zero :: "bytes option \<Rightarrow> bool" where
  "none_or_zero x = (case x of None \<Rightarrow> True | Some b \<Rightarrow> b = zeros 32)"

definition position_invalid :: "u32 option \<Rightarrow> bool" where
  "position_invalid p =
     (case p of None \<Rightarrow> True | Some pos \<Rightarrow> SCRIPTLESS_PARTICIPANT_COUNT_V1 \<le> pos)"

definition participants_invalid :: "template_participants option \<Rightarrow> bool" where
  "participants_invalid p =
     (case p of None \<Rightarrow> True | Some q \<Rightarrow> \<not> template_participants_valid q)"

definition funding_state_bad :: "funding_reservation \<Rightarrow> bool" where
  "funding_state_bad r \<longleftrightarrow>
     (case fr_state r of
        FR_Reserved \<Rightarrow> \<not> funding_no_material r
      | FR_Prepared \<Rightarrow>
          \<not> has_prepared_fields r \<or> fr_template_hash r \<noteq> None
          \<or> fr_session_share_binding_digest r \<noteq> None \<or> fr_participant_position r \<noteq> None
          \<or> fr_template_participants r \<noteq> None
      | FR_SessionBound \<Rightarrow>
          \<not> has_prepared_fields r \<or> fr_template_hash r \<noteq> None
          \<or> none_or_zero (fr_session_share_binding_digest r)
          \<or> position_invalid (fr_participant_position r) \<or> fr_template_participants r \<noteq> None
      | FR_Exported \<Rightarrow>
          \<not> has_prepared_fields r \<or> fr_template_hash r \<noteq> None
          \<or> none_or_zero (fr_session_share_binding_digest r)
          \<or> position_invalid (fr_participant_position r) \<or> fr_template_participants r \<noteq> None
      | FR_TemplateBound \<Rightarrow>
          \<not> has_prepared_fields r \<or> none_or_zero (fr_template_hash r)
          \<or> none_or_zero (fr_session_share_binding_digest r)
          \<or> position_invalid (fr_participant_position r)
          \<or> participants_invalid (fr_template_participants r)
      | FR_AbandonedRetained \<Rightarrow>
          \<not> has_prepared_fields r
          \<or> none_or_zero (fr_session_share_binding_digest r)
          \<or> position_invalid (fr_participant_position r)
          \<or> (fr_template_hash r \<noteq> None) \<noteq> (fr_template_participants r \<noteq> None)
          \<or> fr_template_hash r = Some (zeros 32)
          \<or> (fr_template_participants r \<noteq> None
              \<and> participants_invalid (fr_template_participants r))
      | FR_Cancelled \<Rightarrow> \<not> funding_no_material r)"

text \<open>
  The loop over the inputs of one reservation. It threads the identifiers and commitments seen in
  this reservation, those seen in all retained reservations, the total of the inputs present in
  the wallet and whether all of them are present.
\<close>

fun funding_inputs_check ::
  "output_record list \<Rightarrow> funding_reservation \<Rightarrow> (uuid \<times> bytes) list \<Rightarrow> uuid set \<Rightarrow> bytes set \<Rightarrow>
   funding_seen \<Rightarrow> u64 \<Rightarrow> bool \<Rightarrow> domain_error + (funding_seen \<times> u64 \<times> bool)" where
  "funding_inputs_check outs r [] local_ids local_commitments seen acc present =
     Inr (seen, acc, present)"
| "funding_inputs_check outs r ((oid, c) # rest) local_ids local_commitments seen acc present =
     (if oid \<in> local_ids \<or> c \<in> local_commitments
      then Inl InvalidScriptlessFundingReservation
      else if retains_inputs (fr_state r) \<and> (oid \<in> fs_inputs seen \<or> c \<in> fs_commitments seen)
      then Inl InvalidScriptlessFundingReservation
      else
        let seen' = (if retains_inputs (fr_state r)
                     then seen\<lparr>fs_inputs := insert oid (fs_inputs seen),
                               fs_commitments := insert c (fs_commitments seen)\<rparr>
                     else seen)
        in case find (\<lambda>out. or_id out = oid) outs of
             None \<Rightarrow>
               funding_inputs_check outs r rest (insert oid local_ids)
                 (insert c local_commitments) seen' acc False
           | Some out \<Rightarrow>
               if or_commitment out \<noteq> Some c then Inl InvalidScriptlessFundingReservation
               else (case checked_add acc (or_value out) of
                 None \<Rightarrow> Inl InvalidScriptlessFundingReservation
               | Some acc' \<Rightarrow>
                   if (if retains_inputs (fr_state r)
                       then (is_spent (or_state out) \<and> or_reserved_by out = None)
                          \<or> (or_reserved_by out = Some (fr_id r) \<and> or_state out = PendingOutgoing)
                       else or_reserved_by out \<noteq> Some (fr_id r))
                   then funding_inputs_check outs r rest (insert oid local_ids)
                          (insert c local_commitments) seen' acc' present
                   else Inl InvalidScriptlessFundingReservation))"

definition funding_change_check :: "wallet_state \<Rightarrow> funding_reservation \<Rightarrow> domain_error + unit" where
  "funding_change_check s r =
     (if funding_prepared (fr_state r) \<and> funding_has_change r
      then res_bind (ok_or (fr_change_output_id r) InvalidScriptlessFundingReservation) (\<lambda>oid.
           res_bind (ok_or (find (\<lambda>out. or_id out = oid) (ws_outputs s))
                      InvalidScriptlessFundingReservation) (\<lambda>chg.
           ensure (\<not> (or_commitment chg \<noteq> fr_change_commitment r
                    \<or> or_value chg \<noteq> fr_change_value_noms r
                    \<or> or_account_id chg \<noteq> acc_id (ws_default_account s)
                    \<or> output_blinding s oid = None))
             InvalidScriptlessFundingReservation))
      else ensure
        (\<not> (fr_state r = FR_Cancelled
            \<and> (case fr_change_output_id r of None \<Rightarrow> False
               | Some oid \<Rightarrow> list_ex (\<lambda>out. or_id out = oid) (ws_outputs s))))
        InvalidScriptlessFundingReservation)"

definition funding_check_one ::
  "wallet_state \<Rightarrow> funding_reservation \<Rightarrow> funding_seen \<Rightarrow> domain_error + funding_seen" where
  "funding_check_one s r seen =
     res_bind (ensure (\<not> funding_header_bad (ws_recovery_allocation_floors s) seen r)
                InvalidScriptlessFundingReservation) (\<lambda>_.
     res_bind (ensure (\<not> funding_state_bad r) InvalidScriptlessFundingReservation) (\<lambda>_.
     res_bind (funding_inputs_check (ws_outputs s) r
                 (zip (fr_reserved_output_ids r) (fr_input_commitments r)) {} {}
                 (seen\<lparr>fs_ids := insert (fr_id r) (fs_ids seen),
                       fs_sessions := insert (fr_session_id r) (fs_sessions seen)\<rparr>) 0 True)
       (\<lambda>(seen', acc, present).
     res_bind (if present
               then res_bind (ok_or (checked_add (fr_local_debit_noms r) (fr_change_value_noms r))
                               InvalidScriptlessFundingReservation)
                      (\<lambda>need. ensure (acc = need) InvalidScriptlessFundingReservation)
               else Inr ()) (\<lambda>_.
     res_bind (funding_change_check s r) (\<lambda>_.
     Inr seen')))))"

fun funding_check_all ::
  "wallet_state \<Rightarrow> funding_reservation list \<Rightarrow> funding_seen \<Rightarrow> domain_error + funding_seen" where
  "funding_check_all s [] seen = Inr seen"
| "funding_check_all s (r # rs) seen =
     res_bind (funding_check_one s r seen) (funding_check_all s rs)"

definition ordinary_owner :: "wallet_state \<Rightarrow> uuid \<Rightarrow> uuid \<Rightarrow> bool" where
  "ordinary_owner s owner oid =
     list_ex (\<lambda>t. tx_id t = owner \<and> List.member (tx_reserved_output_ids t) oid
                \<and> tx_lifecycle t \<notin> {L_Cancelled, L_Failed}) (ws_transactions s)"

definition scriptless_owner :: "wallet_state \<Rightarrow> uuid \<Rightarrow> uuid \<Rightarrow> bool" where
  "scriptless_owner s owner oid =
     list_ex (\<lambda>r. fr_id r = owner \<and> retains_inputs (fr_state r)
                \<and> List.member (fr_reserved_output_ids r) oid) (ws_funding_reservations s)"

fun owners_check :: "wallet_state \<Rightarrow> output_record list \<Rightarrow> domain_error + unit" where
  "owners_check s [] = Inr ()"
| "owners_check s (out # outs) =
     (case or_reserved_by out of
        None \<Rightarrow> owners_check s outs
      | Some owner \<Rightarrow>
          if is_spent (or_state out) then owners_check s outs
          else if ordinary_owner s owner (or_id out) = scriptless_owner s owner (or_id out)
          then Inl InvalidState
          else owners_check s outs)"

definition validate_scriptless_funding_reservations :: "wallet_state \<Rightarrow> domain_error + unit" where
  "validate_scriptless_funding_reservations s =
     res_bind (ensure (length (ws_funding_reservations s) \<le> MAX_OUTPUTS)
                InvalidScriptlessFundingReservation) (\<lambda>_.
     res_bind (funding_check_all s (ws_funding_reservations s) funding_seen_empty) (\<lambda>_.
     owners_check s (ws_outputs s)))"

subsection \<open>Payout reservations\<close>

record payout_seen =
  ps_ids :: "uuid set"
  ps_sessions_and_roles :: "(bytes \<times> payout_role) set"
  ps_output_ids :: "uuid set"
  ps_output_commitments :: "bytes set"

definition payout_seen_empty :: payout_seen where
  "payout_seen_empty =
     \<lparr>ps_ids = {}, ps_sessions_and_roles = {}, ps_output_ids = {}, ps_output_commitments = {}\<rparr>"

definition payout_has_output :: "payout_reservation \<Rightarrow> bool" where
  "payout_has_output r = (pr_payout_value_noms r \<noteq> 0)"

definition role_lock_is_valid :: "payout_reservation \<Rightarrow> bool" where
  "role_lock_is_valid r =
     (case pr_role r of Claim \<Rightarrow> pr_refund_lock_height r = 0
      | Refund \<Rightarrow> pr_refund_lock_height r \<noteq> 0)"

definition payout_header_bad ::
  "recovery_allocation_floors \<Rightarrow> payout_seen \<Rightarrow> payout_reservation \<Rightarrow> bool" where
  "payout_header_bad floors seen r \<longleftrightarrow>
     pr_version r \<noteq> SCRIPTLESS_PAYOUT_RESERVATION_VERSION
   \<or> pr_id r = nil_uuid
   \<or> pr_session_id r = zeros 32
   \<or> pr_shared_output_commitment r = zeros 33
   \<or> pr_kernel_fee_noms r = 0
   \<or> pr_expected_output_count r = 0
   \<or> (pr_output_id r \<noteq> None) \<noteq> payout_has_output r
   \<or> (pr_derivation_index r \<noteq> None) \<noteq> payout_has_output r
   \<or> pr_output_id r = Some nil_uuid
   \<or> (case pr_derivation_index r of None \<Rightarrow> False
      | Some index \<Rightarrow> index = 0 \<or> raf_self_transfer floors < index)
   \<or> \<not> role_lock_is_valid r
   \<or> pr_id r \<in> ps_ids seen
   \<or> (pr_session_id r, pr_role r) \<in> ps_sessions_and_roles seen
   \<or> (case pr_output_id r of None \<Rightarrow> False | Some oid \<Rightarrow> oid \<in> ps_output_ids seen)"

definition complete_material :: "payout_reservation \<Rightarrow> bool" where
  "complete_material r \<longleftrightarrow>
     (pr_output_commitment r \<noteq> None) = payout_has_output r
   \<and> (pr_output_bytes r = []) \<noteq> payout_has_output r
   \<and> pr_offset_contribution r \<noteq> None
   \<and> length (pr_payout_excess_public_key r) = 33
   \<and> (case pr_private_context r of None \<Rightarrow> False
      | Some c \<Rightarrow> payout_context_valid c (payout_has_output r))"

definition payout_no_material :: "payout_reservation \<Rightarrow> bool" where
  "payout_no_material r \<longleftrightarrow>
     pr_output_commitment r = None
   \<and> pr_output_bytes r = []
   \<and> pr_offset_contribution r = None
   \<and> pr_payout_excess_public_key r = []
   \<and> pr_template_hash r = None
   \<and> pr_session_share_binding_digest r = None
   \<and> pr_participant_position r = None
   \<and> pr_template_participants r = None
   \<and> pr_private_context r = None"

definition payout_material_bad :: "payout_reservation \<Rightarrow> bool" where
  "payout_material_bad r \<longleftrightarrow>
     has_prepared_material (pr_state r) \<noteq> complete_material r
   \<or> (\<not> has_prepared_material (pr_state r) \<and> \<not> payout_no_material r)
   \<or> pr_offset_contribution r = Some (zeros 32)
   \<or> pr_template_hash r = Some (zeros 32)"

definition payout_unbound :: "payout_reservation \<Rightarrow> bool" where
  "payout_unbound r \<longleftrightarrow>
     pr_template_hash r = None \<and> pr_session_share_binding_digest r = None
   \<and> pr_participant_position r = None \<and> pr_template_participants r = None"

definition payout_state_bad :: "payout_reservation \<Rightarrow> bool" where
  "payout_state_bad r \<longleftrightarrow>
     (case pr_state r of
        PR_Reserved \<Rightarrow> \<not> payout_unbound r
      | PR_Cancelled \<Rightarrow> \<not> payout_unbound r
      | PR_Prepared \<Rightarrow> \<not> payout_unbound r
      | PR_SessionBound \<Rightarrow>
          pr_template_hash r \<noteq> None \<or> none_or_zero (pr_session_share_binding_digest r)
          \<or> position_invalid (pr_participant_position r) \<or> pr_template_participants r \<noteq> None
      | PR_ComponentsExposed \<Rightarrow>
          pr_template_hash r \<noteq> None \<or> none_or_zero (pr_session_share_binding_digest r)
          \<or> position_invalid (pr_participant_position r) \<or> pr_template_participants r \<noteq> None
      | PR_TemplateBound \<Rightarrow>
          none_or_zero (pr_template_hash r) \<or> none_or_zero (pr_session_share_binding_digest r)
          \<or> position_invalid (pr_participant_position r)
          \<or> participants_invalid (pr_template_participants r)
      | PR_AbandonedRetained \<Rightarrow>
          none_or_zero (pr_session_share_binding_digest r)
          \<or> position_invalid (pr_participant_position r)
          \<or> (pr_template_hash r \<noteq> None) \<noteq> (pr_template_participants r \<noteq> None)
          \<or> (pr_template_participants r \<noteq> None
              \<and> participants_invalid (pr_template_participants r)))"

definition payout_output_check ::
  "wallet_state \<Rightarrow> payout_reservation \<Rightarrow> payout_seen \<Rightarrow> domain_error + payout_seen" where
  "payout_output_check s r seen =
     (if has_prepared_material (pr_state r) \<and> payout_has_output r
      then res_bind (ok_or (pr_output_commitment r) InvalidScriptlessPayoutReservation) (\<lambda>c.
           res_bind (ensure (c \<notin> ps_output_commitments seen) InvalidScriptlessPayoutReservation) (\<lambda>_.
           res_bind (ok_or (find (\<lambda>out. Some (or_id out) = pr_output_id r) (ws_outputs s))
                      InvalidScriptlessPayoutReservation) (\<lambda>out.
           res_bind (ok_or (pr_private_context r) InvalidScriptlessPayoutReservation) (\<lambda>ctx.
           case copy_output_blinding_to ctx (zeros 32) of
             (False, _) \<Rightarrow> Inl InvalidScriptlessPayoutReservation
           | (True, expected) \<Rightarrow>
               res_bind (ensure (\<not> (or_account_id out \<noteq> acc_id (ws_default_account s)
                                  \<or> or_commitment out \<noteq> Some c
                                  \<or> or_value out \<noteq> pr_payout_value_noms r
                                  \<or> output_blinding s (or_id out) \<noteq> Some expected))
                          InvalidScriptlessPayoutReservation) (\<lambda>_.
               Inr (seen\<lparr>ps_output_commitments := insert c (ps_output_commitments seen)\<rparr>))))))
      else res_bind (ensure
             (\<not> (case pr_output_id r of None \<Rightarrow> False
                 | Some oid \<Rightarrow> list_ex (\<lambda>out. or_id out = oid) (ws_outputs s)
                     \<or> list_ex (\<lambda>secret. pob_output_id secret = oid)
                         (ws_private_output_blindings s)))
             InvalidScriptlessPayoutReservation) (\<lambda>_. Inr seen))"

definition payout_check_one ::
  "wallet_state \<Rightarrow> payout_reservation \<Rightarrow> payout_seen \<Rightarrow> domain_error + payout_seen" where
  "payout_check_one s r seen =
     res_bind (ensure (\<not> payout_header_bad (ws_recovery_allocation_floors s) seen r)
                InvalidScriptlessPayoutReservation) (\<lambda>_.
     res_bind (ensure (\<not> payout_material_bad r) InvalidScriptlessPayoutReservation) (\<lambda>_.
     res_bind (ensure (\<not> payout_state_bad r) InvalidScriptlessPayoutReservation) (\<lambda>_.
     payout_output_check s r
       (seen\<lparr>ps_ids := insert (pr_id r) (ps_ids seen),
             ps_sessions_and_roles :=
               insert (pr_session_id r, pr_role r) (ps_sessions_and_roles seen),
             ps_output_ids := (case pr_output_id r of None \<Rightarrow> ps_output_ids seen
                               | Some oid \<Rightarrow> insert oid (ps_output_ids seen))\<rparr>))))"

fun payout_check_all ::
  "wallet_state \<Rightarrow> payout_reservation list \<Rightarrow> payout_seen \<Rightarrow> domain_error + payout_seen" where
  "payout_check_all s [] seen = Inr seen"
| "payout_check_all s (r # rs) seen =
     res_bind (payout_check_one s r seen) (payout_check_all s rs)"

definition validate_scriptless_payout_reservations :: "wallet_state \<Rightarrow> domain_error + unit" where
  "validate_scriptless_payout_reservations s =
     res_bind (ensure (length (ws_payout_reservations s) \<le> MAX_OUTPUTS)
                InvalidScriptlessPayoutReservation) (\<lambda>_.
     res_bind (payout_check_all s (ws_payout_reservations s) payout_seen_empty) (\<lambda>_.
     Inr ()))"

subsection \<open>The whole state\<close>

definition transaction_bad :: "local_transaction_intent \<Rightarrow> bool" where
  "transaction_bad t \<longleftrightarrow>
     (tx_kernel_excess t \<noteq> [] \<and> length (tx_kernel_excess t) \<noteq> 33)
   \<or> (tx_submitted t \<and> length (tx_kernel_excess t) \<noteq> 33)
   \<or> tx_exposure t < minimum_current_exposure (tx_lifecycle t) (tx_submitted t)"

fun sessions_validate :: "swap_session_record list \<Rightarrow> domain_error + unit" where
  "sessions_validate [] = Inr ()"
| "sessions_validate (r # rs) = res_bind (swap_session_validate r) (\<lambda>_. sessions_validate rs)"

definition rescan_plan_bad :: "wallet_state \<Rightarrow> rescan_plan \<Rightarrow> bool" where
  "rescan_plan_bad s plan \<longleftrightarrow>
     rp_wallet_id plan \<noteq> ws_wallet_id s
   \<or> rp_identity plan \<noteq> ws_identity s
   \<or> st_source_identity (rp_target plan) \<noteq> rp_source_identity plan
   \<or> rp_version plan \<noteq> 1
   \<or> rp_next_page_height plan < rp_recovery_start_height plan
   \<or> saturating_add (sb_end_height (st_scan_bounds (rp_target plan))) 1 < rp_next_page_height plan"

text \<open>
  The identifiers of the recovered accounts are inserted one by one into the set that already
  holds the default account; \<open>None\<close> is a repeated identifier or recovery account.
\<close>

fun collect_account_ids ::
  "uuid set \<Rightarrow> u32 set \<Rightarrow> recovered_account_mapping list \<Rightarrow> uuid set option" where
  "collect_account_ids ids recs [] = Some ids"
| "collect_account_ids ids recs (a # as) =
     (if ram_account_id a \<in> ids then None
      else if ram_recovery_account a \<in> recs then None
      else collect_account_ids (insert (ram_account_id a) ids)
             (insert (ram_recovery_account a) recs) as)"

definition accounts_bad :: "wallet_state \<Rightarrow> bool" where
  "accounts_bad s \<longleftrightarrow>
     MAX_ACCOUNTS < length (ws_recovered_accounts s)
   \<or> (case collect_account_ids {acc_id (ws_default_account s)} {} (ws_recovered_accounts s) of
        None \<Rightarrow> True
      | Some ids \<Rightarrow> list_ex (\<lambda>out. or_account_id out \<notin> ids) (ws_outputs s))"

fun blocks_broken :: "recovery_canonical_block list \<Rightarrow> bool" where
  "blocks_broken (a # b # rest) =
     (rcb_height b \<noteq> saturating_add (rcb_height a) 1
      \<or> rcb_previous_block_hash b \<noteq> rcb_block_hash a
      \<or> blocks_broken (b # rest))"
| "blocks_broken _ = False"

definition recovery_window_bad :: "wallet_state \<Rightarrow> bool" where
  "recovery_window_bad s \<longleftrightarrow>
     (case ws_core_scan_cursor s of None \<Rightarrow> False | Some c \<Rightarrow> length c \<noteq> 86)
   \<or> MAX_OUTPUTS < length (ws_recovery_canonical_blocks s)
   \<or> blocks_broken (ws_recovery_canonical_blocks s)
   \<or> (ws_recovery_scanned_blocks s \<noteq> 0
       \<and> unat (ws_recovery_scanned_blocks s) < length (ws_recovery_canonical_blocks s))"

fun metadata_bad ::
  "output_record list \<Rightarrow> uuid set \<Rightarrow> recovered_output_metadata list \<Rightarrow> bool" where
  "metadata_bad outs seen [] = False"
| "metadata_bad outs seen (m # ms) =
     (rom_output_id m \<in> seen
      \<or> \<not> list_ex (\<lambda>out. or_id out = rom_output_id m) outs
      \<or> rom_is_coinbase m \<noteq> (rom_domain m = D_Coinbase)
      \<or> rom_block_hash m = zeros 32
      \<or> metadata_bad outs (insert (rom_output_id m) seen) ms)"

definition known_commitments :: "output_record list \<Rightarrow> bytes list" where
  "known_commitments outs = List.map_filter or_commitment outs"

definition wallet_validate :: "wallet_state \<Rightarrow> domain_error + unit" where
  "wallet_validate s =
     res_bind (ensure (ws_model_version s = MODEL_VERSION
                     \<and> ws_secret_profile_version s = SECRET_PROFILE_VERSION) UnsupportedVersion) (\<lambda>_.
     res_bind (ensure (\<not> (MAX_OUTPUTS < length (ws_outputs s)
                         \<or> acc_label (ws_default_account s) = []
                         \<or> 128 < length (acc_label (ws_default_account s))
                         \<or> 4096 < mp_cpu_threads (ws_mining_preferences s)
                         \<or> ws_transaction_exposure_version s \<noteq> TRANSACTION_EXPOSURE_VERSION))
                InvalidState) (\<lambda>_.
     res_bind (node_configuration_validate (ws_node_configuration s)) (\<lambda>_.
     res_bind (ensure (identity_matches (ws_identity s)
                         (nc_expected_identity (ws_node_configuration s))) IdentityMismatch) (\<lambda>_.
     res_bind (ensure (ws_allocation_floor s \<le> ws_non_reuse_floor s) NonReuseFloorRegression) (\<lambda>_.
     res_bind (ensure (case ws_recovery s of None \<Rightarrow> True
                       | Some v \<Rightarrow> rm_scheme v = RECOVERY_SCHEME_BIP39_256_V1) InvalidState) (\<lambda>_.
     res_bind (case ws_provisional_target s of None \<Rightarrow> Inr ()
               | Some target \<Rightarrow> scan_target_validate target) (\<lambda>_.
     res_bind (ensure (\<not> list_ex transaction_bad (ws_transactions s))
                InvalidTransactionIntent) (\<lambda>_.
     res_bind (validate_scriptless_funding_reservations s) (\<lambda>_.
     res_bind (validate_scriptless_payout_reservations s) (\<lambda>_.
     res_bind (ensure (length (ws_swap_sessions s) \<le> MAX_SWAP_SESSIONS
                     \<and> ws_next_swap_leg_index s \<le> MAX_SWAP_LEG_INDEX) InvalidState) (\<lambda>_.
     res_bind (sessions_validate (ws_swap_sessions s)) (\<lambda>_.
     res_bind (ensure (case ws_rescan_plan s of None \<Rightarrow> True
                       | Some plan \<Rightarrow> \<not> rescan_plan_bad s plan) InvalidRescanPlan) (\<lambda>_.
     res_bind (ensure (\<not> accounts_bad s) InvalidState) (\<lambda>_.
     res_bind (ensure (\<not> recovery_window_bad s) InvalidState) (\<lambda>_.
     res_bind (ensure (\<not> list_ex (\<lambda>secret. \<not> list_ex (\<lambda>out. or_id out = pob_output_id secret)
                                          (ws_outputs s)) (ws_private_output_blindings s))
                InvalidState) (\<lambda>_.
     res_bind (ensure (\<not> has_repeat {} (known_commitments (ws_outputs s))) InvalidState) (\<lambda>_.
     ensure (\<not> metadata_bad (ws_outputs s) {} (ws_recovered_output_metadata s))
       InvalidState)))))))))))))))))"

subsection \<open>What a validated state satisfies\<close>

lemma funding_inputs_check_sets:
  assumes "funding_inputs_check outs r prs lids lcs seen acc present = Inr (seen', acc', present')"
  shows "distinct (map fst prs) \<and> set (map fst prs) \<inter> lids = {} \<and>
     fs_ids seen' = fs_ids seen \<and>
     (if retains_inputs (fr_state r)
      then fs_inputs seen' = fs_inputs seen \<union> set (map fst prs) \<and>
           set (map fst prs) \<inter> fs_inputs seen = {}
      else fs_inputs seen' = fs_inputs seen)"
  using assms
proof (induction prs arbitrary: lids lcs seen acc present)
  case Nil
  then show ?case by simp
next
  case (Cons p prs)
  obtain oid c where p: "p = (oid, c)" by fastforce
  define seen1 where "seen1 = (if retains_inputs (fr_state r)
      then seen\<lparr>fs_inputs := insert oid (fs_inputs seen),
                fs_commitments := insert c (fs_commitments seen)\<rparr> else seen)"
  from Cons.prems have guard: "oid \<notin> lids" "retains_inputs (fr_state r) \<Longrightarrow> oid \<notin> fs_inputs seen"
    by (auto simp: p split: if_splits)
  from Cons.prems obtain lids' lcs' acc1 present1 where
    "funding_inputs_check outs r prs (insert oid lids) lcs' seen1 acc1 present1 =
       Inr (seen', acc', present')"
    by (auto simp: p seen1_def Let_def split: if_splits option.splits)
  from Cons.IH [OF this] guard show ?case
    by (auto simp: p seen1_def split: if_splits)
qed

lemma funding_check_one_sets:
  assumes "funding_check_one s r seen = Inr seen'"
  shows "fr_id r \<notin> fs_ids seen \<and> fs_ids seen' = insert (fr_id r) (fs_ids seen) \<and>
     distinct (fr_reserved_output_ids r) \<and>
     (if retains_inputs (fr_state r)
      then fs_inputs seen' = fs_inputs seen \<union> set (fr_reserved_output_ids r) \<and>
           set (fr_reserved_output_ids r) \<inter> fs_inputs seen = {}
      else fs_inputs seen' = fs_inputs seen)"
proof -
  from assms have hdr: "\<not> funding_header_bad (ws_recovery_allocation_floors s) seen r"
    by (auto simp: funding_check_one_def res_simps)
  then have len: "length (fr_reserved_output_ids r) = length (fr_input_commitments r)"
    and fresh: "fr_id r \<notin> fs_ids seen"
    by (auto simp: funding_header_bad_def Let_def)
  from assms obtain seen1 acc present where
    "funding_inputs_check (ws_outputs s) r
       (zip (fr_reserved_output_ids r) (fr_input_commitments r)) {} {}
       (seen\<lparr>fs_ids := insert (fr_id r) (fs_ids seen),
             fs_sessions := insert (fr_session_id r) (fs_sessions seen)\<rparr>) 0 True =
     Inr (seen1, acc, present)" and "seen' = seen1"
    by (auto simp: funding_check_one_def res_simps)
  from funding_inputs_check_sets [OF this(1)] this(2) fresh len show ?thesis
    by auto
qed

text \<open>
  Across the whole list, retained reservations hold pairwise disjoint inputs and every
  reservation has its own identifier.
\<close>

lemma funding_check_all_disjoint:
  assumes "funding_check_all s rs seen = Inr seen'"
  shows "distinct (map fr_id rs) \<and> set (map fr_id rs) \<inter> fs_ids seen = {} \<and>
     (\<forall>r \<in> set rs. retains_inputs (fr_state r) \<longrightarrow> set (fr_reserved_output_ids r) \<inter> fs_inputs seen = {}) \<and>
     (\<forall>r \<in> set rs. \<forall>q \<in> set rs. r \<noteq> q \<longrightarrow>
        retains_inputs (fr_state r) \<longrightarrow> retains_inputs (fr_state q) \<longrightarrow>
        set (fr_reserved_output_ids r) \<inter> set (fr_reserved_output_ids q) = {})"
  using assms
proof (induction rs arbitrary: seen)
  case Nil
  then show ?case by simp
next
  case (Cons r rs)
  then obtain seen1 where one: "funding_check_one s r seen = Inr seen1"
    and rest: "funding_check_all s rs seen1 = Inr seen'"
    by (auto simp: res_simps)
  note h = funding_check_one_sets [OF one]
  note ih = Cons.IH [OF rest]
  have mono: "fs_inputs seen \<subseteq> fs_inputs seen1" using h by (auto split: if_splits)
  have sep: "set (fr_reserved_output_ids r) \<inter> set (fr_reserved_output_ids q) = {}"
    if "q \<in> set rs" "retains_inputs (fr_state q)" "retains_inputs (fr_state r)" for q
    using that h ih by fastforce
  have "\<forall>p \<in> set (r # rs). \<forall>q \<in> set (r # rs). p \<noteq> q \<longrightarrow>
        retains_inputs (fr_state p) \<longrightarrow> retains_inputs (fr_state q) \<longrightarrow>
        set (fr_reserved_output_ids p) \<inter> set (fr_reserved_output_ids q) = {}"
  proof (intro ballI impI)
    fix p q
    assume "p \<in> set (r # rs)" "q \<in> set (r # rs)" "p \<noteq> q"
      and ret: "retains_inputs (fr_state p)" "retains_inputs (fr_state q)"
    then consider "p = r" "q \<in> set rs" | "q = r" "p \<in> set rs" | "p \<in> set rs" "q \<in> set rs"
      by auto
    then show "set (fr_reserved_output_ids p) \<inter> set (fr_reserved_output_ids q) = {}"
      using sep ret ih \<open>p \<noteq> q\<close> by cases (simp_all add: Int_commute)
  qed
  moreover have "distinct (map fr_id (r # rs)) \<and> set (map fr_id (r # rs)) \<inter> fs_ids seen = {}"
    using h ih by auto
  moreover have "\<forall>q \<in> set (r # rs). retains_inputs (fr_state q) \<longrightarrow>
      set (fr_reserved_output_ids q) \<inter> fs_inputs seen = {}"
    using h ih mono by fastforce
  ultimately show ?case by blast
qed

lemma owners_check_ok:
  "owners_check s outs = Inr u \<longleftrightarrow>
     (\<forall>out \<in> set outs. \<forall>owner. or_reserved_by out = Some owner \<longrightarrow> \<not> is_spent (or_state out) \<longrightarrow>
        ordinary_owner s owner (or_id out) \<noteq> scriptless_owner s owner (or_id out))"
  by (induction outs) (auto split: option.splits)

lemma owners_check_error: "owners_check s outs = Inl e \<Longrightarrow> e = InvalidState"
  by (induction outs) (auto split: option.splits if_splits)

text \<open>The parts of a successful validation, one fact per check.\<close>

lemma wallet_validateD:
  assumes "wallet_validate s = Inr u"
  shows "ws_allocation_floor s \<le> ws_non_reuse_floor s"
    and "\<not> list_ex transaction_bad (ws_transactions s)"
    and "validate_scriptless_funding_reservations s = Inr ()"
    and "validate_scriptless_payout_reservations s = Inr ()"
    and "distinct (known_commitments (ws_outputs s))"
    and "\<not> accounts_bad s"
    and "length (ws_outputs s) \<le> MAX_OUTPUTS"
    and "ws_identity s = nc_expected_identity (ws_node_configuration s)"
    and "sessions_validate (ws_swap_sessions s) = Inr ()"
    and "ws_next_swap_leg_index s \<le> MAX_SWAP_LEG_INDEX"
    and "length (ws_swap_sessions s) \<le> MAX_SWAP_SESSIONS"
    and "\<And>plan. ws_rescan_plan s = Some plan \<Longrightarrow> \<not> rescan_plan_bad s plan"
    and "\<not> metadata_bad (ws_outputs s) {} (ws_recovered_output_metadata s)"
    and "\<not> recovery_window_bad s"
  using assms by (auto simp: wallet_validate_def res_simps identity_matches_def)

lemma transaction_bad_floor: "\<not> transaction_bad t \<Longrightarrow> exposure_floor_ok t"
  by (auto simp: transaction_bad_def exposure_floor_ok_def not_less)

text \<open>Who holds an unspent reserved output of a valid wallet.\<close>

lemma validated_owner:
  assumes "wallet_validate s = Inr ()" and "out \<in> set (ws_outputs s)"
    and "or_reserved_by out = Some owner" and "\<not> is_spent (or_state out)"
  shows "(\<exists>t \<in> set (ws_transactions s). tx_id t = owner \<and> or_id out \<in> set (tx_reserved_output_ids t) \<and>
          tx_lifecycle t \<notin> {L_Cancelled, L_Failed}) \<noteq>
       (\<exists>r \<in> set (ws_funding_reservations s). fr_id r = owner \<and> retains_inputs (fr_state r) \<and>
          or_id out \<in> set (fr_reserved_output_ids r))"
proof -
  have "owners_check s (ws_outputs s) = Inr ()"
    using wallet_validateD(3) [OF assms(1)]
    by (auto simp: validate_scriptless_funding_reservations_def res_simps)
  then show ?thesis
    using assms(2-4) unfolding owners_check_ok
    by (auto simp: ordinary_owner_def scriptless_owner_def list_ex_iff)
qed

subsection \<open>Properties\<close>

definition sample_output :: "uuid \<Rightarrow> u8 \<Rightarrow> u64 \<Rightarrow> output_state \<Rightarrow> uuid option \<Rightarrow> output_record" where
  "sample_output oid c v st owner =
     \<lparr>or_id = oid, or_account_id = 2, or_commitment = Some (c # zeros 32), or_value = v, or_state = st,
      or_discovered_height = 0, or_reserved_by = owner\<rparr>"

definition sample_reserved :: wallet_state where
  "sample_reserved = sample_wallet\<lparr>ws_outputs := [sample_output 5 8 7 PendingOutgoing (Some 1)],
     ws_transactions := [(sample_intent L_InputsReserved NeverBroadcast)\<lparr>tx_reserved_output_ids := [5]\<rparr>]\<rparr>"

lemmas validate_defs = wallet_validate_def node_configuration_validate_def identity_matches_def
  starts_with_def validate_scriptless_funding_reservations_def
  validate_scriptless_payout_reservations_def accounts_bad_def recovery_window_bad_def
  known_commitments_def List.map_filter_simps transaction_bad_def minimum_current_exposure_def
  ordinary_owner_def scriptless_owner_def MAX_OUTPUTS_def MAX_ACCOUNTS_def MAX_SWAP_SESSIONS_def
  MAX_SWAP_LEG_INDEX_def MODEL_VERSION_def SECRET_PROFILE_VERSION_def TRANSACTION_EXPOSURE_VERSION_def

lemmas sample_wallet_defs = sample_wallet_def wallet_new_def sample_node_def sample_identity_def
  sample_output_def sample_intent_def mining_default_def zeros_def

lemma sample_reserved_valid: "wallet_validate sample_reserved = Inr ()"
  by (simp add: sample_reserved_def validate_defs sample_wallet_defs exposure_order)

text \<open>
  A freshly created wallet passes validation exactly when its node configuration does and
  expects the wallet's own chain identity.
\<close>

theorem new_wallet_valid:
  "wallet_validate (wallet_new wallet_id account_id identity root_material node) = Inr () \<longleftrightarrow>
     node_configuration_validate node = Inr () \<and> identity = nc_expected_identity node"
proof -
  have rest: "validate_scriptless_funding_reservations
        (wallet_new wallet_id account_id identity root_material node) = Inr ()"
      "validate_scriptless_payout_reservations
        (wallet_new wallet_id account_id identity root_material node) = Inr ()"
      "\<not> accounts_bad (wallet_new wallet_id account_id identity root_material node)"
      "\<not> recovery_window_bad (wallet_new wallet_id account_id identity root_material node)"
    by (simp_all add: validate_defs wallet_new_def)
  then show ?thesis
    by (simp add: wallet_validate_def res_simps identity_matches_def)
      (simp add: wallet_new_def mining_default_def MAX_OUTPUTS_def MAX_SWAP_SESSIONS_def
        known_commitments_def List.map_filter_simps)
qed

text \<open>
  C21: in a wallet state that passes validation no two outputs share a commitment; an unspent
  output that is reserved is reserved by a live ordinary transaction or by a funding reservation
  that still retains it, never by both and never by a cancelled or failed transaction; two retained
  funding reservations never share an input; and every transaction's exposure covers its lifecycle.
\<close>

theorem validated_ownership:
  assumes "wallet_validate s = Inr ()"
  shows "distinct (known_commitments (ws_outputs s)) \<and>
    (\<forall>out \<in> set (ws_outputs s). \<forall>owner. or_reserved_by out = Some owner \<longrightarrow> \<not> is_spent (or_state out) \<longrightarrow>
       (\<exists>t \<in> set (ws_transactions s). tx_id t = owner \<and> or_id out \<in> set (tx_reserved_output_ids t) \<and>
          tx_lifecycle t \<notin> {L_Cancelled, L_Failed}) \<noteq>
       (\<exists>r \<in> set (ws_funding_reservations s). fr_id r = owner \<and> retains_inputs (fr_state r) \<and>
          or_id out \<in> set (fr_reserved_output_ids r))) \<and>
    (\<forall>r \<in> set (ws_funding_reservations s). \<forall>q \<in> set (ws_funding_reservations s).
       r \<noteq> q \<longrightarrow> retains_inputs (fr_state r) \<longrightarrow> retains_inputs (fr_state q) \<longrightarrow>
       set (fr_reserved_output_ids r) \<inter> set (fr_reserved_output_ids q) = {}) \<and>
    (\<forall>t \<in> set (ws_transactions s). exposure_floor_ok t)"
proof -
  note parts = wallet_validateD [OF assms]
  obtain seen where all: "funding_check_all s (ws_funding_reservations s) funding_seen_empty = Inr seen"
    using parts(3) by (auto simp: validate_scriptless_funding_reservations_def res_simps)
  have "\<forall>t \<in> set (ws_transactions s). exposure_floor_ok t"
    using parts(2) by (auto simp: list_ex_iff intro: transaction_bad_floor)
  then show ?thesis
    using parts(5) funding_check_all_disjoint [OF all] validated_owner [OF assms] by simp
qed

theorem validated_ownership_witness:
  "distinct (known_commitments (ws_outputs sample_reserved)) \<and>
   list_all exposure_floor_ok (ws_transactions sample_reserved)"
  using validated_ownership [OF sample_reserved_valid] by (simp add: list_all_iff)

end
