(* ===== verification/Wallet_Restore.thy ===== *)
theory Wallet_Restore
  imports Wallet_Validate
begin

text \<open>
  Rebuilding the local projection of Scriptless reservations after a chain rewind:
  \<open>restore_scriptless_funding_reservations\<close> and \<open>restore_scriptless_payout_reservations\<close>.
  Both are loops over indices that mutate the wallet state and may stop in the middle; the model
  keeps the partial mutation on the error paths. The lemmas show what the loops can change at all,
  that a successful funding restore leaves no input of a retained reservation selectable, and that
  a successful payout restore re-establishes the output, value and blinding the validator demands.
\<close>

subsection \<open>Funding\<close>

definition new_output :: "wallet_state \<Rightarrow> uuid \<Rightarrow> bytes \<Rightarrow> u64 \<Rightarrow> output_record" where
  "new_output s oid c v =
     \<lparr>or_id = oid, or_account_id = acc_id (ws_default_account s), or_commitment = Some c,
      or_value = v, or_state = PendingIncoming, or_discovered_height = 0, or_reserved_by = None\<rparr>"

definition restore_change :: "funding_reservation \<Rightarrow> unit wallet_op" where
  "restore_change r s =
     (case (fr_change_output_id r, fr_change_commitment r, fr_private_context r) of
        (Some oid, Some c, Some ctx) \<Rightarrow>
          if list_ex (\<lambda>out. or_id out = oid) (ws_outputs s) then (Inr (), s)
          else (case copy_change_output_blinding_to ctx (zeros 32) of
                  (False, _) \<Rightarrow> (Inl InvalidScriptlessFundingReservation, s)
                | (True, blinding) \<Rightarrow>
                    (Inr (), remember_output_blinding oid blinding
                       (s\<lparr>ws_outputs := ws_outputs s @
                            [new_output s oid c (fr_change_value_noms r)]\<rparr>)))
      | _ \<Rightarrow> (Inr (), s))"

text \<open>Where the input is now: by its identifier, or by a unique output with its commitment.\<close>

definition locate_input :: "output_record list \<Rightarrow> uuid \<Rightarrow> bytes \<Rightarrow> domain_error + nat option" where
  "locate_input outs oid c =
     (case position (\<lambda>out. or_id out = oid) outs of
        Some i \<Rightarrow>
          if or_commitment (outs ! i) = Some c then Inr (Some i)
          else Inl InvalidScriptlessFundingReservation
      | None \<Rightarrow>
          (case positions (\<lambda>out. or_commitment out = Some c) outs of
             [] \<Rightarrow> Inr None
           | [i] \<Rightarrow> Inr (Some i)
           | _ \<Rightarrow> Inl InvalidScriptlessFundingReservation))"

definition restore_input :: "nat \<Rightarrow> funding_reservation \<Rightarrow> nat \<times> uuid \<times> bytes \<Rightarrow> unit wallet_op" where
  "restore_input ri r x s =
     (case x of (k, oid, c) \<Rightarrow>
        (case locate_input (ws_outputs s) oid c of
           Inl e \<Rightarrow> (Inl e, s)
         | Inr None \<Rightarrow> (Inr (), s)
         | Inr (Some oi) \<Rightarrow>
             (let out = ws_outputs s ! oi;
                  fr = ws_funding_reservations s ! ri;
                  s1 = s\<lparr>ws_funding_reservations := (ws_funding_reservations s)[ri :=
                          fr\<lparr>fr_reserved_output_ids :=
                               (fr_reserved_output_ids fr)[k := or_id out]\<rparr>]\<rparr>
              in if is_spent (or_state out) then (Inr (), s1)
                 else if or_reserved_by out \<noteq> None \<and> or_reserved_by out \<noteq> Some (fr_id r)
                 then (Inl InvalidScriptlessFundingReservation, s1)
                 else (Inr (), s1\<lparr>ws_outputs := (ws_outputs s)[oi :=
                         out\<lparr>or_reserved_by := Some (fr_id r), or_state := PendingOutgoing\<rparr>]\<rparr>))))"

definition restore_funding_one :: "nat \<Rightarrow> unit wallet_op" where
  "restore_funding_one ri s =
     (let r = ws_funding_reservations s ! ri
      in op_then (restore_change r)
           (\<lambda>_. for_each (restore_input ri r)
                  (enumerate 0 (zip (fr_reserved_output_ids r) (fr_input_commitments r)))) s)"

definition restore_scriptless_funding_reservations :: "unit wallet_op" where
  "restore_scriptless_funding_reservations s =
     for_each restore_funding_one
       (positions (\<lambda>r. retains_inputs (fr_state r)) (ws_funding_reservations s)) s"

subsection \<open>Payout\<close>

text \<open>
  The output of a payout reservation: found by identifier, rebound by commitment, or rebuilt. The
  result is its index.
\<close>

definition locate_payout :: "nat \<Rightarrow> payout_reservation \<Rightarrow> uuid \<Rightarrow> bytes \<Rightarrow> nat wallet_op" where
  "locate_payout ri r oid c s =
     (case position (\<lambda>out. or_id out = oid) (ws_outputs s) of
        Some i \<Rightarrow>
          if or_commitment (ws_outputs s ! i) = Some c then (Inr i, s)
          else (Inl InvalidScriptlessPayoutReservation, s)
      | None \<Rightarrow>
          (case positions (\<lambda>out. or_commitment out = Some c) (ws_outputs s) of
             [] \<Rightarrow> (Inr (length (ws_outputs s)),
                    s\<lparr>ws_outputs := ws_outputs s @ [new_output s oid c (pr_payout_value_noms r)]\<rparr>)
           | [i] \<Rightarrow>
               (Inr i, s\<lparr>ws_payout_reservations := (ws_payout_reservations s)[ri :=
                           (ws_payout_reservations s ! ri)
                             \<lparr>pr_output_id := Some (or_id (ws_outputs s ! i))\<rparr>],
                         ws_private_output_blindings :=
                           filter (\<lambda>secret. pob_output_id secret \<noteq> oid)
                             (ws_private_output_blindings s)\<rparr>)
           | _ \<Rightarrow> (Inl InvalidScriptlessPayoutReservation, s)))"

definition settle_payout :: "payout_reservation \<Rightarrow> bytes \<Rightarrow> nat \<Rightarrow> unit wallet_op" where
  "settle_payout r blinding i s =
     (let out = ws_outputs s ! i
      in if or_account_id out \<noteq> acc_id (ws_default_account s)
          \<or> or_value out \<noteq> pr_payout_value_noms r
         then (Inl InvalidScriptlessPayoutReservation, s)
         else (case output_blinding s (or_id out) of
                 Some existing \<Rightarrow>
                   if existing \<noteq> blinding then (Inl InvalidScriptlessPayoutReservation, s)
                   else (Inr (), s)
               | None \<Rightarrow> (Inr (), remember_output_blinding (or_id out) blinding s)))"

definition restore_payout_one :: "nat \<Rightarrow> unit wallet_op" where
  "restore_payout_one ri s =
     (let r = ws_payout_reservations s ! ri in
      case pr_output_id r of
        None \<Rightarrow>
          if pr_payout_value_noms r \<noteq> 0 \<or> pr_output_commitment r \<noteq> None \<or> pr_output_bytes r \<noteq> []
          then (Inl InvalidScriptlessPayoutReservation, s) else (Inr (), s)
      | Some oid \<Rightarrow>
          (case pr_output_commitment r of
             None \<Rightarrow> (Inl InvalidScriptlessPayoutReservation, s)
           | Some c \<Rightarrow>
               (case pr_private_context r of
                  None \<Rightarrow> (Inl InvalidScriptlessPayoutReservation, s)
                | Some ctx \<Rightarrow>
                    (case copy_output_blinding_to ctx (zeros 32) of
                       (False, _) \<Rightarrow> (Inl InvalidScriptlessPayoutReservation, s)
                     | (True, blinding) \<Rightarrow>
                         op_then (locate_payout ri r oid c) (settle_payout r blinding) s))))"

definition restore_scriptless_payout_reservations :: "unit wallet_op" where
  "restore_scriptless_payout_reservations s =
     for_each restore_payout_one
       (positions (\<lambda>r. has_prepared_material (pr_state r)) (ws_payout_reservations s)) s"

subsection \<open>What the loops can change\<close>

text \<open>
  An output keeps its identity (identifier, account, commitment, value, discovery height); its
  reservation and state may only move to a reservation's hold.
\<close>

definition out_identity :: "output_record \<Rightarrow> uuid \<times> uuid \<times> bytes option \<times> u64 \<times> u64" where
  "out_identity out =
     (or_id out, or_account_id out, or_commitment out, or_value out, or_discovered_height out)"

definition out_held :: "output_record \<Rightarrow> output_record \<Rightarrow> bool" where
  "out_held out out' \<longleftrightarrow>
     out_identity out' = out_identity out \<and>
     (or_state out' = or_state out \<and> or_reserved_by out' = or_reserved_by out
      \<or> \<not> is_spent (or_state out) \<and> or_state out' = PendingOutgoing \<and>
        (\<exists>own. or_reserved_by out' = Some own \<and> or_reserved_by out \<in> {None, Some own}))"

definition outs_grow :: "output_record list \<Rightarrow> output_record list \<Rightarrow> bool" where
  "outs_grow outs outs' \<longleftrightarrow>
     (\<exists>held new. outs' = held @ new \<and> list_all2 out_held outs held \<and>
        (\<forall>out \<in> set new. or_state out \<in> {PendingIncoming, PendingOutgoing}))"

lemma out_held_refl [simp]: "out_held out out"
  by (simp add: out_held_def)

lemma out_held_trans: "out_held a b \<Longrightarrow> out_held b c \<Longrightarrow> out_held a c"
  by (auto simp: out_held_def)

lemma outs_grow_refl [simp]: "outs_grow outs outs"
  unfolding outs_grow_def by (intro exI [of _ outs] exI [of _ "[]"]) (simp add: list_all2_refl)

lemma outs_grow_trans:
  assumes "outs_grow a b" and "outs_grow b c"
  shows "outs_grow a c"
proof -
  from assms(1) obtain h1 n1 where b: "b = h1 @ n1" "list_all2 out_held a h1"
    "\<forall>out \<in> set n1. or_state out \<in> {PendingIncoming, PendingOutgoing}"
    by (auto simp: outs_grow_def)
  from assms(2) obtain h2 n2 where c: "c = h2 @ n2" "list_all2 out_held b h2"
    "\<forall>out \<in> set n2. or_state out \<in> {PendingIncoming, PendingOutgoing}"
    by (auto simp: outs_grow_def)
  from b(1) c(2) obtain h3 n3 where h2: "h2 = h3 @ n3" "list_all2 out_held h1 h3"
    "list_all2 out_held n1 n3"
    by (auto simp: list_all2_append1)
  have "list_all2 out_held a h3"
    using list_all2_trans [OF _ b(2) h2(2)] out_held_trans by blast
  moreover have "\<forall>out \<in> set n3. or_state out \<in> {PendingIncoming, PendingOutgoing}"
    using h2(3) b(3) by (fastforce simp: list_all2_conv_all_nth in_set_conv_nth out_held_def)
  ultimately show ?thesis
    using c h2 unfolding outs_grow_def by (intro exI [of _ h3] exI [of _ "n3 @ n2"]) auto
qed

lemma outs_grow_snoc: "or_state new = PendingIncoming \<Longrightarrow> outs_grow outs (outs @ [new])"
  unfolding outs_grow_def by (intro exI [of _ outs] exI [of _ "[new]"]) (simp add: list_all2_refl)

lemma outs_grow_update:
  "i < length outs \<Longrightarrow> out_held (outs ! i) out' \<Longrightarrow> outs_grow outs (outs[i := out'])"
  unfolding outs_grow_def
  by (intro exI [of _ "outs[i := out']"] exI [of _ "[]"])
    (auto simp: list_all2_conv_all_nth nth_list_update)

definition fr_rebound :: "funding_reservation \<Rightarrow> funding_reservation \<Rightarrow> bool" where
  "fr_rebound r r' \<longleftrightarrow>
     (\<exists>ids. r' = r\<lparr>fr_reserved_output_ids := ids\<rparr> \<and> length ids = length (fr_reserved_output_ids r))"

definition pr_rebound :: "payout_reservation \<Rightarrow> payout_reservation \<Rightarrow> bool" where
  "pr_rebound r r' \<longleftrightarrow> (\<exists>oid. r' = r\<lparr>pr_output_id := oid\<rparr> \<and> (oid = None) = (pr_output_id r = None))"

lemma fr_rebound_refl [simp]: "fr_rebound r r"
  unfolding fr_rebound_def by (intro exI [of _ "fr_reserved_output_ids r"]) simp

lemma fr_rebound_trans: "fr_rebound a b \<Longrightarrow> fr_rebound b c \<Longrightarrow> fr_rebound a c"
  by (auto simp: fr_rebound_def)

lemma pr_rebound_refl [simp]: "pr_rebound r r"
  unfolding pr_rebound_def by (intro exI [of _ "pr_output_id r"]) simp

lemma pr_rebound_trans: "pr_rebound a b \<Longrightarrow> pr_rebound b c \<Longrightarrow> pr_rebound a c"
  by (auto simp: pr_rebound_def)

lemma fr_rebound_fields:
  "fr_rebound r r' \<Longrightarrow> fr_id r' = fr_id r \<and> fr_state r' = fr_state r \<and>
     fr_input_commitments r' = fr_input_commitments r \<and>
     length (fr_reserved_output_ids r') = length (fr_reserved_output_ids r)"
  by (auto simp: fr_rebound_def)

definition restore_frame :: "wallet_state \<Rightarrow> wallet_state \<Rightarrow> bool" where
  "restore_frame s s' \<longleftrightarrow>
     (\<exists>outs blinds frs prs.
        s' = s\<lparr>ws_outputs := outs, ws_private_output_blindings := blinds,
               ws_funding_reservations := frs, ws_payout_reservations := prs\<rparr> \<and>
        outs_grow (ws_outputs s) outs \<and>
        (distinct (map or_id (ws_outputs s)) \<longrightarrow> distinct (map or_id outs)) \<and>
        list_all2 fr_rebound (ws_funding_reservations s) frs \<and>
        list_all2 pr_rebound (ws_payout_reservations s) prs)"

lemma restore_frameI:
  assumes "s' = s\<lparr>ws_outputs := outs, ws_private_output_blindings := blinds,
               ws_funding_reservations := frs, ws_payout_reservations := prs\<rparr>"
    and "outs_grow (ws_outputs s) outs"
    and "distinct (map or_id (ws_outputs s)) \<Longrightarrow> distinct (map or_id outs)"
    and "list_all2 fr_rebound (ws_funding_reservations s) frs"
    and "list_all2 pr_rebound (ws_payout_reservations s) prs"
  shows "restore_frame s s'"
  using assms unfolding restore_frame_def by blast

lemma restore_frame_refl [simp]: "restore_frame s s"
  by (rule restore_frameI [where outs = "ws_outputs s" and blinds = "ws_private_output_blindings s"
        and frs = "ws_funding_reservations s" and prs = "ws_payout_reservations s"])
    (simp_all add: list_all2_refl)

lemma restore_frame_trans:
  assumes "restore_frame a b" and "restore_frame b c"
  shows "restore_frame a c"
proof -
  from assms(1) obtain o1 b1 f1 p1 where b: "b = a\<lparr>ws_outputs := o1, ws_private_output_blindings := b1,
      ws_funding_reservations := f1, ws_payout_reservations := p1\<rparr>"
    "outs_grow (ws_outputs a) o1"
    "distinct (map or_id (ws_outputs a)) \<longrightarrow> distinct (map or_id o1)"
    "list_all2 fr_rebound (ws_funding_reservations a) f1"
    "list_all2 pr_rebound (ws_payout_reservations a) p1"
    unfolding restore_frame_def by blast
  from assms(2) obtain o2 b2 f2 p2 where c: "c = b\<lparr>ws_outputs := o2, ws_private_output_blindings := b2,
      ws_funding_reservations := f2, ws_payout_reservations := p2\<rparr>"
    "outs_grow (ws_outputs b) o2"
    "distinct (map or_id (ws_outputs b)) \<longrightarrow> distinct (map or_id o2)"
    "list_all2 fr_rebound (ws_funding_reservations b) f2"
    "list_all2 pr_rebound (ws_payout_reservations b) p2"
    unfolding restore_frame_def by blast
  show ?thesis
  proof (rule restore_frameI [where outs = o2 and blinds = b2
        and frs = f2 and prs = p2])
    show "c = a\<lparr>ws_outputs := o2, ws_private_output_blindings := b2,
        ws_funding_reservations := f2, ws_payout_reservations := p2\<rparr>"
      using b(1) c(1) by simp
    show "outs_grow (ws_outputs a) o2"
      using b c by (auto intro: outs_grow_trans)
    show "distinct (map or_id (ws_outputs a)) \<Longrightarrow> distinct (map or_id o2)"
      using b c by simp
    show "list_all2 fr_rebound (ws_funding_reservations a) f2"
      by (rule list_all2_trans [OF fr_rebound_trans b(4)]) (use b(1) c(4) in simp_all)
    show "list_all2 pr_rebound (ws_payout_reservations a) p2"
      by (rule list_all2_trans [OF pr_rebound_trans b(5)]) (use b(1) c(5) in simp_all)
  qed
qed

lemma list_all2_update_right:
  "(\<And>x. R x x) \<Longrightarrow> i < length xs \<Longrightarrow> R (xs ! i) y \<Longrightarrow> list_all2 R xs (xs[i := y])"
  by (auto simp: list_all2_conv_all_nth nth_list_update)

lemma remember_as_update:
  "\<exists>blinds. remember_output_blinding oid b s = s\<lparr>ws_private_output_blindings := blinds\<rparr>"
  by (auto simp: remember_output_blinding_def split: option.split)

lemma restore_frame_remember: "restore_frame s (remember_output_blinding oid b s)"
proof -
  obtain blinds where eq: "remember_output_blinding oid b s = s\<lparr>ws_private_output_blindings := blinds\<rparr>"
    using remember_as_update by blast
  show ?thesis
    by (rule restore_frameI [where outs = "ws_outputs s" and blinds = blinds
        and frs = "ws_funding_reservations s" and prs = "ws_payout_reservations s"]) (simp_all add: eq list_all2_refl)
qed

lemma restore_frame_push:
  assumes "\<not> list_ex (\<lambda>out. or_id out = oid) (ws_outputs s)"
  shows "restore_frame s (s\<lparr>ws_outputs := ws_outputs s @ [new_output s oid c v]\<rparr>)"
  using assms
  by (intro restore_frameI [where outs = "ws_outputs s @ [new_output s oid c v]" and blinds = "ws_private_output_blindings s"
        and frs = "ws_funding_reservations s" and prs = "ws_payout_reservations s"])
    (auto simp: list_all2_refl new_output_def list_ex_iff intro: outs_grow_snoc)

lemma restore_change_frame: "restore_change r s = (q, s') \<Longrightarrow> restore_frame s s'"
  by (auto simp: restore_change_def split: option.splits if_splits prod.splits bool.splits
      intro: restore_frame_trans [OF restore_frame_push restore_frame_remember])

lemma locate_input_Some:
  assumes "locate_input outs oid c = Inr (Some i)"
  shows "i < length outs \<and> or_commitment (outs ! i) = Some c"
proof (cases "position (\<lambda>out. or_id out = oid) outs")
  case None
  then have "i \<in> set (positions (\<lambda>out. or_commitment out = Some c) outs)"
    using assms by (auto simp: locate_input_def split: list.splits)
  then show ?thesis by (simp add: set_positions)
next
  case (Some j)
  then show ?thesis
    using assms by (auto simp: locate_input_def split: if_splits dest: position_SomeD)
qed

lemma restore_input_frame:
  assumes "restore_input ri r x s = (q, s')" and "ri < length (ws_funding_reservations s)"
  shows "restore_frame s s'"
proof -
  obtain k oid c where x: "x = (k, oid, c)" by (cases x)
  show ?thesis
  proof (cases "locate_input (ws_outputs s) oid c")
    case (Inl e)
    with assms(1) x show ?thesis by (simp add: restore_input_def)
  next
    case (Inr w)
    show ?thesis
    proof (cases w)
      case None
      with assms(1) x Inr show ?thesis by (simp add: restore_input_def)
    next
      case (Some oi)
      note oi = locate_input_Some [OF Inr [unfolded Some]]
      define fr where "fr = ws_funding_reservations s ! ri"
      define out where "out = ws_outputs s ! oi"
      define frs where "frs = (ws_funding_reservations s)[ri :=
          fr\<lparr>fr_reserved_output_ids := (fr_reserved_output_ids fr)[k := or_id out]\<rparr>]"
      define outs where "outs = (ws_outputs s)[oi :=
          out\<lparr>or_reserved_by := Some (fr_id r), or_state := PendingOutgoing\<rparr>]"
      have frs: "list_all2 fr_rebound (ws_funding_reservations s) frs"
        unfolding frs_def fr_def using assms(2)
        by (intro list_all2_update_right) (auto simp: fr_rebound_def)
      have rebound: "restore_frame s (s\<lparr>ws_funding_reservations := frs\<rparr>)"
        using frs by (intro restore_frameI [where outs = "ws_outputs s" and blinds = "ws_private_output_blindings s"
        and frs = frs and prs = "ws_payout_reservations s"]) (simp_all add: list_all2_refl)
      have held: "restore_frame s (s\<lparr>ws_funding_reservations := frs, ws_outputs := outs\<rparr>)"
        if "\<not> is_spent (or_state out)" "or_reserved_by out = None \<or> or_reserved_by out = Some (fr_id r)"
      proof (rule restore_frameI [where outs = outs and blinds = "ws_private_output_blindings s"
        and frs = frs and prs = "ws_payout_reservations s"])
        show "outs_grow (ws_outputs s) outs"
          unfolding outs_def using oi that
          by (intro outs_grow_update) (auto simp: out_held_def out_def out_identity_def)
        show "distinct (map or_id (ws_outputs s)) \<Longrightarrow> distinct (map or_id outs)"
          unfolding outs_def using oi by (simp add: map_list_update_same out_def)
      qed (simp_all add: frs list_all2_refl)
      show ?thesis
        using assms(1) rebound held Inr Some
        by (auto simp: restore_input_def x Let_def frs_def fr_def outs_def out_def split: if_splits)
    qed
  qed
qed

lemma restore_frame_lengths:
  "restore_frame s s' \<Longrightarrow> length (ws_funding_reservations s') = length (ws_funding_reservations s) \<and>
     length (ws_payout_reservations s') = length (ws_payout_reservations s)"
  by (auto simp: restore_frame_def dest: list_all2_lengthD)

text \<open>
  The frame holds for whole loops, also when they stop at an error.
\<close>

lemma for_each_restore_frame:
  assumes body: "\<And>x s q s'. x \<in> set xs \<Longrightarrow> n (s :: wallet_state) = N \<Longrightarrow> f x s = (q, s') \<Longrightarrow>
      restore_frame s s'"
    and keep: "\<And>s s'. restore_frame s s' \<Longrightarrow> n s' = n s"
    and N: "n s = N" and run: "for_each f xs s = (q, s')"
  shows "restore_frame s s'"
proof -
  have "restore_frame s s' \<and> n s' = N"
  proof (rule for_each_invariant [where I = "\<lambda>t. restore_frame s t \<and> n t = N", OF _ _ run])
    show "restore_frame s s \<and> n s = N" using N by simp
    fix x t p t'
    assume "x \<in> set xs" "restore_frame s t \<and> n t = N" "f x t = (p, t')"
    then show "restore_frame s t' \<and> n t' = N"
      using body [of x t p t'] keep [of t t'] by (auto intro: restore_frame_trans)
  qed
  then show ?thesis by simp
qed

lemma restore_inputs_frame:
  assumes "for_each (restore_input ri r) xs s = (q, s')" and "ri < length (ws_funding_reservations s)"
  shows "restore_frame s s'"
  by (rule for_each_restore_frame [where n = "\<lambda>s. length (ws_funding_reservations s)", OF _ _ refl assms(1)])
    (use assms(2) in \<open>auto intro: restore_input_frame dest: restore_frame_lengths\<close>)

lemma restore_funding_one_frame:
  assumes "restore_funding_one ri s = (q, s')" and "ri < length (ws_funding_reservations s)"
  shows "restore_frame s s'"
proof -
  obtain p s1 where c: "restore_change (ws_funding_reservations s ! ri) s = (p, s1)"
    by fastforce
  note f1 = restore_change_frame [OF c]
  have "ri < length (ws_funding_reservations s1)" using assms(2) restore_frame_lengths [OF f1] by simp
  then have "restore_frame s1 s'" if "p = Inr ()"
    using assms(1) c that
    by (auto simp: restore_funding_one_def op_then_def Let_def intro: restore_inputs_frame)
  with assms(1) c f1 show ?thesis
    by (cases p) (auto simp: restore_funding_one_def op_then_def Let_def intro: restore_frame_trans)
qed

lemma restore_funding_frame:
  assumes "restore_scriptless_funding_reservations s = (q, s')"
  shows "restore_frame s s'"
proof (rule for_each_restore_frame [where n = "\<lambda>s. length (ws_funding_reservations s)", OF _ _ refl
      assms [unfolded restore_scriptless_funding_reservations_def]])
  show "restore_frame t t'"
    if "x \<in> set (positions (\<lambda>r. retains_inputs (fr_state r)) (ws_funding_reservations s))"
      "length (ws_funding_reservations t) = length (ws_funding_reservations s)"
      "restore_funding_one x t = (p, t')" for x t p t'
    using that by (auto simp: set_positions intro: restore_funding_one_frame)
qed (auto dest: restore_frame_lengths)

subsection \<open>Inputs of retained reservations leave the market\<close>

definition off_market :: "output_record \<Rightarrow> bool" where
  "off_market out \<longleftrightarrow> or_state out \<in> {PendingIncoming, PendingOutgoing} \<or> is_spent (or_state out)"

definition id_off_market :: "output_record list \<Rightarrow> uuid \<Rightarrow> bool" where
  "id_off_market outs oid \<longleftrightarrow> (\<forall>out \<in> set outs. or_id out = oid \<longrightarrow> off_market out)"

lemma out_held_off_market: "out_held out out' \<Longrightarrow> off_market out \<Longrightarrow> off_market out'"
  by (auto simp: out_held_def off_market_def)

lemma outs_grow_off_market:
  assumes "outs_grow outs outs'" and "id_off_market outs oid"
  shows "id_off_market outs' oid"
proof -
  from assms(1) obtain held new where eq: "outs' = held @ new" "list_all2 out_held outs held"
    "\<forall>out \<in> set new. or_state out \<in> {PendingIncoming, PendingOutgoing}"
    by (auto simp: outs_grow_def)
  have "off_market out" if "out \<in> set held" "or_id out = oid" for out
  proof -
    from that(1) eq(2) obtain out0 where "out0 \<in> set outs" "out_held out0 out"
      by (metis in_set_conv_nth list_all2_conv_all_nth)
    with that(2) assms(2) show ?thesis
      by (auto simp: id_off_market_def out_held_def out_identity_def intro: out_held_off_market)
  qed
  with eq show ?thesis by (auto simp: id_off_market_def off_market_def)
qed

lemma restore_frame_outs: "restore_frame s s' \<Longrightarrow> outs_grow (ws_outputs s) (ws_outputs s')"
  by (auto simp: restore_frame_def)

lemma restore_frame_distinct:
  "restore_frame s s' \<Longrightarrow> distinct (map or_id (ws_outputs s)) \<Longrightarrow> distinct (map or_id (ws_outputs s'))"
  by (auto simp: restore_frame_def)

lemma restore_frame_funding:
  "restore_frame s s' \<Longrightarrow> i < length (ws_funding_reservations s) \<Longrightarrow>
     fr_rebound (ws_funding_reservations s ! i) (ws_funding_reservations s' ! i)"
  by (auto simp: restore_frame_def list_all2_conv_all_nth)

abbreviation input_ids :: "wallet_state \<Rightarrow> nat \<Rightarrow> uuid list" where
  "input_ids s ri \<equiv> fr_reserved_output_ids (ws_funding_reservations s ! ri)"

lemma restore_input_ids:
  assumes "restore_input ri r (k, oid, c) s = (q, s')" and "ri < length (ws_funding_reservations s)"
  shows "j \<noteq> k \<Longrightarrow> input_ids s' ri ! j = input_ids s ri ! j"
    and "rj \<noteq> ri \<Longrightarrow> ws_funding_reservations s' ! rj = ws_funding_reservations s ! rj"
  using assms
  by (auto simp: restore_input_def Let_def nth_list_update split: sum.splits option.splits if_splits)

lemma distinct_id_nth:
  "distinct (map or_id outs) \<Longrightarrow> i < length outs \<Longrightarrow> out \<in> set outs \<Longrightarrow> or_id out = or_id (outs ! i)
     \<Longrightarrow> out = outs ! i"
  by (metis distinct_map inj_on_def nth_mem)

lemma id_off_market_update:
  assumes "distinct (map or_id outs)" "i < length outs" "or_id out' = or_id (outs ! i)" "off_market out'"
  shows "id_off_market (outs[i := out']) (or_id (outs ! i))"
proof -
  have "distinct (map or_id (outs[i := out']))"
    using assms by (simp add: map_list_update_same)
  then show ?thesis
    using distinct_id_nth [of "outs[i := out']" i] assms(2-4) by (auto simp: id_off_market_def)
qed

lemma restore_input_off_market:
  assumes run: "restore_input ri r (k, oid, c) s = (Inr (), s')"
    and ri: "ri < length (ws_funding_reservations s)" and k: "k < length (input_ids s ri)"
    and dist: "distinct (map or_id (ws_outputs s))"
    and before: "input_ids s ri ! k = oid \<or> id_off_market (ws_outputs s) (input_ids s ri ! k)"
  shows "id_off_market (ws_outputs s') (input_ids s' ri ! k)"
proof (cases "locate_input (ws_outputs s) oid c")
  case (Inl e)
  with run show ?thesis by (simp add: restore_input_def)
next
  case (Inr w)
  show ?thesis
  proof (cases w)
    case None
    then have "position (\<lambda>out. or_id out = oid) (ws_outputs s) = None"
      using Inr by (auto simp: locate_input_def split: option.splits if_splits)
    then have "id_off_market (ws_outputs s) oid"
      by (auto simp: id_off_market_def dest: position_NoneD)
    with run Inr None before show ?thesis by (auto simp: restore_input_def)
  next
    case (Some oi)
    note oi = locate_input_Some [OF Inr [unfolded Some]]
    define out where "out = ws_outputs s ! oi"
    have ids: "input_ids s' ri ! k = or_id out"
      using run Inr Some ri k
      by (auto simp: restore_input_def Let_def out_def split: if_splits)
    show ?thesis
    proof (cases "is_spent (or_state out)")
      case True
      then have "ws_outputs s' = ws_outputs s"
        using run Inr Some by (auto simp: restore_input_def Let_def out_def)
      then show ?thesis
        using ids True distinct_id_nth [OF dist] oi
        by (fastforce simp: id_off_market_def off_market_def out_def)
    next
      case False
      then have "ws_outputs s' = (ws_outputs s)[oi :=
          out\<lparr>or_reserved_by := Some (fr_id r), or_state := PendingOutgoing\<rparr>]"
        using run Inr Some by (auto simp: restore_input_def Let_def out_def split: if_splits)
      then show ?thesis
        using id_off_market_update [OF dist] oi ids by (simp add: out_def off_market_def)
    qed
  qed
qed

definition fresh_or_off :: "nat \<Rightarrow> nat \<times> uuid \<times> bytes \<Rightarrow> wallet_state \<Rightarrow> bool" where
  "fresh_or_off ri x s \<longleftrightarrow>
     (case x of (k, oid, c) \<Rightarrow>
        input_ids s ri ! k = oid \<or> id_off_market (ws_outputs s) (input_ids s ri ! k))"

lemma restore_inputs_off_market:
  assumes run: "for_each (restore_input ri r) (enumerate 0 xs) s = (Inr (), s')"
    and ri: "ri < length (ws_funding_reservations s)"
    and len: "length xs \<le> length (input_ids s ri)"
    and ids: "\<forall>k < length xs. input_ids s ri ! k = fst (xs ! k)"
    and dist: "distinct (map or_id (ws_outputs s))"
  shows "\<forall>k < length xs. id_off_market (ws_outputs s') (input_ids s' ri ! k)"
proof -
  let ?I = "\<lambda>t. restore_frame s t \<and> (\<forall>x \<in> set (enumerate 0 xs). fresh_or_off ri x t)"
  let ?Q = "\<lambda>x t. id_off_market (ws_outputs t) (input_ids t ri ! fst x)"
  have rit: "ri < length (ws_funding_reservations t)" "length (input_ids t ri) = length (input_ids s ri)"
    "distinct (map or_id (ws_outputs t))" if "restore_frame s t" for t
    using restore_frame_lengths [OF that] restore_frame_funding [OF that ri]
      restore_frame_distinct [OF that dist] ri by (auto dest: fr_rebound_fields)
  have other: "?Q y t'" if "?Q y t" "fst y \<noteq> fst x" "restore_frame s t"
    "restore_input ri r x t = (Inr (), t')" for x y t t'
  proof -
    obtain k oid c where x: "x = (k, oid, c)" by (cases x)
    have "outs_grow (ws_outputs t) (ws_outputs t')"
      using restore_frame_outs restore_input_frame [OF that(4)] rit(1) [OF that(3)] by blast
    moreover have "input_ids t' ri ! fst y = input_ids t ri ! fst y"
      using restore_input_ids(1) [OF that(4) [unfolded x] rit(1) [OF that(3)]] that(2) x by simp
    ultimately show ?thesis using that(1) outs_grow_off_market by metis
  qed
  have self: "?Q x t'" if "x \<in> set (enumerate 0 xs)" "?I t" "restore_input ri r x t = (Inr (), t')"
    for x t t'
  proof -
    obtain k oid c where x: "x = (k, oid, c)" by (cases x)
    have t: "restore_frame s t" using that(2) by blast
    have "fresh_or_off ri x t" using that(1,2) by blast
    then have "input_ids t ri ! k = oid \<or> id_off_market (ws_outputs t) (input_ids t ri ! k)"
      by (simp add: fresh_or_off_def x)
    moreover have "k < length (input_ids t ri)"
      using that(1) rit(2) [OF t] len x by (auto simp: in_set_enumerate_eq)
    ultimately have "id_off_market (ws_outputs t') (input_ids t' ri ! k)"
      using restore_input_off_market [OF that(3) [unfolded x] rit(1) [OF t] _ rit(3) [OF t]] by blast
    then show ?thesis by (simp add: x)
  qed
  have "?I s' \<and> (\<forall>x \<in> set (enumerate 0 xs). ?Q x s')"
  proof (rule for_each_establishes [OF _ _ _ run])
    fix x t t'
    assume x: "x \<in> set (enumerate 0 xs)" and I: "?I t" and step: "restore_input ri r x t = (Inr (), t')"
    have "fresh_or_off ri y t'" if y: "y \<in> set (enumerate 0 xs)" for y
    proof (cases "fst y = fst x")
      case True
      then have "y = x" using x y by (auto simp: in_set_enumerate_eq intro: prod_eqI)
      then show ?thesis using self [OF x I step] by (auto simp: fresh_or_off_def split: prod.splits)
    next
      case False
      obtain k oid c where xx: "x = (k, oid, c)" by (cases x)
      have "input_ids t' ri ! fst y = input_ids t ri ! fst y"
        using restore_input_ids(1) [OF step [unfolded xx]] rit(1) I False xx by simp
      moreover have "fresh_or_off ri y t" using I y by blast
      ultimately show ?thesis
        using other [OF _ False _ step] I by (cases y) (auto simp: fresh_or_off_def)
    qed
    then show "?I t' \<and> ?Q x t'"
      using self [OF x I step] I restore_input_frame [OF step] rit(1)
      by (auto intro: restore_frame_trans)
  next
    fix x y t t'
    assume *: "x \<in> set (enumerate 0 xs)" "y \<in> set (enumerate 0 xs)" "?I t" "?Q y t"
      "restore_input ri r x t = (Inr (), t')"
    have t: "restore_frame s t" using *(3) by blast
    show "?Q y t'"
      using self [OF *(1,3,5)] other [OF *(4) _ t *(5)] by (cases "fst y = fst x") simp_all
  next
    show "?I s" using ids by (auto simp: fresh_or_off_def in_set_enumerate_eq)
  qed
  moreover have "(k, xs ! k) \<in> set (enumerate 0 xs)" if "k < length xs" for k
    using that by (simp add: in_set_enumerate_eq)
  ultimately show ?thesis by force
qed

lemma restore_change_reservations:
  "restore_change r s = (q, s') \<Longrightarrow> ws_funding_reservations s' = ws_funding_reservations s"
  by (auto simp: restore_change_def split: option.splits if_splits prod.splits bool.splits)

lemma restore_inputs_other:
  assumes "for_each (restore_input ri r) xs s = (q, s')" and "ri < length (ws_funding_reservations s)"
    and "rj \<noteq> ri"
  shows "ws_funding_reservations s' ! rj = ws_funding_reservations s ! rj"
proof -
  have "ri < length (ws_funding_reservations s') \<and>
    ws_funding_reservations s' ! rj = ws_funding_reservations s ! rj"
  proof (rule for_each_invariant [where I = "\<lambda>t. ri < length (ws_funding_reservations t) \<and>
        ws_funding_reservations t ! rj = ws_funding_reservations s ! rj", OF _ _ assms(1)])
    fix x t p t'
    assume I: "ri < length (ws_funding_reservations t) \<and>
        ws_funding_reservations t ! rj = ws_funding_reservations s ! rj"
      and step: "restore_input ri r x t = (p, t')"
    obtain k oid c where "x = (k, oid, c)" by (cases x)
    then show "ri < length (ws_funding_reservations t') \<and>
        ws_funding_reservations t' ! rj = ws_funding_reservations s ! rj"
      using restore_input_ids(2) [of ri r k oid c t p t' rj] restore_frame_lengths
        restore_input_frame [OF step] I step assms(3) by auto
  qed (use assms(2) in simp)
  then show ?thesis by simp
qed

lemma restore_funding_one_other:
  assumes "restore_funding_one ri s = (Inr (), s')" and "ri < length (ws_funding_reservations s)"
    and "rj \<noteq> ri"
  shows "ws_funding_reservations s' ! rj = ws_funding_reservations s ! rj"
proof -
  obtain s1 where "restore_change (ws_funding_reservations s ! ri) s = (Inr (), s1)"
    "for_each (restore_input ri (ws_funding_reservations s ! ri)) (enumerate 0
       (zip (input_ids s ri) (fr_input_commitments (ws_funding_reservations s ! ri)))) s1 = (Inr (), s')"
    using assms(1) by (auto simp: restore_funding_one_def Let_def res_simps)
  with restore_inputs_other [of ri _ _ s1 "Inr ()" s' rj] restore_change_reservations assms(2,3)
  show ?thesis by metis
qed

definition inputs_off_market :: "nat \<Rightarrow> wallet_state \<Rightarrow> bool" where
  "inputs_off_market ri s \<longleftrightarrow> (\<forall>oid \<in> set (input_ids s ri). id_off_market (ws_outputs s) oid)"

lemma restore_funding_one_off_market:
  assumes run: "restore_funding_one ri s = (Inr (), s')" and ri: "ri < length (ws_funding_reservations s)"
    and len: "length (input_ids s ri) = length (fr_input_commitments (ws_funding_reservations s ! ri))"
    and dist: "distinct (map or_id (ws_outputs s))"
  shows "inputs_off_market ri s'"
proof -
  let ?xs = "zip (input_ids s ri) (fr_input_commitments (ws_funding_reservations s ! ri))"
  obtain s1 where change: "restore_change (ws_funding_reservations s ! ri) s = (Inr (), s1)"
    and loop: "for_each (restore_input ri (ws_funding_reservations s ! ri)) (enumerate 0 ?xs) s1
      = (Inr (), s')"
    using run by (auto simp: restore_funding_one_def Let_def res_simps)
  note same = restore_change_reservations [OF change]
  have d1: "distinct (map or_id (ws_outputs s1))"
    using restore_frame_distinct [OF restore_change_frame [OF change] dist] .
  have "\<forall>k < length ?xs. id_off_market (ws_outputs s') (input_ids s' ri ! k)"
    by (rule restore_inputs_off_market [OF loop _ _ _ d1]) (use same ri len in simp_all)
  moreover have "length (input_ids s' ri) = length (input_ids s ri)"
    using restore_frame_funding [OF restore_funding_one_frame [OF run ri] ri] by (auto dest: fr_rebound_fields)
  ultimately show ?thesis using len by (auto simp: inputs_off_market_def in_set_conv_nth)
qed

lemma restore_frame_inputs_off_market:
  assumes "restore_frame s s'" and "ws_funding_reservations s' ! ri = ws_funding_reservations s ! ri"
    and "inputs_off_market ri s"
  shows "inputs_off_market ri s'"
  using assms(2,3) outs_grow_off_market [OF restore_frame_outs [OF assms(1)]]
  by (simp add: inputs_off_market_def)

definition lengths_agree :: "wallet_state \<Rightarrow> bool" where
  "lengths_agree s \<longleftrightarrow>
     (\<forall>r \<in> set (ws_funding_reservations s). retains_inputs (fr_state r) \<longrightarrow>
        length (fr_reserved_output_ids r) = length (fr_input_commitments r))"

lemma restore_funding_off_market:
  assumes run: "restore_scriptless_funding_reservations s = (Inr (), s')"
    and dist: "distinct (map or_id (ws_outputs s))" and lens: "lengths_agree s"
    and r: "r \<in> set (ws_funding_reservations s')" "retains_inputs (fr_state r)"
    and oid: "oid \<in> set (fr_reserved_output_ids r)"
  shows "id_off_market (ws_outputs s') oid"
proof -
  let ?ps = "positions (\<lambda>r. retains_inputs (fr_state r)) (ws_funding_reservations s)"
  have ok: "x < length (ws_funding_reservations t)"
    "length (input_ids t x) = length (fr_input_commitments (ws_funding_reservations t ! x))"
    "distinct (map or_id (ws_outputs t))"
    if "restore_frame s t" "x \<in> set ?ps" for t x
  proof -
    have x: "x < length (ws_funding_reservations s)" "retains_inputs (fr_state (ws_funding_reservations s ! x))"
      using that(2) by (auto simp: set_positions)
    then show "x < length (ws_funding_reservations t)" "distinct (map or_id (ws_outputs t))"
      using restore_frame_lengths [OF that(1)] restore_frame_distinct [OF that(1) dist] by auto
    show "length (input_ids t x) = length (fr_input_commitments (ws_funding_reservations t ! x))"
      using fr_rebound_fields [OF restore_frame_funding [OF that(1) x(1)]] x lens
      by (auto simp: lengths_agree_def)
  qed
  have all: "restore_frame s s' \<and> (\<forall>x \<in> set ?ps. inputs_off_market x s')"
  proof (rule for_each_establishes [OF _ _ _ run [unfolded restore_scriptless_funding_reservations_def]])
    fix x t t'
    assume *: "x \<in> set ?ps" "restore_frame s t" "restore_funding_one x t = (Inr (), t')"
    show "restore_frame s t' \<and> inputs_off_market x t'"
      using restore_funding_one_off_market [OF *(3) ok [OF *(2,1)]]
        restore_frame_trans [OF *(2) restore_funding_one_frame [OF *(3) ok(1) [OF *(2,1)]]] by blast
  next
    fix x y t t'
    assume *: "x \<in> set ?ps" "y \<in> set ?ps" "restore_frame s t" "inputs_off_market y t"
      "restore_funding_one x t = (Inr (), t')"
    show "inputs_off_market y t'"
    proof (cases "y = x")
      case True
      then show ?thesis using restore_funding_one_off_market [OF *(5) ok [OF *(3,1)]] by simp
    next
      case False
      then show ?thesis
        using restore_frame_inputs_off_market [OF restore_funding_one_frame [OF *(5) ok(1) [OF *(3,1)]]
            restore_funding_one_other [OF *(5) ok(1) [OF *(3,1)]] *(4)] by simp
    qed
  qed simp
  obtain x where x: "x < length (ws_funding_reservations s')" "r = ws_funding_reservations s' ! x"
    using r(1) by (auto simp: in_set_conv_nth)
  have "x \<in> set ?ps"
    using x r(2) restore_frame_lengths [of s s'] restore_frame_funding [of s s' x] all
    by (auto simp: set_positions dest: fr_rebound_fields)
  then show ?thesis using all oid x by (auto simp: inputs_off_market_def)
qed

subsection \<open>Payouts\<close>

lemma locate_payout_frame:
  assumes "locate_payout ri r oid c s = (q, s')" and "ri < length (ws_payout_reservations s)"
    and "pr_output_id (ws_payout_reservations s ! ri) \<noteq> None"
  shows "restore_frame s s'"
proof -
  have pr: "pr_rebound (ws_payout_reservations s ! ri)
       ((ws_payout_reservations s ! ri)\<lparr>pr_output_id := Some i\<rparr>)" for i
    using assms(3) unfolding pr_rebound_def by (intro exI [of _ "Some i"]) simp
  have rebind: "restore_frame s (s\<lparr>ws_payout_reservations := (ws_payout_reservations s)[ri :=
       (ws_payout_reservations s ! ri)\<lparr>pr_output_id := Some i\<rparr>],
       ws_private_output_blindings := bs\<rparr>)" for i bs
    using assms(2,3)
    by (intro restore_frameI [where outs = "ws_outputs s" and blinds = bs
          and frs = "ws_funding_reservations s" and prs = "(ws_payout_reservations s)[ri :=
       (ws_payout_reservations s ! ri)\<lparr>pr_output_id := Some i\<rparr>]"])
      (auto simp: list_all2_refl intro!: list_all2_update_right pr)
  have "position (\<lambda>out. or_id out = oid) (ws_outputs s) = None \<Longrightarrow>
    \<not> list_ex (\<lambda>out. or_id out = oid) (ws_outputs s)"
    by (auto simp: position_None_iff list_ex_iff)
  with assms(1) rebind show ?thesis
    by (auto simp: locate_payout_def split: option.splits if_splits list.splits
        intro: restore_frame_push)
qed

lemma settle_payout_frame: "settle_payout r b i s = (q, s') \<Longrightarrow> restore_frame s s'"
  by (auto simp: settle_payout_def Let_def split: if_splits option.splits
      intro: restore_frame_remember)

lemma restore_payout_one_frame:
  assumes "restore_payout_one ri s = (q, s')" and "ri < length (ws_payout_reservations s)"
  shows "restore_frame s s'"
  using assms
  by (auto simp: restore_payout_one_def Let_def op_then_def
      split: option.splits if_splits prod.splits bool.splits sum.splits
      intro: restore_frame_trans locate_payout_frame settle_payout_frame)

lemma restore_payout_frame:
  assumes "restore_scriptless_payout_reservations s = (q, s')"
  shows "restore_frame s s'"
proof (rule for_each_restore_frame [where n = "\<lambda>s. length (ws_payout_reservations s)", OF _ _ refl
      assms [unfolded restore_scriptless_payout_reservations_def]])
  show "restore_frame t t'"
    if "x \<in> set (positions (\<lambda>r. has_prepared_material (pr_state r)) (ws_payout_reservations s))"
      "length (ws_payout_reservations t) = length (ws_payout_reservations s)"
      "restore_payout_one x t = (p, t')" for x t p t'
    using that by (auto simp: set_positions intro: restore_payout_one_frame)
qed (auto dest: restore_frame_lengths)

text \<open>What a settled payout reservation has: its output in the wallet, with its secret.\<close>

definition payout_settled :: "payout_reservation \<Rightarrow> wallet_state \<Rightarrow> bool" where
  "payout_settled r s \<longleftrightarrow>
     (case pr_output_id r of
        None \<Rightarrow> pr_payout_value_noms r = 0 \<and> pr_output_commitment r = None \<and> pr_output_bytes r = []
      | Some oid \<Rightarrow>
          \<exists>out \<in> set (ws_outputs s). or_id out = oid \<and> or_commitment out = pr_output_commitment r \<and>
            or_value out = pr_payout_value_noms r \<and> or_account_id out = acc_id (ws_default_account s) \<and>
            (\<exists>ctx b. pr_private_context r = Some ctx \<and>
               copy_output_blinding_to ctx (zeros 32) = (True, b) \<and> output_blinding s oid = Some b))"

lemma settle_payout_ok:
  assumes "settle_payout r b i s = (Inr (), s')"
  shows "or_account_id (ws_outputs s ! i) = acc_id (ws_default_account s)"
    and "or_value (ws_outputs s ! i) = pr_payout_value_noms r"
    and "output_blinding s' (or_id (ws_outputs s ! i)) = Some b"
    and "ws_outputs s' = ws_outputs s" and "ws_default_account s' = ws_default_account s"
    and "ws_payout_reservations s' = ws_payout_reservations s"
  using assms
  by (auto simp: settle_payout_def Let_def output_blinding_remember split: if_splits option.splits)

lemma locate_payout_ok:
  assumes "locate_payout ri r oid c s = (Inr i, s')" and "ri < length (ws_payout_reservations s)"
    and "ws_payout_reservations s ! ri = r" "pr_output_id r = Some oid"
  shows "i < length (ws_outputs s')" and "or_commitment (ws_outputs s' ! i) = Some c"
    and "ws_payout_reservations s' ! ri = r\<lparr>pr_output_id := Some (or_id (ws_outputs s' ! i))\<rparr>"
proof -
  have *: "i < length (ws_outputs s') \<and> or_commitment (ws_outputs s' ! i) = Some c \<and>
    ws_payout_reservations s' ! ri = r\<lparr>pr_output_id := Some (or_id (ws_outputs s' ! i))\<rparr>"
  proof (cases "position (\<lambda>out. or_id out = oid) (ws_outputs s)")
    case (Some j)
    then have "j < length (ws_outputs s)" "or_id (ws_outputs s ! j) = oid"
      using position_SomeD [OF Some] by auto
    moreover have "r = r\<lparr>pr_output_id := Some oid\<rparr>" using assms(4) by simp
    ultimately show ?thesis
      using assms Some by (auto simp: locate_payout_def split: if_splits)
  next
    case None
    have mem: "positions (\<lambda>out. or_commitment out = Some c) (ws_outputs s) = [j] \<Longrightarrow>
      j < length (ws_outputs s) \<and> or_commitment (ws_outputs s ! j) = Some c" for j
      using set_positions [of "\<lambda>out. or_commitment out = Some c" "ws_outputs s"] by auto
    have "r = r\<lparr>pr_output_id := Some oid\<rparr>" using assms(4) by simp
    then show ?thesis
      using assms None mem
      by (auto simp: locate_payout_def new_output_def split: list.splits)
  qed
  show "i < length (ws_outputs s')" and "or_commitment (ws_outputs s' ! i) = Some c"
    and "ws_payout_reservations s' ! ri = r\<lparr>pr_output_id := Some (or_id (ws_outputs s' ! i))\<rparr>"
    using * by auto
qed

lemma restore_payout_one_settled:
  assumes run: "restore_payout_one ri s = (Inr (), s')" and ri: "ri < length (ws_payout_reservations s)"
  shows "payout_settled (ws_payout_reservations s' ! ri) s'"
proof (cases "pr_output_id (ws_payout_reservations s ! ri)")
  case None
  then show ?thesis
    using run by (auto simp: restore_payout_one_def payout_settled_def Let_def split: if_splits)
next
  case (Some oid)
  let ?r = "ws_payout_reservations s ! ri"
  from run Some obtain c ctx b i s1 where *: "pr_output_commitment ?r = Some c"
    "pr_private_context ?r = Some ctx" "copy_output_blinding_to ctx (zeros 32) = (True, b)"
    and locate: "locate_payout ri ?r oid c s = (Inr i, s1)"
    and settle: "settle_payout ?r b i s1 = (Inr (), s')"
    by (auto simp: restore_payout_one_def Let_def res_simps
        split: option.splits prod.splits bool.splits)
  note l = locate_payout_ok [OF locate ri refl Some]
  note e = settle_payout_ok [OF settle]
  have "ws_outputs s1 ! i \<in> set (ws_outputs s')" using l(1) e(4) by simp
  then show ?thesis
    using l e * by (auto simp: payout_settled_def)
qed

lemma find_filter_other:
  "(\<And>x. P x \<Longrightarrow> Q x) \<Longrightarrow> find P (filter Q xs) = find P xs"
  by (induction xs) auto

lemma outs_grow_mem:
  assumes "outs_grow outs outs'" and "out \<in> set outs"
  shows "\<exists>out' \<in> set outs'. out_identity out' = out_identity out"
proof -
  from assms(1) obtain held new where "outs' = held @ new" "list_all2 out_held outs held"
    by (auto simp: outs_grow_def)
  moreover from this(2) assms(2) obtain out' where "out' \<in> set held" "out_held out out'"
    by (metis in_set_conv_nth list_all2_conv_all_nth)
  ultimately show ?thesis by (auto simp: out_held_def)
qed

lemma restore_frame_account: "restore_frame s s' \<Longrightarrow> ws_default_account s' = ws_default_account s"
  by (auto simp: restore_frame_def)

lemma payout_settled_mono:
  assumes settled: "payout_settled r s" and frame: "restore_frame s s'"
    and secrets: "\<And>oid. (\<exists>out \<in> set (ws_outputs s). or_id out = oid) \<Longrightarrow> output_blinding s oid \<noteq> None \<Longrightarrow>
      output_blinding s' oid = output_blinding s oid"
  shows "payout_settled r s'"
proof (cases "pr_output_id r")
  case None
  then show ?thesis using settled by (simp add: payout_settled_def)
next
  case (Some oid)
  with settled obtain out ctx b where out: "out \<in> set (ws_outputs s)" "or_id out = oid"
    "or_commitment out = pr_output_commitment r" "or_value out = pr_payout_value_noms r"
    "or_account_id out = acc_id (ws_default_account s)"
    and ctx: "pr_private_context r = Some ctx" "copy_output_blinding_to ctx (zeros 32) = (True, b)"
      "output_blinding s oid = Some b"
    by (auto simp: payout_settled_def)
  obtain out' where "out' \<in> set (ws_outputs s')" "out_identity out' = out_identity out"
    using outs_grow_mem [OF restore_frame_outs [OF frame] out(1)] by blast
  moreover have "output_blinding s' oid = Some b" using secrets [of oid] out(1,2) ctx(3) by auto
  ultimately show ?thesis
    using Some out ctx restore_frame_account [OF frame]
    by (auto simp: payout_settled_def out_identity_def intro!: bexI [of _ out'])
qed

lemma locate_payout_secrets:
  assumes "locate_payout ri r oid c s = (q, s')" and "out \<in> set (ws_outputs s)"
  shows "output_blinding s' (or_id out) = output_blinding s (or_id out)"
proof (cases "position (\<lambda>out. or_id out = oid) (ws_outputs s)")
  case None
  then have "or_id out \<noteq> oid" using assms(2) by (auto simp: position_None_iff)
  then show ?thesis
    using assms(1) None
    by (auto simp: locate_payout_def output_blinding_def find_filter_other split: list.splits)
next
  case (Some i)
  then show ?thesis using assms(1) by (auto simp: locate_payout_def split: if_splits)
qed

lemma settle_payout_secrets:
  "settle_payout r b i s = (q, s') \<Longrightarrow> output_blinding s oid \<noteq> None \<Longrightarrow>
     output_blinding s' oid = output_blinding s oid"
  by (auto simp: settle_payout_def Let_def output_blinding_remember split: if_splits option.splits)

lemma restore_payout_one_secrets:
  assumes "restore_payout_one ri s = (q, s')" and "out \<in> set (ws_outputs s)"
    and "output_blinding s (or_id out) \<noteq> None"
  shows "output_blinding s' (or_id out) = output_blinding s (or_id out)"
proof -
  have "output_blinding s' (or_id out) = output_blinding s (or_id out)"
    if "op_then (locate_payout ri r oid c) (settle_payout r b) s = (q, s')" for r oid c b
  proof -
    obtain p s1 where l: "locate_payout ri r oid c s = (p, s1)" by fastforce
    note secret = locate_payout_secrets [OF l assms(2)]
    show ?thesis
    proof (cases p)
      case (Inl e)
      then show ?thesis using l that secret by (simp add: op_then_def)
    next
      case (Inr i)
      then have "settle_payout r b i s1 = (q, s')" using l that by (simp add: op_then_def)
      from settle_payout_secrets [OF this] show ?thesis using secret assms(3) by simp
    qed
  qed
  with assms(1) show ?thesis
    by (auto simp: restore_payout_one_def Let_def split: option.splits if_splits prod.splits bool.splits)
qed

lemma restore_payout_one_other:
  assumes "restore_payout_one ri s = (q, s')" and "rj \<noteq> ri"
  shows "ws_payout_reservations s' ! rj = ws_payout_reservations s ! rj"
  using assms
  by (auto simp: restore_payout_one_def Let_def op_then_def locate_payout_def settle_payout_def
      split: option.splits if_splits prod.splits bool.splits sum.splits list.splits)

lemma restore_payout_settled:
  assumes run: "restore_scriptless_payout_reservations s = (Inr (), s')"
    and r: "r \<in> set (ws_payout_reservations s')" "has_prepared_material (pr_state r)"
  shows "payout_settled r s'"
proof -
  let ?ps = "positions (\<lambda>r. has_prepared_material (pr_state r)) (ws_payout_reservations s)"
  have bound: "x < length (ws_payout_reservations t)" if "restore_frame s t" "x \<in> set ?ps" for t x
    using that restore_frame_lengths [OF that(1)] by (auto simp: set_positions)
  have all: "restore_frame s s' \<and> (\<forall>x \<in> set ?ps. payout_settled (ws_payout_reservations s' ! x) s')"
  proof (rule for_each_establishes [OF _ _ _ run [unfolded restore_scriptless_payout_reservations_def]])
    fix x t t'
    assume *: "x \<in> set ?ps" "restore_frame s t" "restore_payout_one x t = (Inr (), t')"
    show "restore_frame s t' \<and> payout_settled (ws_payout_reservations t' ! x) t'"
      using restore_payout_one_settled [OF *(3) bound [OF *(2,1)]]
        restore_frame_trans [OF *(2) restore_payout_one_frame [OF *(3) bound [OF *(2,1)]]] by blast
  next
    fix x y t t'
    assume *: "x \<in> set ?ps" "y \<in> set ?ps" "restore_frame s t"
      "payout_settled (ws_payout_reservations t ! y) t" "restore_payout_one x t = (Inr (), t')"
    show "payout_settled (ws_payout_reservations t' ! y) t'"
    proof (cases "y = x")
      case True
      then show ?thesis using restore_payout_one_settled [OF *(5) bound [OF *(3,1)]] by simp
    next
      case False
      have "payout_settled (ws_payout_reservations t ! y) t'"
        by (rule payout_settled_mono [OF *(4) restore_payout_one_frame [OF *(5) bound [OF *(3,1)]]])
          (use restore_payout_one_secrets [OF *(5)] in blast)
      then show ?thesis using restore_payout_one_other [OF *(5) False] by simp
    qed
  qed simp
  obtain x where x: "x < length (ws_payout_reservations s')" "r = ws_payout_reservations s' ! x"
    using r(1) by (auto simp: in_set_conv_nth)
  have "pr_state (ws_payout_reservations s' ! x) = pr_state (ws_payout_reservations s ! x)"
    using all x by (auto simp: restore_frame_def list_all2_conv_all_nth pr_rebound_def)
  then have "x \<in> set ?ps"
    using x r(2) restore_frame_lengths [of s s'] all by (auto simp: set_positions)
  then show ?thesis using all x by auto
qed

subsection \<open>Properties\<close>

definition sample_funding :: "uuid list \<Rightarrow> bytes list \<Rightarrow> funding_reservation" where
  "sample_funding ids cs =
     \<lparr>fr_version = 1, fr_id = 9, fr_session_id = zeros 32, fr_shared_output_commitment = zeros 33,
      fr_created_at_height = 0, fr_local_debit_noms = 7, fr_funding_fee_noms = 1,
      fr_expected_input_count = 1, fr_expected_output_count = 1, fr_reserved_output_ids = ids,
      fr_input_commitments = cs, fr_change_value_noms = 0, fr_change_derivation_index = None,
      fr_change_output_id = None, fr_change_commitment = None, fr_change_output_bytes = [],
      fr_offset_contribution = None, fr_wallet_excess_public_key = [], fr_template_hash = None,
      fr_session_share_binding_digest = None, fr_participant_position = None,
      fr_template_participants = None, fr_private_context = None, fr_state = FR_Reserved\<rparr>"

definition sample_payout :: payout_reservation where
  "sample_payout =
     \<lparr>pr_version = 1, pr_id = 9, pr_session_id = zeros 32, pr_role = Claim, pr_created_at_height = 0,
      pr_shared_output_commitment = zeros 33, pr_payout_value_noms = 7, pr_kernel_fee_noms = 1,
      pr_expected_output_count = 1, pr_refund_lock_height = 0, pr_output_id = Some 6,
      pr_derivation_index = Some 1, pr_output_commitment = Some (zeros 33), pr_output_bytes = [1],
      pr_offset_contribution = None, pr_payout_excess_public_key = [], pr_template_hash = None,
      pr_session_share_binding_digest = None, pr_participant_position = None,
      pr_template_participants = None,
      pr_private_context = Some (payout_context_new (zeros 32) (Some [1])), pr_state = PR_Prepared\<rparr>"

text \<open>A rescan found the input again, under a new identifier and selectable.\<close>

definition sample_rediscovered :: wallet_state where
  "sample_rediscovered = sample_wallet\<lparr>
     ws_outputs := [\<lparr>or_id = 4, or_account_id = 2, or_commitment = Some (zeros 33), or_value = 7,
                     or_state = Confirmed, or_discovered_height = 3, or_reserved_by = None\<rparr>],
     ws_funding_reservations := [sample_funding [5] [zeros 33]]\<rparr>"

text \<open>
  C22: after a successful restoration of the funding reservations no output that a retained
  reservation names can be selected: each is on hold for the reservation, still incoming, or spent.
  This holds also for inputs that a rescan rediscovered under another identifier, which the
  reservation is rebound to.
\<close>

theorem restored_inputs_off_market:
  assumes "restore_scriptless_funding_reservations s = (Inr (), s')"
    and "distinct (map or_id (ws_outputs s))" and "lengths_agree s"
    and "r \<in> set (ws_funding_reservations s')" and "retains_inputs (fr_state r)"
    and "out \<in> set (ws_outputs s')" and "or_id out \<in> set (fr_reserved_output_ids r)"
  shows "or_state out \<in> {PendingIncoming, PendingOutgoing} \<or> is_spent (or_state out)"
  using restore_funding_off_market [OF assms(1-5,7)] assms(6)
  by (auto simp: id_off_market_def off_market_def)

theorem restored_inputs_off_market_witness:
  "\<exists>s'. restore_scriptless_funding_reservations sample_rediscovered = (Inr (), s') \<and>
     map fr_reserved_output_ids (ws_funding_reservations s') = [[4]] \<and>
     list_all (\<lambda>out. or_state out \<in> {PendingIncoming, PendingOutgoing} \<or> is_spent (or_state out)) (ws_outputs s')"
proof -
  obtain s' where run: "restore_scriptless_funding_reservations sample_rediscovered = (Inr (), s')"
    and frs: "ws_funding_reservations s' = [sample_funding [4] [zeros 33]]"
    and ids: "map or_id (ws_outputs s') = [4]"
    by (simp add: restore_scriptless_funding_reservations_def sample_rediscovered_def sample_funding_def
        positions_def retains_inputs_def restore_funding_one_def restore_change_def restore_input_def
        locate_input_def op_then_def Let_def sample_wallet_def wallet_new_def)
  have "distinct (map or_id (ws_outputs sample_rediscovered))" "lengths_agree sample_rediscovered"
    by (simp_all add: sample_rediscovered_def lengths_agree_def sample_funding_def)
  moreover have "or_id out \<in> set [4]" if "out \<in> set (ws_outputs s')" for out
    using ids that by (metis image_eqI image_set)
  ultimately show ?thesis
    using restored_inputs_off_market [OF run, of "sample_funding [4] [zeros 33]"] run frs
    by (auto simp: sample_funding_def retains_inputs_def list_all_iff)
qed

text \<open>
  After a successful restoration of the payout reservations every reservation with prepared
  material has its output in the wallet, with the reserved value and commitment, in the default
  account, and with exactly the blinding of its private context remembered; a reservation without
  an output has no value.
\<close>

theorem restored_payouts_settled:
  assumes "restore_scriptless_payout_reservations s = (Inr (), s')"
    and "r \<in> set (ws_payout_reservations s')" and "has_prepared_material (pr_state r)"
  shows "case pr_output_id r of
      None \<Rightarrow> pr_payout_value_noms r = 0
    | Some oid \<Rightarrow> \<exists>out \<in> set (ws_outputs s'). or_id out = oid \<and>
        or_commitment out = pr_output_commitment r \<and> or_value out = pr_payout_value_noms r \<and>
        or_account_id out = acc_id (ws_default_account s') \<and>
        output_blinding s' oid = Option.bind (pr_private_context r) pc_output_blinding \<and>
        output_blinding s' oid \<noteq> None"
  using restore_payout_settled [OF assms]
  by (auto simp: payout_settled_def copy_output_blinding_to_def split: option.splits)

theorem restored_payouts_settled_witness:
  "\<exists>s'. restore_scriptless_payout_reservations (sample_wallet\<lparr>ws_payout_reservations := [sample_payout]\<rparr>)
       = (Inr (), s') \<and> output_blinding s' 6 = Some [1]"
proof -
  obtain s' where run: "restore_scriptless_payout_reservations
      (sample_wallet\<lparr>ws_payout_reservations := [sample_payout]\<rparr>) = (Inr (), s')"
    and prs: "ws_payout_reservations s' = [sample_payout]"
    by (simp add: restore_scriptless_payout_reservations_def sample_payout_def positions_def
        has_prepared_material_def restore_payout_one_def copy_output_blinding_to_def payout_context_new_def
        locate_payout_def settle_payout_def op_then_def Let_def sample_wallet_def wallet_new_def
        new_output_def output_blinding_def)
  from restored_payouts_settled [OF run, of sample_payout] prs run show ?thesis
    by (auto simp: sample_payout_def has_prepared_material_def payout_context_new_def)
qed

end
