(* ===== verification/Wallet_Evidence.thy ===== *)
theory Wallet_Evidence
  imports Wallet_Restore
begin

text \<open>
  How chain evidence reaches the wallet state: scan targets (\<open>begin_scan\<close>, \<open>activate_scan\<close>,
  \<open>invalidate_scan\<close>), output evidence (\<open>mark_known_output_spent\<close>,
  \<open>mark_known_outputs_confirmed\<close>), kernel evidence (\<open>apply_kernel_evidence\<close>) and its rollback
  (\<open>rollback_confirmations_for_rescan\<close>, \<open>rollback_confirmations_after_height\<close>,
  \<open>restore_reorged_reservations\<close>). The lemmas read kernel evidence and rollback as pointwise maps
  over the transactions and show what evidence can never do: create an output, revive a spent
  one, or lower an exposure.
\<close>

subsection \<open>Scan targets\<close>

definition begin_scan :: "scan_target \<Rightarrow> unit wallet_op" where
  "begin_scan target s =
     (case scan_target_validate target of
        Inl e \<Rightarrow> (Inl e, s)
      | Inr _ \<Rightarrow> (Inr (), s\<lparr>ws_provisional_target := Some target, ws_sync_status := Synchronizing\<rparr>))"

definition bump_generation :: "unit wallet_op" where
  "bump_generation s =
     (case checked_add (ws_generation s) 1 of
        None \<Rightarrow> (Inl GenerationOverflow, s)
      | Some g \<Rightarrow> (Inr (), s\<lparr>ws_generation := g\<rparr>))"

definition activate_scan :: "scan_target \<Rightarrow> output_record list \<Rightarrow> unit wallet_op" where
  "activate_scan target observations s =
     (if ws_provisional_target s \<noteq> Some target then (Inl ProvisionalTargetMismatch, s)
      else if MAX_OUTPUTS < length observations
           \<or> list_ex (\<lambda>out. or_account_id out \<noteq> acc_id (ws_default_account s)) observations
      then (Inl InvalidState, s)
      else op_then restore_scriptless_funding_reservations (\<lambda>_.
             op_then restore_scriptless_payout_reservations (\<lambda>_ s2.
               op_then bump_generation (\<lambda>_ s3. (wallet_validate s3, s3))
                 (s2\<lparr>ws_cursor := Some (scan_target_cursor target),
                     ws_provisional_target := None, ws_sync_status := Synced\<rparr>)))
             (s\<lparr>ws_outputs := observations\<rparr>))"

definition invalidate_scan :: "string \<Rightarrow> wallet_state \<Rightarrow> wallet_state" where
  "invalidate_scan reason s =
     s\<lparr>ws_provisional_target := None, ws_sync_status := RecoveryRequired reason\<rparr>"

subsection \<open>Output evidence\<close>

definition mark_known_output_spent :: "bytes \<Rightarrow> u64 \<Rightarrow> wallet_state \<Rightarrow> bool \<times> wallet_state" where
  "mark_known_output_spent c height s =
     (if list_ex (\<lambda>out. or_commitment out = Some c) (ws_outputs s)
      then (True, s\<lparr>ws_outputs := update_first (\<lambda>out. or_commitment out = Some c)
                     (\<lambda>out. out\<lparr>or_state := Spent height, or_reserved_by := None\<rparr>) (ws_outputs s)\<rparr>)
      else (False, s))"

definition on_transactions ::
  "(local_transaction_intent, domain_error, unit) meth \<Rightarrow> unit wallet_op" where
  "on_transactions f s =
     (case iter_mut_try f (ws_transactions s) of (r, txs) \<Rightarrow> (r, s\<lparr>ws_transactions := txs\<rparr>))"

definition confirm_received ::
  "uuid \<Rightarrow> u64 \<Rightarrow> bytes \<Rightarrow> (local_transaction_intent, domain_error, unit) meth" where
  "confirm_received oid height block_hash t =
     (if tx_recipient_output_id t = Some oid
         \<and> tx_lifecycle t \<in> {L_ResponsePrepared, L_ResponseExported}
      then tx_transition (L_Confirmed height block_hash) E_ConfirmationEvidence t
      else (Inr (), t))"

definition mark_output_confirmed :: "u64 \<Rightarrow> bytes \<Rightarrow> bytes \<Rightarrow> unit wallet_op" where
  "mark_output_confirmed height block_hash c s =
     (case position (\<lambda>out. or_commitment out = Some c) (ws_outputs s) of
        None \<Rightarrow> (Inr (), s)
      | Some i \<Rightarrow>
          (let out = ws_outputs s ! i;
               s1 = (if is_spent (or_state out) then s
                     else s\<lparr>ws_outputs := (ws_outputs s)[i :=
                              out\<lparr>or_state := Confirmed, or_discovered_height := height\<rparr>]\<rparr>)
           in on_transactions (confirm_received (or_id out) height block_hash) s1))"

fun mark_outputs_loop :: "u64 \<Rightarrow> bytes \<Rightarrow> bytes set \<Rightarrow> bytes list \<Rightarrow> unit wallet_op" where
  "mark_outputs_loop height block_hash seen [] s = (Inr (), s)"
| "mark_outputs_loop height block_hash seen (c # cs) s =
     (if c \<in> seen then (Inl InvalidState, s)
      else op_then (mark_output_confirmed height block_hash c)
             (\<lambda>_. mark_outputs_loop height block_hash (insert c seen) cs) s)"

definition mark_known_outputs_confirmed :: "bytes list \<Rightarrow> u64 \<Rightarrow> bytes \<Rightarrow> unit wallet_op" where
  "mark_known_outputs_confirmed commitments height block_hash =
     mark_outputs_loop height block_hash {} commitments"

subsection \<open>Kernel evidence\<close>

definition kernel_transition ::
  "u64 \<Rightarrow> bytes \<Rightarrow> (local_transaction_intent, domain_error, unit) meth" where
  "kernel_transition height block_hash t =
     (if tx_lifecycle t \<in> {L_Submitted, L_AcceptedNotRelayed, L_InMempool, L_RetransmitRequired,
                            L_Submitting, L_Reorged}
      then tx_transition (L_Confirmed height block_hash) E_ConfirmationEvidence t
      else if is_confirmed (tx_lifecycle t)
      then if tx_lifecycle t = L_Confirmed height block_hash then (Inr (), t)
           else tx_transition L_ReconciliationRequired E_ReconciliationEvidence t
      else (Inr (), t))"

fun apply_kernels_loop :: "u64 \<Rightarrow> bytes \<Rightarrow> bytes set \<Rightarrow> bytes list \<Rightarrow> unit wallet_op" where
  "apply_kernels_loop height block_hash seen [] s = (Inr (), s)"
| "apply_kernels_loop height block_hash seen (k # ks) s =
     (if k \<in> seen then (Inl DuplicateKernelEvidence, s)
      else case positions (\<lambda>t. tx_kernel_excess t = k) (ws_transactions s) of
             [] \<Rightarrow> apply_kernels_loop height block_hash (insert k seen) ks s
           | [i] \<Rightarrow>
               (case kernel_transition height block_hash (ws_transactions s ! i) of
                  (Inl e, t) \<Rightarrow> (Inl e, s\<lparr>ws_transactions := (ws_transactions s)[i := t]\<rparr>)
                | (Inr _, t) \<Rightarrow>
                    apply_kernels_loop height block_hash (insert k seen) ks
                      (s\<lparr>ws_transactions := (ws_transactions s)[i := t]\<rparr>))
           | _ \<Rightarrow> (Inl AmbiguousKernelEvidence, s))"

definition apply_kernel_evidence :: "u64 \<Rightarrow> bytes \<Rightarrow> bytes list \<Rightarrow> unit wallet_op" where
  "apply_kernel_evidence height block_hash kernels = apply_kernels_loop height block_hash {} kernels"

subsection \<open>Rollback\<close>

definition hold_for :: "uuid \<Rightarrow> uuid list \<Rightarrow> (output_record, domain_error, unit) meth" where
  "hold_for tid oids out =
     (if or_id out \<notin> set oids then (Inr (), out)
      else if is_spent (or_state out) then (Inr (), out)
      else if or_reserved_by out \<noteq> None \<and> or_reserved_by out \<noteq> Some tid
      then (Inl InvalidState, out)
      else (Inr (), out\<lparr>or_reserved_by := Some tid, or_state := PendingOutgoing\<rparr>))"

definition hold_transaction_inputs :: "uuid \<times> uuid list \<Rightarrow> unit wallet_op" where
  "hold_transaction_inputs x s =
     (case iter_mut_try (hold_for (fst x) (snd x)) (ws_outputs s) of
        (r, outs) \<Rightarrow> (r, s\<lparr>ws_outputs := outs\<rparr>))"

definition restore_reorged_reservations :: "unit wallet_op" where
  "restore_reorged_reservations s =
     op_then (for_each hold_transaction_inputs
                (map (\<lambda>t. (tx_id t, tx_reserved_output_ids t))
                  (filter (\<lambda>t. tx_lifecycle t = L_Reorged) (ws_transactions s))))
       (\<lambda>_. op_then restore_scriptless_funding_reservations
              (\<lambda>_. restore_scriptless_payout_reservations)) s"

definition reorg_if ::
  "(u64 \<Rightarrow> bool) \<Rightarrow> (local_transaction_intent, domain_error, unit) meth" where
  "reorg_if newer t =
     (case tx_lifecycle t of
        L_Confirmed h b \<Rightarrow>
          if newer h then tx_transition L_Reorged E_ReorgEvidence t else (Inr (), t)
      | _ \<Rightarrow> (Inr (), t))"

definition rollback_confirmations_for_rescan :: "unit wallet_op" where
  "rollback_confirmations_for_rescan =
     op_then (on_transactions (reorg_if (\<lambda>_. True))) (\<lambda>_. restore_reorged_reservations)"

definition rollback_confirmations_after_height :: "u64 \<Rightarrow> unit wallet_op" where
  "rollback_confirmations_after_height safe_height =
     op_then (on_transactions (reorg_if (\<lambda>h. safe_height < h))) (\<lambda>_. restore_reorged_reservations)"

subsection \<open>Kernel evidence as a map over the transactions\<close>

definition kernel_update :: "u64 \<Rightarrow> bytes \<Rightarrow> local_transaction_intent \<Rightarrow> local_transaction_intent" where
  "kernel_update height block_hash t = snd (kernel_transition height block_hash t)"

abbreviation in_flight :: "tx_lifecycle set" where
  "in_flight \<equiv> {L_Submitted, L_AcceptedNotRelayed, L_InMempool, L_RetransmitRequired,
     L_Submitting, L_Reorged}"

lemma kernel_transition_eq:
  "kernel_transition height block_hash t =
     (Inr (), if tx_lifecycle t \<in> in_flight
        then t\<lparr>tx_exposure := max (tx_exposure t) ExposureConfirmed,
               tx_lifecycle := L_Confirmed height block_hash\<rparr>
        else if is_confirmed (tx_lifecycle t) \<and> tx_lifecycle t \<noteq> L_Confirmed height block_hash
        then t\<lparr>tx_exposure := max (tx_exposure t) PossiblyRelayed,
               tx_lifecycle := L_ReconciliationRequired\<rparr>
        else t)"
proof -
  have "tx_lifecycle t \<in> in_flight \<Longrightarrow>
      transition_permitted (tx_lifecycle t) (L_Confirmed height block_hash) E_ConfirmationEvidence"
    by (auto simp: transition_permitted_def transition_table_def)
  moreover have "is_confirmed (tx_lifecycle t) \<Longrightarrow>
      transition_permitted (tx_lifecycle t) L_ReconciliationRequired E_ReconciliationEvidence"
    by (auto simp: transition_permitted_def transition_table_def)
  ultimately show ?thesis by (simp add: kernel_transition_def tx_transition_def)
qed

lemma kernel_transition_ok:
  "kernel_transition height block_hash t = (Inr (), kernel_update height block_hash t)"
  by (simp add: kernel_update_def kernel_transition_eq)

lemma kernel_update_kernel [simp]:
  "tx_kernel_excess (kernel_update height block_hash t) = tx_kernel_excess t"
  by (simp add: kernel_update_def kernel_transition_eq)

lemma kernel_update_settled:
  "tx_lifecycle (kernel_update height block_hash t) \<notin> in_flight \<and>
   (is_confirmed (tx_lifecycle (kernel_update height block_hash t)) \<longrightarrow>
      tx_lifecycle (kernel_update height block_hash t) = L_Confirmed height block_hash)"
  by (auto simp: kernel_update_def kernel_transition_eq)

lemma kernel_update_idem [simp]:
  "kernel_update height block_hash (kernel_update height block_hash t) = kernel_update height block_hash t"
  using kernel_update_settled [of height block_hash t]
  by (subst kernel_update_def) (auto simp: kernel_transition_eq)

lemma map_positions_update:
  assumes "positions P xs = [i]"
  shows "xs[i := f (xs ! i)] = map (\<lambda>x. if P x then f x else x) xs"
proof -
  have "{i} = {j. j < length xs \<and> P (xs ! j)}"
    using set_positions [of P xs] assms by simp
  then have "j < length xs \<Longrightarrow> P (xs ! j) \<longleftrightarrow> j = i" for j by blast
  then show ?thesis by (intro nth_equalityI) (simp_all add: nth_list_update)
qed

lemma map_positions_Nil: "positions P xs = [] \<Longrightarrow> map (\<lambda>x. if P x then f x else x) xs = xs"
  using set_positions [of P xs] by (intro nth_equalityI) auto

text \<open>No kernel of the batch is carried by two local transactions.\<close>

definition kernels_unambiguous :: "bytes list \<Rightarrow> local_transaction_intent list \<Rightarrow> bool" where
  "kernels_unambiguous ks txs \<longleftrightarrow>
     (\<forall>k \<in> set ks. length (filter (\<lambda>t. tx_kernel_excess t = k) txs) \<le> 1)"

lemma length_positions: "length (positions P xs) = length (filter P xs)"
proof -
  have "filter P xs = filter P (map snd (enumerate 0 xs))" by simp
  also have "length \<dots> = length (positions P xs)"
    by (simp only: positions_def length_map filter_map comp_def case_prod_unfold)
  finally show ?thesis by simp
qed

lemma apply_kernels_loop_spec:
  "apply_kernels_loop height block_hash seen ks s = (r, s') \<Longrightarrow>
     (r = Inr () \<longleftrightarrow> distinct ks \<and> set ks \<inter> seen = {} \<and> kernels_unambiguous ks (ws_transactions s)) \<and>
     (r = Inr () \<longrightarrow> s' = s\<lparr>ws_transactions := map (\<lambda>t. if tx_kernel_excess t \<in> set ks
        then kernel_update height block_hash t else t) (ws_transactions s)\<rparr>) \<and>
     (\<forall>e. r = Inl e \<longrightarrow> e \<in> {DuplicateKernelEvidence, AmbiguousKernelEvidence})"
proof (induction ks arbitrary: seen s)
  case Nil
  then show ?case by (auto simp: kernels_unambiguous_def)
next
  case (Cons k ks)
  let ?P = "\<lambda>t. tx_kernel_excess t = k"
  let ?u = "\<lambda>t. if ?P t then kernel_update height block_hash t else t"
  show ?case
  proof (cases "k \<in> seen \<or> 1 < length (positions ?P (ws_transactions s))")
    case True
    then have "r \<noteq> Inr ()" "\<forall>e. r = Inl e \<longrightarrow> e \<in> {DuplicateKernelEvidence, AmbiguousKernelEvidence}"
      using Cons.prems by (auto split: list.splits if_splits)
    moreover have "k \<in> seen \<or> \<not> kernels_unambiguous (k # ks) (ws_transactions s)"
      using True by (auto simp: kernels_unambiguous_def length_positions)
    ultimately show ?thesis by auto
  next
    case False
    have next_state: "apply_kernels_loop height block_hash (insert k seen) ks
       (s\<lparr>ws_transactions := map ?u (ws_transactions s)\<rparr>) = (r, s')"
    proof (cases "positions ?P (ws_transactions s)")
      case Nil
      then have "s\<lparr>ws_transactions := map ?u (ws_transactions s)\<rparr> = s"
        using map_positions_Nil [OF Nil] by simp
      then show ?thesis using Cons.prems False Nil by simp
    next
      case (Cons i js)
      with False have one: "positions ?P (ws_transactions s) = [i]" by (cases js) auto
      show ?thesis
        using Cons.prems False one
          map_positions_update [OF one, of "kernel_update height block_hash"]
        by (simp add: kernel_transition_ok)
    qed
    have same: "kernels_unambiguous ks (map ?u (ws_transactions s)) = kernels_unambiguous ks (ws_transactions s)"
      by (auto simp: kernels_unambiguous_def filter_map comp_def if_distrib cong: if_cong)
    have "length (filter ?P (ws_transactions s)) \<le> 1"
      using False by (simp add: length_positions)
    moreover have "map (\<lambda>t. if tx_kernel_excess t \<in> set ks then kernel_update height block_hash t else t)
        (map ?u (ws_transactions s)) =
      map (\<lambda>t. if tx_kernel_excess t \<in> set (k # ks) then kernel_update height block_hash t else t)
        (ws_transactions s)"
      by simp
    ultimately show ?thesis
      using Cons.IH [OF next_state] False same by (auto simp: kernels_unambiguous_def)
  qed
qed

subsection \<open>Rollback\<close>

lemma hold_for_held: "hold_for tid oids out = (q, out') \<Longrightarrow> out_held out out'"
  by (auto simp: hold_for_def out_held_def out_identity_def split: if_splits)

lemma hold_for_off: "hold_for tid oids out = (Inr (), out') \<Longrightarrow> or_id out \<in> set oids \<Longrightarrow> off_market out'"
  by (auto simp: hold_for_def off_market_def split: if_splits)

lemma out_held_ids: "list_all2 out_held outs outs' \<Longrightarrow> map or_id outs' = map or_id outs"
  by (induction rule: list_all2_induct) (auto simp: out_held_def out_identity_def)

lemma hold_transaction_inputs_frame:
  assumes "hold_transaction_inputs x s = (q, s')"
  shows "restore_frame s s'"
proof -
  obtain outs where run: "iter_mut_try (hold_for (fst x) (snd x)) (ws_outputs s) = (q, outs)"
    and s': "s' = s\<lparr>ws_outputs := outs\<rparr>"
    using assms by (auto simp: hold_transaction_inputs_def split: prod.splits)
  have held: "list_all2 out_held (ws_outputs s) outs"
    by (rule iter_mut_try_list_all2 [OF run]) (auto dest: hold_for_held)
  then have "outs_grow (ws_outputs s) outs"
    unfolding outs_grow_def by (intro exI [of _ outs] exI [of _ "[]"]) simp
  then show ?thesis
    by (intro restore_frameI [where outs = outs and blinds = "ws_private_output_blindings s"
          and frs = "ws_funding_reservations s" and prs = "ws_payout_reservations s"])
      (simp_all add: s' list_all2_refl out_held_ids [OF held])
qed

lemma hold_transaction_inputs_off:
  assumes "hold_transaction_inputs x s = (Inr (), s')" and "oid \<in> set (snd x)"
  shows "id_off_market (ws_outputs s') oid"
proof -
  obtain outs where "iter_mut_try (hold_for (fst x) (snd x)) (ws_outputs s) = (Inr (), outs)"
    and s': "s' = s\<lparr>ws_outputs := outs\<rparr>"
    using assms(1) by (auto simp: hold_transaction_inputs_def split: prod.splits)
  then have outs: "outs = map (\<lambda>out. snd (hold_for (fst x) (snd x) out)) (ws_outputs s)"
    and ok: "\<forall>out \<in> set (ws_outputs s). \<exists>v. fst (hold_for (fst x) (snd x) out) = Inr v"
    using iter_mut_try_Inr_map by blast+
  have "off_market (snd (hold_for (fst x) (snd x) out))"
    if "out \<in> set (ws_outputs s)" "or_id (snd (hold_for (fst x) (snd x) out)) = oid" for out
  proof -
    have "fst (hold_for (fst x) (snd x) out) = Inr ()" using ok that(1) by auto
    then obtain out' where h: "hold_for (fst x) (snd x) out = (Inr (), out')"
      by (cases "hold_for (fst x) (snd x) out") auto
    then show ?thesis
      using that(2) assms(2) hold_for_off [OF h] hold_for_held [OF h]
      by (auto simp: out_held_def out_identity_def)
  qed
  then show ?thesis by (auto simp: id_off_market_def s' outs)
qed

lemma restore_reorged_frame:
  assumes "restore_reorged_reservations s = (q, s')"
  shows "restore_frame s s'"
proof -
  have holds: "restore_frame s t" if "for_each hold_transaction_inputs xs s = (p, t)" for xs p t
    by (rule for_each_invariant [where I = "restore_frame s", OF _ _ that])
      (auto intro: restore_frame_trans hold_transaction_inputs_frame)
  show ?thesis
    using assms
    by (auto simp: restore_reorged_reservations_def op_then_def split: prod.splits sum.splits
        intro: holds restore_frame_trans [OF holds restore_funding_frame]
          restore_frame_trans [OF restore_frame_trans [OF holds restore_funding_frame] restore_payout_frame])
qed

lemma restore_reorged_off:
  assumes "restore_reorged_reservations s = (Inr (), s')"
    and "t \<in> set (ws_transactions s)" "tx_lifecycle t = L_Reorged" "oid \<in> set (tx_reserved_output_ids t)"
  shows "id_off_market (ws_outputs s') oid"
proof -
  let ?xs = "map (\<lambda>t. (tx_id t, tx_reserved_output_ids t))
    (filter (\<lambda>t. tx_lifecycle t = L_Reorged) (ws_transactions s))"
  from assms(1) obtain s1 s2 where run: "for_each hold_transaction_inputs ?xs s = (Inr (), s1)"
    "restore_scriptless_funding_reservations s1 = (Inr (), s2)"
    "restore_scriptless_payout_reservations s2 = (Inr (), s')"
    by (auto simp: restore_reorged_reservations_def res_simps)
  have "True \<and> (\<forall>x \<in> set ?xs. \<forall>oid \<in> set (snd x). id_off_market (ws_outputs s1) oid)"
    by (rule for_each_establishes [OF _ _ _ run(1)])
      (auto dest: hold_transaction_inputs_off hold_transaction_inputs_frame restore_frame_outs
        intro: outs_grow_off_market)
  then have "id_off_market (ws_outputs s1) oid" using assms(2-4) by auto
  then show ?thesis
    using outs_grow_off_market restore_frame_outs restore_funding_frame [OF run(2)]
      restore_payout_frame [OF run(3)] by metis
qed

text \<open>What rolling back does to one transaction.\<close>

definition reorged :: "(u64 \<Rightarrow> bool) \<Rightarrow> local_transaction_intent \<Rightarrow> local_transaction_intent" where
  "reorged newer t =
     (if is_confirmed (tx_lifecycle t) \<and> newer (conf_height (tx_lifecycle t))
      then t\<lparr>tx_exposure := max (tx_exposure t) PossiblyRelayed, tx_lifecycle := L_Reorged\<rparr> else t)"

lemma reorg_if_eq: "reorg_if newer t = (Inr (), reorged newer t)"
  by (cases "tx_lifecycle t")
    (simp_all add: reorg_if_def reorged_def tx_transition_def transition_permitted_def transition_table_def)

lemma on_transactions_reorg:
  "on_transactions (reorg_if newer) s =
     (Inr (), s\<lparr>ws_transactions := map (reorged newer) (ws_transactions s)\<rparr>)"
  using iter_mut_try_all_ok [of "ws_transactions s" "reorg_if newer"]
  by (simp add: on_transactions_def reorg_if_eq)

lemma rollback_eq:
  "op_then (on_transactions (reorg_if newer)) (\<lambda>_. restore_reorged_reservations) s =
     restore_reorged_reservations (s\<lparr>ws_transactions := map (reorged newer) (ws_transactions s)\<rparr>)"
  by (simp add: op_then_def on_transactions_reorg)

lemma restore_frame_transactions: "restore_frame s s' \<Longrightarrow> ws_transactions s' = ws_transactions s"
  by (auto simp: restore_frame_def)

lemma rollback_transactions:
  assumes "rollback_confirmations_after_height h s = (r, s')"
  shows "ws_transactions s' = map (reorged (\<lambda>x. h < x)) (ws_transactions s)"
  using restore_frame_transactions [OF restore_reorged_frame] assms
  by (fastforce simp: rollback_confirmations_after_height_def rollback_eq)

subsection \<open>What evidence can never do\<close>

definition out_evidence :: "output_record \<Rightarrow> output_record \<Rightarrow> bool" where
  "out_evidence out out' \<longleftrightarrow>
     or_id out' = or_id out \<and> or_account_id out' = or_account_id out \<and>
     or_commitment out' = or_commitment out \<and> or_value out' = or_value out \<and>
     (is_spent (or_state out) \<longrightarrow> is_spent (or_state out'))"

definition tx_evidence :: "local_transaction_intent \<Rightarrow> local_transaction_intent \<Rightarrow> bool" where
  "tx_evidence t t' \<longleftrightarrow> tx_core_frame t t' \<and> (exposure_floor_ok t \<longrightarrow> exposure_floor_ok t')"

definition evidence_frame :: "wallet_state \<Rightarrow> wallet_state \<Rightarrow> bool" where
  "evidence_frame s s' \<longleftrightarrow>
     (\<exists>outs txs. s' = s\<lparr>ws_outputs := outs, ws_transactions := txs\<rparr> \<and>
        list_all2 out_evidence (ws_outputs s) outs \<and> list_all2 tx_evidence (ws_transactions s) txs)"

lemma evidence_frameI:
  "list_all2 out_evidence (ws_outputs s) outs \<Longrightarrow> list_all2 tx_evidence (ws_transactions s) txs \<Longrightarrow>
     evidence_frame s (s\<lparr>ws_outputs := outs, ws_transactions := txs\<rparr>)"
  by (auto simp: evidence_frame_def)

lemma evidence_frameD:
  "evidence_frame s s' \<Longrightarrow> list_all2 out_evidence (ws_outputs s) (ws_outputs s') \<and>
     list_all2 tx_evidence (ws_transactions s) (ws_transactions s')"
  by (auto simp: evidence_frame_def)

lemma out_evidence_refl [simp]: "out_evidence out out"
  by (simp add: out_evidence_def)

lemma out_evidence_trans: "out_evidence a b \<Longrightarrow> out_evidence b c \<Longrightarrow> out_evidence a c"
  by (auto simp: out_evidence_def)

lemma tx_evidence_refl [simp]: "tx_evidence t t"
  by (simp add: tx_evidence_def)

lemma tx_evidence_trans: "tx_evidence a b \<Longrightarrow> tx_evidence b c \<Longrightarrow> tx_evidence a c"
  by (auto simp: tx_evidence_def intro: tx_core_frame_trans)

lemma tx_evidence_transition: "tx_transition nxt ev t = (q, t') \<Longrightarrow> tx_evidence t t'"
  by (auto simp: tx_evidence_def intro: tx_transition_frame tx_transition_floor)

lemma evidence_frame_refl [simp]: "evidence_frame s s"
  using evidence_frameI [of s "ws_outputs s" "ws_transactions s"] by (simp add: list_all2_refl)

lemma evidence_frame_trans:
  assumes "evidence_frame a b" and "evidence_frame b c"
  shows "evidence_frame a c"
proof -
  from assms obtain o1 t1 o2 t2 where b: "b = a\<lparr>ws_outputs := o1, ws_transactions := t1\<rparr>"
    and c: "c = b\<lparr>ws_outputs := o2, ws_transactions := t2\<rparr>"
    by (auto simp: evidence_frame_def)
  have "list_all2 out_evidence (ws_outputs a) o2"
    using evidence_frameD [OF assms(1)] evidence_frameD [OF assms(2)] b c
    by (auto intro: list_all2_trans [OF out_evidence_trans])
  moreover have "list_all2 tx_evidence (ws_transactions a) t2"
    using evidence_frameD [OF assms(1)] evidence_frameD [OF assms(2)] b c
    by (auto intro: list_all2_trans [OF tx_evidence_trans])
  ultimately show ?thesis using evidence_frameI [of a o2 t2] b c by simp
qed

lemma on_transactions_evidence:
  assumes "on_transactions f s = (q, s')"
    and "\<And>t p t'. t \<in> set (ws_transactions s) \<Longrightarrow> f t = (p, t') \<Longrightarrow> tx_evidence t t'"
  shows "evidence_frame s s'"
proof -
  obtain txs where "iter_mut_try f (ws_transactions s) = (q, txs)" and s': "s' = s\<lparr>ws_transactions := txs\<rparr>"
    using assms(1) by (auto simp: on_transactions_def split: prod.splits)
  then have "list_all2 tx_evidence (ws_transactions s) txs"
    by (rule_tac iter_mut_try_list_all2) (auto intro: assms(2))
  then show ?thesis
    using evidence_frameI [of s "ws_outputs s" txs] s' by (simp add: list_all2_refl)
qed

lemma output_update_evidence:
  assumes "i < length (ws_outputs s)" and "out_evidence (ws_outputs s ! i) out'"
  shows "evidence_frame s (s\<lparr>ws_outputs := (ws_outputs s)[i := out']\<rparr>)"
proof -
  have "list_all2 out_evidence (ws_outputs s) ((ws_outputs s)[i := out'])"
    using assms by (intro list_all2_update_right) auto
  then show ?thesis
    using evidence_frameI [of s _ "ws_transactions s"] by (simp add: list_all2_refl)
qed

lemma confirm_received_evidence: "confirm_received oid h b t = (q, t') \<Longrightarrow> tx_evidence t t'"
  by (auto simp: confirm_received_def split: if_splits intro: tx_evidence_transition)

lemma mark_output_confirmed_evidence:
  assumes "mark_output_confirmed h b c s = (q, s')"
  shows "evidence_frame s s'"
proof (cases "position (\<lambda>out. or_commitment out = Some c) (ws_outputs s)")
  case None
  then show ?thesis using assms by (simp add: mark_output_confirmed_def)
next
  case (Some i)
  define s1 where "s1 = (if is_spent (or_state (ws_outputs s ! i)) then s
     else s\<lparr>ws_outputs := (ws_outputs s)[i :=
       (ws_outputs s ! i)\<lparr>or_state := Confirmed, or_discovered_height := h\<rparr>]\<rparr>)"
  have "evidence_frame s s1"
    using position_SomeD [OF Some]
    by (auto simp: s1_def out_evidence_def intro!: output_update_evidence)
  moreover have "on_transactions (confirm_received (or_id (ws_outputs s ! i)) h b) s1 = (q, s')"
    using assms Some by (simp add: mark_output_confirmed_def s1_def Let_def)
  then have "evidence_frame s1 s'"
    by (rule on_transactions_evidence) (rule confirm_received_evidence)
  ultimately show ?thesis by (rule evidence_frame_trans)
qed

lemma mark_outputs_loop_evidence:
  "mark_outputs_loop h b seen cs s = (q, s') \<Longrightarrow> evidence_frame s s'"
proof (induction cs arbitrary: seen s)
  case Nil
  then show ?case by simp
next
  case (Cons c cs)
  obtain p s1 where step: "mark_output_confirmed h b c s = (p, s1)" by fastforce
  note f = mark_output_confirmed_evidence [OF step]
  show ?case
    using Cons.prems Cons.IH [of "insert c seen" s1] f step
    by (auto simp: op_then_def split: if_splits sum.splits intro: evidence_frame_trans)
qed

lemma kernel_transition_evidence: "kernel_transition h b t = (q, t') \<Longrightarrow> tx_evidence t t'"
  by (auto simp: kernel_transition_def split: if_splits intro: tx_evidence_transition)

lemma apply_kernels_loop_evidence:
  "apply_kernels_loop h b seen ks s = (q, s') \<Longrightarrow> evidence_frame s s'"
proof (induction ks arbitrary: seen s)
  case Nil
  then show ?case by simp
next
  case (Cons k ks)
  have one: "evidence_frame s (s\<lparr>ws_transactions := (ws_transactions s)[i :=
      kernel_update h b (ws_transactions s ! i)]\<rparr>)"
    if "positions (\<lambda>t. tx_kernel_excess t = k) (ws_transactions s) = [i]" for i
  proof -
    have "i \<in> set (positions (\<lambda>t. tx_kernel_excess t = k) (ws_transactions s))" using that by simp
    then have "i < length (ws_transactions s)" by (simp only: set_positions mem_Collect_eq)
    then have "list_all2 tx_evidence (ws_transactions s) ((ws_transactions s)[i :=
      kernel_update h b (ws_transactions s ! i)])"
      using kernel_transition_evidence [OF kernel_transition_ok]
      by (intro list_all2_update_right) auto
    then show ?thesis
      using evidence_frameI [of s "ws_outputs s"] by (simp add: list_all2_refl)
  qed
  show ?case
    using Cons.prems Cons.IH one
    by (auto simp: kernel_transition_ok split: if_splits list.splits intro: evidence_frame_trans)
qed

lemma mark_known_output_spent_evidence:
  "mark_known_output_spent c h s = (known, s') \<Longrightarrow> evidence_frame s s'"
proof -
  assume run: "mark_known_output_spent c h s = (known, s')"
  have "list_all2 out_evidence outs (update_first (\<lambda>out. or_commitment out = Some c)
     (\<lambda>out. out\<lparr>or_state := Spent h, or_reserved_by := None\<rparr>) outs)" for outs
    by (induction outs) (auto simp: out_evidence_def list_all2_refl)
  then show ?thesis
    using run evidence_frameI [of s _ "ws_transactions s"]
    by (auto simp: mark_known_output_spent_def list_all2_refl split: if_splits)
qed

lemmas evidence_frames = mark_known_output_spent_evidence mark_outputs_loop_evidence
  apply_kernels_loop_evidence

subsection \<open>Properties\<close>

lemma kernels_unambiguous_map:
  assumes "\<And>t. tx_kernel_excess (f t) = tx_kernel_excess t"
  shows "kernels_unambiguous ks (map f txs) = kernels_unambiguous ks txs"
  using assms by (simp add: kernels_unambiguous_def filter_map comp_def)

lemma kernel_evidence_ok:
  "apply_kernel_evidence h b ks s = (Inr (), s') \<longleftrightarrow>
     distinct ks \<and> kernels_unambiguous ks (ws_transactions s) \<and>
     s' = s\<lparr>ws_transactions := map (\<lambda>t. if tx_kernel_excess t \<in> set ks then kernel_update h b t else t)
            (ws_transactions s)\<rparr>"
proof -
  obtain r s1 where "apply_kernel_evidence h b ks s = (r, s1)" by fastforce
  with apply_kernels_loop_spec [of h b "{}" ks s r s1] show ?thesis
    by (auto simp: apply_kernel_evidence_def)
qed

text \<open>
  C25: kernel evidence of a block is accepted exactly when no kernel is listed twice and none
  belongs to two transactions. Then every in-flight transaction whose kernel is listed is confirmed
  in that block, one confirmed elsewhere is sent to reconciliation, everything else is untouched,
  and applying the same evidence again changes nothing.
\<close>

theorem kernel_evidence_exact:
  assumes "apply_kernel_evidence h b ks s = (r, s')"
  shows "(r = Inr () \<longleftrightarrow> distinct ks \<and> kernels_unambiguous ks (ws_transactions s)) \<and>
    (\<forall>e. r = Inl e \<longrightarrow> e \<in> {DuplicateKernelEvidence, AmbiguousKernelEvidence}) \<and>
    (r = Inr () \<longrightarrow>
       s' = s\<lparr>ws_transactions := map (\<lambda>t.
              if tx_kernel_excess t \<in> set ks \<and> tx_lifecycle t \<in> in_flight
              then t\<lparr>tx_exposure := max (tx_exposure t) ExposureConfirmed, tx_lifecycle := L_Confirmed h b\<rparr>
              else if tx_kernel_excess t \<in> set ks \<and> is_confirmed (tx_lifecycle t)
                      \<and> tx_lifecycle t \<noteq> L_Confirmed h b
              then t\<lparr>tx_exposure := max (tx_exposure t) PossiblyRelayed,
                     tx_lifecycle := L_ReconciliationRequired\<rparr>
              else t) (ws_transactions s)\<rparr> \<and>
       apply_kernel_evidence h b ks s' = (Inr (), s'))"
proof -
  let ?f = "\<lambda>t. if tx_kernel_excess t \<in> set ks then kernel_update h b t else t"
  note spec = apply_kernels_loop_spec [OF assms [unfolded apply_kernel_evidence_def]]
  have idem: "apply_kernel_evidence h b ks s' = (Inr (), s')" if "r = Inr ()"
  proof -
    have "s' = s\<lparr>ws_transactions := map ?f (ws_transactions s)\<rparr>" "distinct ks"
      "kernels_unambiguous ks (ws_transactions s)"
      using spec that by auto
    then show ?thesis
      by (simp add: kernel_evidence_ok kernels_unambiguous_map)
  qed
  have "?f = (\<lambda>t. if tx_kernel_excess t \<in> set ks \<and> tx_lifecycle t \<in> in_flight
      then t\<lparr>tx_exposure := max (tx_exposure t) ExposureConfirmed, tx_lifecycle := L_Confirmed h b\<rparr>
      else if tx_kernel_excess t \<in> set ks \<and> is_confirmed (tx_lifecycle t) \<and> tx_lifecycle t \<noteq> L_Confirmed h b
      then t\<lparr>tx_exposure := max (tx_exposure t) PossiblyRelayed, tx_lifecycle := L_ReconciliationRequired\<rparr>
      else t)"
    by (rule ext) (simp add: kernel_update_def kernel_transition_eq)
  then show ?thesis using spec idem by simp
qed

theorem kernel_evidence_exact_witness:
  "apply_kernel_evidence 7 (zeros 32) [[1], [2]]
     (sample_wallet\<lparr>ws_transactions := [(sample_intent L_Submitted PossiblyRelayed)\<lparr>tx_kernel_excess := [2]\<rparr>]\<rparr>) =
   (Inr (), sample_wallet\<lparr>ws_transactions :=
      [(sample_intent (L_Confirmed 7 (zeros 32)) ExposureConfirmed)\<lparr>tx_kernel_excess := [2]\<rparr>]\<rparr>)"
proof -
  let ?s = "sample_wallet\<lparr>ws_transactions := [(sample_intent L_Submitted PossiblyRelayed)\<lparr>tx_kernel_excess := [2]\<rparr>]\<rparr>"
  obtain r s' where run: "apply_kernel_evidence 7 (zeros 32) [[1], [2]] ?s = (r, s')" by fastforce
  have "r = Inr ()"
    using kernel_evidence_exact [OF run] by (simp add: kernels_unambiguous_def sample_intent_def)
  then show ?thesis
    using kernel_evidence_exact [OF run] run
    by (simp add: sample_intent_def max_def exposure_order)
qed

text \<open>
  C26: rolling back to a safe height turns exactly the confirmations above it into reorganised
  transactions, leaves every other transaction alone, and on success no input of a reorganised
  transaction can be selected again.
\<close>

theorem rollback_exact:
  assumes "rollback_confirmations_after_height safe s = (Inr (), s')"
  shows "ws_transactions s' = map (\<lambda>t.
      if is_confirmed (tx_lifecycle t) \<and> safe < conf_height (tx_lifecycle t)
      then t\<lparr>tx_exposure := max (tx_exposure t) PossiblyRelayed, tx_lifecycle := L_Reorged\<rparr> else t)
      (ws_transactions s) \<and>
    (\<forall>t \<in> set (ws_transactions s'). tx_lifecycle t = L_Reorged \<longrightarrow>
       (\<forall>out \<in> set (ws_outputs s'). or_id out \<in> set (tx_reserved_output_ids t) \<longrightarrow>
          or_state out \<in> {PendingIncoming, PendingOutgoing} \<or> is_spent (or_state out)))"
proof -
  let ?s1 = "s\<lparr>ws_transactions := map (reorged (\<lambda>x. safe < x)) (ws_transactions s)\<rparr>"
  note txs = rollback_transactions [OF assms]
  have "restore_reorged_reservations ?s1 = (Inr (), s')"
    using assms by (simp add: rollback_confirmations_after_height_def rollback_eq)
  from restore_reorged_off [OF this] txs show ?thesis
    by (auto simp: reorged_def id_off_market_def off_market_def)
qed

theorem rollback_exact_witness:
  "let s = sample_wallet\<lparr>
         ws_outputs := [sample_output 5 8 7 Confirmed None],
         ws_transactions := [(sample_intent (L_Confirmed 9 (zeros 32)) ExposureConfirmed)
           \<lparr>tx_reserved_output_ids := [5]\<rparr>]\<rparr>
   in \<exists>s'. rollback_confirmations_after_height 8 s = (Inr (), s') \<and>
        map tx_lifecycle (ws_transactions s') = [L_Reorged] \<and>
        map or_state (ws_outputs s') = [PendingOutgoing]"
proof -
  let ?s = "sample_wallet\<lparr>
         ws_outputs := [sample_output 5 8 7 Confirmed None],
         ws_transactions := [(sample_intent (L_Confirmed 9 (zeros 32)) ExposureConfirmed)
           \<lparr>tx_reserved_output_ids := [5]\<rparr>]\<rparr>"
  obtain s' where run: "rollback_confirmations_after_height 8 ?s = (Inr (), s')"
    and outs: "map or_state (ws_outputs s') = [PendingOutgoing]"
    unfolding rollback_confirmations_after_height_def rollback_eq
    by (simp add: restore_reorged_reservations_def reorged_def op_then_def hold_transaction_inputs_def hold_for_def sample_intent_def sample_output_def
        restore_scriptless_funding_reservations_def restore_scriptless_payout_reservations_def
        positions_def sample_wallet_def wallet_new_def)
  from rollback_exact [OF run] have "map tx_lifecycle (ws_transactions s') = [L_Reorged]"
    by (simp add: sample_intent_def)
  with run outs show ?thesis by (auto simp: Let_def)
qed

text \<open>
  Block evidence can only annotate what the wallet already knows. Whatever commitments, spent
  outputs and kernels a node reports, and whether or not they are accepted, no output appears,
  disappears, changes value, owner or commitment or returns from being spent, and no transaction is
  lost or loses exposure.
\<close>

theorem evidence_creates_nothing:
  assumes "mark_known_outputs_confirmed cs h b s = (r1, s1)"
    and "mark_known_output_spent c h s1 = (known, s2)"
    and "apply_kernel_evidence h b ks s2 = (r3, s3)"
  shows "list_all2 (\<lambda>out out'. or_id out' = or_id out \<and> or_account_id out' = or_account_id out \<and>
        or_commitment out' = or_commitment out \<and> or_value out' = or_value out \<and>
        (is_spent (or_state out) \<longrightarrow> is_spent (or_state out'))) (ws_outputs s) (ws_outputs s3) \<and>
    list_all2 (\<lambda>t t'. tx_core_frame t t' \<and> (exposure_floor_ok t \<longrightarrow> exposure_floor_ok t'))
      (ws_transactions s) (ws_transactions s3)"
proof -
  have "evidence_frame s s3"
    using evidence_frames(2) [OF assms(1) [unfolded mark_known_outputs_confirmed_def]]
      evidence_frames(1) [OF assms(2)] evidence_frames(3) [OF assms(3) [unfolded apply_kernel_evidence_def]]
    by (blast intro: evidence_frame_trans)
  from evidence_frameD [OF this] show ?thesis
    by (simp add: out_evidence_def [abs_def] tx_evidence_def [abs_def])
qed

theorem evidence_creates_nothing_witness:
  "let s = sample_wallet\<lparr>ws_outputs := [sample_output 5 8 7 PendingIncoming None]\<rparr>;
       s1 = snd (mark_known_outputs_confirmed [8 # zeros 32, 9 # zeros 32] 3 (zeros 32) s);
       s2 = snd (mark_known_output_spent (9 # zeros 32) 3 s1);
       s3 = snd (apply_kernel_evidence 3 (zeros 32) [] s2)
   in length (ws_outputs s3) = 1"
proof -
  let ?s = "sample_wallet\<lparr>ws_outputs := [sample_output 5 8 7 PendingIncoming None]\<rparr>"
  obtain r1 s1 where "mark_known_outputs_confirmed [8 # zeros 32, 9 # zeros 32] 3 (zeros 32) ?s = (r1, s1)"
    by fastforce
  moreover obtain k s2 where "mark_known_output_spent (9 # zeros 32) 3 s1 = (k, s2)" by fastforce
  moreover obtain r3 s3 where "apply_kernel_evidence 3 (zeros 32) [] s2 = (r3, s3)" by fastforce
  ultimately show ?thesis
    using evidence_creates_nothing [of "[8 # zeros 32, 9 # zeros 32]" 3 "zeros 32" ?s r1 s1 "9 # zeros 32" k s2
        "[]" r3 s3]
    by (auto simp: Let_def dest: list_all2_lengthD)
qed

end
