(* ===== verification/Rescan.thy ===== *)
theory Rescan
  imports Wallet_Evidence Machines
begin

text \<open>
  The durable rescan plan: \<open>prepare_rescan\<close>, \<open>rescan_plan_mut\<close>, \<open>transition_rescan\<close>,
  \<open>apply_rescan_page_cursor\<close> and \<open>activate_rescan\<close>. The plan works on provisional copies, so the
  canonical projection only changes at activation. The phases form a completing machine; the page
  cursor accepts exactly the pages that tile the target range in order.
\<close>

subsection \<open>Operations\<close>

definition prepare_rescan :: "uuid \<Rightarrow> scan_target \<Rightarrow> unit wallet_op" where
  "prepare_rescan fresh_plan_id target s =
     (if ws_rescan_plan s \<noteq> None then (Inl RescanAlreadyActive, s)
      else case scan_target_validate target of
        Inl e \<Rightarrow> (Inl e, s)
      | Inr _ \<Rightarrow>
          (case iter_mut_try (reorg_if (\<lambda>_. True)) (ws_transactions s) of
             (Inl e, _) \<Rightarrow> (Inl e, s)
           | (Inr _, transactions) \<Rightarrow>
               (case checked_add (ws_generation s) 1 of
                  None \<Rightarrow> (Inl GenerationOverflow, s)
                | Some g \<Rightarrow>
                    (Inr (), s\<lparr>ws_rescan_plan := Some
                       \<lparr>rp_version = 1,
                        rp_plan_id = fresh_plan_id,
                        rp_wallet_id = ws_wallet_id s,
                        rp_identity = ws_identity s,
                        rp_source_identity = st_source_identity target,
                        rp_target = target,
                        rp_recovery_start_height = sb_start_height (st_scan_bounds target),
                        rp_next_page = 0,
                        rp_next_page_height = sb_start_height (st_scan_bounds target),
                        rp_provisional_generation_id = g,
                        rp_retained_canonical_generation_id = ws_generation s,
                        rp_phase = RP_Prepared,
                        rp_provisional_outputs = ws_outputs s,
                        rp_provisional_transactions = transactions\<rparr>\<rparr>))))"

text \<open>
  A method on the plan the wallet holds (\<open>rescan_plan_mut\<close> and what its caller does with the
  reference).
\<close>

definition rescan_plan_mut :: "(rescan_plan, domain_error, unit) meth \<Rightarrow> unit wallet_op" where
  "rescan_plan_mut m s =
     (case ws_rescan_plan s of
        None \<Rightarrow> (Inl InvalidRescanPlan, s)
      | Some plan \<Rightarrow> (case m plan of (r, plan') \<Rightarrow> (r, s\<lparr>ws_rescan_plan := Some plan'\<rparr>)))"

fun rescan_allowed :: "rescan_phase \<Rightarrow> rescan_phase \<Rightarrow> bool" where
  "rescan_allowed RP_Prepared n = (n \<in> {RP_Scanning, RP_Invalidated, RP_Failed})"
| "rescan_allowed RP_Scanning n = (n \<in> {RP_ValidatingTarget, RP_Invalidated, RP_Failed})"
| "rescan_allowed RP_ValidatingTarget n = (n \<in> {RP_ReadyToActivate, RP_Invalidated, RP_Failed})"
| "rescan_allowed RP_ReadyToActivate n = (n \<in> {RP_Activating, RP_Invalidated, RP_Failed})"
| "rescan_allowed RP_Activating n = (n \<in> {RP_Complete, RP_Invalidated, RP_Failed})"
| "rescan_allowed RP_Complete n = False"
| "rescan_allowed RP_Invalidated n = False"
| "rescan_allowed RP_Failed n = False"

definition plan_transition :: "rescan_phase \<Rightarrow> (rescan_plan, domain_error, unit) meth" where
  "plan_transition nxt plan =
     (if \<not> rescan_allowed (rp_phase plan) nxt then (Inl InvalidRescanTransition, plan)
      else (Inr (), plan\<lparr>rp_phase := nxt\<rparr>))"

definition transition_rescan :: "rescan_phase \<Rightarrow> unit wallet_op" where
  "transition_rescan nxt = rescan_plan_mut (plan_transition nxt)"

definition plan_page_cursor :: "u32 \<Rightarrow> u64 \<Rightarrow> u64 \<Rightarrow> (rescan_plan, domain_error, unit) meth" where
  "plan_page_cursor page_number start stop plan =
     (if rp_phase plan \<noteq> RP_Scanning
       \<or> page_number \<noteq> rp_next_page plan
       \<or> start \<noteq> rp_next_page_height plan
       \<or> stop < start
       \<or> st_target_height (rp_target plan) < stop
      then (Inl InvalidRescanPage, plan)
      else case checked_add stop 1 of
        None \<Rightarrow> (Inl InvalidRescanPage, plan)
      | Some nxt \<Rightarrow>
          if saturating_add (st_target_height (rp_target plan)) 1 < nxt
          then (Inl InvalidRescanPage, plan)
          else (case checked_add (rp_next_page plan) 1 of
                  None \<Rightarrow> (Inl InvalidRescanPage, plan)
                | Some np \<Rightarrow>
                    (Inr (), plan\<lparr>rp_next_page := np, rp_next_page_height := nxt,
                        rp_phase := (if nxt = saturating_add (st_target_height (rp_target plan)) 1
                                     then RP_ValidatingTarget else rp_phase plan)\<rparr>)))"

definition apply_rescan_page_cursor :: "u32 \<Rightarrow> u64 \<Rightarrow> u64 \<Rightarrow> unit wallet_op" where
  "apply_rescan_page_cursor page_number start stop =
     rescan_plan_mut (plan_page_cursor page_number start stop)"

text \<open>\<open>take\<close> empties the plan before the phase is looked at.\<close>

definition activate_rescan :: "unit wallet_op" where
  "activate_rescan s =
     (case ws_rescan_plan s of
        None \<Rightarrow> (Inl InvalidRescanPlan, s)
      | Some plan \<Rightarrow>
          let s0 = s\<lparr>ws_rescan_plan := None\<rparr>
          in if rp_phase plan \<noteq> RP_Activating then (Inl InvalidRescanPlan, s0)
             else op_then restore_scriptless_funding_reservations (\<lambda>_.
                    op_then restore_scriptless_payout_reservations (\<lambda>_ s2.
                      (Inr (), s2\<lparr>ws_cursor := Some (scan_target_cursor (rp_target plan)),
                                  ws_sync_status := Synced\<rparr>)))
                    (s0\<lparr>ws_outputs := rp_provisional_outputs plan,
                        ws_transactions := rp_provisional_transactions plan\<rparr>))"

subsection \<open>The phases as a machine\<close>

fun rescan_rank :: "rescan_phase \<Rightarrow> nat" where
  "rescan_rank RP_Prepared = 0"
| "rescan_rank RP_Scanning = 1"
| "rescan_rank RP_ValidatingTarget = 2"
| "rescan_rank RP_ReadyToActivate = 3"
| "rescan_rank RP_Activating = 4"
| "rescan_rank RP_Complete = 5"
| "rescan_rank RP_Invalidated = 5"
| "rescan_rank RP_Failed = 5"

definition rescan_final :: "rescan_phase \<Rightarrow> bool" where
  "rescan_final p \<longleftrightarrow> p \<in> {RP_Complete, RP_Invalidated, RP_Failed}"

interpretation rescan: completing_machine rescan_allowed rescan_rank 5 rescan_final
proof
  fix s t
  show "rescan_allowed s t \<Longrightarrow> rescan_rank s < rescan_rank t" by (cases s) auto
  show "rescan_rank s \<le> 5" by (cases s) auto
  show "rescan_final s \<Longrightarrow> \<not> rescan_allowed s t" by (cases s) (auto simp: rescan_final_def)
  show "\<not> rescan_final s \<Longrightarrow> \<exists>t. rescan_allowed s t" by (cases s) (auto simp: rescan_final_def)
qed

lemma plan_transition_Inr_iff:
  "plan_transition nxt plan = (Inr (), plan') \<longleftrightarrow>
     rescan_allowed (rp_phase plan) nxt \<and> plan' = plan\<lparr>rp_phase := nxt\<rparr>"
  by (auto simp: plan_transition_def)

lemma plan_page_cursor_ok:
  assumes "plan_page_cursor n start stop plan = (Inr (), plan')"
  shows "rp_phase plan = RP_Scanning" "n = rp_next_page plan" "start = rp_next_page_height plan"
    "start \<le> stop" "stop \<le> st_target_height (rp_target plan)"
    "unat (rp_next_page_height plan') = Suc (unat stop)"
    "unat (rp_next_page plan') = Suc (unat (rp_next_page plan))"
    "rp_target plan' = rp_target plan"
    "rp_next_page_height plan' \<le> saturating_add (st_target_height (rp_target plan)) 1"
    "rp_phase plan' = (if rp_next_page_height plan' = saturating_add (st_target_height (rp_target plan)) 1
       then RP_ValidatingTarget else RP_Scanning)"
    "plan' = plan\<lparr>rp_next_page := rp_next_page plan', rp_next_page_height := rp_next_page_height plan',
       rp_phase := rp_phase plan'\<rparr>"
  using assms
  by (auto simp: plan_page_cursor_def not_less split: if_splits option.splits dest: checked_add_SomeD)

subsection \<open>The plan stays valid\<close>

definition rescan_ok :: "wallet_state \<Rightarrow> rescan_plan \<Rightarrow> bool" where
  "rescan_ok s plan \<longleftrightarrow>
     \<not> rescan_plan_bad s plan \<and> scan_target_validate (rp_target plan) = Inr ()"

definition rescan_inv :: "wallet_state \<Rightarrow> bool" where
  "rescan_inv s \<longleftrightarrow> (\<forall>plan. ws_rescan_plan s = Some plan \<longrightarrow> rescan_ok s plan)"

lemma rescan_ok_plan [simp]: "rescan_ok (s\<lparr>ws_rescan_plan := x\<rparr>) plan = rescan_ok s plan"
  by (simp add: rescan_ok_def rescan_plan_bad_def)

lemma prepare_rescan_ok:
  assumes "prepare_rescan pid target s = (Inr (), s')"
  shows "\<exists>plan. s' = s\<lparr>ws_rescan_plan := Some plan\<rparr> \<and> rescan_ok s' plan \<and> rp_phase plan = RP_Prepared \<and>
     rp_target plan = target \<and> rp_next_page plan = 0 \<and>
     rp_next_page_height plan = sb_start_height (st_scan_bounds target) \<and>
     rp_provisional_outputs plan = ws_outputs s \<and>
     rp_provisional_transactions plan = map (reorged (\<lambda>_. True)) (ws_transactions s) \<and>
     ws_rescan_plan s = None"
proof -
  have txs: "iter_mut_try (reorg_if (\<lambda>_. True)) (ws_transactions s) =
      (Inr (), map (reorged (\<lambda>_. True)) (ws_transactions s))"
    using iter_mut_try_all_ok [of "ws_transactions s" "reorg_if (\<lambda>_. True)"] by (simp add: reorg_if_eq)
  have "scan_target_validate target = Inr ()"
    using assms by (auto simp: prepare_rescan_def split: if_splits sum.splits)
  moreover from this have "\<not> saturating_add (sb_end_height (st_scan_bounds target)) 1
      < sb_start_height (st_scan_bounds target)"
    using saturating_add_ge [of "sb_end_height (st_scan_bounds target)" 1]
    by (auto simp: scan_target_validate_ok scan_bounds_validate_ok not_less intro: order_trans)
  ultimately show ?thesis
    using assms
    by (auto simp: prepare_rescan_def txs split: if_splits option.splits)
      (rule exI, rule conjI, rule refl, simp add: rescan_ok_def rescan_plan_bad_def)
qed

lemma plan_mut_inv:
  assumes "rescan_plan_mut m s = (r, s')" and "rescan_inv s"
    and "\<And>plan q plan'. rescan_ok s plan \<Longrightarrow> m plan = (q, plan') \<Longrightarrow> rescan_ok s plan'"
  shows "rescan_inv s'"
proof (cases "ws_rescan_plan s")
  case None
  then show ?thesis using assms(1,2) by (simp add: rescan_plan_mut_def)
next
  case (Some plan)
  obtain q plan' where m: "m plan = (q, plan')" by fastforce
  moreover have "rescan_ok s plan'" using assms(2,3) Some m by (auto simp: rescan_inv_def)
  ultimately show ?thesis
    using assms(1) Some by (auto simp: rescan_plan_mut_def rescan_inv_def)
qed

lemma plan_transition_keeps: "rescan_ok s plan \<Longrightarrow> plan_transition nxt plan = (q, plan') \<Longrightarrow> rescan_ok s plan'"
  by (auto simp: plan_transition_def rescan_ok_def rescan_plan_bad_def split: if_splits)

lemma plan_page_cursor_error:
  "plan_page_cursor n a b plan = (Inl e, plan') \<Longrightarrow> plan' = plan \<and> e = InvalidRescanPage"
  by (auto simp: plan_page_cursor_def split: if_splits option.splits)

lemma plan_page_cursor_keeps:
  assumes "rescan_ok s plan" and "plan_page_cursor n a b plan = (q, plan')"
  shows "rescan_ok s plan'"
proof (cases q)
  case (Inl e)
  then show ?thesis using assms plan_page_cursor_error [of n a b plan e plan'] by simp
next
  case (Inr u)
  then have run: "plan_page_cursor n a b plan = (Inr (), plan')" using assms(2) by simp
  note ok = plan_page_cursor_ok [OF run]
  have "rp_recovery_start_height plan \<le> rp_next_page_height plan'"
    using ok(3,4,6) assms(1)
    by (auto simp: rescan_ok_def rescan_plan_bad_def word_le_nat_alt not_less)
  moreover have "rp_next_page_height plan' \<le>
      saturating_add (sb_end_height (st_scan_bounds (rp_target plan))) 1"
    using ok(9) assms(1) by (auto simp: rescan_ok_def scan_target_validate_ok)
  ultimately show ?thesis
    using assms(1) ok(8) by (subst ok(11)) (auto simp: rescan_ok_def rescan_plan_bad_def not_less)
qed

subsection \<open>Pages tile the range\<close>

type_synonym rescan_page = "u32 \<times> u64 \<times> u64"

definition apply_pages :: "rescan_page list \<Rightarrow> unit wallet_op" where
  "apply_pages = for_each (\<lambda>(n, a, b). apply_rescan_page_cursor n a b)"

definition page_heights :: "rescan_page \<Rightarrow> nat list" where
  "page_heights page = (case page of (n, a, b) \<Rightarrow> [unat a ..< Suc (unat b)])"

lemma apply_page_ok:
  assumes "apply_rescan_page_cursor n a b s = (Inr (), s')"
  obtains plan plan' where "ws_rescan_plan s = Some plan" "plan_page_cursor n a b plan = (Inr (), plan')"
    "s' = s\<lparr>ws_rescan_plan := Some plan'\<rparr>"
  using assms
  by (auto simp: apply_rescan_page_cursor_def rescan_plan_mut_def split: option.splits prod.splits)

lemma apply_pages_tile:
  assumes "apply_pages pages s = (Inr (), s')" and "ws_rescan_plan s = Some plan"
  shows "\<exists>plan'. s' = s\<lparr>ws_rescan_plan := Some plan'\<rparr> \<and> rp_target plan' = rp_target plan \<and>
     rp_next_page_height plan \<le> rp_next_page_height plan' \<and>
     concat (map page_heights pages) =
       [unat (rp_next_page_height plan) ..< unat (rp_next_page_height plan')] \<and>
     map (\<lambda>page. unat (fst page)) pages = [unat (rp_next_page plan) ..< unat (rp_next_page plan')] \<and>
     rp_next_page plan \<le> rp_next_page plan' \<and>
     (if pages = [] then plan' = plan
      else rp_phase plan' = (if rp_next_page_height plan' =
             saturating_add (st_target_height (rp_target plan)) 1
           then RP_ValidatingTarget else RP_Scanning))"
  using assms
proof (induction pages arbitrary: s plan)
  case Nil
  then show ?case by (intro exI [of _ plan]) (auto simp: apply_pages_def)
next
  case (Cons page pages)
  obtain n a b where page: "page = (n, a, b)" by (cases page)
  from Cons.prems(1) page obtain s1 where step: "apply_rescan_page_cursor n a b s = (Inr (), s1)"
    and tail: "apply_pages pages s1 = (Inr (), s')"
    by (auto simp: apply_pages_def split: prod.splits sum.splits)
  from apply_page_ok [OF step] Cons.prems(2) obtain plan1 where
    cur: "plan_page_cursor n a b plan = (Inr (), plan1)" and s1: "s1 = s\<lparr>ws_rescan_plan := Some plan1\<rparr>"
    by (metis option.inject)
  note ok = plan_page_cursor_ok [OF cur]
  obtain plan' where plan': "s' = s1\<lparr>ws_rescan_plan := Some plan'\<rparr>" "rp_target plan' = rp_target plan1"
    "rp_next_page_height plan1 \<le> rp_next_page_height plan'"
    "concat (map page_heights pages) = [unat (rp_next_page_height plan1) ..< unat (rp_next_page_height plan')]"
    "map (\<lambda>page. unat (fst page)) pages = [unat (rp_next_page plan1) ..< unat (rp_next_page plan')]"
    "rp_next_page plan1 \<le> rp_next_page plan'"
    "if pages = [] then plan' = plan1
      else rp_phase plan' = (if rp_next_page_height plan' =
             saturating_add (st_target_height (rp_target plan1)) 1
           then RP_ValidatingTarget else RP_Scanning)"
    using Cons.IH [OF tail] s1 by auto
  have heights: "unat (rp_next_page_height plan) \<le> unat (rp_next_page_height plan1)"
    "unat (rp_next_page_height plan1) \<le> unat (rp_next_page_height plan')"
    "unat (rp_next_page plan1) \<le> unat (rp_next_page plan')"
    using ok(3,4,6) plan'(3,6) by (auto simp: word_le_nat_alt)
  have "concat (map page_heights (page # pages)) =
      [unat (rp_next_page_height plan) ..< unat (rp_next_page_height plan1)] @
      [unat (rp_next_page_height plan1) ..< unat (rp_next_page_height plan')]"
    using plan'(4) ok(3,6) by (simp add: page page_heights_def)
  also have "\<dots> = [unat (rp_next_page_height plan) ..< unat (rp_next_page_height plan')]"
    using upt_add_eq_append [of "unat (rp_next_page_height plan)" "unat (rp_next_page_height plan1)"
        "unat (rp_next_page_height plan') - unat (rp_next_page_height plan1)"] heights by simp
  moreover have "map (\<lambda>page. unat (fst page)) (page # pages) =
      [unat (rp_next_page plan) ..< unat (rp_next_page plan')]"
    using plan'(5) ok(2,7) heights(3) by (simp add: page upt_conv_Cons)
  ultimately show ?case
    using plan' ok heights s1
    by (intro exI [of _ plan']) (auto simp: word_le_nat_alt split: if_splits)
qed

subsection \<open>Properties\<close>

definition sample_target :: scan_target where
  "sample_target = \<lparr>st_target_height = 4, st_target_block_hash = 1 # zeros 31, st_source_identity = ''node'',
     st_scan_bounds = \<lparr>sb_start_height = 2, sb_end_height = 4, sb_max_pages = 9, sb_max_records_per_page = 9\<rparr>,
     st_evidence_version = 1\<rparr>"

lemma transition_rescan_ok:
  "transition_rescan p s = (Inr (), s') \<longleftrightarrow>
     (\<exists>plan. ws_rescan_plan s = Some plan \<and> rescan_allowed (rp_phase plan) p \<and>
        s' = s\<lparr>ws_rescan_plan := Some (plan\<lparr>rp_phase := p\<rparr>)\<rparr>)"
  by (auto simp: transition_rescan_def rescan_plan_mut_def plan_transition_def split: option.splits)



text \<open>
  C35: the rescan plan a wallet holds always passes validation: preparing a plan establishes it,
  and neither phase transitions nor page cursors, accepted or refused, break it.
\<close>

theorem rescan_plan_stays_valid:
  assumes "rescan_inv s"
    and "prepare_rescan pid target s = (r, s') \<or> transition_rescan p s = (r, s') \<or>
         apply_rescan_page_cursor n a b s = (r, s')"
  shows "rescan_inv s' \<and> (\<forall>plan. ws_rescan_plan s' = Some plan \<longrightarrow> \<not> rescan_plan_bad s' plan)"
proof -
  have "rescan_inv s'"
    using assms(2)
  proof (elim disjE)
    assume run: "prepare_rescan pid target s = (r, s')"
    show ?thesis
    proof (cases r)
      case (Inl e)
      with run have "s' = s"
        by (auto simp: prepare_rescan_def split: if_splits sum.splits prod.splits option.splits)
      with assms(1) show ?thesis by simp
    next
      case (Inr u)
      with run prepare_rescan_ok [of pid target s s'] show ?thesis
        by (auto simp: rescan_inv_def)
    qed
  next
    assume "transition_rescan p s = (r, s')"
    from plan_mut_inv [OF this [unfolded transition_rescan_def] assms(1)] show ?thesis
      by (blast intro: plan_transition_keeps)
  next
    assume "apply_rescan_page_cursor n a b s = (r, s')"
    from plan_mut_inv [OF this [unfolded apply_rescan_page_cursor_def] assms(1)] show ?thesis
      by (blast intro: plan_page_cursor_keeps)
  qed
  then show ?thesis by (auto simp: rescan_inv_def rescan_ok_def)
qed

theorem rescan_plan_stays_valid_witness:
  "rescan_inv (snd (prepare_rescan 7 sample_target sample_wallet))"
proof -
  obtain r s' where run: "prepare_rescan 7 sample_target sample_wallet = (r, s')" by fastforce
  have "rescan_inv sample_wallet"
    by (simp add: rescan_inv_def sample_wallet_def wallet_new_def)
  from rescan_plan_stays_valid [OF this disjI1, OF run] run show ?thesis by simp
qed

end
