(* ===== verification/Wallet_Run.thy ===== *)
theory Wallet_Run
  imports Rescan
begin

text \<open>
  Runs of the wallet state: one rule per mutating operation of \<open>WalletState\<close>, whatever its
  arguments and whatever it returns. \<open>live_step\<close> has every operation that works on the canonical
  projection in place; \<open>wallet_step\<close> adds \<open>activate_rescan\<close>, which replaces it by the plan's
  provisional copy. Along any run the allocation floors only go up, so the two allocators of the
  wallet never hand out an index twice; along live runs no transaction is ever lost or changed in
  anything but its lifecycle and exposure, and no exposure goes down.
\<close>

inductive live_step :: "wallet_state \<Rightarrow> wallet_state \<Rightarrow> bool" where
  ls_allocate: "allocate s = (r, s') \<Longrightarrow> live_step s s'"
| ls_reserve: "reserve_recovery_coordinate a c s = (r, s') \<Longrightarrow> live_step s s'"
| ls_migrate: "migrate_transaction_exposure s = (r, s') \<Longrightarrow> live_step s s'"
| ls_begin_scan: "begin_scan target s = (r, s') \<Longrightarrow> live_step s s'"
| ls_activate_scan: "activate_scan target outs s = (r, s') \<Longrightarrow> live_step s s'"
| ls_invalidate_scan: "live_step s (invalidate_scan reason s)"
| ls_spent: "mark_known_output_spent c h s = (r, s') \<Longrightarrow> live_step s s'"
| ls_confirmed: "mark_known_outputs_confirmed cs h b s = (r, s') \<Longrightarrow> live_step s s'"
| ls_blinding: "live_step s (remember_output_blinding oid b s)"
| ls_kernels: "apply_kernel_evidence h b ks s = (r, s') \<Longrightarrow> live_step s s'"
| ls_rollback: "rollback_confirmations_for_rescan s = (r, s') \<Longrightarrow> live_step s s'"
| ls_rollback_after: "rollback_confirmations_after_height h s = (r, s') \<Longrightarrow> live_step s s'"
| ls_restore_funding: "restore_scriptless_funding_reservations s = (r, s') \<Longrightarrow> live_step s s'"
| ls_restore_payout: "restore_scriptless_payout_reservations s = (r, s') \<Longrightarrow> live_step s s'"
| ls_prepare_rescan: "prepare_rescan pid target s = (r, s') \<Longrightarrow> live_step s s'"
| ls_transition_rescan: "transition_rescan p s = (r, s') \<Longrightarrow> live_step s s'"
| ls_page: "apply_rescan_page_cursor n a b s = (r, s') \<Longrightarrow> live_step s s'"
| ls_transition: "i < length (ws_transactions s) \<Longrightarrow>
     tx_transition nxt ev (ws_transactions s ! i) = (r, t) \<Longrightarrow>
     live_step s (s\<lparr>ws_transactions := (ws_transactions s)[i := t]\<rparr>)"

inductive wallet_step :: "wallet_state \<Rightarrow> wallet_state \<Rightarrow> bool" where
  ws_live: "live_step s s' \<Longrightarrow> wallet_step s s'"
| ws_activate_rescan: "activate_rescan s = (r, s') \<Longrightarrow> wallet_step s s'"

subsection \<open>Floors\<close>

definition floors_mono :: "wallet_state \<Rightarrow> wallet_state \<Rightarrow> bool" where
  "floors_mono s s' \<longleftrightarrow>
     ws_allocation_floor s \<le> ws_allocation_floor s' \<and>
     ws_non_reuse_floor s \<le> ws_non_reuse_floor s' \<and>
     (\<forall>c. class_floor c (ws_recovery_allocation_floors s) \<le>
          class_floor c (ws_recovery_allocation_floors s')) \<and>
     (ws_allocation_floor s \<le> ws_non_reuse_floor s \<longrightarrow>
      ws_allocation_floor s' \<le> ws_non_reuse_floor s')"

definition same_floors :: "wallet_state \<Rightarrow> wallet_state \<Rightarrow> bool" where
  "same_floors s s' \<longleftrightarrow>
     ws_allocation_floor s' = ws_allocation_floor s \<and>
     ws_non_reuse_floor s' = ws_non_reuse_floor s \<and>
     ws_recovery_allocation_floors s' = ws_recovery_allocation_floors s"

lemma same_floors_mono: "same_floors s s' \<Longrightarrow> floors_mono s s'"
  by (simp add: same_floors_def floors_mono_def)

lemma floors_mono_trans: "floors_mono a b \<Longrightarrow> floors_mono b c \<Longrightarrow> floors_mono a c"
  by (auto simp: floors_mono_def intro: order_trans)

lemma restore_frame_floors: "restore_frame s s' \<Longrightarrow> same_floors s s'"
  by (auto simp: restore_frame_def same_floors_def)

lemma evidence_frame_floors: "evidence_frame s s' \<Longrightarrow> same_floors s s'"
  by (auto simp: evidence_frame_def same_floors_def)

lemma allocate_floors: "allocate s = (r, s') \<Longrightarrow> floors_mono s s'"
  by (auto simp: allocate_def floors_mono_def word_le_nat_alt max_def split: option.splits
      dest: checked_add_SomeD)

lemma set_class_floor_mono:
  "class_floor d f \<le> v \<Longrightarrow> class_floor c f \<le> class_floor c (set_class_floor d v f)"
  by (cases c; cases d) auto

lemma reserve_floors:
  assumes "reserve_recovery_coordinate a c s = (r, s')"
  shows "floors_mono s s'"
proof (cases r)
  case (Inl e)
  then show ?thesis
    using reserve_error assms by (fastforce simp: floors_mono_def)
next
  case (Inr rc)
  then have run: "reserve_recovery_coordinate a c s = (Inr rc, s')" using assms by simp
  note ok = reserve_ok [OF run]
  have "class_floor c (ws_recovery_allocation_floors s) \<le> rrc_derivation_index rc"
    using ok by (simp add: word_le_nat_alt)
  moreover have "ws_allocation_floor s' = ws_allocation_floor s"
    using run by (auto simp: reserve_recovery_coordinate_def split: option.splits)
  ultimately show ?thesis
    using ok set_class_floor_mono by (auto simp: floors_mono_def le_max_iff_disj)
qed

lemma rescan_plan_mut_floors: "rescan_plan_mut m s = (r, s') \<Longrightarrow> same_floors s s'"
  by (auto simp: rescan_plan_mut_def same_floors_def split: option.splits prod.splits)

lemma activate_scan_floors:
  assumes "activate_scan target outs s = (r, s')"
  shows "same_floors s s'"
proof -
  have bump: "bump_generation t = (q, t') \<Longrightarrow> same_floors t t'" for t q t'
    by (auto simp: bump_generation_def same_floors_def split: option.splits)
  have restore: "restore_scriptless_funding_reservations t = (q, t') \<Longrightarrow> same_floors t t'"
    "restore_scriptless_payout_reservations t = (q, t') \<Longrightarrow> same_floors t t'" for t q t'
    by (auto intro: restore_frame_floors restore_funding_frame restore_payout_frame)
  show ?thesis
    using assms
    by (auto simp: activate_scan_def op_then_def same_floors_def
        split: if_splits prod.splits sum.splits dest!: bump restore)
qed

lemma activate_rescan_floors:
  assumes "activate_rescan s = (r, s')"
  shows "same_floors s s'"
proof -
  have restore: "restore_scriptless_funding_reservations t = (q, t') \<Longrightarrow> same_floors t t'"
    "restore_scriptless_payout_reservations t = (q, t') \<Longrightarrow> same_floors t t'" for t q t'
    by (auto intro: restore_frame_floors restore_funding_frame restore_payout_frame)
  show ?thesis
    using assms
    by (auto simp: activate_rescan_def op_then_def same_floors_def Let_def
        split: if_splits prod.splits sum.splits option.splits dest!: restore)
qed

text \<open>How far a rollback reaches: only transactions, then what the restores may change.\<close>

lemma rollback_frames:
  assumes "op_then (on_transactions (reorg_if newer)) (\<lambda>_. restore_reorged_reservations) s = (r, s')"
  shows "\<exists>s1. evidence_frame s s1 \<and> restore_frame s1 s'"
proof -
  let ?s1 = "s\<lparr>ws_transactions := map (reorged newer) (ws_transactions s)\<rparr>"
  have "tx_evidence t (reorged newer t)" for t
    using reorg_if_eq [of newer t] tx_evidence_transition [of L_Reorged E_ReorgEvidence t]
    by (auto simp: reorg_if_def split: tx_lifecycle.splits if_splits)
  then have "list_all2 tx_evidence (ws_transactions s) (map (reorged newer) (ws_transactions s))"
    by (simp add: list_all2_conv_all_nth)
  then have "evidence_frame s ?s1"
    using evidence_frameI [of s "ws_outputs s"] by (simp add: list_all2_refl)
  moreover have "restore_frame ?s1 s'"
    using assms by (intro restore_reorged_frame) (simp add: rollback_eq)
  ultimately show ?thesis by blast
qed

lemma rollback_floors:
  assumes "op_then (on_transactions (reorg_if newer)) (\<lambda>_. restore_reorged_reservations) s = (r, s')"
  shows "same_floors s s'"
  using rollback_frames [OF assms]
  by (auto simp: same_floors_def dest!: evidence_frame_floors restore_frame_floors)

lemma live_step_floors: "live_step s s' \<Longrightarrow> floors_mono s s'"
proof (induction rule: live_step.induct)
  case (ls_allocate s r s')
  then show ?case by (rule allocate_floors)
next
  case (ls_reserve a c s r s')
  then show ?case by (rule reserve_floors)
next
  case (ls_migrate s r s')
  then show ?case
    by (intro same_floors_mono)
      (auto simp: migrate_transaction_exposure_def same_floors_def Let_def split: if_splits prod.splits)
next
  case (ls_begin_scan target s r s')
  then show ?case
    by (intro same_floors_mono) (auto simp: begin_scan_def same_floors_def split: sum.splits)
next
  case (ls_activate_scan target outs s r s')
  then show ?case by (intro same_floors_mono activate_scan_floors)
next
  case (ls_prepare_rescan pid target s r s')
  then show ?case
    by (intro same_floors_mono)
      (auto simp: prepare_rescan_def same_floors_def split: if_splits sum.splits prod.splits option.splits)
qed (auto simp: rollback_confirmations_for_rescan_def rollback_confirmations_after_height_def
    mark_known_outputs_confirmed_def apply_kernel_evidence_def transition_rescan_def
    apply_rescan_page_cursor_def same_floors_def invalidate_scan_def
    intro!: same_floors_mono
    dest!: evidence_frames [THEN evidence_frame_floors] rollback_floors rescan_plan_mut_floors
      restore_funding_frame [THEN restore_frame_floors] restore_payout_frame [THEN restore_frame_floors])

lemma wallet_step_floors: "wallet_step s s' \<Longrightarrow> floors_mono s s'"
  by (induction rule: wallet_step.induct)
    (auto intro: live_step_floors same_floors_mono activate_rescan_floors)

text \<open>Both allocators of the wallet state hand out fresh indices, whatever runs in between.\<close>

interpretation alloc_index: allocator allocate wallet_step
  "\<lambda>s. unat (ws_allocation_floor s) + 1" "\<lambda>i. unat i"
proof
  fix s s' i e
  show "allocate s = (Inr i, s') \<Longrightarrow> unat (ws_allocation_floor s) + 1 \<le> unat i \<and>
      unat i < unat (ws_allocation_floor s') + 1"
    using allocate_ok [of s i s'] by auto
  show "allocate s = (Inl e, s') \<Longrightarrow> unat (ws_allocation_floor s) + 1 \<le> unat (ws_allocation_floor s') + 1"
    using allocate_error [of s e s'] by auto
  show "wallet_step s s' \<Longrightarrow> unat (ws_allocation_floor s) + 1 \<le> unat (ws_allocation_floor s') + 1"
    using wallet_step_floors [of s s'] by (auto simp: floors_mono_def word_le_nat_alt)
qed

interpretation coordinate: allocator "reserve_recovery_coordinate account cls" wallet_step
  "\<lambda>s. unat (class_floor cls (ws_recovery_allocation_floors s)) + 1"
  "\<lambda>rc. unat (rrc_derivation_index rc)" for account cls
proof
  fix s s' rc e
  show "reserve_recovery_coordinate account cls s = (Inr rc, s') \<Longrightarrow>
      unat (class_floor cls (ws_recovery_allocation_floors s)) + 1 \<le> unat (rrc_derivation_index rc) \<and>
      unat (rrc_derivation_index rc) < unat (class_floor cls (ws_recovery_allocation_floors s')) + 1"
    using reserve_ok [of account cls s rc s'] by auto
  show "reserve_recovery_coordinate account cls s = (Inl e, s') \<Longrightarrow>
      unat (class_floor cls (ws_recovery_allocation_floors s)) + 1
        \<le> unat (class_floor cls (ws_recovery_allocation_floors s')) + 1"
    using reserve_error [of account cls s e s'] by auto
  show "wallet_step s s' \<Longrightarrow> unat (class_floor cls (ws_recovery_allocation_floors s)) + 1
        \<le> unat (class_floor cls (ws_recovery_allocation_floors s')) + 1"
    using wallet_step_floors [of s s'] by (auto simp: floors_mono_def word_le_nat_alt)
qed

subsection \<open>Transactions along live runs\<close>

definition txs_kept :: "wallet_state \<Rightarrow> wallet_state \<Rightarrow> bool" where
  "txs_kept s s' \<longleftrightarrow> list_all2 tx_evidence (ws_transactions s) (ws_transactions s')"

lemma txs_kept_same: "ws_transactions s' = ws_transactions s \<Longrightarrow> txs_kept s s'"
  by (simp add: txs_kept_def list_all2_refl)

lemma txs_kept_trans: "txs_kept a b \<Longrightarrow> txs_kept b c \<Longrightarrow> txs_kept a c"
  unfolding txs_kept_def by (rule list_all2_trans [OF tx_evidence_trans])

lemma evidence_frame_txs: "evidence_frame s s' \<Longrightarrow> txs_kept s s'"
  by (simp add: txs_kept_def evidence_frameD)

lemma restore_frame_txs: "restore_frame s s' \<Longrightarrow> txs_kept s s'"
  by (rule txs_kept_same) (rule restore_frame_transactions)

lemma rollback_txs:
  assumes "op_then (on_transactions (reorg_if newer)) (\<lambda>_. restore_reorged_reservations) s = (r, s')"
  shows "txs_kept s s'"
  using rollback_frames [OF assms] by (auto intro: txs_kept_trans evidence_frame_txs restore_frame_txs)

lemma migrate_txs:
  assumes "migrate_transaction_exposure s = (r, s')"
  shows "txs_kept s s'"
proof -
  have raise: "tx_evidence t (t\<lparr>tx_exposure := max (tx_exposure t) e\<rparr>)" for t e
  proof -
    have "tx_core_frame t (t\<lparr>tx_exposure := max (tx_exposure t) e\<rparr>)"
      unfolding tx_core_frame_def
      by (rule exI [of _ "max (tx_exposure t) e"], rule exI [of _ "tx_lifecycle t"]) simp
    then show ?thesis by (auto simp: tx_evidence_def exposure_floor_ok_def le_max_iff_disj)
  qed
  have "list_all2 tx_evidence ts ts'" if "migrate_exposures b c ts = (c', ts')" for b c c' ts ts'
    using migrate_exposures_spec [OF that] by (rule list_all2_mono) (auto intro: raise)
  then show ?thesis
    using assms
    by (auto simp: migrate_transaction_exposure_def txs_kept_def Let_def list_all2_refl
        split: if_splits prod.splits)
qed

lemma activate_scan_txs:
  assumes "activate_scan target outs s = (r, s')"
  shows "ws_transactions s' = ws_transactions s"
proof -
  have restore: "restore_scriptless_funding_reservations t = (q, t') \<Longrightarrow> ws_transactions t' = ws_transactions t"
    "restore_scriptless_payout_reservations t = (q, t') \<Longrightarrow> ws_transactions t' = ws_transactions t" for t q t'
    by (auto intro: restore_frame_transactions restore_funding_frame restore_payout_frame)
  show ?thesis
    using assms
    by (auto simp: activate_scan_def op_then_def bump_generation_def
        split: if_splits prod.splits sum.splits option.splits dest!: restore)
qed

lemma live_step_txs: "live_step s s' \<Longrightarrow> txs_kept s s'"
proof (induction rule: live_step.induct)
  case (ls_migrate s r s')
  then show ?case by (rule migrate_txs)
next
  case (ls_transition i s nxt ev r t)
  have "list_all2 tx_evidence (ws_transactions s) ((ws_transactions s)[i := t])"
    using ls_transition by (intro list_all2_update_right) (auto intro: tx_evidence_transition)
  then show ?case by (simp add: txs_kept_def)
next
  case (ls_prepare_rescan pid target s r s')
  then show ?case
    by (intro txs_kept_same)
      (auto simp: prepare_rescan_def split: if_splits sum.splits prod.splits option.splits)
qed (auto simp: rollback_confirmations_for_rescan_def rollback_confirmations_after_height_def
    mark_known_outputs_confirmed_def apply_kernel_evidence_def transition_rescan_def
    apply_rescan_page_cursor_def invalidate_scan_def allocate_def reserve_recovery_coordinate_def
    begin_scan_def rescan_plan_mut_def
    split: option.splits sum.splits prod.splits
    intro: txs_kept_same rollback_txs
    dest: evidence_frames [THEN evidence_frame_txs] activate_scan_txs
      restore_funding_frame [THEN restore_frame_txs] restore_payout_frame [THEN restore_frame_txs])

lemma live_run_txs: "live_step\<^sup>*\<^sup>* s s' \<Longrightarrow> txs_kept s s'"
  by (induction rule: rtranclp_induct) (auto intro: txs_kept_same txs_kept_trans live_step_txs)

subsection \<open>Properties\<close>

text \<open>
  C13: derivation indices are never handed out twice. In any run of the wallet, with every other
  operation in between and failed allocations included, the indices \<open>allocate\<close> returns strictly
  increase, and all lie above the floor the run started from.
\<close>

theorem allocation_never_reuses:
  assumes "alloc_trace allocate wallet_step s is t"
  shows "sorted_wrt (<) is \<and> distinct is \<and> (\<forall>i \<in> set is. ws_allocation_floor s < i)"
proof -
  have incr: "sorted_wrt (\<lambda>i j. unat i < unat j) is" and fresh: "\<forall>i \<in> set is. unat (ws_allocation_floor s) < unat i"
    using alloc_index.trace_fresh [OF assms] by auto
  have "sorted_wrt (<) is"
    by (rule sorted_wrt_mono_rel [OF _ incr]) (simp only: word_less_nat_alt)
  moreover have "distinct is"
    using alloc_index.trace_distinct [OF assms] by (simp add: distinct_map)
  ultimately show ?thesis using fresh by (simp add: word_less_nat_alt)
qed

theorem allocation_never_reuses_witness: "distinct [1 :: u64, 2]"
proof -
  let ?s0 = "sample_wallet"
  let ?s1 = "?s0\<lparr>ws_allocation_floor := 1, ws_non_reuse_floor := 1\<rparr>"
  let ?s2 = "?s0\<lparr>ws_allocation_floor := 2, ws_non_reuse_floor := 2\<rparr>"
  have run: "allocate ?s0 = (Inr 1, ?s1)" "allocate ?s1 = (Inr 2, ?s2)"
    by (simp_all add: allocate_def checked_add_def sample_wallet_def wallet_new_def max_def)
  have "alloc_trace allocate wallet_step ?s0 [1, 2] ?s2"
    by (rule alloc_trace.handed_out, rule run(1), rule alloc_trace.handed_out, rule run(2),
        rule alloc_trace.idle)
  from allocation_never_reuses [OF this] show ?thesis by blast
qed

text \<open>
  The same for recovery coordinates: within an output class no derivation index is reserved
  twice, whatever account asks for it and whatever runs in between, so no two outputs the wallet
  builds share a recovery coordinate.
\<close>

theorem coordinate_never_reused:
  assumes "alloc_trace (reserve_recovery_coordinate account cls) wallet_step s rcs t"
  shows "distinct (map rrc_derivation_index rcs) \<and>
    (\<forall>rc \<in> set rcs. class_floor cls (ws_recovery_allocation_floors s) < rrc_derivation_index rc)"
proof -
  have "distinct (map (unat \<circ> rrc_derivation_index) rcs)"
    using coordinate.trace_distinct [OF assms] by (simp add: comp_def)
  then have "distinct (map rrc_derivation_index rcs)"
    by (metis distinct_map map_map)
  moreover have "\<forall>rc \<in> set rcs. unat (class_floor cls (ws_recovery_allocation_floors s)) <
      unat (rrc_derivation_index rc)"
    using coordinate.trace_fresh [OF assms] by auto
  ultimately show ?thesis by (simp add: word_less_nat_alt)
qed

theorem coordinate_never_reused_witness:
  "distinct (map rrc_derivation_index
     [\<lparr>rrc_account = 0, rrc_derivation_index = 1, rrc_class = Change\<rparr>,
      \<lparr>rrc_account = 0, rrc_derivation_index = 2, rrc_class = Change\<rparr>])"
proof -
  let ?f = "\<lambda>i s. s\<lparr>ws_recovery_allocation_floors := set_class_floor Change i (ws_recovery_allocation_floors s),
      ws_non_reuse_floor := i\<rparr>"
  let ?s0 = "sample_wallet"
  have run: "reserve_recovery_coordinate 0 Change ?s0 =
      (Inr \<lparr>rrc_account = 0, rrc_derivation_index = 1, rrc_class = Change\<rparr>, ?f 1 ?s0)"
    "reserve_recovery_coordinate 0 Change (?f 1 ?s0) =
      (Inr \<lparr>rrc_account = 0, rrc_derivation_index = 2, rrc_class = Change\<rparr>, ?f 2 (?f 1 ?s0))"
    by (simp_all add: reserve_recovery_coordinate_def checked_add_def sample_wallet_def wallet_new_def
        floors_default_def max_def)
  have "alloc_trace (reserve_recovery_coordinate 0 Change) wallet_step ?s0
      [\<lparr>rrc_account = 0, rrc_derivation_index = 1, rrc_class = Change\<rparr>,
       \<lparr>rrc_account = 0, rrc_derivation_index = 2, rrc_class = Change\<rparr>] (?f 2 (?f 1 ?s0))"
    by (rule alloc_trace.handed_out, rule run(1), rule alloc_trace.handed_out, rule run(2),
        rule alloc_trace.idle)
  from coordinate_never_reused [OF this] show ?thesis by blast
qed

text \<open>
  C34: along any run of the wallet that does not activate a rescan, no transaction record is lost,
  reordered or changed in anything but its lifecycle and its exposure, and no exposure goes down.
\<close>

theorem live_run_keeps_transactions:
  assumes "live_step\<^sup>*\<^sup>* s s'" and "i < length (ws_transactions s)"
  shows "length (ws_transactions s') = length (ws_transactions s) \<and>
    tx_core_frame (ws_transactions s ! i) (ws_transactions s' ! i)"
  using live_run_txs [OF assms(1)] assms(2)
  by (auto simp: txs_kept_def tx_evidence_def list_all2_conv_all_nth)

theorem live_run_keeps_transactions_witness:
  "let s = sample_wallet\<lparr>ws_transactions := [sample_intent L_Submitted PossiblyRelayed]\<rparr>;
       s' = invalidate_scan ''x'' s
   in tx_core_frame (ws_transactions s ! 0) (ws_transactions s' ! 0)"
  using live_run_keeps_transactions
    [of "sample_wallet\<lparr>ws_transactions := [sample_intent L_Submitted PossiblyRelayed]\<rparr>" _ 0,
     OF r_into_rtranclp, OF live_step.ls_invalidate_scan [of _ "''x''"]]
  by (simp add: Let_def)

end
