(* ===== verification/Serde_Bytes.thy ===== *)
theory Serde_Bytes
  imports Prelude
begin

text \<open>
  The fixed-length byte codecs of \<open>dom-wallet-domain\<close>: the modules \<open>serde_bytes_32\<close>,
  \<open>serde_bytes_33\<close>, \<open>serde_option_bytes_32\<close> and \<open>serde_option_bytes_33\<close>. The serde data format is
  not part of the program: a format is a pair of functions, \<open>ser\<close> from bytes to documents and
  \<open>de\<close> back, and the codecs add the length check of \<open>try_into\<close>.
\<close>

definition try_into_array :: "nat \<Rightarrow> 'e \<Rightarrow> bytes \<Rightarrow> 'e + bytes" where
  "try_into_array n err bs = (if length bs = n then Inr bs else Inl err)"

definition serialize_bytes_32 :: "(bytes \<Rightarrow> 'd) \<Rightarrow> bytes \<Rightarrow> 'd" where
  "serialize_bytes_32 ser v = ser v"

definition deserialize_bytes_32 :: "('d \<Rightarrow> 'e + bytes) \<Rightarrow> (string \<Rightarrow> 'e) \<Rightarrow> 'd \<Rightarrow> 'e + bytes" where
  "deserialize_bytes_32 de custom d =
     res_bind (de d) (try_into_array 32 (custom ''expected exactly 32 bytes''))"

definition serialize_bytes_33 :: "(bytes \<Rightarrow> 'd) \<Rightarrow> bytes \<Rightarrow> 'd" where
  "serialize_bytes_33 ser v = ser v"

definition deserialize_bytes_33 :: "('d \<Rightarrow> 'e + bytes) \<Rightarrow> (string \<Rightarrow> 'e) \<Rightarrow> 'd \<Rightarrow> 'e + bytes" where
  "deserialize_bytes_33 de custom d =
     res_bind (de d) (try_into_array 33 (custom ''expected exactly 33 bytes''))"

definition map_or_none :: "(bytes \<Rightarrow> 'e + bytes) \<Rightarrow> bytes option \<Rightarrow> 'e + bytes option" where
  "map_or_none f v = (case v of None \<Rightarrow> Inr None | Some bs \<Rightarrow> map_sum id Some (f bs))"

definition serialize_option_bytes_32 :: "(bytes option \<Rightarrow> 'd) \<Rightarrow> bytes option \<Rightarrow> 'd" where
  "serialize_option_bytes_32 ser v = ser v"

definition deserialize_option_bytes_32 ::
  "('d \<Rightarrow> 'e + bytes option) \<Rightarrow> (string \<Rightarrow> 'e) \<Rightarrow> 'd \<Rightarrow> 'e + bytes option" where
  "deserialize_option_bytes_32 de custom d =
     res_bind (de d) (map_or_none (try_into_array 32 (custom ''expected exactly 32 bytes'')))"

definition serialize_option_bytes_33 :: "(bytes option \<Rightarrow> 'd) \<Rightarrow> bytes option \<Rightarrow> 'd" where
  "serialize_option_bytes_33 ser v = ser v"

definition deserialize_option_bytes_33 ::
  "('d \<Rightarrow> 'e + bytes option) \<Rightarrow> (string \<Rightarrow> 'e) \<Rightarrow> 'd \<Rightarrow> 'e + bytes option" where
  "deserialize_option_bytes_33 de custom d =
     res_bind (de d) (map_or_none (try_into_array 33 (custom ''expected exactly 33 bytes'')))"

lemma try_into_array_Inr_iff [simp]: "try_into_array n err bs = Inr out \<longleftrightarrow> length bs = n \<and> out = bs"
  by (auto simp: try_into_array_def)

lemma map_or_none_Inr_iff [simp]:
  "map_or_none f v = Inr out \<longleftrightarrow>
     (case v of None \<Rightarrow> out = None | Some bs \<Rightarrow> \<exists>out'. f bs = Inr out' \<and> out = Some out')"
  by (cases v; cases "f (the v)") (auto simp: map_or_none_def)

subsection \<open>Properties\<close>

text \<open>
  With a serialisation format that reads back what it wrote, the fixed-length byte codecs
  are exact: decoding succeeds exactly on sequences of the declared length and returns them
  unchanged, so hashes and commitments survive a round trip and a shortened or lengthened one is
  refused, never padded or truncated; an absent optional value stays absent.
\<close>

theorem fixed_bytes_roundtrip:
  assumes plain: "\<And>v. de (ser v) = Inr v" and opt: "\<And>v. de_opt (ser_opt v) = Inr v"
  shows "(deserialize_bytes_32 de err (serialize_bytes_32 ser v) = Inr u \<longleftrightarrow> length v = 32 \<and> u = v) \<and>
    (deserialize_bytes_33 de err (serialize_bytes_33 ser v) = Inr u \<longleftrightarrow> length v = 33 \<and> u = v) \<and>
    (deserialize_option_bytes_32 de_opt err (serialize_option_bytes_32 ser_opt w) = Inr x \<longleftrightarrow>
       x = w \<and> (\<forall>b. w = Some b \<longrightarrow> length b = 32)) \<and>
    (deserialize_option_bytes_33 de_opt err (serialize_option_bytes_33 ser_opt w) = Inr x \<longleftrightarrow>
       x = w \<and> (\<forall>b. w = Some b \<longrightarrow> length b = 33))"
  by (auto simp: serialize_bytes_32_def deserialize_bytes_32_def serialize_bytes_33_def
      deserialize_bytes_33_def serialize_option_bytes_32_def deserialize_option_bytes_32_def
      serialize_option_bytes_33_def deserialize_option_bytes_33_def res_simps plain opt
      split: option.splits)

theorem fixed_bytes_roundtrip_witness:
  "deserialize_bytes_32 (Inr :: bytes \<Rightarrow> string + bytes) (\<lambda>e. e) (serialize_bytes_32 id (zeros 32)) = Inr (zeros 32) \<and>
   deserialize_bytes_33 (Inr :: bytes \<Rightarrow> string + bytes) (\<lambda>e. e) (serialize_bytes_33 id (zeros 32)) \<noteq> Inr (zeros 32)"
  using fixed_bytes_roundtrip [where de = "Inr :: bytes \<Rightarrow> string + bytes" and ser = id and
      de_opt = "Inr :: bytes option \<Rightarrow> string + bytes option" and ser_opt = id and err = "\<lambda>e. e" and
      v = "zeros 32" and u = "zeros 32" and w = None and x = None]
  by (simp add: zeros_def)

end
