(* ===== verification/Chain_Source.thy ===== *)
theory Chain_Source
  imports Outputs
begin

text \<open>
  The chain-source boundary of \<open>dom-wallet-chain\<close>: the data a node delivers, the trait
  \<open>ChainSource\<close> as a record of methods on a source state, the reconnect controller, and the generic
  functions over any source: \<open>acquire_target\<close>, \<open>validate_target\<close>, \<open>collect_provisional_pages\<close>.
  \<open>MockChainSource\<close> and \<open>DomNodeAdapter\<close> are the two sources without a network. The locale
  \<open>strided_source\<close> is what a source has to promise so that a multi-page scan never delivers a
  block height twice.
\<close>

datatype chain_error =
    CE_InvalidConfiguration
  | CE_Transport
  | CE_Timeout
  | CE_AuthenticationFailed
  | CE_MalformedResponse
  | CE_IncompatibleProtocol
  | CE_MissingNodeCapability string
  | CE_CapabilityUnavailable string
  | CE_HttpStatus u16
  | CE_ResponseTooLarge
  | CE_RateLimited
  | CE_Overloaded
  | CE_Unhealthy
  | CE_InconsistentNode
  | CE_InvalidTransaction
  | CE_IdentityMismatch
  | CE_SourceChanged
  | CE_LowerTip
  | CE_TargetHashMissing
  | CE_TargetHashChanged
  | CE_AncestryUnavailable
  | CE_InconsistentPage
  | CE_MissingPage
  | CE_ChangedBounds
  | CE_PageLimitExceeded
  | CE_RetryExhausted
  | CE_InvalidTarget
  | CE_InvalidBounds

record node_handshake =
  nh_identity :: network_identity
  nh_source_identity :: string
  nh_api_compatibility_version :: u16
  nh_tip_height :: u64
  nh_tip_hash :: bytes

record scan_block_evidence =
  sbe_height :: u64
  sbe_hash :: bytes
  sbe_output_commitments :: "bytes list"
  sbe_input_commitments :: "bytes list"
  sbe_kernel_excesses :: "bytes list"

record scan_page =
  sp_source_identity :: string
  sp_target_hash :: bytes
  sp_start_height :: u64
  sp_end_height :: u64
  sp_page_number :: u32
  sp_is_last :: bool
  sp_outputs :: "output_record list"
  sp_blocks :: "scan_block_evidence list"

record live_node_probe =
  lp_endpoint_origin :: string
  lp_identity :: network_identity
  lp_rpc_api_version :: u16
  lp_protocol_version :: u16
  lp_network_magic :: bytes
  lp_tip_height :: u64
  lp_tip_hash :: bytes
  lp_max_scan_range :: u64
  lp_supports_scan :: bool
  lp_supports_ancestry :: bool
  lp_supports_kernel_lookup :: bool
  lp_supports_transaction_lookup :: bool

record kernel_lookup =
  kl_excess :: bytes
  kl_block_hash :: "bytes option"

record transaction_lookup =
  tl_transaction_hash :: bytes
  tl_in_mempool :: bool

record 's chain_source =
  cs_handshake :: "('s, chain_error, node_handshake) meth"
  cs_hash_at_height :: "u64 \<Rightarrow> ('s, chain_error, bytes option) meth"
  cs_bounded_ancestry :: "scan_target \<Rightarrow> u32 \<Rightarrow> ('s, chain_error, bool) meth"
  cs_scan_page :: "scan_target \<Rightarrow> u32 \<Rightarrow> ('s, chain_error, scan_page) meth"

datatype connection_state =
    CS_Disconnected
  | CS_Connecting
  | CS_VerifyingIdentity
  | CS_Connected
  | CS_Synchronizing
  | CS_Synced
  | CS_Degraded chain_error
  | CS_BackingOff u64
  | CS_WrongNetwork
  | CS_AuthenticationFailed
  | CS_IncompatibleProtocol
  | CS_FatalConfigurationError

subsection \<open>Reconnecting\<close>

record reconnect_controller =
  rcc_retry_ceiling :: u32
  rcc_max_backoff_ms :: u64
  rcc_stable_success_threshold :: u32
  rcc_failures :: u32
  rcc_stable_successes :: u32

definition reconnect_new :: "u32 \<Rightarrow> u64 \<Rightarrow> u32 \<Rightarrow> reconnect_controller" where
  "reconnect_new retry_ceiling max_backoff_ms stable_success_threshold =
     \<lparr>rcc_retry_ceiling = retry_ceiling, rcc_max_backoff_ms = max_backoff_ms,
      rcc_stable_success_threshold = stable_success_threshold, rcc_failures = 0,
      rcc_stable_successes = 0\<rparr>"

definition on_failure :: "(reconnect_controller, chain_error, u64) meth" where
  "on_failure c =
     (let c1 = c\<lparr>rcc_stable_successes := 0, rcc_failures := saturating_add (rcc_failures c) 1\<rparr>
      in if rcc_retry_ceiling c1 < rcc_failures c1 then (Inl CE_RetryExhausted, c1)
         else (let shift = min (saturating_sub (rcc_failures c1) 1) 20
               in (Inr (min (saturating_mul 100 (push_bit (unat shift) 1)) (rcc_max_backoff_ms c1)),
                   c1)))"

definition on_success :: "reconnect_controller \<Rightarrow> reconnect_controller" where
  "on_success c =
     (let c1 = c\<lparr>rcc_stable_successes := saturating_add (rcc_stable_successes c) 1\<rparr>
      in if rcc_stable_success_threshold c1 \<le> rcc_stable_successes c1
         then c1\<lparr>rcc_failures := 0\<rparr> else c1)"

subsection \<open>Targets\<close>

definition acquire_target ::
  "'s chain_source \<Rightarrow> network_identity \<Rightarrow> scan_bounds \<Rightarrow>
     ('s, chain_error, node_handshake \<times> scan_target) meth" where
  "acquire_target source expected bounds s =
     (case scan_bounds_validate bounds of
        Inl _ \<Rightarrow> (Inl CE_InvalidBounds, s)
      | Inr _ \<Rightarrow>
          (case cs_handshake source s of
             (Inl e, s1) \<Rightarrow> (Inl e, s1)
           | (Inr handshake, s1) \<Rightarrow>
               if nh_identity handshake \<noteq> expected then (Inl CE_IdentityMismatch, s1)
               else if nh_source_identity handshake = [] \<or> nh_api_compatibility_version handshake = 0
               then (Inl CE_IncompatibleProtocol, s1)
               else if nh_tip_height handshake \<noteq> sb_end_height bounds
               then (Inl CE_ChangedBounds, s1)
               else (let target = \<lparr>st_target_height = nh_tip_height handshake,
                                   st_target_block_hash = nh_tip_hash handshake,
                                   st_source_identity = nh_source_identity handshake,
                                   st_scan_bounds = bounds,
                                   st_evidence_version = nh_api_compatibility_version handshake\<rparr>
                     in case scan_target_validate target of
                          Inl _ \<Rightarrow> (Inl CE_InvalidTarget, s1)
                        | Inr _ \<Rightarrow> (Inr (handshake, target), s1))))"

definition validate_target ::
  "'s chain_source \<Rightarrow> network_identity \<Rightarrow> scan_target \<Rightarrow> u32 \<Rightarrow> ('s, chain_error, unit) meth" where
  "validate_target source expected target maximum_ancestry =
     op_then (cs_handshake source) (\<lambda>handshake s1.
       if nh_identity handshake \<noteq> expected then (Inl CE_IdentityMismatch, s1)
       else if nh_source_identity handshake \<noteq> st_source_identity target
       then (Inl CE_SourceChanged, s1)
       else if nh_tip_height handshake < st_target_height target then (Inl CE_LowerTip, s1)
       else op_then (cs_hash_at_height source (st_target_height target)) (\<lambda>found s2.
              case found of
                None \<Rightarrow> (Inl CE_TargetHashMissing, s2)
              | Some target_hash \<Rightarrow>
                  if target_hash \<noteq> st_target_block_hash target then (Inl CE_TargetHashChanged, s2)
                  else if st_target_height target < nh_tip_height handshake
                  then op_then (cs_bounded_ancestry source target maximum_ancestry) (\<lambda>linked s3.
                         if \<not> linked then (Inl CE_AncestryUnavailable, s3) else (Inr (), s3)) s2
                  else (Inr (), s2)) s1)"

subsection \<open>Collecting pages\<close>

definition page_consistent :: "scan_target \<Rightarrow> u32 \<Rightarrow> scan_page \<Rightarrow> chain_error + unit" where
  "page_consistent target expected_page page =
     (if sp_source_identity page \<noteq> st_source_identity target
       \<or> sp_target_hash page \<noteq> st_target_block_hash target
       \<or> sp_page_number page \<noteq> expected_page
      then Inl CE_InconsistentPage
      else if sp_start_height page < sb_start_height (st_scan_bounds target)
       \<or> sb_end_height (st_scan_bounds target) < sp_end_height page
       \<or> sp_end_height page < sp_start_height page
      then Inl CE_ChangedBounds
      else if unat (sb_max_records_per_page (st_scan_bounds target)) < length (sp_outputs page)
      then Inl CE_PageLimitExceeded
      else Inr ())"

function collect_loop ::
  "(scan_target \<Rightarrow> u32 \<Rightarrow> ('s, chain_error, scan_page) meth) \<Rightarrow> scan_target \<Rightarrow> u32 \<Rightarrow>
     scan_page list \<Rightarrow> ('s, chain_error, scan_page list) meth" where
  "collect_loop scan target expected_page all s =
     (if sb_max_pages (st_scan_bounds target) \<le> expected_page then (Inl CE_PageLimitExceeded, s)
      else case scan target expected_page s of
        (Inl e, s1) \<Rightarrow> (Inl e, s1)
      | (Inr page, s1) \<Rightarrow>
          (case page_consistent target expected_page page of
             Inl e \<Rightarrow> (Inl e, s1)
           | Inr _ \<Rightarrow>
               if sp_is_last page then (Inr (all @ [page]), s1)
               else (case checked_add expected_page 1 of
                       None \<Rightarrow> (Inl CE_PageLimitExceeded, s1)
                     | Some n \<Rightarrow> collect_loop scan target n (all @ [page]) s1)))"
  by pat_completeness auto

termination
  by (relation "measure (\<lambda>(scan, target, p, all, s).
        unat (sb_max_pages (st_scan_bounds target)) - unat p)")
    (auto simp: word_le_nat_alt not_le dest!: checked_add_SomeD)

declare collect_loop.simps [simp del]

definition collect_provisional_pages ::
  "'s chain_source \<Rightarrow> scan_target \<Rightarrow> ('s, chain_error, scan_page list) meth" where
  "collect_provisional_pages source target = collect_loop (cs_scan_page source) target 0 []"

definition collect_provisional ::
  "'s chain_source \<Rightarrow> scan_target \<Rightarrow> ('s, chain_error, output_record list) meth" where
  "collect_provisional source target =
     op_then (collect_provisional_pages source target)
       (\<lambda>pages s. (Inr (concat (map sp_outputs pages)), s))"

subsection \<open>The deterministic source and the unconfigured adapter\<close>

record mock_source =
  ms_handshake :: node_handshake
  ms_hashes :: "u64 \<rightharpoonup> bytes"
  ms_pages :: "scan_page list"
  ms_ancestry_valid :: bool
  ms_failures :: "chain_error list"

definition mock_new :: "network_identity \<Rightarrow> mock_source" where
  "mock_new identity =
     (let hash = replicate 32 9
      in \<lparr>ms_handshake = \<lparr>nh_identity = identity, nh_source_identity = ''mock-dom-node'',
                          nh_api_compatibility_version = 1, nh_tip_height = 0, nh_tip_hash = hash\<rparr>,
          ms_hashes = [0 \<mapsto> hash],
          ms_pages = [\<lparr>sp_source_identity = ''mock-dom-node'', sp_target_hash = hash,
                       sp_start_height = 0, sp_end_height = 0, sp_page_number = 0,
                       sp_is_last = True, sp_outputs = [], sp_blocks = []\<rparr>],
          ms_ancestry_valid = True,
          ms_failures = []\<rparr>)"

definition fail_if_queued :: "(mock_source, chain_error, unit) meth" where
  "fail_if_queued m =
     (case ms_failures m of
        [] \<Rightarrow> (Inr (), m)
      | e # es \<Rightarrow> (Inl e, m\<lparr>ms_failures := es\<rparr>))"

definition mock_chain_source :: "mock_source chain_source" where
  "mock_chain_source =
     \<lparr>cs_handshake = op_then fail_if_queued (\<lambda>_ m. (Inr (ms_handshake m), m)),
      cs_hash_at_height = (\<lambda>height. op_then fail_if_queued (\<lambda>_ m. (Inr (ms_hashes m height), m))),
      cs_bounded_ancestry = (\<lambda>_ _. op_then fail_if_queued (\<lambda>_ m. (Inr (ms_ancestry_valid m), m))),
      cs_scan_page = (\<lambda>_ page_number. op_then fail_if_queued (\<lambda>_ m.
        if unat page_number < length (ms_pages m) then (Inr (ms_pages m ! unat page_number), m)
        else (Inl CE_MissingPage, m)))\<rparr>"

definition dom_node_adapter :: "string chain_source" where
  "dom_node_adapter =
     \<lparr>cs_handshake = (\<lambda>s. (Inl (CE_CapabilityUnavailable
        ''DOM RPC response negotiation is not configured''), s)),
      cs_hash_at_height = (\<lambda>_ s. (Inl (CE_CapabilityUnavailable
        ''DOM RPC hash-at-height encoding is not configured''), s)),
      cs_bounded_ancestry = (\<lambda>_ _ s. (Inl (CE_CapabilityUnavailable
        ''DOM RPC ancestry encoding is not configured''), s)),
      cs_scan_page = (\<lambda>_ _ s. (Inl (CE_CapabilityUnavailable
        ''DOM RPC output scan encoding is not configured''), s))\<rparr>"

subsection \<open>What the collected pages satisfy\<close>

lemma page_consistent_ok:
  "page_consistent target n page = Inr () \<longleftrightarrow>
     sp_source_identity page = st_source_identity target \<and>
     sp_target_hash page = st_target_block_hash target \<and> sp_page_number page = n \<and>
     sb_start_height (st_scan_bounds target) \<le> sp_start_height page \<and>
     sp_start_height page \<le> sp_end_height page \<and>
     sp_end_height page \<le> sb_end_height (st_scan_bounds target) \<and>
     length (sp_outputs page) \<le> unat (sb_max_records_per_page (st_scan_bounds target))"
  by (auto simp: page_consistent_def)

definition pages_from :: "scan_target \<Rightarrow> u32 \<Rightarrow> scan_page list \<Rightarrow> bool" where
  "pages_from target p pages \<longleftrightarrow>
     (\<forall>page \<in> set pages. page_consistent target (sp_page_number page) page = Inr ()) \<and>
     map (\<lambda>page. unat (sp_page_number page)) pages = [unat p ..< unat p + length pages] \<and>
     unat p + length pages \<le> unat (sb_max_pages (st_scan_bounds target)) \<and>
     pages \<noteq> [] \<and> sp_is_last (last pages) \<and> (\<forall>page \<in> set (butlast pages). \<not> sp_is_last page)"

lemma collect_loop_step:
  assumes "collect_loop scan target p all s = (Inr pages, s')"
  obtains page s1 where "p < sb_max_pages (st_scan_bounds target)" "scan target p s = (Inr page, s1)"
    "page_consistent target p page = Inr ()"
    "if sp_is_last page then pages = all @ [page] \<and> s' = s1
     else \<exists>n. checked_add p 1 = Some n \<and> collect_loop scan target n (all @ [page]) s1 = (Inr pages, s')"
  using assms
  by (subst (asm) collect_loop.simps) (auto split: if_splits prod.splits sum.splits option.splits)

lemma collect_loop_ok:
  "collect_loop scan target p all s = (Inr pages, s') \<Longrightarrow> \<exists>new. pages = all @ new \<and> pages_from target p new"
proof (induction scan target p all s rule: collect_loop.induct)
  case (1 scan target p all s)
  from 1(2) obtain page s1 where step: "p < sb_max_pages (st_scan_bounds target)"
    "scan target p s = (Inr page, s1)" "page_consistent target p page = Inr ()"
    "if sp_is_last page then pages = all @ [page] \<and> s' = s1
     else \<exists>n. checked_add p 1 = Some n \<and> collect_loop scan target n (all @ [page]) s1 = (Inr pages, s')"
    by (rule collect_loop_step)
  have num: "sp_page_number page = p" using step(3) by (simp add: page_consistent_ok)
  show ?case
  proof (cases "sp_is_last page")
    case True
    then show ?thesis using step num by (auto simp: pages_from_def word_less_nat_alt)
  next
    case False
    then obtain n where n: "checked_add p 1 = Some n"
      and rest: "collect_loop scan target n (all @ [page]) s1 = (Inr pages, s')" using step(4) by auto
    obtain new where new: "pages = (all @ [page]) @ new" "pages_from target n new"
      using 1(1) [of "Inr page" s1 page "()" n] step n rest False by (auto simp: not_le)
    have un: "unat n = Suc (unat p)" using checked_add_SomeD [OF n] by simp
    have "pages_from target p (page # new)"
      using new(2) step(3) num False un
      by (auto simp: pages_from_def upt_conv_Cons simp del: upt_Suc)
    then show ?thesis using new(1) by auto
  qed
qed

lemma collect_pages_ok:
  "collect_provisional_pages source target s = (Inr pages, s') \<Longrightarrow> pages_from target 0 pages"
  unfolding collect_provisional_pages_def by (drule collect_loop_ok) auto

subsection \<open>Sources whose pages do not overlap\<close>

definition block_heights :: "scan_page \<Rightarrow> nat list" where
  "block_heights page = map (\<lambda>b. unat (sbe_height b)) (sp_blocks page)"

locale strided_source =
  fixes scan :: "scan_target \<Rightarrow> u32 \<Rightarrow> ('s, chain_error, scan_page) meth" and stride :: nat
  assumes page_window: "scan target n s = (Inr page, s') \<Longrightarrow>
      unat (sp_start_height page) =
        unat (sb_start_height (st_scan_bounds target)) + unat n * stride \<and>
      unat (sp_end_height page) < unat (sp_start_height page) + stride"
    and page_blocks: "scan target n s = (Inr page, s') \<Longrightarrow>
      sorted_wrt (<) (block_heights page) \<and>
      (\<forall>h \<in> set (block_heights page).
         unat (sp_start_height page) \<le> h \<and> h \<le> unat (sp_end_height page))"
begin

lemma collected_heights:
  "collect_loop scan target p all s = (Inr pages, s') \<Longrightarrow>
     \<exists>new. pages = all @ new \<and> sorted_wrt (<) (concat (map block_heights new)) \<and>
       (\<forall>h \<in> set (concat (map block_heights new)).
          unat (sb_start_height (st_scan_bounds target)) + unat p * stride \<le> h \<and>
          h \<le> unat (sb_end_height (st_scan_bounds target)))"
proof (induction "unat (sb_max_pages (st_scan_bounds target)) - unat p" arbitrary: p all s rule: less_induct)
  case less
  let ?base = "unat (sb_start_height (st_scan_bounds target))"
  let ?top = "unat (sb_end_height (st_scan_bounds target))"
  from less.prems obtain page s1 where step: "p < sb_max_pages (st_scan_bounds target)"
    "scan target p s = (Inr page, s1)" "page_consistent target p page = Inr ()"
    "if sp_is_last page then pages = all @ [page] \<and> s' = s1
     else \<exists>n. checked_add p 1 = Some n \<and> collect_loop scan target n (all @ [page]) s1 = (Inr pages, s')"
    by (rule collect_loop_step)
  have page: "sorted_wrt (<) (block_heights page)"
    "\<forall>h \<in> set (block_heights page). ?base + unat p * stride \<le> h \<and>
       h < ?base + Suc (unat p) * stride \<and> h \<le> ?top"
    using page_window [OF step(2)] page_blocks [OF step(2)] step(3)
    by (auto simp: page_consistent_ok word_le_nat_alt)
  show ?case
  proof (cases "sp_is_last page")
    case True
    then show ?thesis using step(4) page by (intro exI [of _ "[page]"]) auto
  next
    case False
    then obtain n where n: "checked_add p 1 = Some n"
      and rest: "collect_loop scan target n (all @ [page]) s1 = (Inr pages, s')" using step(4) by auto
    have un: "unat n = Suc (unat p)" using checked_add_SomeD [OF n] by simp
    have "unat (sb_max_pages (st_scan_bounds target)) - unat n <
        unat (sb_max_pages (st_scan_bounds target)) - unat p"
      using un step(1) by (simp add: word_less_nat_alt)
    then obtain new where new: "pages = (all @ [page]) @ new"
      "sorted_wrt (<) (concat (map block_heights new))"
      "\<forall>h \<in> set (concat (map block_heights new)). ?base + Suc (unat p) * stride \<le> h \<and> h \<le> ?top"
      using less.hyps [OF _ rest] un by auto
    have "sorted_wrt (<) (concat (map block_heights (page # new)))"
      using page new(2,3) by (auto simp: sorted_wrt_append intro: less_le_trans)
    moreover have "\<forall>h \<in> set (concat (map block_heights (page # new))).
        ?base + unat p * stride \<le> h \<and> h \<le> ?top"
      using page(2) new(3) by force
    ultimately show ?thesis using new(1) by (intro exI [of _ "page # new"]) auto
  qed
qed

end

subsection \<open>Back-off\<close>

text \<open>The delay after the \<open>k\<close>-th failure in a row, on natural numbers.\<close>

definition backoff_delay :: "nat \<Rightarrow> nat \<Rightarrow> nat" where
  "backoff_delay cap k = min (100 * 2 ^ min (k - 1) 20) cap"

lemma backoff_word:
  assumes "k \<le> 20"
  shows "unat (saturating_mul 100 (push_bit k 1) :: u64) = 100 * 2 ^ k"
proof -
  have le: "(2 :: nat) ^ k \<le> 2 ^ 20" using assms by (intro power_increasing) auto
  have pw: "unat (push_bit k 1 :: u64) = 2 ^ k"
  proof -
    have "take_bit 64 ((2 :: nat) ^ k) = 2 ^ k"
      using le by (intro take_bit_nat_eq_self) simp
    moreover have eq: "push_bit k 1 = (of_nat (2 ^ k) :: u64)" by (simp add: push_bit_eq_mult)
    ultimately show ?thesis unfolding eq by (subst unsigned_of_nat) simp
  qed
  define w :: u64 where "w = push_bit k 1"
  have w: "unat w = 2 ^ k" using pw by (simp only: w_def)
  have "100 * unat w < 2 ^ 64" using le w by simp
  then show ?thesis
    unfolding w_def [symmetric] by (simp add: saturating_mul_def unat_word_ariths w)
qed

lemma on_failure_failures:
  "on_failure c = (r, c') \<Longrightarrow> unat (rcc_failures c') = min (unat (rcc_failures c) + 1) (2 ^ 32 - 1) \<and>
     rcc_stable_successes c' = 0 \<and> rcc_retry_ceiling c' = rcc_retry_ceiling c \<and>
     rcc_max_backoff_ms c' = rcc_max_backoff_ms c \<and>
     rcc_stable_success_threshold c' = rcc_stable_success_threshold c"
  by (auto simp: on_failure_def Let_def unat_saturating_add split: if_splits)

lemma on_failure_result:
  assumes "on_failure c = (r, c')"
  shows "r = (if rcc_retry_ceiling c < rcc_failures c' then Inl CE_RetryExhausted
    else Inr (min (saturating_mul 100 (push_bit (unat (min (saturating_sub (rcc_failures c') 1) 20)) 1))
               (rcc_max_backoff_ms c)))"
  using assms by (auto simp: on_failure_def Let_def split: if_splits)

lemma on_failure_delay:
  assumes "on_failure c = (Inr d, c')"
  shows "unat d = backoff_delay (unat (rcc_max_backoff_ms c)) (unat (rcc_failures c'))"
proof -
  have shift: "unat (min (saturating_sub (rcc_failures c') 1) 20) = min (unat (rcc_failures c') - 1) 20"
    by (auto simp: min_def word_le_nat_alt unat_saturating_sub)
  define w :: u64 where "w = saturating_mul 100 (push_bit (min (unat (rcc_failures c') - 1) 20) 1)"
  have "d = min w (rcc_max_backoff_ms c)"
    using on_failure_result [OF assms] unfolding w_def shift by (auto split: if_splits)
  moreover have "unat w = 100 * 2 ^ min (unat (rcc_failures c') - 1) 20"
    unfolding w_def by (rule backoff_word) simp
  moreover have "unat (min w x) = min (unat w) (unat x)" for x
    by (simp add: min_def word_le_nat_alt)
  ultimately show ?thesis by (simp add: backoff_delay_def)
qed

subsection \<open>Properties\<close>

definition sample_page :: "u32 \<Rightarrow> u64 \<Rightarrow> u64 \<Rightarrow> bool \<Rightarrow> scan_page" where
  "sample_page n a b final =
     \<lparr>sp_source_identity = ''mock'', sp_target_hash = [1], sp_start_height = a, sp_end_height = b,
      sp_page_number = n, sp_is_last = final, sp_outputs = [], sp_blocks = []\<rparr>"

definition sample_scan :: scan_target where
  "sample_scan = \<lparr>st_target_height = 9, st_target_block_hash = [1], st_source_identity = ''mock'',
     st_scan_bounds = \<lparr>sb_start_height = 0, sb_end_height = 9, sb_max_pages = 4, sb_max_records_per_page = 4\<rparr>,
     st_evidence_version = 1\<rparr>"

definition sample_mock :: "scan_page list \<Rightarrow> mock_source" where
  "sample_mock pages = (mock_new \<lparr>ni_network = Mainnet, ni_chain_id = [], ni_genesis_id = []\<rparr>)\<lparr>ms_pages := pages\<rparr>"

text \<open>
  The accepted pages need not be contiguous: heights one to four are missing here, and the
  collection succeeds.
\<close>

lemma collected_pages_may_skip_heights:
  "fst (collect_provisional_pages mock_chain_source sample_scan
          (sample_mock [sample_page 0 0 0 False, sample_page 1 5 9 True])) =
     Inr [sample_page 0 0 0 False, sample_page 1 5 9 True]"
  by (simp add: collect_provisional_pages_def collect_loop.simps mock_chain_source_def op_then_def
      fail_if_queued_def sample_mock_def mock_new_def sample_scan_def sample_page_def page_consistent_def
      checked_add_def word_le_nat_alt Let_def)

text \<open>
  C36: whatever a chain source answers, collecting its pages ends, and if it succeeds the pages
  are numbered from zero without a gap, there are at most as many as the target allows, exactly the
  final one says it is the last, and every page names the target's source and block, lies within
  its height bounds and respects its record limit.
\<close>

theorem collected_pages_consistent:
  assumes "collect_provisional_pages source target s = (Inr pages, s')"
  shows "map (\<lambda>page. unat (sp_page_number page)) pages = [0 ..< length pages] \<and>
    length pages \<le> unat (sb_max_pages (st_scan_bounds target)) \<and>
    pages \<noteq> [] \<and> sp_is_last (last pages) \<and> (\<forall>page \<in> set (butlast pages). \<not> sp_is_last page) \<and>
    (\<forall>page \<in> set pages. sp_source_identity page = st_source_identity target \<and>
       sp_target_hash page = st_target_block_hash target \<and>
       sb_start_height (st_scan_bounds target) \<le> sp_start_height page \<and>
       sp_start_height page \<le> sp_end_height page \<and>
       sp_end_height page \<le> sb_end_height (st_scan_bounds target) \<and>
       length (sp_outputs page) \<le> unat (sb_max_records_per_page (st_scan_bounds target)))"
  using collect_pages_ok [OF assms] by (simp add: pages_from_def page_consistent_ok)

theorem collected_pages_consistent_witness:
  "\<exists>s'. collect_provisional_pages mock_chain_source sample_scan (sample_mock [sample_page 0 0 9 True]) =
     (Inr [sample_page 0 0 9 True], s') \<and> sp_is_last (last [sample_page 0 0 9 True])"
proof -
  obtain s' where run: "collect_provisional_pages mock_chain_source sample_scan
      (sample_mock [sample_page 0 0 9 True]) = (Inr [sample_page 0 0 9 True], s')"
    by (simp add: collect_provisional_pages_def collect_loop.simps mock_chain_source_def op_then_def
        fail_if_queued_def sample_mock_def mock_new_def sample_scan_def sample_page_def page_consistent_def
        Let_def)
  from collected_pages_consistent [OF run] run show ?thesis by blast
qed

lemma failures_after:
  assumes "k < 2 ^ 32"
  shows "unat (rcc_failures (((\<lambda>c. snd (on_failure c)) ^^ k) (reconnect_new ceiling cap threshold))) = k \<and>
    rcc_retry_ceiling (((\<lambda>c. snd (on_failure c)) ^^ k) (reconnect_new ceiling cap threshold)) = ceiling \<and>
    rcc_max_backoff_ms (((\<lambda>c. snd (on_failure c)) ^^ k) (reconnect_new ceiling cap threshold)) = cap"
  using assms
proof (induction k)
  case 0
  then show ?case by (simp add: reconnect_new_def)
next
  case (Suc k)
  let ?c = "((\<lambda>c. snd (on_failure c)) ^^ k) (reconnect_new ceiling cap threshold)"
  have "on_failure ?c = (fst (on_failure ?c), snd (on_failure ?c))" by simp
  from on_failure_failures [OF this] Suc show ?case by simp
qed

text \<open>
  The reconnect controller backs off exponentially and gives up on time. After \<open>k\<close> failures
  in a row the next one is answered by \<open>RetryExhausted\<close> exactly when it exceeds the retry ceiling;
  otherwise the delay is 100 ms doubled once per earlier failure, at most twenty times, and never
  above the configured maximum. No step overflows.
\<close>

theorem reconnect_backoff:
  assumes "k + 1 < 2 ^ 32"
  shows "case fst (on_failure (((\<lambda>c. snd (on_failure c)) ^^ k) (reconnect_new ceiling cap threshold))) of
      Inl e \<Rightarrow> e = CE_RetryExhausted \<and> unat ceiling < k + 1
    | Inr delay \<Rightarrow> k + 1 \<le> unat ceiling \<and> unat delay = min (100 * 2 ^ min k 20) (unat cap)"
proof -
  let ?c = "((\<lambda>c. snd (on_failure c)) ^^ k) (reconnect_new ceiling cap threshold)"
  obtain r c' where run: "on_failure ?c = (r, c')" by fastforce
  have c: "unat (rcc_failures ?c) = k" "rcc_retry_ceiling ?c = ceiling" "rcc_max_backoff_ms ?c = cap"
    using failures_after [of k ceiling cap threshold] assms by auto
  have c': "unat (rcc_failures c') = k + 1"
    using on_failure_failures [OF run] c assms by simp
  show ?thesis
  proof (cases r)
    case (Inl e)
    then show ?thesis
      using on_failure_result [OF run] c c' run by (auto simp: word_less_nat_alt split: if_splits)
  next
    case (Inr d)
    then show ?thesis
      using on_failure_result [OF run] on_failure_delay [of ?c d c'] c c' run
      by (auto simp: word_less_nat_alt backoff_delay_def split: if_splits)
  qed
qed

theorem reconnect_backoff_witness:
  "case fst (on_failure (((\<lambda>c. snd (on_failure c)) ^^ 3) (reconnect_new 5 1000 2))) of
      Inl e \<Rightarrow> False
    | Inr delay \<Rightarrow> unat delay = 800"
  using reconnect_backoff [of 3 5 1000 2] by (simp split: sum.splits)

end
