(* ===== verification/Chain_Http.thy ===== *)
theory Chain_Http
  imports Chain_Source
begin

text \<open>
  \<open>DomHttpChainSource\<close>: the strict client for the node's wallet-safe REST surface. The HTTP client
  (\<open>reqwest\<close>), the JSON decoder (\<open>serde_json\<close>), the URL parser and the \<open>hex\<close> crate are parameters,
  the fields of the record \<open>http_env\<close>; every request passes through a world state, so that the node may answer
  differently each time. The model has every check the client makes on what it receives. The
  source is a strided source: multi-page scans never deliver a block height twice.
\<close>

datatype http_error = HE_Timeout | HE_Other

text \<open>
  A response: status, announced length, and the body as far as it can be read (\<open>None\<close> is a read
  error).
\<close>

record http_response =
  hr_status :: u16
  hr_content_length :: "u64 option"
  hr_body :: "bytes option"

record health_dto =
  hd_ok :: bool

record identity_dto =
  id_rpc_api_version :: u16
  id_protocol_version :: u16
  id_network :: string
  id_network_magic :: string
  id_chain_id :: string
  id_genesis_hash :: string
  id_tip_height :: u64
  id_tip_hash :: string
  id_max_scan_range :: u64

record ancestry_dto =
  an_canonical :: bool
  an_ancestor_match :: bool
  an_descendant_match :: bool
  an_steps_checked :: u64
  an_bounded :: bool
  an_observed_ancestor_hash :: string
  an_observed_descendant_hash :: string
  an_is_finality_proof :: bool

record block_dto =
  bd_height :: u64
  bd_hash :: string
  bd_prev_hash :: string
  bd_timestamp :: u64
  bd_target :: string

record scan_tip_dto =
  tip_height :: u64
  tip_hash :: string

record scan_block_dto =
  sbd_height :: u64
  sbd_hash :: string
  sbd_output_commitments :: "string list"
  sbd_input_commitments :: "string list"
  sbd_fees :: u64
  sbd_kernel_excesses :: "string list"

record scan_dto =
  sd_tip :: scan_tip_dto
  sd_from :: u64
  sd_to :: u64
  sd_blocks :: "scan_block_dto list"

record submit_dto =
  sub_accepted :: bool
  sub_relayed :: bool
  sub_tx_hash :: "string option"
  sub_warning :: "string option"
  sub_error :: "string option"

record kernel_found_dto =
  kfd_found :: bool
  kfd_excess :: string
  kfd_block_hash :: string

record kernel_missing_dto =
  kmd_found :: bool

record tx_found_dto =
  tfd_found :: bool
  tfd_tx_hash :: string
  tfd_fee :: u64
  tfd_fee_rate :: u64
  tfd_weight :: u32

record tx_missing_dto =
  tmd_found :: bool

record submit_outcome =
  so_accepted :: bool
  so_relayed :: bool
  so_tx_hash :: "bytes option"
  so_warning :: "string option"
  so_rejection :: "string option"
  so_status :: u16

text \<open>
  The code outside the repository that the client calls. \<open>'w\<close> is the state of the world, \<open>'j\<close> the
  type of JSON values.
\<close>

record ('w, 'j) http_env =
  he_get :: "string \<Rightarrow> string option \<Rightarrow> 'w \<Rightarrow> (http_error + http_response) \<times> 'w"
  he_post_tx_hex :: "string \<Rightarrow> string option \<Rightarrow> string \<Rightarrow> 'w \<Rightarrow> (http_error + http_response) \<times> 'w"
  he_build :: "u64 \<Rightarrow> u64 \<Rightarrow> bool"
  he_hex_decode :: "string \<Rightarrow> bytes option"
  he_hex_encode :: "bytes \<Rightarrow> string"
  he_parse_url :: "string \<Rightarrow> (string \<times> string option) option"
  he_health :: "bytes \<Rightarrow> health_dto option"
  he_identity :: "bytes \<Rightarrow> identity_dto option"
  he_ancestry :: "bytes \<Rightarrow> ancestry_dto option"
  he_block :: "bytes \<Rightarrow> block_dto option"
  he_scan :: "bytes \<Rightarrow> scan_dto option"
  he_submit :: "bytes \<Rightarrow> submit_dto option"
  he_kernel_found :: "bytes \<Rightarrow> kernel_found_dto option"
  he_kernel_missing :: "bytes \<Rightarrow> kernel_missing_dto option"
  he_value :: "bytes \<Rightarrow> 'j option"
  he_value_found :: "'j \<Rightarrow> bool option"
  he_tx_found :: "'j \<Rightarrow> tx_found_dto option"
  he_tx_missing :: "'j \<Rightarrow> tx_missing_dto option"

record http_source =
  hs_base_url :: string
  hs_expected :: network_identity
  hs_source_identity :: string
  hs_api_version :: u16
  hs_bearer_token :: "string option"

definition MAX_HTTP_RESPONSE_BYTES :: nat where "MAX_HTTP_RESPONSE_BYTES = 8 * 1024 * 1024"
definition MAX_NODE_PAGE_HEIGHTS :: u64 where "MAX_NODE_PAGE_HEIGHTS = 1000"
definition MAX_ANCESTRY_STEPS :: u32 where "MAX_ANCESTRY_STEPS = 256"

subsection \<open>Decoding\<close>

definition lower_hex_digit :: "char \<Rightarrow> bool" where
  "lower_hex_digit c \<longleftrightarrow>
     48 \<le> (of_char c :: nat) \<and> (of_char c :: nat) \<le> 57 \<or>
     97 \<le> (of_char c :: nat) \<and> (of_char c :: nat) \<le> 102"

definition decode_lower_hex :: "('w, 'j) http_env \<Rightarrow> string \<Rightarrow> nat \<Rightarrow> chain_error + bytes" where
  "decode_lower_hex env value expected_bytes =
     (if length value \<noteq> expected_bytes * 2 \<or> \<not> list_all lower_hex_digit value
      then Inl CE_MalformedResponse
      else ok_or (he_hex_decode env value) CE_MalformedResponse)"

definition decode_hash :: "('w, 'j) http_env \<Rightarrow> string \<Rightarrow> chain_error + bytes" where
  "decode_hash env value =
     res_bind (decode_lower_hex env value 32) (\<lambda>hash.
     res_bind (ensure (length hash = 32) CE_MalformedResponse) (\<lambda>_.
       if hash = zeros 32 then Inl CE_TargetHashMissing else Inr hash))"

definition decode_commitment :: "('w, 'j) http_env \<Rightarrow> string \<Rightarrow> chain_error + bytes" where
  "decode_commitment env value =
     res_bind (decode_lower_hex env value 33) (\<lambda>c.
     res_bind (ensure (length c = 33) CE_MalformedResponse) (\<lambda>_. Inr c))"

definition has_duplicates :: "bytes list \<Rightarrow> bool" where
  "has_duplicates values = has_repeat {} values"

fun map_http_error :: "http_error \<Rightarrow> chain_error" where
  "map_http_error HE_Timeout = CE_Timeout"
| "map_http_error HE_Other = CE_Transport"

subsection \<open>Construction and requests\<close>

definition http_new ::
  "('w, 'j) http_env \<Rightarrow> string \<Rightarrow> network_identity \<Rightarrow> string \<Rightarrow> u16 \<Rightarrow> u64 \<Rightarrow> u64 \<Rightarrow>
     string option \<Rightarrow> chain_error + http_source" where
  "http_new env endpoint expected source_identity api_version connect_timeout_ms request_timeout_ms
       bearer_token =
     (if 2048 < length endpoint
       \<or> \<not> (starts_with endpoint ''https://'' \<or> starts_with endpoint ''http://'')
       \<or> source_identity = []
       \<or> api_version = 0
      then Inl CE_InvalidConfiguration
      else if \<not> he_build env connect_timeout_ms request_timeout_ms then Inl CE_Transport
      else Inr \<lparr>hs_base_url = rev (dropWhile (\<lambda>c. c = CHR ''/'') (rev endpoint)),
                hs_expected = expected, hs_source_identity = source_identity,
                hs_api_version = api_version, hs_bearer_token = bearer_token\<rparr>)"

definition decode_response :: "(bytes \<Rightarrow> 'a option) \<Rightarrow> http_response \<Rightarrow> chain_error + 'a" where
  "decode_response parse response =
     (if (case hr_content_length response of None \<Rightarrow> False
          | Some len \<Rightarrow> MAX_HTTP_RESPONSE_BYTES < unat len)
      then Inl CE_ResponseTooLarge
      else case hr_body response of
        None \<Rightarrow> Inl CE_Transport
      | Some body \<Rightarrow>
          if MAX_HTTP_RESPONSE_BYTES < length (take (MAX_HTTP_RESPONSE_BYTES + 1) body)
          then Inl CE_ResponseTooLarge
          else ok_or (parse (take (MAX_HTTP_RESPONSE_BYTES + 1) body)) CE_MalformedResponse)"

text \<open>The status checks, in the order of the code.\<close>

definition check_status :: "string \<Rightarrow> u16 \<Rightarrow> chain_error + unit" where
  "check_status path status =
     (if status = 401 \<or> status = 403 then Inl CE_AuthenticationFailed
      else if status = 404 then Inl (CE_CapabilityUnavailable path)
      else if status = 429 then Inl CE_RateLimited
      else if status = 503 then Inl CE_Overloaded
      else if \<not> (200 \<le> status \<and> status < 300) then Inl (CE_HttpStatus status)
      else Inr ())"

definition http_send ::
  "('w, 'j) http_env \<Rightarrow> http_source \<Rightarrow> string \<Rightarrow> ('w, chain_error, http_response) meth" where
  "http_send env src path w =
     (case he_get env (hs_base_url src @ path) (hs_bearer_token src) w of
        (Inl e, w1) \<Rightarrow> (Inl (map_http_error e), w1)
      | (Inr response, w1) \<Rightarrow> (Inr response, w1))"

definition request_json ::
  "('w, 'j) http_env \<Rightarrow> http_source \<Rightarrow> (bytes \<Rightarrow> 'a option) \<Rightarrow> string \<Rightarrow> ('w, chain_error, 'a) meth"
  where
  "request_json env src parse path =
     op_then (http_send env src path) (\<lambda>response w.
       (res_bind (check_status path (hr_status response)) (\<lambda>_. decode_response parse response), w))"

fun node_network_name :: "network \<Rightarrow> string" where
  "node_network_name PrivateTestnet = ''regtest''"
| "node_network_name PublicTestnet = ''testnet''"
| "node_network_name Mainnet = ''mainnet''"

definition check_identity ::
  "('w, 'j) http_env \<Rightarrow> http_source \<Rightarrow> identity_dto \<Rightarrow> chain_error + identity_dto" where
  "check_identity env src identity =
     (if id_rpc_api_version identity \<noteq> hs_api_version src \<or> id_protocol_version identity \<noteq> 1
      then Inl CE_IncompatibleProtocol
      else if id_max_scan_range identity = 0 \<or> MAX_NODE_PAGE_HEIGHTS < id_max_scan_range identity
      then Inl CE_MalformedResponse
      else res_bind (decode_lower_hex env (id_network_magic identity) 4) (\<lambda>magic.
        if list_all (\<lambda>b. b = 0) magic then Inl CE_MalformedResponse
        else if id_network identity \<noteq> node_network_name (ni_network (hs_expected src))
        then Inl CE_IdentityMismatch
        else res_bind (decode_hash env (id_chain_id identity)) (\<lambda>chain.
          if chain \<noteq> ni_chain_id (hs_expected src) then Inl CE_IdentityMismatch
          else res_bind (decode_hash env (id_genesis_hash identity)) (\<lambda>genesis.
            if genesis \<noteq> ni_genesis_id (hs_expected src) then Inl CE_IdentityMismatch
            else if id_tip_height identity = 0
            then res_bind (decode_hash env (id_tip_hash identity)) (\<lambda>tip.
                   if tip \<noteq> ni_genesis_id (hs_expected src) then Inl CE_InconsistentNode
                   else Inr identity)
            else Inr identity))))"

definition identity_snapshot ::
  "('w, 'j) http_env \<Rightarrow> http_source \<Rightarrow> ('w, chain_error, identity_dto) meth" where
  "identity_snapshot env src =
     op_then (request_json env src (he_health env) ''/health'') (\<lambda>health w1.
       if \<not> hd_ok health then (Inl CE_Unhealthy, w1)
       else op_then (request_json env src (he_identity env) ''/chain/identity'') (\<lambda>identity w2.
              (check_identity env src identity, w2)) w1)"

definition http_block ::
  "('w, 'j) http_env \<Rightarrow> http_source \<Rightarrow> string \<Rightarrow> ('w, chain_error, block_dto) meth" where
  "http_block env src block_id =
     op_then (request_json env src (he_block env) (''/block/'' @ block_id)) (\<lambda>block w.
       (res_bind (decode_hash env (bd_hash block)) (\<lambda>_. Inr block), w))"

subsection \<open>Scanning\<close>

definition scan_block ::
  "('w, 'j) http_env \<Rightarrow> scan_target \<Rightarrow> scan_block_dto \<Rightarrow> chain_error + scan_block_evidence" where
  "scan_block env target item =
     (let limit = unat (sb_max_records_per_page (st_scan_bounds target)) in
      res_bind (decode_hash env (sbd_hash item)) (\<lambda>hash.
      res_bind (ensure (sbd_hash item \<noteq> concat (replicate 32 ''00'')) CE_TargetHashMissing) (\<lambda>_.
      res_bind (ensure (length (sbd_output_commitments item) + length (sbd_input_commitments item)
                          \<le> limit) CE_PageLimitExceeded) (\<lambda>_.
      res_bind (map_results (decode_commitment env) (sbd_output_commitments item)) (\<lambda>outputs.
      res_bind (map_results (decode_commitment env) (sbd_input_commitments item)) (\<lambda>inputs.
      res_bind (map_results (decode_commitment env) (sbd_kernel_excesses item)) (\<lambda>kernels.
        if limit < length kernels \<or> has_duplicates kernels then Inl CE_InconsistentPage
        else Inr \<lparr>sbe_height = sbd_height item, sbe_hash = hash, sbe_output_commitments = outputs,
                  sbe_input_commitments = inputs, sbe_kernel_excesses = kernels\<rparr>)))))))"

fun scan_blocks ::
  "('w, 'j) http_env \<Rightarrow> scan_target \<Rightarrow> u64 \<Rightarrow> u64 \<Rightarrow> u64 option \<Rightarrow> scan_block_dto list \<Rightarrow>
     chain_error + scan_block_evidence list" where
  "scan_blocks env target start stop last_height [] = Inr []"
| "scan_blocks env target start stop last_height (item # items) =
     (if sbd_height item < start \<or> stop < sbd_height item
       \<or> (case last_height of None \<Rightarrow> False | Some h \<Rightarrow> sbd_height item \<le> h)
      then Inl CE_InconsistentPage
      else res_bind (scan_block env target item) (\<lambda>block.
           res_bind (scan_blocks env target start stop (Some (sbd_height item)) items) (\<lambda>blocks.
             Inr (block # blocks))))"

definition checked_page ::
  "('w, 'j) http_env \<Rightarrow> scan_target \<Rightarrow> u32 \<Rightarrow> u64 \<Rightarrow> u64 \<Rightarrow> scan_dto \<Rightarrow> chain_error + scan_page" where
  "checked_page env target page start stop scan =
     (if sd_from scan \<noteq> start \<or> sd_to scan < start \<or> stop < sd_to scan
       \<or> unat MAX_NODE_PAGE_HEIGHTS < length (sd_blocks scan)
      then Inl CE_ChangedBounds
      else res_bind (decode_hash env (tip_hash (sd_tip scan))) (\<lambda>tip.
        if tip_height (sd_tip scan) < st_target_height target
         \<or> tip_height (sd_tip scan) = st_target_height target \<and> tip \<noteq> st_target_block_hash target
        then Inl CE_TargetHashChanged
        else res_bind (scan_blocks env target start (sd_to scan) None (sd_blocks scan)) (\<lambda>blocks.
          Inr \<lparr>sp_source_identity = st_source_identity target,
               sp_target_hash = st_target_block_hash target,
               sp_start_height = start, sp_end_height = sd_to scan, sp_page_number = page,
               sp_is_last = (sb_end_height (st_scan_bounds target) \<le> sd_to scan
                 \<or> (sd_blocks scan \<noteq> [] \<and>
                    sbd_height (last (sd_blocks scan)) = sb_end_height (st_scan_bounds target))),
               sp_outputs = [], sp_blocks = blocks\<rparr>)))"

definition checked_scan ::
  "('w, 'j) http_env \<Rightarrow> http_source \<Rightarrow> scan_target \<Rightarrow> u32 \<Rightarrow> ('w, chain_error, scan_page) meth" where
  "checked_scan env src target page w =
     (case checked_add (sb_start_height (st_scan_bounds target)) (ucast page * MAX_NODE_PAGE_HEIGHTS) of
        None \<Rightarrow> (Inl CE_ChangedBounds, w)
      | Some start \<Rightarrow>
          if sb_end_height (st_scan_bounds target) < start then (Inl CE_MissingPage, w)
          else (let stop = min (sb_end_height (st_scan_bounds target))
                             (saturating_add start (MAX_NODE_PAGE_HEIGHTS - 1))
                in op_then (request_json env src (he_scan env)
                       (''/chain/scan?from='' @ u64_to_string start @ ''&to='' @ u64_to_string stop))
                     (\<lambda>scan w1. (checked_page env target page start stop scan, w1)) w))"

subsection \<open>The trait implementation\<close>

definition http_handshake ::
  "('w, 'j) http_env \<Rightarrow> http_source \<Rightarrow> ('w, chain_error, node_handshake) meth" where
  "http_handshake env src =
     op_then (identity_snapshot env src) (\<lambda>identity.
     op_then (http_block env src (u64_to_string (id_tip_height identity))) (\<lambda>tip w.
       (if bd_height tip \<noteq> id_tip_height identity then Inl CE_InconsistentNode
        else res_bind (decode_hash env (bd_hash tip)) (\<lambda>block_hash.
             res_bind (decode_hash env (id_tip_hash identity)) (\<lambda>tip_hash.
               if block_hash \<noteq> tip_hash then Inl CE_InconsistentNode
               else Inr \<lparr>nh_identity = hs_expected src, nh_source_identity = hs_source_identity src,
                         nh_api_compatibility_version = id_rpc_api_version identity,
                         nh_tip_height = id_tip_height identity, nh_tip_hash = tip_hash\<rparr>)), w)))"

definition http_hash_at_height ::
  "('w, 'j) http_env \<Rightarrow> http_source \<Rightarrow> u64 \<Rightarrow> ('w, chain_error, bytes option) meth" where
  "http_hash_at_height env src height =
     op_then (http_block env src (u64_to_string height)) (\<lambda>block w.
       (if bd_height block \<noteq> height then Inl CE_InconsistentNode
        else res_bind (decode_hash env (bd_hash block)) (\<lambda>hash. Inr (Some hash)), w))"

text \<open>The evidence conjunction stops at its first false conjunct, so later decodes may not run.\<close>

definition ancestry_evidence ::
  "('w, 'j) http_env \<Rightarrow> scan_target \<Rightarrow> identity_dto \<Rightarrow> u64 \<Rightarrow> ancestry_dto \<Rightarrow> chain_error + bool" where
  "ancestry_evidence env target identity steps evidence =
     (if an_is_finality_proof evidence \<or> \<not> an_canonical evidence \<or> \<not> an_ancestor_match evidence
       \<or> \<not> an_descendant_match evidence \<or> \<not> an_bounded evidence \<or> an_steps_checked evidence \<noteq> steps
      then Inr False
      else res_bind (decode_hash env (an_observed_ancestor_hash evidence)) (\<lambda>ancestor.
        if ancestor \<noteq> st_target_block_hash target then Inr False
        else res_bind (decode_hash env (an_observed_descendant_hash evidence)) (\<lambda>descendant.
             res_bind (decode_hash env (id_tip_hash identity)) (\<lambda>tip. Inr (descendant = tip)))))"

definition http_bounded_ancestry ::
  "('w, 'j) http_env \<Rightarrow> http_source \<Rightarrow> scan_target \<Rightarrow> u32 \<Rightarrow> ('w, chain_error, bool) meth" where
  "http_bounded_ancestry env src target maximum_depth w =
     (if maximum_depth = 0 \<or> MAX_ANCESTRY_STEPS < maximum_depth
      then (Inl CE_AncestryUnavailable, w)
      else op_then (identity_snapshot env src) (\<lambda>identity w1.
        if id_tip_height identity < st_target_height target then (Inr False, w1)
        else (let steps = id_tip_height identity - st_target_height target
              in if unat maximum_depth < unat steps then (Inl CE_AncestryUnavailable, w1)
                 else op_then (request_json env src (he_ancestry env)
                     (''/chain/ancestry?ancestor_height='' @ u64_to_string (st_target_height target)
                       @ ''&ancestor_hash='' @ he_hex_encode env (st_target_block_hash target)
                       @ ''&descendant_height='' @ u64_to_string (id_tip_height identity)
                       @ ''&descendant_hash='' @ id_tip_hash identity
                       @ ''&max_steps='' @ nat_to_string (unat maximum_depth)))
                   (\<lambda>evidence w2. (ancestry_evidence env target identity steps evidence, w2)) w1)) w)"

definition http_chain_source :: "('w, 'j) http_env \<Rightarrow> http_source \<Rightarrow> 'w chain_source" where
  "http_chain_source env src =
     \<lparr>cs_handshake = http_handshake env src,
      cs_hash_at_height = http_hash_at_height env src,
      cs_bounded_ancestry = http_bounded_ancestry env src,
      cs_scan_page = checked_scan env src\<rparr>"

subsection \<open>Lookups, probe and submission\<close>

definition lookup_kernel ::
  "('w, 'j) http_env \<Rightarrow> http_source \<Rightarrow> bytes \<Rightarrow> ('w, chain_error, kernel_lookup) meth" where
  "lookup_kernel env src excess =
     op_then (http_send env src (''/kernel/'' @ he_hex_encode env excess)) (\<lambda>response w.
       (if hr_status response = 404
        then res_bind (decode_response (he_kernel_missing env) response) (\<lambda>body.
          if kmd_found body then Inl CE_MalformedResponse
          else Inr \<lparr>kl_excess = excess, kl_block_hash = None\<rparr>)
        else if \<not> (200 \<le> hr_status response \<and> hr_status response < 300)
        then Inl (CE_HttpStatus (hr_status response))
        else res_bind (decode_response (he_kernel_found env) response) (\<lambda>body.
          if \<not> kfd_found body then Inl CE_MalformedResponse
          else res_bind (decode_commitment env (kfd_excess body)) (\<lambda>found.
            if found \<noteq> excess then Inl CE_MalformedResponse
            else res_bind (decode_hash env (kfd_block_hash body)) (\<lambda>hash.
              Inr \<lparr>kl_excess = excess, kl_block_hash = Some hash\<rparr>))), w))"

definition decode_transaction_lookup ::
  "('w, 'j) http_env \<Rightarrow> 'j \<Rightarrow> bytes \<Rightarrow> chain_error + transaction_lookup" where
  "decode_transaction_lookup env value transaction_hash =
     res_bind (ok_or (he_value_found env value) CE_MalformedResponse) (\<lambda>is_found.
       if \<not> is_found
       then res_bind (ok_or (he_tx_missing env value) CE_MalformedResponse) (\<lambda>missing.
              if tmd_found missing then Inl CE_MalformedResponse
              else Inr \<lparr>tl_transaction_hash = transaction_hash, tl_in_mempool = False\<rparr>)
       else res_bind (ok_or (he_tx_found env value) CE_MalformedResponse) (\<lambda>found.
              case decode_hash env (tfd_tx_hash found) of
                Inl _ \<Rightarrow> Inl CE_MalformedResponse
              | Inr found_hash \<Rightarrow>
                  if \<not> tfd_found found \<or> found_hash \<noteq> transaction_hash then Inl CE_MalformedResponse
                  else Inr \<lparr>tl_transaction_hash = transaction_hash, tl_in_mempool = True\<rparr>))"

definition lookup_transaction ::
  "('w, 'j) http_env \<Rightarrow> http_source \<Rightarrow> bytes \<Rightarrow> ('w, chain_error, transaction_lookup) meth" where
  "lookup_transaction env src transaction_hash =
     op_then (http_send env src (''/tx/'' @ he_hex_encode env transaction_hash)) (\<lambda>response w.
       (res_bind (check_status ''/tx/{hash}'' (hr_status response)) (\<lambda>_.
        res_bind (decode_response (he_value env) response) (\<lambda>value.
          decode_transaction_lookup env value transaction_hash)), w))"

definition live_probe ::
  "('w, 'j) http_env \<Rightarrow> http_source \<Rightarrow> ('w, chain_error, live_node_probe) meth" where
  "live_probe env src =
     op_then (identity_snapshot env src) (\<lambda>identity.
     op_then (http_block env src (u64_to_string (id_tip_height identity))) (\<lambda>tip w.
       (res_bind (decode_hash env (id_tip_hash identity)) (\<lambda>tip_hash.
        if bd_height tip \<noteq> id_tip_height identity then Inl CE_InconsistentNode
        else res_bind (decode_hash env (bd_hash tip)) (\<lambda>block_hash.
        if block_hash \<noteq> tip_hash then Inl CE_InconsistentNode
        else res_bind (ok_or (he_parse_url env (hs_base_url src)) CE_InvalidConfiguration) (\<lambda>origin.
        res_bind (ok_or (snd origin) CE_InvalidConfiguration) (\<lambda>host.
        res_bind (decode_lower_hex env (id_network_magic identity) 4) (\<lambda>magic.
        if length magic \<noteq> 4 then Inl CE_MalformedResponse
        else Inr \<lparr>lp_endpoint_origin = fst origin @ ''://'' @ host,
                  lp_identity = hs_expected src,
                  lp_rpc_api_version = id_rpc_api_version identity,
                  lp_protocol_version = id_protocol_version identity,
                  lp_network_magic = magic,
                  lp_tip_height = id_tip_height identity,
                  lp_tip_hash = tip_hash,
                  lp_max_scan_range = id_max_scan_range identity,
                  lp_supports_scan = True, lp_supports_ancestry = True,
                  lp_supports_kernel_lookup = True, lp_supports_transaction_lookup = True\<rparr>))))), w)))"

definition point_target :: "http_source \<Rightarrow> live_node_probe \<Rightarrow> u64 \<Rightarrow> bytes \<Rightarrow> u32 \<Rightarrow> scan_target" where
  "point_target src probe height hash limit =
     \<lparr>st_target_height = height, st_target_block_hash = hash,
      st_source_identity = hs_source_identity src,
      st_scan_bounds = \<lparr>sb_start_height = height, sb_end_height = height, sb_max_pages = 1,
                        sb_max_records_per_page = limit\<rparr>,
      st_evidence_version = lp_rpc_api_version probe\<rparr>"

definition verify_wallet_safe_capabilities ::
  "('w, 'j) http_env \<Rightarrow> http_source \<Rightarrow> ('w, chain_error, live_node_probe) meth" where
  "verify_wallet_safe_capabilities env src =
     op_then (live_probe env src) (\<lambda>probe.
     op_then (checked_scan env src (point_target src probe (lp_tip_height probe) (lp_tip_hash probe) 100000) 0) (\<lambda>_.
     let ancestor_height = saturating_sub (lp_tip_height probe) (ucast MAX_ANCESTRY_STEPS) in
     op_then (http_block env src (u64_to_string ancestor_height)) (\<lambda>ancestor w.
       if bd_height ancestor \<noteq> ancestor_height then (Inl CE_InconsistentNode, w)
       else case decode_hash env (bd_hash ancestor) of
         Inl e \<Rightarrow> (Inl e, w)
       | Inr ancestor_hash \<Rightarrow>
           (let depth = saturating_sub (lp_tip_height probe) ancestor_height
            in if 2 ^ 32 \<le> unat depth then (Inl CE_AncestryUnavailable, w)
               else op_then (http_bounded_ancestry env src
                        (point_target src probe ancestor_height ancestor_hash 1) (max (ucast depth) 1))
                      (\<lambda>linked w1.
                        if \<not> linked then (Inl CE_AncestryUnavailable, w1)
                        else op_then (lookup_kernel env src (replicate 33 1)) (\<lambda>_.
                             op_then (lookup_transaction env src (replicate 32 1)) (\<lambda>_ w3.
                               (Inr probe, w3))) w1) w))))"

definition submit_finalized ::
  "('w, 'j) http_env \<Rightarrow> http_source \<Rightarrow> bytes \<Rightarrow> ('w, chain_error, submit_outcome) meth" where
  "submit_finalized env src transaction_bytes w =
     (if transaction_bytes = [] \<or> MAX_HTTP_RESPONSE_BYTES < length transaction_bytes
      then (Inl CE_InvalidTransaction, w)
      else case he_post_tx_hex env (hs_base_url src @ ''/tx/submit'') (hs_bearer_token src)
                  (he_hex_encode env transaction_bytes) w of
        (Inl e, w1) \<Rightarrow> (Inl (map_http_error e), w1)
      | (Inr response, w1) \<Rightarrow>
          (let status = hr_status response in
           if status = 401 \<or> status = 403 then Inl CE_AuthenticationFailed
           else if status = 404 then Inl (CE_CapabilityUnavailable ''/tx/submit'')
           else if status = 429 then Inl CE_RateLimited
           else if status = 503 then Inl CE_Overloaded
           else res_bind (decode_response (he_submit env) response) (\<lambda>body.
             res_bind (case sub_tx_hash body of None \<Rightarrow> Inr None
                       | Some h \<Rightarrow> res_bind (decode_hash env h) (\<lambda>hash. Inr (Some hash))) (\<lambda>tx_hash.
               if sub_accepted body \<and> tx_hash = None then Inl CE_MalformedResponse
               else Inr \<lparr>so_accepted = sub_accepted body, so_relayed = sub_relayed body,
                         so_tx_hash = tx_hash, so_warning = sub_warning body,
                         so_rejection = sub_error body, so_status = status\<rparr>)), w1))"

subsection \<open>What a page of the HTTP source satisfies\<close>

lemma op_then_pure_Inr:
  "op_then m (\<lambda>a s. (f a, s)) s = (Inr b, t) \<longleftrightarrow> (\<exists>a. m s = (Inr a, t) \<and> f a = Inr b)"
  by (auto simp: op_then_def split: prod.splits sum.splits)

lemma scan_block_ok:
  "scan_block env target item = Inr block \<Longrightarrow>
     sbe_height block = sbd_height item \<and> distinct (sbe_kernel_excesses block)"
  by (auto simp: scan_block_def Let_def res_simps has_duplicates_def split: if_splits)

lemma scan_blocks_ok:
  assumes "scan_blocks env target start stop prev items = Inr blocks"
  shows "sorted_wrt (<) (map (\<lambda>b. unat (sbe_height b)) blocks) \<and>
     (\<forall>b \<in> set blocks. start \<le> sbe_height b \<and> sbe_height b \<le> stop \<and>
        (\<forall>h. prev = Some h \<longrightarrow> h < sbe_height b) \<and> distinct (sbe_kernel_excesses b))"
  using assms
proof (induction items arbitrary: prev blocks)
  case Nil
  then show ?case by simp
next
  case (Cons item items)
  from Cons.prems obtain block rest where
    item: "start \<le> sbd_height item" "sbd_height item \<le> stop"
      "\<forall>h. prev = Some h \<longrightarrow> h < sbd_height item"
    and block: "scan_block env target item = Inr block"
    and rest: "scan_blocks env target start stop (Some (sbd_height item)) items = Inr rest"
    and blocks: "blocks = block # rest"
    by (auto simp: res_simps not_less not_le split: if_splits option.splits)
  note b = scan_block_ok [OF block] and r = Cons.IH [OF rest]
  show ?case
    using item b r blocks by (fastforce simp: word_less_nat_alt intro: less_trans)
qed

lemma page_stride: "unat (ucast (page :: u32) * MAX_NODE_PAGE_HEIGHTS) = unat page * 1000"
proof -
  have "unat page < 2 ^ 32" using unsigned_less [of page] by simp
  then have "unat page * 1000 < 2 ^ 64" by simp
  then show ?thesis
    by (simp add: MAX_NODE_PAGE_HEIGHTS_def unat_word_ariths unat_u32_u64)
qed

lemma checked_page_ok:
  assumes "checked_page env target page start stop scan = Inr result"
  shows "sp_start_height result = start" "start \<le> sp_end_height result" "sp_end_height result \<le> stop"
    "sp_page_number result = page" "sp_source_identity result = st_source_identity target"
    "sp_target_hash result = st_target_block_hash target" "sp_outputs result = []"
    "scan_blocks env target start (sp_end_height result) None (sd_blocks scan) = Inr (sp_blocks result)"
  using assms by (auto simp: checked_page_def res_simps not_less split: if_splits)

lemma checked_scan_ok:
  assumes "checked_scan env src target page w = (Inr result, w')"
  shows "unat (sp_start_height result) = unat (sb_start_height (st_scan_bounds target)) + unat page * 1000"
    and "unat (sp_end_height result) < unat (sp_start_height result) + 1000"
    and "page_consistent target page result = Inr ()"
    and "sorted_wrt (<) (block_heights result)"
    and "\<forall>b \<in> set (sp_blocks result). sp_start_height result \<le> sbe_height b \<and>
           sbe_height b \<le> sp_end_height result \<and> distinct (sbe_kernel_excesses b)"
    and "sp_outputs result = []"
proof -
  from assms obtain start scan where
    start: "checked_add (sb_start_height (st_scan_bounds target)) (ucast page * MAX_NODE_PAGE_HEIGHTS) = Some start"
    and le: "start \<le> sb_end_height (st_scan_bounds target)"
    and page: "checked_page env target page start (min (sb_end_height (st_scan_bounds target))
        (saturating_add start (MAX_NODE_PAGE_HEIGHTS - 1))) scan = Inr result"
    by (auto simp: checked_scan_def Let_def op_then_pure_Inr not_less split: option.splits if_splits)
  note ok = checked_page_ok [OF page]
  note blocks = scan_blocks_ok [OF ok(8)]
  show base: "unat (sp_start_height result) =
      unat (sb_start_height (st_scan_bounds target)) + unat page * 1000"
    using checked_add_SomeD [OF start] ok(1) by (simp add: page_stride)
  have "sp_end_height result \<le> saturating_add start (MAX_NODE_PAGE_HEIGHTS - 1)"
    and top: "sp_end_height result \<le> sb_end_height (st_scan_bounds target)"
    using ok(3) by auto
  then have "unat (sp_end_height result) \<le> unat start + 999"
    by (simp add: word_le_nat_alt unat_saturating_add MAX_NODE_PAGE_HEIGHTS_def)
  then show "unat (sp_end_height result) < unat (sp_start_height result) + 1000"
    using ok(1) by simp
  have "sb_start_height (st_scan_bounds target) \<le> sp_start_height result"
    using base by (simp add: word_le_nat_alt)
  then show "page_consistent target page result = Inr ()"
    using ok top by (simp add: page_consistent_ok)
  show "sorted_wrt (<) (block_heights result)" using blocks by (simp add: block_heights_def)
  show "\<forall>b \<in> set (sp_blocks result). sp_start_height result \<le> sbe_height b \<and>
      sbe_height b \<le> sp_end_height result \<and> distinct (sbe_kernel_excesses b)"
    using blocks ok(1) by auto
  show "sp_outputs result = []" by (rule ok(7))
qed

interpretation http: strided_source "checked_scan env src" 1000 for env :: "('w, 'j) http_env" and src
proof
  fix target n w page w'
  assume run: "checked_scan env src target n w = (Inr page, w')"
  show "unat (sp_start_height page) = unat (sb_start_height (st_scan_bounds target)) + unat n * 1000 \<and>
      unat (sp_end_height page) < unat (sp_start_height page) + 1000"
    using checked_scan_ok(1,2) [OF run] by simp
  show "sorted_wrt (<) (block_heights page) \<and>
      (\<forall>h \<in> set (block_heights page). unat (sp_start_height page) \<le> h \<and> h \<le> unat (sp_end_height page))"
    using checked_scan_ok(4,5) [OF run] by (auto simp: block_heights_def word_le_nat_alt)
qed

lemma bounded_ancestry_true:
  assumes "http_bounded_ancestry env src target depth w = (Inr True, w')"
  shows "\<exists>identity w1 evidence. identity_snapshot env src w = (Inr identity, w1) \<and>
      st_target_height target \<le> id_tip_height identity \<and>
      unat (id_tip_height identity) - unat (st_target_height target) \<le> unat depth \<and>
      unat depth \<le> 256 \<and>
      ancestry_evidence env target identity (id_tip_height identity - st_target_height target) evidence
        = Inr True"
proof -
  have depth: "unat depth \<le> 256" and run: "op_then (identity_snapshot env src) (\<lambda>identity w1.
        if id_tip_height identity < st_target_height target then (Inr False, w1)
        else (let steps = id_tip_height identity - st_target_height target
              in if unat depth < unat steps then (Inl CE_AncestryUnavailable, w1)
                 else op_then (request_json env src (he_ancestry env)
                     (''/chain/ancestry?ancestor_height='' @ u64_to_string (st_target_height target)
                       @ ''&ancestor_hash='' @ he_hex_encode env (st_target_block_hash target)
                       @ ''&descendant_height='' @ u64_to_string (id_tip_height identity)
                       @ ''&descendant_hash='' @ id_tip_hash identity
                       @ ''&max_steps='' @ nat_to_string (unat depth)))
                   (\<lambda>evidence w2. (ancestry_evidence env target identity steps evidence, w2)) w1)) w
      = (Inr True, w')"
    using assms
    by (auto simp: http_bounded_ancestry_def MAX_ANCESTRY_STEPS_def word_less_nat_alt not_less
        split: if_splits)
  from run obtain identity w1 evidence where id: "identity_snapshot env src w = (Inr identity, w1)"
    and le: "st_target_height target \<le> id_tip_height identity"
    and steps: "unat (id_tip_height identity - st_target_height target) \<le> unat depth"
    and ev: "ancestry_evidence env target identity (id_tip_height identity - st_target_height target)
       evidence = Inr True"
    by (auto simp: res_simps op_then_pure_Inr Let_def not_less split: if_splits)
  have "unat (id_tip_height identity - st_target_height target) =
      unat (id_tip_height identity) - unat (st_target_height target)"
    using le by (simp add: unat_sub)
  then show ?thesis using id le steps ev depth by auto
qed

subsection \<open>Properties\<close>

definition sample_hash :: string where
  "sample_hash = replicate 64 CHR ''1''"

definition sample_env :: "scan_dto \<Rightarrow> (unit, unit) http_env" where
  "sample_env scan =
     \<lparr>he_get = (\<lambda>_ _ w. (Inr \<lparr>hr_status = 200, hr_content_length = None, hr_body = Some []\<rparr>, w)),
      he_post_tx_hex = (\<lambda>_ _ _ w. (Inl HE_Timeout, w)), he_build = (\<lambda>_ _. True),
      he_hex_decode = (\<lambda>v. Some (replicate (length v div 2) 1)), he_hex_encode = (\<lambda>_. []),
      he_parse_url = (\<lambda>_. None), he_health = (\<lambda>_. None), he_identity = (\<lambda>_. None),
      he_ancestry = (\<lambda>_. None), he_block = (\<lambda>_. None), he_scan = (\<lambda>_. Some scan),
      he_submit = (\<lambda>_. None), he_kernel_found = (\<lambda>_. None), he_kernel_missing = (\<lambda>_. None),
      he_value = (\<lambda>_. None), he_value_found = (\<lambda>_. None), he_tx_found = (\<lambda>_. None),
      he_tx_missing = (\<lambda>_. None)\<rparr>"

definition sample_src :: http_source where
  "sample_src = \<lparr>hs_base_url = ''http://n'',
     hs_expected = \<lparr>ni_network = Mainnet, ni_chain_id = [], ni_genesis_id = []\<rparr>,
     hs_source_identity = ''mock'', hs_api_version = 1, hs_bearer_token = None\<rparr>"

definition sample_dto :: "u64 list \<Rightarrow> scan_dto" where
  "sample_dto hs = \<lparr>sd_tip = \<lparr>tip_height = 20, tip_hash = sample_hash\<rparr>, sd_from = 0, sd_to = 9,
     sd_blocks = map (\<lambda>h. \<lparr>sbd_height = h, sbd_hash = sample_hash, sbd_output_commitments = [],
       sbd_input_commitments = [], sbd_fees = 0, sbd_kernel_excesses = []\<rparr>) hs\<rparr>"

lemma sample_hash_ok: "decode_hash (sample_env scan) sample_hash = Inr (replicate 32 1)"
  by (simp add: decode_hash_def decode_lower_hex_def sample_hash_def sample_env_def list.pred_set
      lower_hex_digit_def zeros_def)

lemma sample_hash_nonzero: "sample_hash \<noteq> concat (replicate 32 ''00'')"
  by (simp add: sample_hash_def numeral_eq_Suc)

lemma sample_request:
  "request_json (sample_env scan) src (he_scan (sample_env scan)) path w = (Inr scan, w)"
  by (simp add: request_json_def op_then_def http_send_def sample_env_def check_status_def decode_response_def)

lemma sample_checked:
  "\<exists>page. checked_page (sample_env scan) sample_scan 0 0 9 (sample_dto [3, 7]) = Inr page \<and>
     block_heights page = [3, 7] \<and> sp_is_last page"
  by (simp add: checked_page_def sample_dto_def sample_scan_def sample_hash_ok sample_hash_nonzero
      scan_block_def has_duplicates_def MAX_NODE_PAGE_HEIGHTS_def block_heights_def Let_def)

text \<open>
  The block evidence the HTTP source hands over is in order and free of repetitions across
  page borders: over all collected pages the block heights strictly increase and stay within the
  bounds of the scan, so no block's outputs or kernels are applied twice.
\<close>

theorem http_scan_heights:
  assumes "collect_provisional_pages (http_chain_source env src) target w = (Inr pages, w')"
  shows "sorted_wrt (<) (concat (map block_heights pages)) \<and> distinct (concat (map block_heights pages)) \<and>
    (\<forall>h \<in> set (concat (map block_heights pages)).
       unat (sb_start_height (st_scan_bounds target)) \<le> h \<and> h \<le> unat (sb_end_height (st_scan_bounds target)))"
proof -
  have "collect_loop (checked_scan env src) target 0 [] w = (Inr pages, w')"
    using assms by (simp add: collect_provisional_pages_def http_chain_source_def)
  from http.collected_heights [OF this] show ?thesis
    by (auto simp: strict_sorted_iff)
qed

theorem http_scan_heights_witness:
  "\<exists>pages w'. collect_provisional_pages (http_chain_source (sample_env (sample_dto [3, 7])) sample_src) sample_scan ()
       = (Inr pages, w') \<and> map block_heights pages = [[3, 7]] \<and> distinct (concat (map block_heights pages))"
proof -
  obtain page where page: "checked_page (sample_env (sample_dto [3, 7])) sample_scan 0 0 9 (sample_dto [3, 7]) = Inr page"
    and hs: "block_heights page = [3, 7]" and last: "sp_is_last page"
    using sample_checked by blast
  have scan: "checked_scan (sample_env (sample_dto [3, 7])) sample_src sample_scan 0 () = (Inr page, ())"
    using page by (simp add: checked_scan_def sample_request sample_scan_def op_then_def checked_add_def
        saturating_add_def MAX_NODE_PAGE_HEIGHTS_def Let_def)
  have "collect_provisional_pages (http_chain_source (sample_env (sample_dto [3, 7])) sample_src) sample_scan ()
      = (Inr [page], ())"
    using last scan checked_scan_ok(3) [OF scan]
    by (simp add: collect_provisional_pages_def http_chain_source_def collect_loop.simps)
      (simp add: sample_scan_def)
  from http_scan_heights [OF this] this hs show ?thesis by auto
qed

end
