(* ===== verification/Submission.thy ===== *)
theory Submission
  imports Prelude
begin

text \<open>
  The structured submission boundary (\<open>dom-wallet-core-submit\<close>). The embedded node API is outside
  the repository: it is the record \<open>core_api\<close> of methods on a world state, and the type of
  finalized transactions is a parameter. What is modelled is everything the wallet does with the
  answers: readiness, identity checks, the mapping of submission results with its consistency
  checks, queries, and the conservative transition decisions.
\<close>

subsection \<open>Types of the embedded API\<close>

datatype core_network = CN_Mainnet | CN_Testnet | CN_Regtest

datatype core_sync_status = SS_Starting | SS_Syncing | SS_Ready | SS_Busy

datatype submission_result_kind =
    SK_Accepted | SK_AlreadyKnown | SK_RejectedInvalid | SK_RejectedFee | SK_RejectedDoubleSpend
  | SK_RejectedImmatureCoinbase | SK_RejectedExpired | SK_RejectedPolicy | SK_NodeNotReady
  | SK_TemporaryFailure | SK_InternalFailure

datatype submission_diagnostic =
    SD_Invalid | SD_FeeTooLow | SD_DoubleSpend | SD_ImmatureCoinbase | SD_Locked | SD_AlreadyKnown
  | SD_NodeBusy | SD_Policy | SD_Internal

record submission_result =
  sr_kind :: submission_result_kind
  sr_tx_hash :: bytes
  sr_primary_kernel_excess :: "bytes option"
  sr_accepted_to_mempool :: bool
  sr_broadcast_attempted :: bool
  sr_relayed :: bool
  sr_diagnostic :: "submission_diagnostic option"

datatype core_transaction_status = CT_Unknown | CT_InMempool | CT_Confirmed u64 bytes

datatype transaction_identifier = TI_TxHash bytes | TI_KernelExcess bytes

datatype wallet_core_error =
    WE_MalformedCursor | WE_CursorChainMismatch | WE_CursorReorg | WE_InvalidScanRequest
  | WE_CanonicalGap | WE_NodeNotReady | WE_SubmissionRejected | WE_TemporaryFailure
  | WE_InternalFailure

record core_block_reference =
  cbr_height :: u64
  cbr_hash :: bytes

record core_chain_identity =
  cci_network :: core_network
  cci_network_magic :: u32
  cci_chain_id :: bytes
  cci_genesis_hash :: bytes
  cci_protocol_version :: u32
  cci_range_proof_serialization_version :: u8
  cci_coinbase_maturity :: u64
  cci_current_tip :: core_block_reference

record mempool_policy_snapshot =
  mps_policy_version :: u16
  mps_network :: core_network
  mps_min_relay_fee_rate :: u64
  mps_min_mempool_fee_rate :: u64
  mps_transaction_count :: nat

record ('w, 'tx) core_api =
  api_chain_identity :: "('w, wallet_core_error, core_chain_identity) meth"
  api_sync_status :: "('w, wallet_core_error, core_sync_status) meth"
  api_is_ready :: "('w, wallet_core_error, bool) meth"
  api_mempool_policy :: "('w, wallet_core_error, mempool_policy_snapshot) meth"
  api_submit :: "'tx \<Rightarrow> ('w, wallet_core_error, submission_result) meth"
  api_rebroadcast :: "transaction_identifier \<Rightarrow> ('w, wallet_core_error, submission_result) meth"
  api_query :: "transaction_identifier \<Rightarrow> ('w, wallet_core_error, submission_result) meth"
  api_transaction_status ::
    "transaction_identifier \<Rightarrow> ('w, wallet_core_error, core_transaction_status) meth"

subsection \<open>Wallet-owned types\<close>

datatype wallet_readiness = WR_Starting | WR_Synchronizing | WR_Ready | WR_NotReady

record wallet_mempool_policy =
  wmp_policy_version :: u16
  wmp_network :: core_network
  wmp_chain_id :: bytes
  wmp_minimum_relay_fee_rate :: u64
  wmp_minimum_mempool_fee_rate :: u64
  wmp_transaction_count :: nat

record wallet_readiness_snapshot =
  wrs_readiness :: wallet_readiness
  wrs_sync_status :: core_sync_status
  wrs_core_ready :: bool
  wrs_mempool_policy :: wallet_mempool_policy

datatype wallet_transaction_identifier = WTI_TransactionHash bytes | WTI_KernelExcess bytes

fun to_core :: "wallet_transaction_identifier \<Rightarrow> transaction_identifier" where
  "to_core (WTI_TransactionHash hash) = TI_TxHash hash"
| "to_core (WTI_KernelExcess excess) = TI_KernelExcess excess"

datatype wallet_submission_error =
    InvalidRequest string
  | SubmissionIdentityMismatch string
  | NotReady wallet_readiness
  | CoreUnavailable string
  | InconsistentResult string

record 'tx canonical_submission =
  sub_transaction :: 'tx
  sub_transaction_hash :: bytes
  sub_primary_kernel_excess :: "bytes option"

definition canonical_submission_new ::
  "'tx \<Rightarrow> bytes \<Rightarrow> bytes option \<Rightarrow> wallet_submission_error + 'tx canonical_submission" where
  "canonical_submission_new transaction transaction_hash primary_kernel_excess =
     (if transaction_hash = zeros 32 then Inl (InvalidRequest ''ZERO_TRANSACTION_HASH'')
      else if primary_kernel_excess = Some (zeros 33) then Inl (InvalidRequest ''ZERO_KERNEL_EXCESS'')
      else Inr \<lparr>sub_transaction = transaction, sub_transaction_hash = transaction_hash,
                sub_primary_kernel_excess = primary_kernel_excess\<rparr>)"

datatype wallet_submission_diagnostic =
    WD_Invalid | WD_FeeTooLow | WD_DoubleSpend | WD_ImmatureCoinbase | WD_Locked | WD_AlreadyKnown
  | WD_NodeBusy | WD_Policy | WD_Internal

fun wallet_diagnostic :: "submission_diagnostic \<Rightarrow> wallet_submission_diagnostic" where
  "wallet_diagnostic SD_Invalid = WD_Invalid"
| "wallet_diagnostic SD_FeeTooLow = WD_FeeTooLow"
| "wallet_diagnostic SD_DoubleSpend = WD_DoubleSpend"
| "wallet_diagnostic SD_ImmatureCoinbase = WD_ImmatureCoinbase"
| "wallet_diagnostic SD_Locked = WD_Locked"
| "wallet_diagnostic SD_AlreadyKnown = WD_AlreadyKnown"
| "wallet_diagnostic SD_NodeBusy = WD_NodeBusy"
| "wallet_diagnostic SD_Policy = WD_Policy"
| "wallet_diagnostic SD_Internal = WD_Internal"

record wallet_submission_evidence =
  wse_transaction_hash :: bytes
  wse_primary_kernel_excess :: "bytes option"
  wse_accepted_to_mempool :: bool
  wse_broadcast_attempted :: bool
  wse_relayed :: bool
  wse_diagnostic :: "wallet_submission_diagnostic option"

datatype wallet_submission_outcome =
    Accepted (evidence: wallet_submission_evidence)
  | AlreadyKnown (evidence: wallet_submission_evidence)
  | RejectedInvalid (evidence: wallet_submission_evidence)
  | RejectedFee (evidence: wallet_submission_evidence)
  | RejectedDoubleSpend (evidence: wallet_submission_evidence)
  | RejectedImmatureCoinbase (evidence: wallet_submission_evidence)
  | RejectedExpired (evidence: wallet_submission_evidence)
  | RejectedPolicy (evidence: wallet_submission_evidence)
  | NodeNotReady (evidence: wallet_submission_evidence)
  | TemporaryFailure (evidence: wallet_submission_evidence)
  | InternalFailure (evidence: wallet_submission_evidence)

datatype wallet_transaction_status =
    WS_Unknown
  | WS_InMempool
  | WS_Confirmed u64 bytes

datatype wallet_submission_query =
    Q_InMempool wallet_submission_outcome
  | Q_Confirmed u64 bytes wallet_submission_outcome
  | Q_Rejected wallet_submission_outcome
  | Q_Unknown
  | Q_TemporarilyUnavailable wallet_submission_outcome

datatype wallet_submission_state =
    S_Finalized | S_Submitting | S_Accepted | S_AcceptedNotRelayed | S_AlreadyKnown
  | S_TemporarilyUncertain | S_RejectedInvalid | S_RejectedFee | S_RejectedDoubleSpend
  | S_RejectedImmatureCoinbase | S_RejectedExpired | S_RejectedPolicy | S_NodeNotReady
  | S_InternalUncertain | S_Confirmed | S_Reorged

record wallet_transition_decision =
  td_state :: wallet_submission_state
  td_preserve_canonical_transaction :: bool
  td_release_reservations :: bool
  td_create_duplicate_transaction :: bool
  td_rebuild_transaction :: bool
  td_mutate_fee :: bool

definition conservative :: "wallet_submission_state \<Rightarrow> wallet_transition_decision" where
  "conservative state =
     \<lparr>td_state = state, td_preserve_canonical_transaction = True, td_release_reservations = False,
      td_create_duplicate_transaction = False, td_rebuild_transaction = False,
      td_mutate_fee = False\<rparr>"

fun transition_for_outcome :: "wallet_submission_outcome \<Rightarrow> wallet_transition_decision" where
  "transition_for_outcome (Accepted ev) =
     conservative (if wse_relayed ev then S_Accepted else S_AcceptedNotRelayed)"
| "transition_for_outcome (AlreadyKnown ev) = conservative S_AlreadyKnown"
| "transition_for_outcome (RejectedInvalid ev) = conservative S_RejectedInvalid"
| "transition_for_outcome (RejectedFee ev) = conservative S_RejectedFee"
| "transition_for_outcome (RejectedDoubleSpend ev) = conservative S_RejectedDoubleSpend"
| "transition_for_outcome (RejectedImmatureCoinbase ev) = conservative S_RejectedImmatureCoinbase"
| "transition_for_outcome (RejectedExpired ev) = conservative S_RejectedExpired"
| "transition_for_outcome (RejectedPolicy ev) = conservative S_RejectedPolicy"
| "transition_for_outcome (NodeNotReady ev) = conservative S_NodeNotReady"
| "transition_for_outcome (TemporaryFailure ev) = conservative S_TemporarilyUncertain"
| "transition_for_outcome (InternalFailure ev) = conservative S_InternalUncertain"

definition transition_for_status ::
  "wallet_submission_state \<Rightarrow> wallet_transaction_status \<Rightarrow> wallet_transition_decision" where
  "transition_for_status previous status =
     conservative
       (case status of
          WS_Confirmed h b \<Rightarrow> S_Confirmed
        | WS_InMempool \<Rightarrow> S_Accepted
        | WS_Unknown \<Rightarrow> if previous = S_Confirmed then S_Reorged else S_TemporarilyUncertain)"

subsection \<open>Mapping results\<close>

definition validate_identity :: "core_chain_identity \<Rightarrow> wallet_submission_error + unit" where
  "validate_identity identity =
     (if cci_chain_id identity = zeros 32
       \<or> cci_genesis_hash identity = zeros 32 \<and> cci_network identity \<noteq> CN_Regtest
      then Inl (InvalidRequest ''MALFORMED_CHAIN_IDENTITY'') else Inr ())"

fun expected_identities :: "wallet_transaction_identifier \<Rightarrow> bytes option \<times> bytes option" where
  "expected_identities (WTI_TransactionHash hash) = (Some hash, None)"
| "expected_identities (WTI_KernelExcess excess) = (None, Some excess)"

fun outcome_of_kind ::
  "submission_result_kind \<Rightarrow> wallet_submission_evidence \<Rightarrow> wallet_submission_outcome" where
  "outcome_of_kind SK_Accepted = Accepted"
| "outcome_of_kind SK_AlreadyKnown = AlreadyKnown"
| "outcome_of_kind SK_RejectedInvalid = RejectedInvalid"
| "outcome_of_kind SK_RejectedFee = RejectedFee"
| "outcome_of_kind SK_RejectedDoubleSpend = RejectedDoubleSpend"
| "outcome_of_kind SK_RejectedImmatureCoinbase = RejectedImmatureCoinbase"
| "outcome_of_kind SK_RejectedExpired = RejectedExpired"
| "outcome_of_kind SK_RejectedPolicy = RejectedPolicy"
| "outcome_of_kind SK_NodeNotReady = NodeNotReady"
| "outcome_of_kind SK_TemporaryFailure = TemporaryFailure"
| "outcome_of_kind SK_InternalFailure = InternalFailure"

definition map_submission_result ::
  "submission_result \<Rightarrow> bytes option \<Rightarrow> bytes option \<Rightarrow>
     wallet_submission_error + wallet_submission_outcome" where
  "map_submission_result result expected_hash expected_kernel =
     (let rejected_kind = sr_kind result \<notin> {SK_Accepted, SK_AlreadyKnown} in
      if sr_relayed result \<and> \<not> sr_broadcast_attempted result
      then Inl (InconsistentResult ''RELAY_WITHOUT_BROADCAST'')
      else if (case expected_hash of None \<Rightarrow> False | Some expected \<Rightarrow> sr_tx_hash result \<noteq> expected)
      then Inl (InconsistentResult ''TRANSACTION_HASH_MISMATCH'')
      else if (case (expected_kernel, sr_primary_kernel_excess result) of
                 (Some expected, Some actual) \<Rightarrow> actual \<noteq> expected | _ \<Rightarrow> False)
      then Inl (InconsistentResult ''KERNEL_EXCESS_MISMATCH'')
      else if sr_kind result = SK_Accepted \<and> \<not> sr_accepted_to_mempool result
      then Inl (InconsistentResult ''ACCEPTANCE_FLAG_MISMATCH'')
      else if rejected_kind \<and> sr_accepted_to_mempool result
      then Inl (InconsistentResult ''REJECTION_ACCEPTED_TO_MEMPOOL'')
      else if rejected_kind \<and> (sr_broadcast_attempted result \<or> sr_relayed result)
      then Inl (InconsistentResult ''REJECTED_RESULT_RELAYED'')
      else Inr (outcome_of_kind (sr_kind result)
             \<lparr>wse_transaction_hash = sr_tx_hash result,
              wse_primary_kernel_excess = sr_primary_kernel_excess result,
              wse_accepted_to_mempool = sr_accepted_to_mempool result,
              wse_broadcast_attempted = sr_broadcast_attempted result,
              wse_relayed = sr_relayed result,
              wse_diagnostic = map_option wallet_diagnostic (sr_diagnostic result)\<rparr>))"

fun map_transaction_status :: "core_transaction_status \<Rightarrow> wallet_transaction_status" where
  "map_transaction_status CT_Unknown = WS_Unknown"
| "map_transaction_status CT_InMempool = WS_InMempool"
| "map_transaction_status (CT_Confirmed height hash) = WS_Confirmed height hash"

fun map_core_error :: "wallet_core_error \<Rightarrow> wallet_submission_error" where
  "map_core_error WE_MalformedCursor = CoreUnavailable ''CORE_MALFORMED_CURSOR''"
| "map_core_error WE_CursorChainMismatch = CoreUnavailable ''CORE_CHAIN_MISMATCH''"
| "map_core_error WE_CursorReorg = CoreUnavailable ''CORE_CURSOR_REORG''"
| "map_core_error WE_InvalidScanRequest = CoreUnavailable ''CORE_INVALID_SCAN_REQUEST''"
| "map_core_error WE_CanonicalGap = CoreUnavailable ''CORE_CANONICAL_GAP''"
| "map_core_error WE_NodeNotReady = CoreUnavailable ''CORE_NODE_NOT_READY''"
| "map_core_error WE_SubmissionRejected = CoreUnavailable ''CORE_SUBMISSION_REJECTED''"
| "map_core_error WE_TemporaryFailure = CoreUnavailable ''CORE_TEMPORARY_FAILURE''"
| "map_core_error WE_InternalFailure = CoreUnavailable ''CORE_INTERNAL_FAILURE''"

subsection \<open>The service\<close>

definition core_call ::
  "('w, wallet_core_error, 'a) meth \<Rightarrow> ('w, wallet_submission_error, 'a) meth" where
  "core_call m w = (case m w of (r, w1) \<Rightarrow> (map_sum map_core_error id r, w1))"

text \<open>Everything but the moving tip has to agree.\<close>

definition same_chain :: "core_chain_identity \<Rightarrow> core_chain_identity \<Rightarrow> bool" where
  "same_chain current identity \<longleftrightarrow>
     cci_network current = cci_network identity
   \<and> cci_network_magic current = cci_network_magic identity
   \<and> cci_chain_id current = cci_chain_id identity
   \<and> cci_genesis_hash current = cci_genesis_hash identity
   \<and> cci_protocol_version current = cci_protocol_version identity
   \<and> cci_range_proof_serialization_version current = cci_range_proof_serialization_version identity
   \<and> cci_coinbase_maturity current = cci_coinbase_maturity identity"

definition require_same_chain ::
  "('w, 'tx) core_api \<Rightarrow> core_chain_identity \<Rightarrow> ('w, wallet_submission_error, unit) meth" where
  "require_same_chain api identity =
     op_then (core_call (api_chain_identity api)) (\<lambda>current w.
       (if \<not> same_chain current identity then Inl (SubmissionIdentityMismatch ''CHAIN_IDENTITY_CHANGED'')
        else Inr (), w))"

definition submission_connect ::
  "('w, 'tx) core_api \<Rightarrow> core_chain_identity \<Rightarrow> ('w, wallet_submission_error, unit) meth" where
  "submission_connect api identity w =
     (case validate_identity identity of
        Inl e \<Rightarrow> (Inl e, w)
      | Inr _ \<Rightarrow> require_same_chain api identity w)"

definition map_policy ::
  "core_chain_identity \<Rightarrow> mempool_policy_snapshot \<Rightarrow> wallet_submission_error + wallet_mempool_policy"
  where
  "map_policy identity policy =
     (if mps_network policy \<noteq> cci_network identity
      then Inl (SubmissionIdentityMismatch ''POLICY_NETWORK_MISMATCH'')
      else if mps_policy_version policy = 0 then Inl (InconsistentResult ''ZERO_POLICY_VERSION'')
      else Inr \<lparr>wmp_policy_version = mps_policy_version policy, wmp_network = mps_network policy,
                wmp_chain_id = cci_chain_id identity,
                wmp_minimum_relay_fee_rate = mps_min_relay_fee_rate policy,
                wmp_minimum_mempool_fee_rate = mps_min_mempool_fee_rate policy,
                wmp_transaction_count = mps_transaction_count policy\<rparr>)"

fun classify_readiness :: "core_sync_status \<Rightarrow> bool \<Rightarrow> wallet_readiness" where
  "classify_readiness SS_Starting ready = WR_Starting"
| "classify_readiness SS_Syncing ready = WR_Synchronizing"
| "classify_readiness SS_Ready ready = (if ready then WR_Ready else WR_NotReady)"
| "classify_readiness SS_Busy ready = WR_NotReady"

definition readiness ::
  "('w, 'tx) core_api \<Rightarrow> core_chain_identity \<Rightarrow>
     ('w, wallet_submission_error, wallet_readiness_snapshot) meth" where
  "readiness api identity =
     op_then (require_same_chain api identity) (\<lambda>_.
     op_then (core_call (api_sync_status api)) (\<lambda>sync_status.
     op_then (core_call (api_is_ready api)) (\<lambda>core_ready.
     op_then (core_call (api_mempool_policy api)) (\<lambda>policy w.
       (res_bind (map_policy identity policy) (\<lambda>mempool_policy.
          Inr \<lparr>wrs_readiness = classify_readiness sync_status core_ready,
               wrs_sync_status = sync_status, wrs_core_ready = core_ready,
               wrs_mempool_policy = mempool_policy\<rparr>), w)))))"

definition require_ready ::
  "('w, 'tx) core_api \<Rightarrow> core_chain_identity \<Rightarrow>
     ('w, wallet_submission_error, wallet_readiness_snapshot) meth" where
  "require_ready api identity =
     op_then (readiness api identity) (\<lambda>snapshot w.
       (if wrs_readiness snapshot \<noteq> WR_Ready then Inl (NotReady (wrs_readiness snapshot))
        else Inr snapshot, w))"

definition service_submit ::
  "('w, 'tx) core_api \<Rightarrow> core_chain_identity \<Rightarrow> 'tx canonical_submission \<Rightarrow>
     ('w, wallet_submission_error, wallet_submission_outcome) meth" where
  "service_submit api identity submission =
     op_then (require_ready api identity) (\<lambda>_.
     op_then (core_call (api_submit api (sub_transaction submission))) (\<lambda>result w.
       (map_submission_result result (Some (sub_transaction_hash submission))
          (sub_primary_kernel_excess submission), w)))"

definition rebroadcast_transaction ::
  "('w, 'tx) core_api \<Rightarrow> core_chain_identity \<Rightarrow> wallet_transaction_identifier \<Rightarrow>
     ('w, wallet_submission_error, wallet_submission_outcome) meth" where
  "rebroadcast_transaction api identity identifier =
     op_then (require_ready api identity) (\<lambda>_.
     op_then (core_call (api_rebroadcast api (to_core identifier))) (\<lambda>result w.
       (map_submission_result result (fst (expected_identities identifier))
          (snd (expected_identities identifier)), w)))"

definition service_transaction_status ::
  "('w, 'tx) core_api \<Rightarrow> core_chain_identity \<Rightarrow> wallet_transaction_identifier \<Rightarrow>
     ('w, wallet_submission_error, wallet_transaction_status) meth" where
  "service_transaction_status api identity identifier =
     op_then (require_same_chain api identity) (\<lambda>_.
     op_then (core_call (api_transaction_status api (to_core identifier))) (\<lambda>status w.
       (Inr (map_transaction_status status), w)))"

definition query_of ::
  "wallet_transaction_status \<Rightarrow> wallet_submission_outcome \<Rightarrow> wallet_submission_query" where
  "query_of status outcome =
     (case status of
        WS_InMempool \<Rightarrow> Q_InMempool outcome
      | WS_Confirmed height block_hash \<Rightarrow> Q_Confirmed height block_hash outcome
      | WS_Unknown \<Rightarrow>
          (case outcome of
             RejectedInvalid _ \<Rightarrow> Q_Rejected outcome
           | RejectedFee _ \<Rightarrow> Q_Rejected outcome
           | RejectedDoubleSpend _ \<Rightarrow> Q_Rejected outcome
           | RejectedImmatureCoinbase _ \<Rightarrow> Q_Rejected outcome
           | RejectedExpired _ \<Rightarrow> Q_Rejected outcome
           | NodeNotReady _ \<Rightarrow> Q_TemporarilyUnavailable outcome
           | TemporaryFailure _ \<Rightarrow> Q_TemporarilyUnavailable outcome
           | InternalFailure _ \<Rightarrow> Q_TemporarilyUnavailable outcome
           | _ \<Rightarrow> Q_Unknown))"

definition query_submission ::
  "('w, 'tx) core_api \<Rightarrow> core_chain_identity \<Rightarrow> wallet_transaction_identifier \<Rightarrow>
     ('w, wallet_submission_error, wallet_submission_query) meth" where
  "query_submission api identity identifier =
     op_then (require_same_chain api identity) (\<lambda>_.
     op_then (core_call (api_query api (to_core identifier))) (\<lambda>raw w.
       case map_submission_result raw (fst (expected_identities identifier))
              (snd (expected_identities identifier)) of
         Inl e \<Rightarrow> (Inl e, w)
       | Inr outcome \<Rightarrow>
           op_then (service_transaction_status api identity identifier)
             (\<lambda>status w1. (Inr (query_of status outcome), w1)) w))"

subsection \<open>What an accepted result satisfies\<close>

lemma map_submission_result_ok:
  assumes "map_submission_result result hash excess = Inr outcome"
  shows "outcome = outcome_of_kind (sr_kind result) (evidence outcome) \<and>
     wse_transaction_hash (evidence outcome) = sr_tx_hash result \<and>
     (\<forall>h. hash = Some h \<longrightarrow> wse_transaction_hash (evidence outcome) = h) \<and>
     (\<forall>k k'. excess = Some k \<longrightarrow> wse_primary_kernel_excess (evidence outcome) = Some k' \<longrightarrow> k' = k) \<and>
     (wse_relayed (evidence outcome) \<longrightarrow> wse_broadcast_attempted (evidence outcome)) \<and>
     (outcome = Accepted (evidence outcome) \<longrightarrow> wse_accepted_to_mempool (evidence outcome)) \<and>
     (outcome \<noteq> Accepted (evidence outcome) \<longrightarrow> outcome \<noteq> AlreadyKnown (evidence outcome) \<longrightarrow>
        \<not> wse_accepted_to_mempool (evidence outcome) \<and> \<not> wse_broadcast_attempted (evidence outcome) \<and>
        \<not> wse_relayed (evidence outcome))"
  using assms
  by (cases "sr_kind result")
    (auto simp: map_submission_result_def Let_def split: if_splits option.splits)

lemma core_call_Inr_iff [res_simps]: "core_call m w = (Inr a, w') \<longleftrightarrow> m w = (Inr a, w')"
  by (auto simp: core_call_def map_sum_def split: prod.splits sum.splits)

lemma op_then_result_Inr [res_simps]:
  "op_then m (\<lambda>a s. (f a, s)) s = (Inr b, t) \<longleftrightarrow> (\<exists>a. m s = (Inr a, t) \<and> f a = Inr b)"
  by (auto simp: op_then_def split: prod.splits sum.splits)

lemma service_submit_ok:
  assumes "service_submit api identity submission w = (Inr outcome, w')"
  shows "\<exists>snapshot w1 result. require_ready api identity w = (Inr snapshot, w1) \<and>
     api_submit api (sub_transaction submission) w1 = (Inr result, w') \<and>
     map_submission_result result (Some (sub_transaction_hash submission))
       (sub_primary_kernel_excess submission) = Inr outcome"
  using assms by (auto simp: service_submit_def res_simps)

lemma require_ready_ok:
  assumes "require_ready api identity w = (Inr snapshot, w')"
  shows "wrs_readiness snapshot = WR_Ready \<and> wrs_core_ready snapshot \<and>
     wrs_sync_status snapshot = SS_Ready \<and>
     wmp_network (wrs_mempool_policy snapshot) = cci_network identity \<and>
     (\<exists>current w1. api_chain_identity api w = (Inr current, w1) \<and> same_chain current identity)"
proof -
  from assms obtain w1 policy where ready: "readiness api identity w = (Inr snapshot, w')"
    "wrs_readiness snapshot = WR_Ready"
    by (auto simp: require_ready_def res_simps split: if_splits)
  from ready(1) obtain w1 sync core policy mp where
    chain: "require_same_chain api identity w = (Inr (), w1)"
    and policy: "map_policy identity policy = Inr mp"
    and snap: "snapshot = \<lparr>wrs_readiness = classify_readiness sync core, wrs_sync_status = sync,
       wrs_core_ready = core, wrs_mempool_policy = mp\<rparr>"
    by (auto simp: readiness_def res_simps)
  have "sync = SS_Ready \<and> core"
    using ready(2) snap by (cases sync) (auto split: if_splits)
  moreover have "wmp_network mp = cci_network identity"
    using policy by (auto simp: map_policy_def split: if_splits)
  moreover have "\<exists>current w1. api_chain_identity api w = (Inr current, w1) \<and> same_chain current identity"
    using chain by (auto simp: require_same_chain_def res_simps split: if_splits)
  ultimately show ?thesis using ready(2) snap by auto
qed

subsection \<open>Properties\<close>

definition sample_core_identity :: core_chain_identity where
  "sample_core_identity = \<lparr>cci_network = CN_Mainnet, cci_network_magic = 1, cci_chain_id = [1],
     cci_genesis_hash = [2], cci_protocol_version = 1, cci_range_proof_serialization_version = 1,
     cci_coinbase_maturity = 10, cci_current_tip = \<lparr>cbr_height = 5, cbr_hash = [3]\<rparr>\<rparr>"

definition sample_result :: submission_result where
  "sample_result = \<lparr>sr_kind = SK_Accepted, sr_tx_hash = [7], sr_primary_kernel_excess = None,
     sr_accepted_to_mempool = True, sr_broadcast_attempted = True, sr_relayed = True, sr_diagnostic = None\<rparr>"

definition sample_api :: "(unit, unit) core_api" where
  "sample_api =
     \<lparr>api_chain_identity = (\<lambda>w. (Inr sample_core_identity, w)), api_sync_status = (\<lambda>w. (Inr SS_Ready, w)),
      api_is_ready = (\<lambda>w. (Inr True, w)),
      api_mempool_policy = (\<lambda>w. (Inr \<lparr>mps_policy_version = 1, mps_network = CN_Mainnet,
        mps_min_relay_fee_rate = 1, mps_min_mempool_fee_rate = 1, mps_transaction_count = 0\<rparr>, w)),
      api_submit = (\<lambda>_ w. (Inr sample_result, w)), api_rebroadcast = (\<lambda>_ w. (Inr sample_result, w)),
      api_query = (\<lambda>_ w. (Inr sample_result, w)), api_transaction_status = (\<lambda>_ w. (Inr CT_Unknown, w))\<rparr>"

text \<open>
  C32: an outcome reaches the wallet only if the node was ready, on the wallet's chain and agreed
  with itself. A successful submission means the readiness check passed against the same chain; the
  evidence names the submitted transaction and no other kernel; a relay implies a broadcast
  attempt, an acceptance implies mempool admission, and a rejection or failure implies neither.
\<close>

theorem submission_outcome_consistent:
  assumes "service_submit api identity submission w = (Inr outcome, w')"
  shows "(\<exists>current w1. api_chain_identity api w = (Inr current, w1) \<and> same_chain current identity) \<and>
    (\<exists>snapshot w1. require_ready api identity w = (Inr snapshot, w1) \<and> wrs_core_ready snapshot \<and>
       wrs_sync_status snapshot = SS_Ready) \<and>
    wse_transaction_hash (evidence outcome) = sub_transaction_hash submission \<and>
    (\<forall>k k'. sub_primary_kernel_excess submission = Some k \<longrightarrow>
       wse_primary_kernel_excess (evidence outcome) = Some k' \<longrightarrow> k' = k) \<and>
    (wse_relayed (evidence outcome) \<longrightarrow> wse_broadcast_attempted (evidence outcome)) \<and>
    (outcome = Accepted (evidence outcome) \<longrightarrow> wse_accepted_to_mempool (evidence outcome)) \<and>
    (outcome \<noteq> Accepted (evidence outcome) \<longrightarrow> outcome \<noteq> AlreadyKnown (evidence outcome) \<longrightarrow>
       \<not> wse_accepted_to_mempool (evidence outcome) \<and> \<not> wse_broadcast_attempted (evidence outcome) \<and>
       \<not> wse_relayed (evidence outcome))"
proof -
  obtain snapshot w1 result where ready: "require_ready api identity w = (Inr snapshot, w1)"
    and result: "map_submission_result result (Some (sub_transaction_hash submission))
       (sub_primary_kernel_excess submission) = Inr outcome"
    using service_submit_ok [OF assms] by blast
  from require_ready_ok [OF ready] map_submission_result_ok [OF result] ready show ?thesis by auto
qed

theorem submission_outcome_consistent_witness:
  "\<exists>outcome. service_submit sample_api sample_core_identity
       \<lparr>sub_transaction = (), sub_transaction_hash = [7], sub_primary_kernel_excess = None\<rparr> () = (Inr outcome, ()) \<and>
     wse_transaction_hash (evidence outcome) = [7]"
proof -
  obtain outcome where run: "service_submit sample_api sample_core_identity
       \<lparr>sub_transaction = (), sub_transaction_hash = [7], sub_primary_kernel_excess = None\<rparr> () = (Inr outcome, ())"
    by (simp add: service_submit_def require_ready_def readiness_def require_same_chain_def op_then_def
        core_call_def sample_api_def sample_core_identity_def sample_result_def same_chain_def map_policy_def
        map_submission_result_def Let_def)
  from submission_outcome_consistent [OF run] run show ?thesis by auto
qed

text \<open>
  No answer of the node, outcome or status, ever lets the wallet release a reservation, build
  a second transaction, rebuild the transaction or change its fee: the canonical transaction is
  always preserved, and only a confirmed transaction that becomes unknown is called reorganised.
\<close>

theorem decisions_conservative:
  "(\<forall>outcome. transition_for_outcome outcome = conservative (td_state (transition_for_outcome outcome))) \<and>
   (\<forall>previous status. transition_for_status previous status =
      conservative (td_state (transition_for_status previous status))) \<and>
   td_preserve_canonical_transaction (conservative st) \<and> \<not> td_release_reservations (conservative st) \<and>
   \<not> td_create_duplicate_transaction (conservative st) \<and> \<not> td_rebuild_transaction (conservative st) \<and>
   \<not> td_mutate_fee (conservative st) \<and>
   (td_state (transition_for_status previous status) = S_Reorged \<longleftrightarrow>
      previous = S_Confirmed \<and> status = WS_Unknown)"
proof -
  have "transition_for_outcome outcome = conservative (td_state (transition_for_outcome outcome))" for outcome
    by (cases outcome) (simp_all add: conservative_def)
  moreover have "(td_state (transition_for_status previous status) = S_Reorged) =
      (previous = S_Confirmed \<and> status = WS_Unknown)"
    by (cases status) (simp_all add: transition_for_status_def conservative_def)
  ultimately show ?thesis
    by (simp add: transition_for_status_def conservative_def)
qed

end
