(* ===== verification/Storage.thy ===== *)
theory Storage
  imports Wallet_Run
begin

text \<open>
  Durable generations (\<open>dom-wallet-storage\<close>): staging, publishing, loading with repair of an
  interrupted publication, the pre-migration snapshot and the cleanup of superseded generations.

  A wallet directory is a record: the metadata file, the active pointer, the complete generation
  directories and the snapshot marker. Every file is replaced atomically (temporary file and
  rename), so an I/O step either has its whole effect or none; \<open>se_fault\<close> says of each step whether
  it succeeds, fails before its effect, or fails after it (the directory sync after the rename).
  Nothing runs after a failing step, so a crash is a failing step as far as the disk is concerned.
  Sealing and opening an encrypted generation (\<open>dom-wallet-crypto\<close>, \<open>serde_json\<close>) are parameters;
  the associated data they are bound to is modelled byte for byte.
\<close>

datatype state_encoding = CompactV2 | LegacyV1

datatype storage_error =
    SE_AlreadyExists | SE_NotFound | SE_UnsafePath | SE_WriterActive | SE_InvalidPassword
  | SE_AuthenticationDataCorrupt | SE_AuthenticatedPayloadCorrupt | SE_InvalidMetadata
  | SE_UnsupportedVersion | SE_InvalidActiveGeneration | SE_GenerationConflict
  | SE_ExpectedGenerationConflict u64 | SE_IdentityMismatch | SE_GenerationAlreadyExists
  | SE_IncompleteGeneration | SE_GenerationOverflow | SE_FileSizeOutOfBounds | SE_StateTooLarge
  | SE_BackupDestinationExists | SE_InvalidBackup | SE_UnsupportedBackupVersion | SE_Clock
  | SE_CanonicalEncoding | SE_Crypto | SE_Domain domain_error | SE_Io

record wallet_metadata =
  wm_metadata_version :: u16
  wm_wallet_id :: uuid
  wm_identity :: network_identity
  wm_schema_version :: u16
  wm_secret_profile_version :: u16
  wm_active_generation :: u64

definition metadata_from_state :: "wallet_state \<Rightarrow> wallet_metadata" where
  "metadata_from_state s =
     \<lparr>wm_metadata_version = 1, wm_wallet_id = ws_wallet_id s, wm_identity = ws_identity s,
      wm_schema_version = MODEL_VERSION, wm_secret_profile_version = SECRET_PROFILE_VERSION,
      wm_active_generation = ws_generation s\<rparr>"

datatype snapshot_marker = Snap_None | Snap_Released | Snap_Generation u64

record 'env wallet_directory =
  wd_metadata :: wallet_metadata
  wd_active :: u64
  wd_generations :: "u64 \<rightharpoonup> state_encoding \<times> 'env"
  wd_snapshot :: "snapshot_marker option"

subsection \<open>Associated data\<close>

definition state_context :: "uuid \<Rightarrow> network_identity \<Rightarrow> u64 \<Rightarrow> bytes" where
  "state_context wallet_id identity generation =
     ascii ''DOM-WALLET-V3-STATE-V1'' @ uuid_bytes wallet_id @ ni_chain_id identity
       @ ni_genesis_id identity @ u64_le_bytes generation"

definition authentication_context :: "uuid \<Rightarrow> network_identity \<Rightarrow> bytes" where
  "authentication_context wallet_id identity =
     ascii ''DOM-WALLET-V3-AUTH-V1'' @ uuid_bytes wallet_id @ ni_chain_id identity
       @ ni_genesis_id identity"

definition rescan_context :: "uuid \<Rightarrow> network_identity \<Rightarrow> bytes" where
  "rescan_context wallet_id identity =
     ascii ''DOM-WALLET-V3-RESCAN-V1'' @ uuid_bytes wallet_id @ ni_chain_id identity
       @ ni_genesis_id identity"

definition backup_context :: "u64 \<Rightarrow> uuid \<Rightarrow> network_identity \<Rightarrow> bytes" where
  "backup_context created_unix_seconds wallet_id identity =
     ascii ''DOMWBK01'' @ u16_le_bytes 1 @ u64_le_bytes created_unix_seconds @ uuid_bytes wallet_id
       @ ni_chain_id identity @ ni_genesis_id identity"

subsection \<open>The environment\<close>

datatype io_step =
    IO_ReadMetadata | IO_ReadActive | IO_RemoveUnpublished | IO_WriteGeneration | IO_ReadActiveAgain
  | IO_Snapshot | IO_Pointer | IO_Metadata | IO_SyncRoot | IO_ReadState | IO_Repair | IO_Authenticator
  | IO_ListGenerations | IO_RemoveGeneration u64
  | IO_CreateDirectory | IO_CreateGenerations | IO_Lock | IO_SyncStaging | IO_Rename | IO_SyncParent
  | IO_RemoveStaging | IO_WritePlan | IO_ReadPlan | IO_RemovePlan | IO_WriteBackup | IO_ReadBackup
  | IO_Install | IO_SyncInstall | IO_Restrict

datatype fault = NoFault | FailBefore | FailAfter

datatype open_failure = OpenAuthenticationFailed | OpenFailed | ParseFailed

record 'env storage_env =
  se_seal :: "string \<Rightarrow> bytes \<Rightarrow> state_encoding \<Rightarrow> wallet_state \<Rightarrow> storage_error + 'env"
  se_open :: "string \<Rightarrow> bytes \<Rightarrow> 'env \<Rightarrow> open_failure + wallet_state"
  se_authenticate :: "string \<Rightarrow> bytes \<Rightarrow> storage_error + bool"
  se_fault :: "io_step \<Rightarrow> fault"

text \<open>What sealing promises: the same password and associated data open what they sealed.\<close>

definition seal_opens :: "'env storage_env \<Rightarrow> bool" where
  "seal_opens env \<longleftrightarrow>
     (\<forall>pw ctx enc s e. se_seal env pw ctx enc s = Inr e \<longrightarrow> se_open env pw ctx e = Inr s)"

definition io_write ::
  "'env storage_env \<Rightarrow> io_step \<Rightarrow> ('d \<Rightarrow> 'd) \<Rightarrow> ('d, storage_error, unit) meth" where
  "io_write env step effect d =
     (case se_fault env step of
        NoFault \<Rightarrow> (Inr (), effect d)
      | FailBefore \<Rightarrow> (Inl SE_Io, d)
      | FailAfter \<Rightarrow> (Inl SE_Io, effect d))"

definition io_read :: "'env storage_env \<Rightarrow> io_step \<Rightarrow> storage_error + unit" where
  "io_read env step = (if se_fault env step = NoFault then Inr () else Inl SE_Io)"

subsection \<open>Metadata and pointer\<close>

definition metadata_checked :: "wallet_metadata \<Rightarrow> storage_error + wallet_metadata" where
  "metadata_checked m =
     (if wm_metadata_version m \<noteq> 1 \<or> wm_schema_version m \<noteq> MODEL_VERSION
       \<or> wm_secret_profile_version m \<noteq> SECRET_PROFILE_VERSION
      then Inl SE_UnsupportedVersion else Inr m)"

definition location_metadata ::
  "'env storage_env \<Rightarrow> 'env wallet_directory \<Rightarrow> storage_error + wallet_metadata" where
  "location_metadata env d =
     res_bind (io_read env IO_ReadMetadata) (\<lambda>_. metadata_checked (wd_metadata d))"

definition active_generation ::
  "'env storage_env \<Rightarrow> io_step \<Rightarrow> 'env wallet_directory \<Rightarrow> storage_error + u64" where
  "active_generation env step d = res_bind (io_read env step) (\<lambda>_. Inr (wd_active d))"

subsection \<open>Staging\<close>

definition remove_unpublished_generation ::
  "'env storage_env \<Rightarrow> u64 \<Rightarrow> ('env wallet_directory, storage_error, unit) meth" where
  "remove_unpublished_generation env g d =
     (if wd_generations d g = None then (Inr (), d)
      else io_write env IO_RemoveUnpublished
             (\<lambda>d. d\<lparr>wd_generations := (wd_generations d)(g := None)\<rparr>) d)"

definition write_generation ::
  "'env storage_env \<Rightarrow> wallet_state \<Rightarrow> string \<Rightarrow> state_encoding \<Rightarrow>
     ('env wallet_directory, storage_error, unit) meth" where
  "write_generation env s password encoding d =
     (if wd_generations d (ws_generation s) \<noteq> None then (Inl SE_GenerationAlreadyExists, d)
      else case se_seal env password (state_context (ws_wallet_id s) (ws_identity s) (ws_generation s))
                  encoding s of
        Inl e \<Rightarrow> (Inl e, d)
      | Inr envelope \<Rightarrow>
          io_write env IO_WriteGeneration
            (\<lambda>d. d\<lparr>wd_generations := (wd_generations d)(ws_generation s \<mapsto> (encoding, envelope))\<rparr>) d)"

definition stage_generation ::
  "'env storage_env \<Rightarrow> u64 \<Rightarrow> wallet_state \<Rightarrow> string \<Rightarrow> state_encoding \<Rightarrow>
     ('env wallet_directory, storage_error, wallet_state) meth" where
  "stage_generation env expected s password encoding d =
     (case res_bind (location_metadata env d) (\<lambda>m.
             res_bind (active_generation env IO_ReadActive d) (\<lambda>active.
               if active \<noteq> expected \<or> wm_active_generation m \<noteq> expected
               then Inl (SE_ExpectedGenerationConflict active)
               else if ws_wallet_id s \<noteq> wm_wallet_id m \<or> ws_identity s \<noteq> wm_identity m
               then Inl SE_IdentityMismatch
               else res_bind (ok_or (checked_add expected 1) SE_GenerationOverflow) (\<lambda>g.
                 let s1 = s\<lparr>ws_generation := g\<rparr>
                 in res_bind (map_sum SE_Domain id (wallet_validate s1)) (\<lambda>_. Inr s1)))) of
        Inl e \<Rightarrow> (Inl e, d)
      | Inr s1 \<Rightarrow>
          op_then (remove_unpublished_generation env (ws_generation s1)) (\<lambda>_.
          op_then (write_generation env s1 password encoding) (\<lambda>_ d. (Inr s1, d))) d)"

subsection \<open>Publishing\<close>

definition generation_encoding ::
  "'env wallet_directory \<Rightarrow> u64 \<Rightarrow> storage_error + state_encoding" where
  "generation_encoding d g = ok_or (map_option fst (wd_generations d g)) SE_Io"

definition record_pre_migration_snapshot ::
  "'env storage_env \<Rightarrow> u64 \<Rightarrow> ('env wallet_directory, storage_error, unit) meth" where
  "record_pre_migration_snapshot env staged d =
     (case generation_encoding d staged of
        Inl e \<Rightarrow> (Inl e, d)
      | Inr LegacyV1 \<Rightarrow> (Inr (), d)
      | Inr CompactV2 \<Rightarrow>
          (let active = wd_active d;
               mark = (\<lambda>m. io_write env IO_Snapshot (\<lambda>d. d\<lparr>wd_snapshot := Some m\<rparr>) d);
               none = (if wd_snapshot d = None then mark Snap_None else (Inr (), d))
           in if active = staged then none
              else case generation_encoding d active of
                Inl e \<Rightarrow> (Inl e, d)
              | Inr CompactV2 \<Rightarrow> none
              | Inr LegacyV1 \<Rightarrow>
                  if wd_snapshot d = Some (Snap_Generation active) then (Inr (), d)
                  else mark (Snap_Generation active)))"

definition publish_pointer_and_metadata ::
  "'env storage_env \<Rightarrow> wallet_state \<Rightarrow> ('env wallet_directory, storage_error, unit) meth" where
  "publish_pointer_and_metadata env s =
     op_then (io_write env IO_Pointer (\<lambda>d. d\<lparr>wd_active := ws_generation s\<rparr>)) (\<lambda>_.
     op_then (io_write env IO_Metadata (\<lambda>d. d\<lparr>wd_metadata := metadata_from_state s\<rparr>)) (\<lambda>_.
       io_write env IO_SyncRoot (\<lambda>d. d)))"

definition publish_staged_generation ::
  "'env storage_env \<Rightarrow> u64 \<Rightarrow> wallet_state \<Rightarrow> ('env wallet_directory, storage_error, unit) meth" where
  "publish_staged_generation env expected s d =
     (case res_bind (active_generation env IO_ReadActiveAgain d) (\<lambda>active.
             if active \<noteq> expected then Inl (SE_ExpectedGenerationConflict active)
             else res_bind (ok_or (checked_add expected 1) SE_GenerationOverflow) (\<lambda>g.
               if ws_generation s \<noteq> g then Inl SE_GenerationConflict
               else map_sum SE_Domain id (wallet_validate s))) of
        Inl e \<Rightarrow> (Inl e, d)
      | Inr _ \<Rightarrow>
          op_then (record_pre_migration_snapshot env (ws_generation s)) (\<lambda>_.
            publish_pointer_and_metadata env s) d)"

definition commit_with_encoding ::
  "'env storage_env \<Rightarrow> u64 \<Rightarrow> wallet_state \<Rightarrow> string \<Rightarrow> state_encoding \<Rightarrow>
     ('env wallet_directory, storage_error, wallet_state) meth" where
  "commit_with_encoding env expected s password encoding =
     op_then (stage_generation env expected s password encoding) (\<lambda>s1.
     op_then (publish_staged_generation env expected s1) (\<lambda>_ d. (Inr s1, d)))"

definition storage_commit ::
  "'env storage_env \<Rightarrow> string \<Rightarrow> u64 \<Rightarrow> wallet_state \<Rightarrow>
     ('env wallet_directory, storage_error, wallet_state) meth" where
  "storage_commit env password expected s = commit_with_encoding env expected s password CompactV2"

subsection \<open>Loading\<close>

definition interrupted_publication :: "'env wallet_directory \<Rightarrow> bool" where
  "interrupted_publication d \<longleftrightarrow>
     checked_add (wm_active_generation (wd_metadata d)) 1 = Some (wd_active d)"

definition load_generation ::
  "'env storage_env \<Rightarrow> u64 \<Rightarrow> string \<Rightarrow> wallet_metadata \<Rightarrow> bool \<Rightarrow> 'env wallet_directory \<Rightarrow>
     storage_error + wallet_state" where
  "load_generation env g password m authenticated d =
     (case (if se_fault env IO_ReadState = NoFault then wd_generations d g else None) of
        None \<Rightarrow> Inl SE_Io
      | Some (enc, envelope) \<Rightarrow>
          (case se_open env password (state_context (wm_wallet_id m) (wm_identity m) g) envelope of
             Inl OpenAuthenticationFailed \<Rightarrow>
               Inl (if authenticated then SE_AuthenticatedPayloadCorrupt else SE_InvalidPassword)
           | Inl _ \<Rightarrow> Inl SE_AuthenticatedPayloadCorrupt
           | Inr s \<Rightarrow>
               (case migrate_transaction_exposure s of
                  (Inl e, _) \<Rightarrow> Inl (SE_Domain e)
                | (Inr _, s1) \<Rightarrow> Inr s1)))"

text \<open>The state a load returns, before it repairs the metadata or writes the authenticator.\<close>

definition load_checked ::
  "'env storage_env \<Rightarrow> string \<Rightarrow> 'env wallet_directory \<Rightarrow> storage_error + (bool \<times> wallet_state)" where
  "load_checked env password d =
     res_bind (location_metadata env d) (\<lambda>m.
     res_bind (se_authenticate env password
                 (authentication_context (wm_wallet_id m) (wm_identity m))) (\<lambda>authenticated.
     res_bind (active_generation env IO_ReadActive d) (\<lambda>active.
       if active \<noteq> wm_active_generation m \<and> \<not> interrupted_publication d
       then Inl SE_GenerationConflict
       else res_bind (load_generation env active password m authenticated d) (\<lambda>s.
         if ws_generation s \<noteq> active \<or> ws_wallet_id s \<noteq> wm_wallet_id m
          \<or> ws_identity s \<noteq> wm_identity m
         then Inl SE_GenerationConflict
         else res_bind (map_sum SE_Domain id (wallet_validate s)) (\<lambda>_. Inr (authenticated, s))))))"

definition storage_load ::
  "'env storage_env \<Rightarrow> string \<Rightarrow> ('env wallet_directory, storage_error, wallet_state) meth" where
  "storage_load env password d =
     (case load_checked env password d of
        Inl e \<Rightarrow> (Inl e, d)
      | Inr (authenticated, s) \<Rightarrow>
          op_then (if interrupted_publication d
                   then op_then (io_write env IO_Repair (\<lambda>d. d\<lparr>wd_metadata := metadata_from_state s\<rparr>))
                          (\<lambda>_. io_write env IO_SyncRoot (\<lambda>d. d))
                   else (\<lambda>d. (Inr (), d))) (\<lambda>_.
          op_then (if authenticated then (\<lambda>d. (Inr (), d))
                   else io_write env IO_Authenticator (\<lambda>d. d)) (\<lambda>_ d. (Inr s, d))) d)"

subsection \<open>Cleaning up\<close>

definition pre_migration_snapshot_generation :: "'env wallet_directory \<Rightarrow> u64 option" where
  "pre_migration_snapshot_generation d =
     (case wd_snapshot d of
        Some (Snap_Generation g) \<Rightarrow> if wd_generations d g \<noteq> None then Some g else None
      | _ \<Rightarrow> None)"

definition release_pre_migration_snapshot ::
  "'env storage_env \<Rightarrow> ('env wallet_directory, storage_error, unit) meth" where
  "release_pre_migration_snapshot env d =
     (case active_generation env IO_ReadActive d of
        Inl e \<Rightarrow> (Inl e, d)
      | Inr active \<Rightarrow>
          (case pre_migration_snapshot_generation d of
             None \<Rightarrow> (Inr (), d)
           | Some g \<Rightarrow>
               if g = active then (Inl SE_GenerationConflict, d)
               else op_then (io_write env IO_Snapshot (\<lambda>d. d\<lparr>wd_snapshot := Some Snap_Released\<rparr>)) (\<lambda>_.
                      io_write env (IO_RemoveGeneration g)
                        (\<lambda>d. d\<lparr>wd_generations := (wd_generations d)(g := None)\<rparr>)) d))"

text \<open>
  The names in the generations directory, sorted, are an argument (\<open>generations\<close>): \<open>read_dir\<close> lists
  exactly the directories that exist.
\<close>

definition retained_generations :: "'env wallet_directory \<Rightarrow> u64 list \<Rightarrow> u64 list \<Rightarrow> u64 set" where
  "retained_generations d protected generations =
     {wd_active d} \<union> set protected \<union> set_option (pre_migration_snapshot_generation d)
       \<union> set (take 1 (rev (filter (\<lambda>g. g < wd_active d) generations)))"

definition cleanup_superseded_generations ::
  "'env storage_env \<Rightarrow> u64 list \<Rightarrow> u64 list \<Rightarrow> ('env wallet_directory, storage_error, unit) meth" where
  "cleanup_superseded_generations env protected generations d =
     (case res_bind (active_generation env IO_ReadActive d) (\<lambda>_. io_read env IO_ListGenerations) of
        Inl e \<Rightarrow> (Inl e, d)
      | Inr _ \<Rightarrow>
          if wd_active d \<notin> set generations then (Inl SE_GenerationConflict, d)
          else for_each (\<lambda>g. io_write env (IO_RemoveGeneration g)
                   (\<lambda>d. d\<lparr>wd_generations := (wd_generations d)(g := None)\<rparr>))
                 (filter (\<lambda>g. g \<notin> retained_generations d protected generations) generations) d)"

subsection \<open>A validated state is its own migration\<close>

lemma validated_migration:
  assumes "wallet_validate s = Inr ()"
  shows "migrate_transaction_exposure s = (Inr False, s)"
proof -
  have v: "ws_transaction_exposure_version s = TRANSACTION_EXPOSURE_VERSION"
    and ok: "\<not> list_ex transaction_bad (ws_transactions s)"
    using assms by (auto simp: wallet_validate_def res_simps)
  have "\<forall>t \<in> set (ws_transactions s). exposure_floor_ok t"
    using ok transaction_bad_floor by (auto simp: list_ex_iff)
  then show ?thesis
    using migrate_exposures_stable [of "ws_transactions s" False] v
    by (simp add: migrate_transaction_exposure_def domain_consts)
qed

subsection \<open>Commits are old or new\<close>

definition quiet :: "'env storage_env \<Rightarrow> 'env storage_env" where
  "quiet env = env\<lparr>se_fault := (\<lambda>_. NoFault)\<rparr>"

definition keeps_active :: "'env wallet_directory \<Rightarrow> 'env wallet_directory \<Rightarrow> bool" where
  "keeps_active d d' \<longleftrightarrow>
     wd_active d' = wd_active d \<and> wd_metadata d' = wd_metadata d \<and>
     wd_generations d' (wd_active d) = wd_generations d (wd_active d)"

lemma keeps_active_refl [simp]: "keeps_active d d"
  by (simp add: keeps_active_def)

lemma keeps_active_trans: "keeps_active a b \<Longrightarrow> keeps_active b c \<Longrightarrow> keeps_active a c"
  by (auto simp: keeps_active_def)

lemma keeps_active_load:
  assumes "keeps_active d d'"
  shows "load_checked env pw d' = load_checked env pw d"
proof -
  have gen: "load_generation env (wd_active d) pw m b d' = load_generation env (wd_active d) pw m b d" for m b
    using assms by (simp add: keeps_active_def load_generation_def)
  have same: "location_metadata env d' = location_metadata env d" "wd_active d' = wd_active d"
    "interrupted_publication d' = interrupted_publication d"
    using assms by (simp_all add: keeps_active_def location_metadata_def interrupted_publication_def)
  show ?thesis
    by (cases "io_read env IO_ReadActive")
      (simp_all add: load_checked_def active_generation_def same gen cong: if_cong)
qed

text \<open>The checks before anything is written.\<close>

definition stage_admits :: "'env wallet_directory \<Rightarrow> u64 \<Rightarrow> wallet_state \<Rightarrow> wallet_state \<Rightarrow> bool" where
  "stage_admits d expected s s1 \<longleftrightarrow>
     wd_active d = expected \<and> wm_active_generation (wd_metadata d) = expected \<and>
     metadata_checked (wd_metadata d) = Inr (wd_metadata d) \<and>
     ws_wallet_id s = wm_wallet_id (wd_metadata d) \<and> ws_identity s = wm_identity (wd_metadata d) \<and>
     checked_add expected 1 = Some (ws_generation s1) \<and>
     s1 = s\<lparr>ws_generation := ws_generation s1\<rparr> \<and> wallet_validate s1 = Inr ()"

lemma metadata_checkedD: "metadata_checked m = Inr m' \<Longrightarrow> m' = m"
  by (auto simp: metadata_checked_def split: if_splits)

lemma map_sum_id_Inr: "map_sum f id r = Inr a \<longleftrightarrow> r = Inr a"
  by (cases r) auto

lemma ok_or_Inr: "ok_or x e = Inr a \<longleftrightarrow> x = Some a"
  by (cases x) auto

lemma next_generation_differs: "checked_add g 1 = Some (g' :: u64) \<Longrightarrow> g' \<noteq> g"
  by (auto dest: checked_add_SomeD)

lemma io_write_cases:
  "io_write env step effect d = (r, d') \<Longrightarrow> (r = Inr () \<and> d' = effect d) \<or> (r = Inl SE_Io \<and> d' \<in> {d, effect d})"
  by (auto simp: io_write_def split: fault.splits)

lemma stage_shape:
  assumes "stage_generation env expected s pw enc d = (r, d')"
  shows "(\<exists>e. r = Inl e \<and> d' = d) \<or>
    (\<exists>s1. stage_admits d expected s s1 \<and>
       op_then (remove_unpublished_generation env (ws_generation s1)) (\<lambda>_.
         op_then (write_generation env s1 pw enc) (\<lambda>_ d. (Inr s1, d))) d = (r, d'))"
proof -
  let ?check = "res_bind (location_metadata env d) (\<lambda>m.
             res_bind (active_generation env IO_ReadActive d) (\<lambda>active.
               if active \<noteq> expected \<or> wm_active_generation m \<noteq> expected
               then Inl (SE_ExpectedGenerationConflict active)
               else if ws_wallet_id s \<noteq> wm_wallet_id m \<or> ws_identity s \<noteq> wm_identity m
               then Inl SE_IdentityMismatch
               else res_bind (ok_or (checked_add expected 1) SE_GenerationOverflow) (\<lambda>g.
                 let s1 = s\<lparr>ws_generation := g\<rparr>
                 in res_bind (map_sum SE_Domain id (wallet_validate s1)) (\<lambda>_. Inr s1))))"
  show ?thesis
  proof (cases ?check)
    case (Inl e)
    then show ?thesis using assms by (intro disjI1 exI [of _ e]) (simp add: stage_generation_def)
  next
    case (Inr s1)
    then obtain m g where m: "metadata_checked (wd_metadata d) = Inr m"
      and eqs: "wd_active d = expected" "wm_active_generation m = expected"
        "ws_wallet_id s = wm_wallet_id m" "ws_identity s = wm_identity m"
      and g: "checked_add expected 1 = Some g" "s1 = s\<lparr>ws_generation := g\<rparr>" "wallet_validate s1 = Inr ()"
      by (auto simp: location_metadata_def active_generation_def res_simps Let_def map_sum_id_Inr
          ok_or_Inr split: if_splits)
    have "m = wd_metadata d" using metadata_checkedD [OF m] .
    then have "stage_admits d expected s s1" using m eqs g by (simp add: stage_admits_def)
    then show ?thesis using assms Inr by (auto simp: stage_generation_def)
  qed
qed

lemma remove_unpublished_keeps:
  assumes "remove_unpublished_generation env g d = (r, d')" and "g \<noteq> wd_active d"
  shows "keeps_active d d'"
  using assms
  by (auto simp: remove_unpublished_generation_def keeps_active_def split: if_splits dest!: io_write_cases)

lemma write_generation_keeps:
  assumes "write_generation env s pw enc d = (r, d')" and "ws_generation s \<noteq> wd_active d"
  shows "keeps_active d d'"
  using assms
  by (auto simp: write_generation_def keeps_active_def split: if_splits sum.splits dest!: io_write_cases)

lemma write_generation_ok:
  assumes "write_generation env s pw enc d = (Inr (), d')"
  shows "\<exists>e. se_seal env pw (state_context (ws_wallet_id s) (ws_identity s) (ws_generation s)) enc s = Inr e \<and>
     wd_generations d' (ws_generation s) = Some (enc, e)"
  using assms by (auto simp: write_generation_def split: if_splits sum.splits dest!: io_write_cases)

lemma stage_keeps:
  assumes "stage_generation env expected s pw enc d = (r, d')"
  shows "keeps_active d d'"
proof -
  consider "d' = d" | s1 where "stage_admits d expected s s1"
      "op_then (remove_unpublished_generation env (ws_generation s1)) (\<lambda>_.
         op_then (write_generation env s1 pw enc) (\<lambda>_ d. (Inr s1, d))) d = (r, d')"
    using stage_shape [OF assms] by blast
  then show ?thesis
  proof cases
    case 1
    then show ?thesis by simp
  next
    case 2
    have ne: "ws_generation s1 \<noteq> wd_active d"
      using 2(1) by (auto simp: stage_admits_def dest: next_generation_differs)
    obtain p d1 where rm: "remove_unpublished_generation env (ws_generation s1) d = (p, d1)" by fastforce
    note k1 = remove_unpublished_keeps [OF rm ne]
    obtain q d2 where wr: "write_generation env s1 pw enc d1 = (q, d2)" by fastforce
    have "ws_generation s1 \<noteq> wd_active d1" using ne k1 by (simp add: keeps_active_def)
    note k2 = write_generation_keeps [OF wr this]
    show ?thesis
      using 2(2) rm wr k1 keeps_active_trans [OF k1 k2]
      by (auto simp: op_then_def split: sum.splits)
  qed
qed

lemma stage_ok:
  assumes "stage_generation env expected s pw enc d = (Inr s1, d')"
  shows "stage_admits d expected s s1"
    and "\<exists>e. se_seal env pw (state_context (ws_wallet_id s1) (ws_identity s1) (ws_generation s1)) enc s1
           = Inr e \<and> wd_generations d' (ws_generation s1) = Some (enc, e)"
proof -
  from stage_shape [OF assms] obtain s2 where s2: "stage_admits d expected s s2"
    "op_then (remove_unpublished_generation env (ws_generation s2)) (\<lambda>_.
         op_then (write_generation env s2 pw enc) (\<lambda>_ d. (Inr s2, d))) d = (Inr s1, d')"
    by auto
  then obtain d1 where "s2 = s1" "write_generation env s2 pw enc d1 = (Inr (), d')"
    by (auto simp: res_simps)
  with s2(1) write_generation_ok show "stage_admits d expected s s1"
    and "\<exists>e. se_seal env pw (state_context (ws_wallet_id s1) (ws_identity s1) (ws_generation s1)) enc s1
           = Inr e \<and> wd_generations d' (ws_generation s1) = Some (enc, e)"
    by blast+
qed

lemma snapshot_frame:
  "record_pre_migration_snapshot env g d = (r, d') \<Longrightarrow> \<exists>m. d' = d\<lparr>wd_snapshot := m\<rparr>"
proof -
  assume run: "record_pre_migration_snapshot env g d = (r, d')"
  have "\<exists>m. t = d\<lparr>wd_snapshot := m\<rparr>"
    if "io_write env IO_Snapshot (\<lambda>d. d\<lparr>wd_snapshot := Some x\<rparr>) d = (q, t)" for x q t
  proof -
    have "t = d\<lparr>wd_snapshot := wd_snapshot d\<rparr> \<or> t = d\<lparr>wd_snapshot := Some x\<rparr>"
      using io_write_cases [OF that] by auto
    then show ?thesis by blast
  qed
  moreover have "\<exists>m. d = d\<lparr>wd_snapshot := m\<rparr>"
    by (rule exI [of _ "wd_snapshot d"]) simp
  ultimately show ?thesis
    using run
    by (auto simp: record_pre_migration_snapshot_def Let_def
        split: sum.splits state_encoding.splits if_splits)
qed

text \<open>The pointer decides: before it moves nothing a load looks at has changed.\<close>

lemma publish_pointer_cases:
  assumes "publish_pointer_and_metadata env s d = (r, d')"
  shows "d' = d \<and> r \<noteq> Inr () \<or>
    (\<exists>m. m \<in> {wd_metadata d, metadata_from_state s} \<and> (r = Inr () \<longrightarrow> m = metadata_from_state s) \<and>
       d' = d\<lparr>wd_active := ws_generation s, wd_metadata := m\<rparr>)"
proof -
  obtain p d1 where ptr: "io_write env IO_Pointer (\<lambda>d. d\<lparr>wd_active := ws_generation s\<rparr>) d = (p, d1)"
    by fastforce
  obtain q d2 where meta: "io_write env IO_Metadata (\<lambda>d. d\<lparr>wd_metadata := metadata_from_state s\<rparr>) d1 = (q, d2)"
    by fastforce
  have keep: "d\<lparr>wd_active := a\<rparr> = d\<lparr>wd_active := a, wd_metadata := wd_metadata d\<rparr>" for a by simp
  show ?thesis
    using assms ptr meta keep [of "ws_generation s"] io_write_cases [OF ptr] io_write_cases [OF meta]
    by (auto simp: publish_pointer_and_metadata_def op_then_def split: sum.splits dest!: io_write_cases)
qed

lemma publish_cases:
  assumes "publish_staged_generation env expected s d = (r, d')"
  shows "keeps_active d d' \<and> r \<noteq> Inr () \<or>
    wd_active d' = ws_generation s \<and> wd_generations d' = wd_generations d \<and>
    wd_metadata d' \<in> {wd_metadata d, metadata_from_state s} \<and>
    (r = Inr () \<longrightarrow> wd_metadata d' = metadata_from_state s)"
proof -
  let ?check = "res_bind (active_generation env IO_ReadActiveAgain d) (\<lambda>active.
             if active \<noteq> expected then Inl (SE_ExpectedGenerationConflict active)
             else res_bind (ok_or (checked_add expected 1) SE_GenerationOverflow) (\<lambda>g.
               if ws_generation s \<noteq> g then Inl SE_GenerationConflict
               else map_sum SE_Domain id (wallet_validate s)))"
  show ?thesis
  proof (cases ?check)
    case (Inl e)
    then have "d' = d \<and> r = Inl e" using assms by (simp add: publish_staged_generation_def)
    then show ?thesis by simp
  next
    case (Inr u)
    obtain p d1 where snap: "record_pre_migration_snapshot env (ws_generation s) d = (p, d1)" by fastforce
    obtain m where d1: "d1 = d\<lparr>wd_snapshot := m\<rparr>" using snapshot_frame [OF snap] by blast
    have run: "op_then (record_pre_migration_snapshot env (ws_generation s))
        (\<lambda>_. publish_pointer_and_metadata env s) d = (r, d')"
      using assms Inr by (simp add: publish_staged_generation_def)
    show ?thesis
    proof (cases p)
      case (Inl e)
      then show ?thesis using run snap d1 by (auto simp: op_then_def keeps_active_def)
    next
      case (Inr v)
      then have "publish_pointer_and_metadata env s d1 = (r, d')"
        using run snap by (simp add: op_then_def)
      from publish_pointer_cases [OF this] show ?thesis
        using d1 by (auto simp: keeps_active_def)
    qed
  qed
qed

lemma load_checked_new:
  assumes law: "seal_opens env" and admit: "stage_admits d expected s s1"
    and old: "load_checked (quiet env) pw d = Inr (auth, st)"
    and seal: "se_seal env pw (state_context (ws_wallet_id s1) (ws_identity s1) (ws_generation s1)) enc s1
                 = Inr e"
    and new: "wd_active d' = ws_generation s1" "wd_generations d' (ws_generation s1) = Some (enc, e)"
      "wd_metadata d' \<in> {wd_metadata d, metadata_from_state s1}"
  shows "load_checked (quiet env) pw d' = Inr (auth, s1)"
proof -
  have ids: "ws_wallet_id s1 = wm_wallet_id (wd_metadata d)" "ws_identity s1 = wm_identity (wd_metadata d)"
    and valid: "wallet_validate s1 = Inr ()" and g: "checked_add expected 1 = Some (ws_generation s1)"
    and meta: "metadata_checked (wd_metadata d) = Inr (wd_metadata d)"
      "wm_active_generation (wd_metadata d) = expected"
  proof -
    have eq: "s1 = s\<lparr>ws_generation := ws_generation s1\<rparr>" using admit by (simp add: stage_admits_def)
    have "ws_wallet_id s1 = ws_wallet_id s" "ws_identity s1 = ws_identity s"
      using arg_cong [OF eq, of ws_wallet_id] arg_cong [OF eq, of ws_identity] by simp_all
    then show "ws_wallet_id s1 = wm_wallet_id (wd_metadata d)" "ws_identity s1 = wm_identity (wd_metadata d)"
      "wallet_validate s1 = Inr ()" "checked_add expected 1 = Some (ws_generation s1)"
      "metadata_checked (wd_metadata d) = Inr (wd_metadata d)"
      "wm_active_generation (wd_metadata d) = expected"
      using admit by (auto simp: stage_admits_def)
  qed
  have md: "metadata_checked (wd_metadata d') = Inr (wd_metadata d')"
    "wm_wallet_id (wd_metadata d') = ws_wallet_id s1" "wm_identity (wd_metadata d') = ws_identity s1"
    "wd_active d' \<noteq> wm_active_generation (wd_metadata d') \<Longrightarrow> interrupted_publication d'"
    using new(1,3) ids meta g
    by (auto simp: metadata_from_state_def metadata_checked_def interrupted_publication_def
        split: if_splits)
  have auth: "se_authenticate env pw (authentication_context (ws_wallet_id s1) (ws_identity s1)) = Inr auth"
    using old ids meta
    by (auto simp: load_checked_def location_metadata_def io_read_def quiet_def active_generation_def
        res_simps split: if_splits)
  have "se_open env pw (state_context (ws_wallet_id s1) (ws_identity s1) (ws_generation s1)) e = Inr s1"
    using law seal by (auto simp: seal_opens_def)
  then have "load_generation (quiet env) (ws_generation s1) pw (wd_metadata d') auth d' = Inr s1"
    using new(2) md(2,3) validated_migration [OF valid]
    by (simp add: load_generation_def quiet_def)
  then show ?thesis
    using md new(1) auth valid
    by (auto simp: load_checked_def location_metadata_def io_read_def active_generation_def quiet_def
        map_sum_def)
qed

lemma commit_old_or_new:
  assumes law: "seal_opens env" and old: "load_checked (quiet env) pw d = Inr (auth, st)"
    and run: "commit_with_encoding env expected s pw enc d = (r, d')"
  shows "(\<forall>s1. r \<noteq> Inr s1) \<and> load_checked (quiet env) pw d' = Inr (auth, st) \<or>
    (\<exists>s1. stage_admits d expected s s1 \<and> load_checked (quiet env) pw d' = Inr (auth, s1) \<and>
       (\<forall>s2. r = Inr s2 \<longrightarrow> s2 = s1 \<and> wm_active_generation (wd_metadata d') = ws_generation s1 \<and>
          wd_active d' = ws_generation s1))"
proof -
  obtain q d1 where stage: "stage_generation env expected s pw enc d = (q, d1)" by fastforce
  note k1 = stage_keeps [OF stage]
  show ?thesis
  proof (cases q)
    case (Inl e)
    then show ?thesis
      using run stage keeps_active_load [OF k1] old by (auto simp: commit_with_encoding_def op_then_def)
  next
    case (Inr s1)
    have st: "stage_generation env expected s pw enc d = (Inr s1, d1)" using stage Inr by simp
    note ok = stage_ok [OF st]
    obtain p d2 where pub: "publish_staged_generation env expected s1 d1 = (p, d2)" by fastforce
    have res: "d' = d2 \<and> r = (case p of Inl e \<Rightarrow> Inl e | Inr _ \<Rightarrow> Inr s1)"
      using run stage Inr pub by (auto simp: commit_with_encoding_def op_then_def split: sum.splits)
    from publish_cases [OF pub] consider
        (kept) "keeps_active d1 d2" "p \<noteq> Inr ()"
      | (moved) "wd_active d2 = ws_generation s1" "wd_generations d2 = wd_generations d1"
          "wd_metadata d2 \<in> {wd_metadata d1, metadata_from_state s1}"
          "p = Inr () \<longrightarrow> wd_metadata d2 = metadata_from_state s1"
      by blast
    then show ?thesis
    proof cases
      case kept
      then have "load_checked (quiet env) pw d' = Inr (auth, st)"
        using res keeps_active_load [OF keeps_active_trans [OF k1 kept(1)]] old by simp
      then show ?thesis using res kept(2) by (cases p) auto
    next
      case moved
      from ok(2) obtain e where seal: "se_seal env pw (state_context (ws_wallet_id s1) (ws_identity s1)
          (ws_generation s1)) enc s1 = Inr e" "wd_generations d1 (ws_generation s1) = Some (enc, e)" by blast
      have meta: "wd_metadata d2 \<in> {wd_metadata d, metadata_from_state s1}"
        using moved(3) k1 by (auto simp: keeps_active_def)
      have gens: "wd_generations d2 (ws_generation s1) = Some (enc, e)" using seal(2) moved(2) by simp
      have "load_checked (quiet env) pw d2 = Inr (auth, s1)"
        by (rule load_checked_new [OF law ok(1) old seal(1) moved(1) gens meta])
      then show ?thesis
        using ok(1) res moved(1,4) by (intro disjI2 exI [of _ s1]) (auto simp: metadata_from_state_def split: sum.splits)
    qed
  qed
qed

text \<open>A stale writer, or one of another wallet, changes nothing at all.\<close>

lemma commit_conflict:
  assumes "wd_active d \<noteq> expected" and "se_fault env = (\<lambda>_. NoFault)"
    and "metadata_checked (wd_metadata d) = Inr (wd_metadata d)"
  shows "commit_with_encoding env expected s pw enc d = (Inl (SE_ExpectedGenerationConflict (wd_active d)), d)"
  using assms
  by (simp add: commit_with_encoding_def op_then_def stage_generation_def location_metadata_def
      active_generation_def io_read_def)

lemma commit_admits:
  assumes "commit_with_encoding env expected s pw enc d = (Inr s1, d')"
  shows "stage_admits d expected s s1"
proof -
  obtain d1 where "stage_generation env expected s pw enc d = (Inr s1, d1)"
    using assms by (auto simp: commit_with_encoding_def res_simps)
  then show ?thesis by (rule stage_ok(1))
qed

subsection \<open>The contract of a durable store\<close>

lemma storage_load_checked:
  "storage_load env pw d = (Inr s, d') \<Longrightarrow> \<exists>authenticated. load_checked env pw d = Inr (authenticated, s)"
  by (auto simp: storage_load_def res_simps split: sum.splits prod.splits)

lemma load_checked_valid: "load_checked env pw d = Inr (authenticated, s) \<Longrightarrow> wallet_validate s = Inr ()"
  by (cases "wallet_validate s") (auto simp: load_checked_def res_simps split: if_splits)

text \<open>
  What the wallet service relies on: a commit that returns has published exactly the state it was
  given, as the next generation, and that state validates.
\<close>

record 'd store_ops =
  so_commit :: "string \<Rightarrow> u64 \<Rightarrow> wallet_state \<Rightarrow> ('d, storage_error, wallet_state) meth"
  so_metadata :: "'d \<Rightarrow> storage_error + wallet_metadata"
  so_load :: "string \<Rightarrow> ('d, storage_error, wallet_state) meth"

locale durable_store =
  fixes ops :: "'d store_ops"
  assumes commit_exact: "so_commit ops pw g s d = (Inr s', d') \<Longrightarrow>
      \<exists>g'. checked_add g 1 = Some g' \<and> s' = s\<lparr>ws_generation := g'\<rparr>"
    and commit_valid: "so_commit ops pw g s d = (Inr s', d') \<Longrightarrow> wallet_validate s' = Inr ()"
    and load_valid: "so_load ops pw d = (Inr s', d') \<Longrightarrow> wallet_validate s' = Inr ()"

definition directory_ops :: "'env storage_env \<Rightarrow> 'env wallet_directory store_ops" where
  "directory_ops env =
     \<lparr>so_commit = (\<lambda>pw g s. commit_with_encoding env g s pw CompactV2),
      so_metadata = location_metadata env, so_load = storage_load env\<rparr>"

interpretation directory: durable_store "directory_ops env" for env :: "'env storage_env"
proof
  fix pw g s d s' d'
  assume "so_commit (directory_ops env) pw g s d = (Inr s', d')"
  then have admit: "stage_admits d g s s'"
    by (auto simp: directory_ops_def intro: commit_admits)
  then have "s' = s\<lparr>ws_generation := ws_generation s'\<rparr>" "checked_add g 1 = Some (ws_generation s')"
    by (simp_all add: stage_admits_def)
  then show "\<exists>g'. checked_add g 1 = Some g' \<and> s' = s\<lparr>ws_generation := g'\<rparr>" by blast
  show "wallet_validate s' = Inr ()" using admit by (simp add: stage_admits_def)
next
  fix pw d s' d'
  assume "so_load (directory_ops env) pw d = (Inr s', d')"
  then show "wallet_validate s' = Inr ()" by (auto simp: directory_ops_def dest: storage_load_checked load_checked_valid)
qed

subsection \<open>Cleaning up\<close>

lemma io_write_no_fault: "se_fault env step = NoFault \<Longrightarrow> io_write env step effect d = (Inr (), effect d)"
  by (simp add: io_write_def)

lemma remove_generations_keep:
  assumes "for_each (\<lambda>g. io_write env (IO_RemoveGeneration g)
       (\<lambda>d. d\<lparr>wd_generations := (wd_generations d)(g := None)\<rparr>)) gs d = (r, d')"
  shows "wd_active d' = wd_active d \<and> wd_metadata d' = wd_metadata d \<and> wd_snapshot d' = wd_snapshot d \<and>
     (\<forall>g. g \<notin> set gs \<longrightarrow> wd_generations d' g = wd_generations d g) \<and>
     (\<forall>g. wd_generations d g = None \<longrightarrow> wd_generations d' g = None) \<and>
     (r = Inr () \<longrightarrow> (\<forall>g \<in> set gs. wd_generations d' g = None))"
  using assms
proof (induction gs arbitrary: d)
  case Nil
  then show ?case by auto
next
  case (Cons g gs)
  show ?case
  proof (cases "se_fault env (IO_RemoveGeneration g)")
    case NoFault
    then have "for_each (\<lambda>g. io_write env (IO_RemoveGeneration g)
        (\<lambda>d. d\<lparr>wd_generations := (wd_generations d)(g := None)\<rparr>)) gs
        (d\<lparr>wd_generations := (wd_generations d)(g := None)\<rparr>) = (r, d')"
      using Cons.prems NoFault by (simp add: io_write_no_fault fun_upd_def)
    from Cons.IH [OF this] show ?thesis by auto
  next
    case FailBefore
    then show ?thesis using Cons.prems by (auto simp: io_write_def)
  next
    case FailAfter
    then show ?thesis using Cons.prems by (auto simp: io_write_def)
  qed
qed

lemma predecessor_retained:
  fixes gs :: "u64 list"
  assumes "sorted gs" and "p \<in> set gs" and "p < a" and "\<forall>q \<in> set gs. q < a \<longrightarrow> q \<le> p"
  shows "set (take 1 (rev (filter (\<lambda>g. g < a) gs))) = {p}"
proof -
  have mem: "p \<in> set (filter (\<lambda>g. g < a) gs)" and sort: "sorted (filter (\<lambda>g. g < a) gs)"
    and small: "\<forall>q \<in> set (filter (\<lambda>g. g < a) gs). q \<le> p"
    using assms by (auto intro: sorted_wrt_filter)
  then show ?thesis
  proof (cases "filter (\<lambda>g. g < a) gs" rule: rev_exhaust)
    case (snoc ys y)
    with mem sort small show ?thesis by (auto simp: sorted_append intro: order_antisym)
  qed simp
qed

subsection \<open>Properties\<close>

definition sample_store :: "fault \<Rightarrow> wallet_state storage_env" where
  "sample_store f =
     \<lparr>se_seal = (\<lambda>pw ctx enc s. Inr s), se_open = (\<lambda>pw ctx e. Inr e), se_authenticate = (\<lambda>pw ctx. Inr True),
      se_fault = (\<lambda>step. if step = IO_Metadata then f else NoFault)\<rparr>"

definition sample_directory :: "wallet_state wallet_directory" where
  "sample_directory =
     \<lparr>wd_metadata = metadata_from_state sample_wallet, wd_active = 0,
      wd_generations = [0 \<mapsto> (CompactV2, sample_wallet)], wd_snapshot = None\<rparr>"

lemma sample_wallet_valid: "wallet_validate (sample_wallet\<lparr>ws_generation := g\<rparr>) = Inr ()"
  by (simp add: validate_defs sample_wallet_defs)

lemma sample_load: "load_checked (quiet (sample_store f)) pw sample_directory = Inr (True, sample_wallet)"
proof -
  have "sample_wallet\<lparr>ws_generation := 0\<rparr> = sample_wallet" by (simp add: sample_wallet_def wallet_new_def)
  then have "wallet_validate sample_wallet = Inr ()" using sample_wallet_valid [of 0] by simp
  moreover have "migrate_transaction_exposure sample_wallet = (Inr False, sample_wallet)"
    using validated_migration calculation by blast
  ultimately show ?thesis
    by (simp add: load_checked_def location_metadata_def io_read_def quiet_def sample_store_def
        metadata_checked_def sample_directory_def metadata_from_state_def active_generation_def
        interrupted_publication_def load_generation_def)
      (simp add: sample_wallet_def wallet_new_def checked_add_def)
qed

text \<open>
  C1: a commit is atomic under crashes. Whatever step of it fails, before or after taking effect,
  what loads afterwards is either exactly the old state or exactly the new one, validated, with the
  next generation number; if the commit reports success it is the new one, and pointer and metadata
  agree. The only assumption is that the envelope opens what it sealed.
\<close>

theorem commit_crash_atomic:
  assumes "seal_opens env" and "load_checked (quiet env) pw d = Inr (auth, old)"
    and "commit_with_encoding env expected s pw enc d = (r, d')"
  shows "\<exists>loaded. load_checked (quiet env) pw d' = Inr (auth, loaded) \<and>
    (loaded = old \<and> (\<exists>e. r = Inl e) \<or>
     loaded = s\<lparr>ws_generation := ws_generation loaded\<rparr> \<and> wallet_validate loaded = Inr () \<and>
     wd_active d = expected \<and> unat (ws_generation loaded) = unat expected + 1 \<and>
     (\<forall>s2. r = Inr s2 \<longrightarrow> s2 = loaded \<and> wd_active d' = ws_generation loaded \<and>
        wm_active_generation (wd_metadata d') = ws_generation loaded))"
  using commit_old_or_new [OF assms]
proof (elim disjE exE conjE)
  assume "\<forall>s1. r \<noteq> Inr s1" and load: "load_checked (quiet env) pw d' = Inr (auth, old)"
  then have "\<exists>e. r = Inl e" by (cases r) auto
  with load show ?thesis by auto
next
  fix s1
  assume admit: "stage_admits d expected s s1" and load: "load_checked (quiet env) pw d' = Inr (auth, s1)"
    and ok: "\<forall>s2. r = Inr s2 \<longrightarrow> s2 = s1 \<and> wm_active_generation (wd_metadata d') = ws_generation s1 \<and>
          wd_active d' = ws_generation s1"
  have "unat (ws_generation s1) = unat expected + 1"
    using admit by (auto simp: stage_admits_def dest!: checked_add_SomeD)
  then show ?thesis
    using admit load ok by (intro exI [of _ s1]) (auto simp: stage_admits_def)
qed

theorem commit_crash_atomic_witness:
  "\<exists>loaded. load_checked (quiet (sample_store FailBefore)) ''password''
       (snd (commit_with_encoding (sample_store FailBefore) 0 sample_wallet ''password'' CompactV2 sample_directory))
     = Inr (True, loaded) \<and> loaded \<in> {sample_wallet, sample_wallet\<lparr>ws_generation := 1\<rparr>}"
proof -
  let ?env = "sample_store FailBefore"
  have law: "seal_opens ?env" by (simp add: seal_opens_def sample_store_def)
  obtain r d' where run: "commit_with_encoding ?env 0 sample_wallet ''password'' CompactV2 sample_directory = (r, d')"
    by fastforce
  from commit_crash_atomic [OF law sample_load run] obtain loaded where
    load: "load_checked (quiet ?env) ''password'' d' = Inr (True, loaded)"
    and "loaded = sample_wallet \<or> loaded = sample_wallet\<lparr>ws_generation := ws_generation loaded\<rparr> \<and>
      unat (ws_generation loaded) = 1"
    by auto
  moreover have "ws_generation loaded = 1" if "unat (ws_generation loaded) = 1"
    using that by (simp add: word_unat_eq_iff)
  ultimately show ?thesis using run by auto
qed

text \<open>
  Cleaning up superseded generations never touches the active generation, the one before it,
  the generations the caller protects or the pre-migration snapshot, even when a removal fails half
  way; it leaves pointer and metadata alone, and when it succeeds every other listed generation is
  gone.
\<close>

theorem cleanup_retains:
  assumes "cleanup_superseded_generations env protected generations d = (r, d')" and "sorted generations"
  shows "wd_active d' = wd_active d \<and> wd_metadata d' = wd_metadata d \<and>
    wd_generations d' (wd_active d) = wd_generations d (wd_active d) \<and>
    (\<forall>g \<in> set protected. wd_generations d' g = wd_generations d g) \<and>
    (\<forall>g. pre_migration_snapshot_generation d = Some g \<longrightarrow> wd_generations d' g = wd_generations d g) \<and>
    (\<forall>p \<in> set generations. p < wd_active d \<longrightarrow> (\<forall>q \<in> set generations. q < wd_active d \<longrightarrow> q \<le> p) \<longrightarrow>
       wd_generations d' p = wd_generations d p) \<and>
    (r = Inr () \<longrightarrow> (\<forall>g \<in> set generations. g \<notin> retained_generations d protected generations \<longrightarrow>
       wd_generations d' g = None))"
proof -
  let ?gs = "filter (\<lambda>g. g \<notin> retained_generations d protected generations) generations"
  have ret: "wd_active d \<in> retained_generations d protected generations"
    "g \<in> set protected \<Longrightarrow> g \<in> retained_generations d protected generations"
    "pre_migration_snapshot_generation d = Some g \<Longrightarrow> g \<in> retained_generations d protected generations"
    "p \<in> set generations \<Longrightarrow> p < wd_active d \<Longrightarrow> \<forall>q \<in> set generations. q < wd_active d \<longrightarrow> q \<le> p \<Longrightarrow>
       p \<in> retained_generations d protected generations" for g p
    using predecessor_retained [OF assms(2), of p "wd_active d"] by (auto simp: retained_generations_def)
  consider "d' = d" "\<exists>e. r = Inl e" | "for_each (\<lambda>g. io_write env (IO_RemoveGeneration g)
       (\<lambda>d. d\<lparr>wd_generations := (wd_generations d)(g := None)\<rparr>)) ?gs d = (r, d')"
    using assms(1)
    by (auto simp: cleanup_superseded_generations_def active_generation_def io_read_def split: if_splits)
  then show ?thesis
  proof cases
    case 1
    then show ?thesis by auto
  next
    case 2
    note rem = remove_generations_keep [OF 2]
    have keep: "wd_generations d' g = wd_generations d g"
      if "g \<in> retained_generations d protected generations" for g
      using rem that by simp
    have gone: "r = Inr () \<longrightarrow> (\<forall>g \<in> set generations. g \<notin> retained_generations d protected generations \<longrightarrow>
       wd_generations d' g = None)"
      using rem by simp
    from rem have "wd_active d' = wd_active d \<and> wd_metadata d' = wd_metadata d" by simp
    with gone show ?thesis using keep ret by blast
  qed
qed

theorem cleanup_retains_witness:
  "wd_generations (snd (cleanup_superseded_generations (sample_store NoFault) [] [0, 1, 2]
      (sample_directory\<lparr>wd_active := 2, wd_generations := \<lambda>g. Some (CompactV2, sample_wallet)\<rparr>))) 1 =
   Some (CompactV2, sample_wallet)"
proof -
  let ?d = "sample_directory\<lparr>wd_active := 2, wd_generations := \<lambda>g. Some (CompactV2, sample_wallet)\<rparr>"
  obtain r d' where run: "cleanup_superseded_generations (sample_store NoFault) [] [0, 1, 2] ?d = (r, d')"
    by fastforce
  have "sorted [0, 1, 2 :: u64]" by (simp add: word_le_nat_alt)
  from cleanup_retains [OF run this] have "wd_generations d' 1 = wd_generations ?d 1"
    by (simp add: word_le_nat_alt word_less_nat_alt)
  then show ?thesis using run by simp
qed

text \<open>
  The associated data under which envelopes are sealed is unambiguous: for 32-byte chain and
  genesis identifiers, two state contexts agree only for the same wallet, chain, genesis and
  generation, and no context of one purpose (state, password check, rescan plan, backup) is ever
  one of another, so no envelope can be replayed for another generation, wallet, chain or purpose.
\<close>

theorem contexts_separate:
  assumes "length (ni_chain_id i) = 32" "length (ni_chain_id j) = 32"
    and "length (ni_genesis_id i) = 32" "length (ni_genesis_id j) = 32"
  shows "(state_context u i g = state_context v j h \<longleftrightarrow>
      u = v \<and> ni_chain_id i = ni_chain_id j \<and> ni_genesis_id i = ni_genesis_id j \<and> g = h) \<and>
    state_context u i g \<noteq> authentication_context v j \<and> state_context u i g \<noteq> rescan_context v j \<and>
    state_context u i g \<noteq> backup_context t v j \<and> authentication_context u i \<noteq> rescan_context v j \<and>
    authentication_context u i \<noteq> backup_context t v j \<and> rescan_context u i \<noteq> backup_context t v j"
  using assms
  by (auto simp: state_context_def authentication_context_def rescan_context_def backup_context_def
      ascii_def)

theorem contexts_separate_witness:
  "state_context 1 sample_identity 4 \<noteq> state_context 1 sample_identity 5"
  using contexts_separate [of sample_identity sample_identity 1 4 1 5]
  by (simp add: sample_identity_def zeros_def)

end
