(* ===== verification/Core_Service.thy ===== *)
theory Core_Service
  imports Storage Submission "HOL-Library.Sublist"
begin

text \<open>
  The wallet service (\<open>dom-wallet-core\<close>), as far as it works on the wallet state and the durable
  store: \<open>commit\<close>, and the swap sessions with their external-leg index. Every mutating operation
  clones the unlocked state, changes the clone and commits it; the unlocked state is replaced only
  by what the store returned. The store is the record \<open>store_ops\<close>, and what the service needs of it
  is the locale \<open>durable_store\<close>.
\<close>

datatype core_error =
    KE_WalletNotOpen | KE_Locked | KE_InvalidLifecycleState | KE_InvalidPassword
  | KE_RandomnessUnavailable | KE_RecoveryCeremonyRequired | KE_RecoveryPhraseAlreadyConfirmed
  | KE_RecoveryPhraseInvalid | KE_RecoveryUnavailable | KE_InvalidBackupDestination
  | KE_EmbeddedCoreRequired | KE_NodeNotReady | KE_IdentityMismatch | KE_AddressIdentityRequired
  | KE_InvalidTransactionInput | KE_TransactionExpired | KE_TransactionLifetimeExceeded
  | KE_InsufficientFunds | KE_UnsupportedSpendingEvidence | KE_FeeTooLow | KE_ArithmeticOverflow
  | KE_ReservationConflict | KE_InvalidScriptlessFundingRequest
  | KE_ScriptlessFundingSessionConflict | KE_ScriptlessFundingShapeMismatch
  | KE_ScriptlessFundingReservationNotFound | KE_ScriptlessFundingNotPrepared
  | KE_ScriptlessFundingCannotExport | KE_ScriptlessFundingSigningNotAuthorized
  | KE_ScriptlessFundingContextMismatch | KE_ScriptlessFundingCannotRelease
  | KE_ScriptlessSessionBindingRequired | KE_ScriptlessSessionBindingMismatch
  | KE_ScriptlessTemplateBindingMismatch | KE_InvalidScriptlessPayoutRequest
  | KE_ScriptlessPayoutSessionConflict | KE_ScriptlessPayoutReservationNotFound
  | KE_ScriptlessPayoutNotPrepared | KE_ScriptlessPayoutCannotExport
  | KE_ScriptlessPayoutContextMismatch | KE_ScriptlessPayoutSigningNotAuthorized
  | KE_ScriptlessPayoutCannotRelease | KE_InvalidSlateTransport | KE_SlateReplayConflict
  | KE_InvalidTransactionTransition | KE_MissingPrivateContext | KE_ProtocolRejected
  | KE_CoverPolicyRejected | KE_FinalizedTransactionConflict | KE_MixedOutputRegime
  | KE_CannotCancelTransaction | KE_ConfirmationRequired | KE_TransactionNotFound
  | KE_InvalidCoreCursor | KE_Storage storage_error | KE_Domain domain_error | KE_Backend bool
  | KE_Protocol | KE_Recovery | KE_Restore | KE_Submission wallet_submission_error | KE_Panic

text \<open>
  \<open>KE_Panic\<close> is not an error the code returns: it stands for a panic. The argument of \<open>KE_Backend\<close>
  is \<open>is_transient_sync_unavailability\<close>; the errors of the protocol, recovery and restore crates
  are carried without their payload.
\<close>

text \<open>The private half of a sender's offer, kept in memory for the finalization.\<close>

record recoverable_owned_output =
  ro_commitment :: bytes
  ro_value :: u64
  ro_blinding :: bytes

record recoverable_sender_parts =
  rsp_body :: bytes
  rsp_sidecars :: "bytes option \<times> bytes option"
  rsp_change :: "recoverable_owned_output option"
  rsp_excess_blinding :: bytes
  rsp_nonce :: bytes

record 'd wallet_service =
  sv_unlocked :: "wallet_state option"
  sv_location :: "'d option"
  sv_password :: "string option"
  sv_metadata :: "wallet_metadata option"
  sv_sender_secrets :: "(uuid \<times> recoverable_sender_parts) option"

type_synonym ('d, 'a) service_op = "('d wallet_service, core_error, 'a) meth"

definition ensure_phrase_confirmed :: "'d wallet_service \<Rightarrow> core_error + unit" where
  "ensure_phrase_confirmed sv =
     res_bind (ok_or (sv_unlocked sv) KE_Locked) (\<lambda>s.
       if (case ws_recovery s of None \<Rightarrow> False | Some recovery \<Rightarrow> rm_phrase_confirmed recovery)
       then Inr () else Inl KE_RecoveryCeremonyRequired)"

definition commit :: "'d store_ops \<Rightarrow> wallet_state \<Rightarrow> ('d, unit) service_op" where
  "commit ops s sv =
     (case (sv_unlocked sv, sv_location sv, sv_password sv) of
        (None, _, _) \<Rightarrow> (Inl KE_Locked, sv)
      | (Some cur, None, _) \<Rightarrow> (Inl KE_WalletNotOpen, sv)
      | (Some cur, Some d, None) \<Rightarrow> (Inl KE_Locked, sv)
      | (Some cur, Some d, Some pw) \<Rightarrow>
          (case so_commit ops pw (ws_generation cur) s d of
             (Inl e, d1) \<Rightarrow> (Inl (KE_Storage e), sv\<lparr>sv_location := Some d1\<rparr>)
           | (Inr committed, d1) \<Rightarrow>
               (case so_metadata ops d1 of
                  Inl e \<Rightarrow> (Inl (KE_Storage e), sv\<lparr>sv_location := Some d1\<rparr>)
                | Inr m \<Rightarrow>
                    (Inr (), sv\<lparr>sv_location := Some d1, sv_metadata := Some m,
                                 sv_unlocked := Some committed\<rparr>))))"

text \<open>Clone the unlocked state, change the clone, commit it.\<close>

definition with_clone ::
  "'d store_ops \<Rightarrow> (wallet_state \<Rightarrow> core_error + (wallet_state \<times> 'a)) \<Rightarrow> ('d, 'a) service_op" where
  "with_clone ops f sv =
     (case res_bind (ok_or (sv_unlocked sv) KE_Locked) f of
        Inl e \<Rightarrow> (Inl e, sv)
      | Inr (s, a) \<Rightarrow> op_then (commit ops s) (\<lambda>_ sv1. (Inr a, sv1)) sv)"

subsection \<open>Swap sessions\<close>

definition swap_sessions :: "'d wallet_service \<Rightarrow> core_error + swap_session_record list" where
  "swap_sessions sv = res_bind (ok_or (sv_unlocked sv) KE_Locked) (\<lambda>s. Inr (ws_swap_sessions s))"

definition swap_open_sessions :: "'d wallet_service \<Rightarrow> core_error + swap_session_record list" where
  "swap_open_sessions sv =
     res_bind (ok_or (sv_unlocked sv) KE_Locked) (\<lambda>s. Inr (filter is_open (ws_swap_sessions s)))"

definition swap_session :: "uuid \<Rightarrow> 'd wallet_service \<Rightarrow> core_error + swap_session_record" where
  "swap_session sid sv =
     res_bind (ok_or (sv_unlocked sv) KE_Locked) (\<lambda>s.
       ok_or (find (\<lambda>session. ss_id session = sid) (ws_swap_sessions s))
         (KE_Domain SwapSessionNotFound))"

definition draft_record :: "swap_session_record \<Rightarrow> swap_session_record" where
  "draft_record r =
     (let r1 = r\<lparr>ss_state := IntentDraft\<rparr>
      in if ss_state_history r1 = []
         then r1\<lparr>ss_state_history := [\<lparr>sst_state = IntentDraft, sst_at_unix = ss_created_unix r1\<rparr>]\<rparr>
         else r1)"

definition create_draft ::
  "swap_session_record \<Rightarrow> wallet_state \<Rightarrow> core_error + (wallet_state \<times> swap_session_record)" where
  "create_draft r s =
     (let r1 = draft_record r in
      if list_ex (\<lambda>session. ss_id session = ss_id r1) (ws_swap_sessions s)
      then Inl (KE_Domain InvalidState)
      else (let r2 = r1\<lparr>ss_leg_index := ws_next_swap_leg_index s\<rparr>
            in case checked_add (ws_next_swap_leg_index s) 1 of
                 None \<Rightarrow> Inl (KE_Domain InvalidState)
               | Some nxt \<Rightarrow>
                   if MAX_SWAP_LEG_INDEX < nxt then Inl (KE_Domain InvalidState)
                   else (case swap_session_validate r2 of
                           Inl e \<Rightarrow> Inl (KE_Domain e)
                         | Inr _ \<Rightarrow>
                             Inr (s\<lparr>ws_next_swap_leg_index := nxt,
                                    ws_swap_sessions := ws_swap_sessions s @ [r2]\<rparr>, r2))))"

definition swap_session_create_draft ::
  "'d store_ops \<Rightarrow> swap_session_record \<Rightarrow> ('d, swap_session_record) service_op" where
  "swap_session_create_draft ops r = with_clone ops (create_draft r)"

definition swap_used_leg_indices :: "'d wallet_service \<Rightarrow> core_error + u32 list" where
  "swap_used_leg_indices sv =
     res_bind (ok_or (sv_unlocked sv) KE_Locked) (\<lambda>s.
       Inr (remdups_adj (sort (map ss_leg_index (ws_swap_sessions s) @ [0]))))"

definition swap_leg_scan_bounds :: "'d wallet_service \<Rightarrow> core_error + (u32 \<times> u32)" where
  "swap_leg_scan_bounds sv =
     res_bind (ok_or (sv_unlocked sv) KE_Locked) (\<lambda>s.
       let nxt = ws_next_swap_leg_index s
       in Inr (nxt, min (saturating_add nxt SWAP_LEG_GAP_LIMIT) MAX_SWAP_LEG_INDEX))"

text \<open>Change the first session with the given identifier by a method of the record.\<close>

definition update_session ::
  "uuid \<Rightarrow> (swap_session_record \<Rightarrow> (core_error + unit) \<times> swap_session_record) \<Rightarrow>
     wallet_state \<Rightarrow> core_error + (wallet_state \<times> swap_session_record)" where
  "update_session sid m s =
     (case find (\<lambda>session. ss_id session = sid) (ws_swap_sessions s) of
        None \<Rightarrow> Inl (KE_Domain SwapSessionNotFound)
      | Some session \<Rightarrow>
          (case m session of
             (Inl e, _) \<Rightarrow> Inl e
           | (Inr _, updated) \<Rightarrow>
               Inr (s\<lparr>ws_swap_sessions := update_first (\<lambda>session. ss_id session = sid) (\<lambda>_. updated)
                        (ws_swap_sessions s)\<rparr>, updated)))"

definition domain_method ::
  "('s, domain_error, 'a) meth \<Rightarrow> ('s, core_error, 'a) meth" where
  "domain_method m s = (case m s of (r, s1) \<Rightarrow> (map_sum KE_Domain id r, s1))"

definition swap_session_transition ::
  "'d store_ops \<Rightarrow> uuid \<Rightarrow> swap_session_state \<Rightarrow> u64 \<Rightarrow> ('d, swap_session_record) service_op" where
  "swap_session_transition ops sid nxt now_unix =
     with_clone ops (update_session sid (domain_method (swap_transition nxt now_unix)))"

definition swap_session_accept_quote ::
  "'d store_ops \<Rightarrow> uuid \<Rightarrow> swap_accepted_quote \<Rightarrow> u64 \<Rightarrow> u64 \<Rightarrow> ('d, swap_session_record) service_op"
  where
  "swap_session_accept_quote ops sid quote fee_noms now_unix =
     with_clone ops (update_session sid (domain_method (accept_quote quote fee_noms now_unix)))"

text \<open>
  \<open>String::truncate\<close> panics when the new length is not a character boundary: byte 256 exists and is
  a continuation byte of UTF-8.
\<close>

definition utf8_continuation :: "char \<Rightarrow> bool" where
  "utf8_continuation c \<longleftrightarrow> 128 \<le> (of_char c :: nat) \<and> (of_char c :: nat) < 192"

definition note_error :: "string \<Rightarrow> u64 \<Rightarrow> swap_session_record \<Rightarrow> (core_error + unit) \<times> swap_session_record"
  where
  "note_error err now_unix r =
     (if 256 < length err \<and> utf8_continuation (err ! 256) then (Inl KE_Panic, r)
      else (Inr (), r\<lparr>ss_last_error := Some (take 256 err), ss_updated_unix := now_unix\<rparr>))"

definition swap_session_note_error ::
  "'d store_ops \<Rightarrow> uuid \<Rightarrow> string \<Rightarrow> u64 \<Rightarrow> ('d, swap_session_record) service_op" where
  "swap_session_note_error ops sid err now_unix = with_clone ops (update_session sid (note_error err now_unix))"

definition swap_session_cancel_free ::
  "'d store_ops \<Rightarrow> uuid \<Rightarrow> u64 \<Rightarrow> ('d, swap_session_record) service_op" where
  "swap_session_cancel_free ops sid now_unix = swap_session_transition ops sid SafelyAborted now_unix"

datatype swap_refund_gate =
    NothingLocked
  | AlreadyTerminal
  | NotYetUnlocked u64
  | RefundUnknown
  | Broadcastable

definition refund_gate :: "swap_session_record \<Rightarrow> u64 \<Rightarrow> swap_refund_gate" where
  "refund_gate session now_unix =
     (if is_terminal (ss_state session) then AlreadyTerminal
      else if free_cancellation (ss_state session) then NothingLocked
      else case ss_refund_unlock_unix session of
             None \<Rightarrow> RefundUnknown
           | Some unlock_unix \<Rightarrow>
               if now_unix < unlock_unix then NotYetUnlocked unlock_unix else Broadcastable)"

definition swap_manual_refund_gate ::
  "uuid \<Rightarrow> u64 \<Rightarrow> 'd wallet_service \<Rightarrow> core_error + swap_refund_gate" where
  "swap_manual_refund_gate sid now_unix sv =
     res_bind (swap_session sid sv) (\<lambda>session. Inr (refund_gate session now_unix))"

subsection \<open>The service over a durable store\<close>

text \<open>The operations on swap sessions, whatever they return.\<close>

inductive swap_service_step :: "'d store_ops \<Rightarrow> 'd wallet_service \<Rightarrow> 'd wallet_service \<Rightarrow> bool"
  for ops where
  sss_create: "swap_session_create_draft ops r sv = (q, sv') \<Longrightarrow> swap_service_step ops sv sv'"
| sss_transition: "swap_session_transition ops sid nxt now sv = (q, sv') \<Longrightarrow> swap_service_step ops sv sv'"
| sss_quote: "swap_session_accept_quote ops sid quote fee now sv = (q, sv') \<Longrightarrow>
     swap_service_step ops sv sv'"
| sss_note: "swap_session_note_error ops sid err now sv = (q, sv') \<Longrightarrow> swap_service_step ops sv sv'"
| sss_cancel: "swap_session_cancel_free ops sid now sv = (q, sv') \<Longrightarrow> swap_service_step ops sv sv'"

text \<open>
  The leg indices of the sessions go up in the order of creation and stay below the next index.
\<close>

definition leg_inv :: "wallet_state \<Rightarrow> bool" where
  "leg_inv s \<longleftrightarrow>
     sorted_wrt (<) (map ss_leg_index (ws_swap_sessions s)) \<and>
     (\<forall>session \<in> set (ws_swap_sessions s). ss_leg_index session < ws_next_swap_leg_index s)"

lemma leg_inv_generation [simp]: "leg_inv (s\<lparr>ws_generation := g\<rparr>) = leg_inv s"
  by (simp add: leg_inv_def)

lemma create_draft_ok:
  assumes "create_draft r s = Inr (s1, r2)"
  shows "ss_leg_index r2 = ws_next_swap_leg_index s" "ss_id r2 = ss_id r" "ss_state r2 = IntentDraft"
    "unat (ws_next_swap_leg_index s1) = Suc (unat (ws_next_swap_leg_index s))"
    "ws_next_swap_leg_index s1 \<le> MAX_SWAP_LEG_INDEX"
    "s1 = s\<lparr>ws_next_swap_leg_index := ws_next_swap_leg_index s1,
            ws_swap_sessions := ws_swap_sessions s @ [r2]\<rparr>"
    "\<forall>session \<in> set (ws_swap_sessions s). ss_id session \<noteq> ss_id r"
  using assms
  by (auto simp: create_draft_def draft_record_def Let_def list_ex_iff not_less
      split: if_splits option.splits sum.splits dest!: checked_add_SomeD)

lemma create_draft_leg_inv:
  assumes "create_draft r s = Inr (s1, r2)" and "leg_inv s"
  shows "leg_inv s1"
proof -
  note ok = create_draft_ok [OF assms(1)]
  have lt: "ws_next_swap_leg_index s < ws_next_swap_leg_index s1"
    using ok(4) by (simp add: word_less_nat_alt)
  have sess: "ws_swap_sessions s1 = ws_swap_sessions s @ [r2]" using arg_cong [OF ok(6), of ws_swap_sessions] by simp
  show ?thesis
    using assms(2) ok(1) lt
    by (auto simp: leg_inv_def sess sorted_wrt_append intro: less_trans)
qed

lemma update_session_ok:
  assumes "update_session sid m s = Inr (s1, updated)"
  shows "\<exists>session. find (\<lambda>session. ss_id session = sid) (ws_swap_sessions s) = Some session \<and>
     m session = (Inr (), updated) \<and>
     s1 = s\<lparr>ws_swap_sessions := update_first (\<lambda>session. ss_id session = sid) (\<lambda>_. updated)
              (ws_swap_sessions s)\<rparr>"
  using assms by (auto simp: update_session_def split: option.splits prod.splits sum.splits)

lemma map_update_first_found:
  "find P xs = Some x \<Longrightarrow> g y = g x \<Longrightarrow> map g (update_first P (\<lambda>_. y) xs) = map g xs"
  by (induction xs) (auto split: if_splits)

lemma update_session_leg_inv:
  assumes "update_session sid m s = Inr (s1, updated)" and "leg_inv s"
    and "\<And>session session'. m session = (Inr (), session') \<Longrightarrow> ss_leg_index session' = ss_leg_index session"
  shows "leg_inv s1"
proof -
  from update_session_ok [OF assms(1)] obtain session where
    f: "find (\<lambda>session. ss_id session = sid) (ws_swap_sessions s) = Some session"
    and m: "m session = (Inr (), updated)"
    and s1: "s1 = s\<lparr>ws_swap_sessions := update_first (\<lambda>session. ss_id session = sid) (\<lambda>_. updated)
              (ws_swap_sessions s)\<rparr>" by blast
  have legs: "map ss_leg_index (ws_swap_sessions s1) = map ss_leg_index (ws_swap_sessions s)"
    using map_update_first_found [OF f, of ss_leg_index updated] assms(3) [OF m] s1 by simp
  have "ss_leg_index ` set (ws_swap_sessions s1) = ss_leg_index ` set (ws_swap_sessions s)"
    using arg_cong [OF legs, of set] by simp
  then have "\<forall>x \<in> set (ws_swap_sessions s1). ss_leg_index x < ws_next_swap_leg_index s"
    using assms(2) unfolding leg_inv_def by (metis imageE imageI)
  then show ?thesis using assms(2) legs s1 by (simp add: leg_inv_def)
qed

lemma domain_method_Inr [res_simps]: "domain_method m s = (Inr a, s1) \<longleftrightarrow> m s = (Inr a, s1)"
  by (auto simp: domain_method_def map_sum_def split: prod.splits sum.splits)

text \<open>The identifiers and leg indices of the sessions, in the order of creation.\<close>

definition leg_assignments :: "wallet_state \<Rightarrow> (uuid \<times> u32) list" where
  "leg_assignments s = map (\<lambda>session. (ss_id session, ss_leg_index session)) (ws_swap_sessions s)"

lemma leg_assignments_generation [simp]: "leg_assignments (s\<lparr>ws_generation := g\<rparr>) = leg_assignments s"
  by (simp add: leg_assignments_def)

definition keeps_identity ::
  "(swap_session_record \<Rightarrow> (core_error + unit) \<times> swap_session_record) \<Rightarrow> bool" where
  "keeps_identity m \<longleftrightarrow> (\<forall>x x'. m x = (Inr (), x') \<longrightarrow>
     ss_id x' = ss_id x \<and> ss_leg_index x' = ss_leg_index x)"

lemma session_methods_keep_identity [intro]:
  "keeps_identity (domain_method (swap_transition nxt now))"
  "keeps_identity (domain_method (accept_quote quote fee now))"
  "keeps_identity (note_error err now)"
  by (auto simp: keeps_identity_def res_simps swap_transition_def accept_quote_def note_error_def
      split: if_splits)

lemma create_draft_assignments:
  "create_draft r s = Inr (s1, r2) \<Longrightarrow> \<exists>a. leg_assignments s1 = leg_assignments s @ [a]"
  using create_draft_ok(6) [of r s s1 r2, THEN arg_cong [where f = ws_swap_sessions]]
  by (simp add: leg_assignments_def)

lemma update_session_assignments:
  assumes "update_session sid m s = Inr (s1, updated)" and "keeps_identity m"
  shows "leg_assignments s1 = leg_assignments s"
proof -
  from update_session_ok [OF assms(1)] obtain session where
    f: "find (\<lambda>session. ss_id session = sid) (ws_swap_sessions s) = Some session"
    and m: "m session = (Inr (), updated)"
    and s1: "s1 = s\<lparr>ws_swap_sessions := update_first (\<lambda>session. ss_id session = sid) (\<lambda>_. updated)
              (ws_swap_sessions s)\<rparr>" by blast
  show ?thesis
    using map_update_first_found [OF f, of "\<lambda>x. (ss_id x, ss_leg_index x)" updated] assms(2) m s1
    by (simp add: keeps_identity_def leg_assignments_def)
qed

text \<open>
  What a swap operation does to the clone: either it creates a draft or it changes one session
  by a method that keeps identifier and leg index.
\<close>

definition swap_change :: "wallet_state \<Rightarrow> wallet_state \<Rightarrow> bool" where
  "swap_change s s1 \<longleftrightarrow>
     (\<exists>r r2. create_draft r s = Inr (s1, r2)) \<or>
     (\<exists>sid m updated. update_session sid m s = Inr (s1, updated) \<and> keeps_identity m)"

lemma swap_change_create: "create_draft r s = Inr (s1, r2) \<Longrightarrow> swap_change s s1"
  by (auto simp: swap_change_def)

lemma swap_change_update:
  "update_session sid m s = Inr (s1, updated) \<Longrightarrow> keeps_identity m \<Longrightarrow> swap_change s s1"
  unfolding swap_change_def by blast

lemma swap_change_leg_inv: "swap_change s s1 \<Longrightarrow> leg_inv s \<Longrightarrow> leg_inv s1"
  by (auto simp: swap_change_def keeps_identity_def intro: create_draft_leg_inv update_session_leg_inv)

lemma swap_change_prefix: "swap_change s s1 \<Longrightarrow> prefix (leg_assignments s) (leg_assignments s1)"
  by (auto simp: swap_change_def prefix_def dest: create_draft_assignments update_session_assignments)

context durable_store
begin

lemma commit_ok:
  assumes "commit ops s sv = (Inr (), sv')"
  shows "\<exists>cur g. sv_unlocked sv = Some cur \<and> checked_add (ws_generation cur) 1 = Some g \<and>
     sv_unlocked sv' = Some (s\<lparr>ws_generation := g\<rparr>) \<and> wallet_validate (s\<lparr>ws_generation := g\<rparr>) = Inr ()"
proof -
  from assms obtain cur d pw committed d1 where *: "sv_unlocked sv = Some cur"
    "so_commit ops pw (ws_generation cur) s d = (Inr committed, d1)" "sv_unlocked sv' = Some committed"
    by (auto simp: commit_def split: option.splits prod.splits sum.splits)
  then show ?thesis using commit_exact [OF *(2)] commit_valid [OF *(2)] by auto
qed

lemma commit_error: "commit ops s sv = (Inl e, sv') \<Longrightarrow> sv_unlocked sv' = sv_unlocked sv"
  by (auto simp: commit_def split: option.splits prod.splits sum.splits)

lemma with_clone_ok:
  assumes "with_clone ops f sv = (Inr a, sv')"
  shows "\<exists>s s1 g. sv_unlocked sv = Some s \<and> f s = Inr (s1, a) \<and>
     checked_add (ws_generation s) 1 = Some g \<and> sv_unlocked sv' = Some (s1\<lparr>ws_generation := g\<rparr>) \<and>
     wallet_validate (s1\<lparr>ws_generation := g\<rparr>) = Inr ()"
proof -
  from assms obtain s s1 where *: "sv_unlocked sv = Some s" "f s = Inr (s1, a)" "commit ops s1 sv = (Inr (), sv')"
    by (auto simp: with_clone_def ok_or_def res_simps split: option.splits sum.splits prod.splits)
  then show ?thesis using commit_ok [OF *(3)] by auto
qed

lemma with_clone_error:
  assumes "with_clone ops f sv = (Inl e, sv')"
  shows "sv_unlocked sv' = sv_unlocked sv"
  using assms commit_error
  by (auto simp: with_clone_def op_then_def split: option.splits sum.splits prod.splits)

lemma with_clone_invariant:
  assumes "with_clone ops f sv = (r, sv')"
    and "\<And>s s1 a. f s = Inr (s1, a) \<Longrightarrow> I s \<Longrightarrow> I s1" and "\<And>s g. I s \<Longrightarrow> I (s\<lparr>ws_generation := g\<rparr>)"
    and "\<And>s. sv_unlocked sv = Some s \<Longrightarrow> I s" and "sv_unlocked sv' = Some s'"
  shows "I s'"
proof (cases r)
  case (Inl e)
  then show ?thesis using with_clone_error [of f sv e sv'] assms(1,4,5) by simp
next
  case (Inr a)
  then show ?thesis using with_clone_ok [of f sv a sv'] assms by auto
qed

lemma swap_step_invariant:
  assumes "swap_service_step ops sv sv'" and "\<And>s. sv_unlocked sv = Some s \<Longrightarrow> I s"
    and "sv_unlocked sv' = Some s'"
    and change: "\<And>s s1. swap_change s s1 \<Longrightarrow> I s \<Longrightarrow> I s1"
    and gen: "\<And>s g. I s \<Longrightarrow> I (s\<lparr>ws_generation := g\<rparr>)"
  shows "I s'"
proof -
  have *: "I s'" if "with_clone ops f sv = (q, sv')" and "\<And>s s1 a. f s = Inr (s1, a) \<Longrightarrow> swap_change s s1"
    for f :: "wallet_state \<Rightarrow> core_error + wallet_state \<times> swap_session_record" and q
    by (rule with_clone_invariant [where I = I, OF that(1)]) (use assms(2,3) that(2) change gen in blast)+
  show ?thesis
    using assms(1)
    by cases (auto elim!: * simp: swap_session_create_draft_def swap_session_transition_def
        swap_session_accept_quote_def swap_session_note_error_def swap_session_cancel_free_def
        intro: swap_change_create swap_change_update)
qed

lemma swap_run_invariant:
  assumes "(swap_service_step ops)\<^sup>*\<^sup>* sv sv'" and "\<And>s. sv_unlocked sv = Some s \<Longrightarrow> I s"
    and "sv_unlocked sv' = Some s'"
    and change: "\<And>s s1. swap_change s s1 \<Longrightarrow> I s \<Longrightarrow> I s1"
    and gen: "\<And>s g. I s \<Longrightarrow> I (s\<lparr>ws_generation := g\<rparr>)"
  shows "I s'"
proof -
  have "\<forall>s. sv_unlocked sv' = Some s \<longrightarrow> I s"
    using assms(1)
  proof (induction rule: rtranclp_induct)
    case base
    then show ?case using assms(2) by blast
  next
    case (step y z)
    show ?case
    proof (intro allI impI)
      fix s
      assume z: "sv_unlocked z = Some s"
      show "I s"
        by (rule swap_step_invariant [where I = I, OF step.hyps(2) _ z]) (use step.IH change gen in blast)+
    qed
  qed
  then show ?thesis using assms(3) by blast
qed

end

subsection \<open>Properties\<close>

text \<open>A service with a state just loaded from a directory in memory, and a commit it accepts.\<close>

definition sample_service :: "wallet_state \<Rightarrow> wallet_state wallet_directory wallet_service" where
  "sample_service s =
     \<lparr>sv_unlocked = Some s,
      sv_location = Some \<lparr>wd_metadata = metadata_from_state s, wd_active = ws_generation s,
        wd_generations = [ws_generation s \<mapsto> (CompactV2, s)], wd_snapshot = None\<rparr>,
      sv_password = Some ''password'', sv_metadata = None, sv_sender_secrets = None\<rparr>"

lemma sample_commit:
  assumes "ws_generation s = 0" "ws_wallet_id s1 = ws_wallet_id s" "ws_identity s1 = ws_identity s"
    and "ws_schema_version s = MODEL_VERSION" "ws_secret_profile_version s = SECRET_PROFILE_VERSION"
    and "ws_schema_version s1 = MODEL_VERSION" "ws_secret_profile_version s1 = SECRET_PROFILE_VERSION"
    and "wallet_validate (s1\<lparr>ws_generation := 1\<rparr>) = Inr ()"
  shows "\<exists>d m. commit (directory_ops (sample_store NoFault)) s1 (sample_service s) =
    (Inr (), (sample_service s)\<lparr>sv_location := d, sv_metadata := m,
                                 sv_unlocked := Some (s1\<lparr>ws_generation := 1\<rparr>)\<rparr>)"
  using assms
  by (simp add: commit_def sample_service_def directory_ops_def commit_with_encoding_def op_then_def
      stage_generation_def location_metadata_def io_read_def sample_store_def metadata_checked_def
      metadata_from_state_def active_generation_def remove_unpublished_generation_def
      write_generation_def io_write_def publish_staged_generation_def
      record_pre_migration_snapshot_def generation_encoding_def publish_pointer_and_metadata_def
      checked_add_def)

text \<open>
  C27: an external-leg index is assigned once and for good. Along any run of the swap operations of
  the service, with failed commits anywhere in between, the assignment of leg indices to sessions
  is only ever extended, the indices of all sessions are pairwise different, and the next index
  lies above all of them.
\<close>

theorem leg_indices_never_reused:
  assumes "(swap_service_step (directory_ops env))\<^sup>*\<^sup>* sv sv'"
    and "sv_unlocked sv = Some s" and "leg_inv s" and "sv_unlocked sv' = Some s'"
  shows "prefix (leg_assignments s) (leg_assignments s') \<and>
    distinct (map ss_leg_index (ws_swap_sessions s')) \<and>
    (\<forall>session \<in> set (ws_swap_sessions s'). ss_leg_index session < ws_next_swap_leg_index s')"
proof -
  have "leg_inv s'"
    by (rule directory.swap_run_invariant [OF assms(1) _ assms(4), where I = leg_inv])
      (use assms(2,3) in \<open>auto intro: swap_change_leg_inv\<close>)
  moreover have "prefix (leg_assignments s) (leg_assignments s')"
    by (rule directory.swap_run_invariant [OF assms(1) _ assms(4),
          where I = "\<lambda>t. prefix (leg_assignments s) (leg_assignments t)"])
      (use assms(2) in \<open>auto intro: swap_change_prefix prefix_order.trans\<close>)
  ultimately show ?thesis by (auto simp: leg_inv_def strict_sorted_iff)
qed

theorem leg_indices_never_reused_witness:
  "\<exists>sv'. (swap_service_step (directory_ops (sample_store NoFault)))\<^sup>*\<^sup>* (sample_service sample_wallet) sv' \<and>
     (\<exists>s'. sv_unlocked sv' = Some s' \<and> leg_assignments s' = [(1, 0)] \<and>
        distinct (map ss_leg_index (ws_swap_sessions s')) \<and> 0 < ws_next_swap_leg_index s')"
proof -
  let ?r = "sample_session IntentDraft [IntentDraft] None 0"
  let ?s = "sample_wallet\<lparr>ws_next_swap_leg_index := 1, ws_swap_sessions := [?r]\<rparr>"
  have draft: "create_draft ?r sample_wallet = Inr (?s, ?r)"
    by (simp add: create_draft_def draft_record_def sample_session_defs sample_wallet_defs checked_add_def
        swap_session_validate_def MAX_SWAP_LEG_INDEX_def bounded_def Let_def)
  have valid: "wallet_validate (?s\<lparr>ws_generation := 1\<rparr>) = Inr ()"
    by (simp add: validate_defs sample_wallet_defs sample_session_def swap_session_validate_def bounded_def)
  have "\<exists>d m. commit (directory_ops (sample_store NoFault)) ?s (sample_service sample_wallet) =
    (Inr (), (sample_service sample_wallet)\<lparr>sv_location := d, sv_metadata := m,
        sv_unlocked := Some (?s\<lparr>ws_generation := 1\<rparr>)\<rparr>)"
    by (rule sample_commit [OF _ _ _ _ _ _ _ valid])
      (simp_all add: sample_wallet_def wallet_new_def)
  then obtain sv' where run: "swap_session_create_draft (directory_ops (sample_store NoFault)) ?r
      (sample_service sample_wallet) = (Inr ?r, sv')"
    and s': "sv_unlocked sv' = Some (?s\<lparr>ws_generation := 1\<rparr>)"
    using draft
    by (auto simp: swap_session_create_draft_def with_clone_def op_then_def sample_service_def)
  have path: "(swap_service_step (directory_ops (sample_store NoFault)))\<^sup>*\<^sup>* (sample_service sample_wallet) sv'"
    using sss_create [OF run] by blast
  have "leg_inv sample_wallet" by (simp add: leg_inv_def sample_wallet_defs)
  from leg_indices_never_reused [OF path _ this s'] path s' show ?thesis
    by (auto simp: sample_service_def leg_assignments_def sample_session_def)
qed

end
