(* ===== verification/Core_Tx.thy ===== *)
theory Core_Tx
  imports Core_Service "HOL-Library.Product_Lexorder" "HOL-Library.List_Lexorder"
    "HOL-Library.Option_ord"
begin

text \<open>
  Ordinary transactions in the wallet service (\<open>dom-wallet-core\<close>): the checks on passwords, expiry
  and identity, input selection and reservation, submission with its persist-before-act commit,
  reconciliation, manual cancellation and the automatic cancellation of expired negotiations.
  The embedded node, the fee policy and the transaction codec are parameters.
\<close>

subsection \<open>Checks\<close>

definition MAX_TRANSACTION_LIFETIME_BLOCKS :: u64 where "MAX_TRANSACTION_LIFETIME_BLOCKS = 1440"

definition validate_password :: "string \<Rightarrow> core_error + unit" where
  "validate_password password =
     (if 8 \<le> length password \<and> length password \<le> 1024 then Inr () else Inl KE_InvalidPassword)"

definition validate_transaction_expiry :: "u64 \<Rightarrow> u64 \<Rightarrow> core_error + unit" where
  "validate_transaction_expiry expires_at_height canonical_tip_height =
     (if expires_at_height \<le> canonical_tip_height then Inl KE_TransactionExpired
      else case checked_add canonical_tip_height MAX_TRANSACTION_LIFETIME_BLOCKS of
             None \<Rightarrow> Inl KE_ArithmeticOverflow
           | Some maximum \<Rightarrow>
               if maximum < expires_at_height then Inl KE_TransactionLifetimeExceeded else Inr ())"

fun map_network :: "core_network \<Rightarrow> network" where
  "map_network CN_Mainnet = Mainnet"
| "map_network CN_Testnet = PublicTestnet"
| "map_network CN_Regtest = PrivateTestnet"

definition require_domain_identity :: "network_identity \<Rightarrow> core_chain_identity \<Rightarrow> core_error + unit" where
  "require_domain_identity expected core =
     (if ni_network expected \<noteq> map_network (cci_network core)
       \<or> ni_chain_id expected \<noteq> cci_chain_id core
       \<or> ni_genesis_id expected \<noteq> cci_genesis_hash core
      then Inl KE_IdentityMismatch else Inr ())"

subsection \<open>Finding transactions\<close>

definition find_transaction_index ::
  "wallet_state \<Rightarrow> uuid \<Rightarrow> transaction_role \<Rightarrow> core_error + nat" where
  "find_transaction_index s slate_id role =
     ok_or (position (\<lambda>t. tx_slate_id t = Some slate_id \<and> tx_role t = Some role) (ws_transactions s))
       KE_TransactionNotFound"

definition uuid_from_protocol_id :: "bytes \<Rightarrow> uuid" where
  "uuid_from_protocol_id bs = foldl (\<lambda>acc b. push_bit 8 acc + ucast b) 0 (take 16 bs)"

definition state_transaction_id :: "wallet_state option \<Rightarrow> nat \<Rightarrow> core_error + uuid" where
  "state_transaction_id s index =
     (case s of
        Some st \<Rightarrow> if index < length (ws_transactions st) then Inr (tx_id (ws_transactions st ! index))
                   else Inl KE_TransactionNotFound
      | None \<Rightarrow> Inl KE_TransactionNotFound)"

definition put_transaction :: "nat \<Rightarrow> local_transaction_intent \<Rightarrow> wallet_state \<Rightarrow> wallet_state" where
  "put_transaction i t s = s\<lparr>ws_transactions := (ws_transactions s)[i := t]\<rparr>"

subsection \<open>Summaries\<close>

record tx_summary =
  sm_id :: uuid
  sm_slate_id :: "uuid option"
  sm_created_at_height :: "u64 option"
  sm_created_at_unix_seconds :: "u64 option"
  sm_role :: "string option"
  sm_state :: string
  sm_amount :: u64
  sm_fee :: u64
  sm_kernel_excess :: "string option"
  sm_transaction_hash :: "string option"
  sm_attempt_count :: u32
  sm_expires_at_height :: u64
  sm_has_finalized_transaction :: bool
  sm_manual_cancel_allowed :: bool
  sm_manual_cancel_warning :: bool
  sm_awaiting_broadcast_confirmation :: bool
  sm_cancellation_reason :: "string option"
  sm_cancelled_at_height :: "u64 option"

fun transaction_state_name :: "tx_lifecycle \<Rightarrow> string" where
  "transaction_state_name L_Draft = ''DRAFT''"
| "transaction_state_name L_InputsReserved = ''INPUTS_RESERVED''"
| "transaction_state_name L_RequestExported = ''REQUEST_EXPORTED''"
| "transaction_state_name L_RequestImported = ''REQUEST_IMPORTED''"
| "transaction_state_name L_ResponsePrepared = ''RESPONSE_PREPARED''"
| "transaction_state_name L_ResponseExported = ''RESPONSE_EXPORTED''"
| "transaction_state_name L_ResponseImported = ''RESPONSE_IMPORTED''"
| "transaction_state_name L_Finalized = ''FINALIZED''"
| "transaction_state_name L_Submitting = ''SUBMITTING''"
| "transaction_state_name L_Submitted = ''SUBMITTED''"
| "transaction_state_name L_AcceptedNotRelayed = ''ACCEPTED_NOT_RELAYED''"
| "transaction_state_name L_InMempool = ''IN_MEMPOOL''"
| "transaction_state_name (L_Confirmed _ _) = ''CONFIRMED''"
| "transaction_state_name L_Reorged = ''REORGED''"
| "transaction_state_name L_RetransmitRequired = ''RETRANSMIT_REQUIRED''"
| "transaction_state_name L_Cancelled = ''CANCELLED''"
| "transaction_state_name L_Failed = ''FAILED''"
| "transaction_state_name L_ReconciliationRequired = ''RECONCILIATION_REQUIRED''"

fun role_name :: "transaction_role \<Rightarrow> string" where
  "role_name Sender = ''SENDER''"
| "role_name Recipient = ''RECIPIENT''"

fun cancellation_reason_name :: "cancellation_reason \<Rightarrow> string" where
  "cancellation_reason_name Manual = ''MANUAL''"
| "cancellation_reason_name ExpiredBeforeFinalization = ''EXPIRED_BEFORE_FINALIZATION''"

text \<open>The argument \<open>hex\<close> is \<open>hex::encode\<close>.\<close>

definition transaction_summary_from :: "(bytes \<Rightarrow> string) \<Rightarrow> local_transaction_intent \<Rightarrow> tx_summary"
  where
  "transaction_summary_from hex t =
     (let settled = tx_lifecycle t = L_Cancelled \<or> is_confirmed (tx_lifecycle t);
          finalized = tx_finalized_transaction_bytes t \<noteq> [];
          never = tx_exposure t = NeverBroadcast in
     \<lparr>sm_id = tx_id t, sm_slate_id = tx_slate_id t,
      sm_created_at_height = (if tx_created_at_height t \<noteq> 0 then Some (tx_created_at_height t) else None),
      sm_created_at_unix_seconds =
        (if tx_created_at_unix_seconds t \<noteq> 0 then Some (tx_created_at_unix_seconds t) else None),
      sm_role = map_option role_name (tx_role t),
      sm_state = transaction_state_name (tx_lifecycle t),
      sm_amount = tx_amount t, sm_fee = tx_fee t,
      sm_kernel_excess = (if length (tx_kernel_excess t) = 33 then Some (hex (tx_kernel_excess t)) else None),
      sm_transaction_hash = map_option hex (tx_transaction_hash t),
      sm_attempt_count = tx_attempt_count t,
      sm_expires_at_height = tx_expires_at_height t,
      sm_has_finalized_transaction = finalized,
      sm_manual_cancel_allowed = (never \<and> \<not> settled \<and>
        tx_lifecycle t \<notin> {L_Submitting, L_Submitted, L_AcceptedNotRelayed, L_InMempool, L_Reorged,
                            L_RetransmitRequired, L_ReconciliationRequired}),
      sm_manual_cancel_warning = (finalized \<and> never \<and> \<not> settled),
      sm_awaiting_broadcast_confirmation = (finalized \<and> \<not> settled),
      sm_cancellation_reason = map_option cancellation_reason_name (tx_cancellation_reason t),
      sm_cancelled_at_height = tx_cancelled_at_height t\<rparr>)"

definition transaction_summary :: "(bytes \<Rightarrow> string) \<Rightarrow> uuid \<Rightarrow> ('d, tx_summary) service_op" where
  "transaction_summary hex tid sv =
     (res_bind (ok_or (sv_unlocked sv) KE_Locked) (\<lambda>s.
        ok_or (map_option (transaction_summary_from hex) (find (\<lambda>t. tx_id t = tid) (ws_transactions s)))
          KE_TransactionNotFound), sv)"

subsection \<open>Selecting and reserving inputs\<close>

definition spendable :: "wallet_state \<Rightarrow> output_record \<Rightarrow> bool" where
  "spendable s out \<longleftrightarrow>
     or_state out = Confirmed \<and> or_reserved_by out = None \<and> or_commitment out \<noteq> None \<and>
     output_blinding s (or_id out) \<noteq> None"

text \<open>By value, then commitment, then identifier; all three compare as Rust's derived orders do.\<close>

definition spendable_outputs :: "wallet_state \<Rightarrow> output_record list" where
  "spendable_outputs s =
     sort_key (\<lambda>out. (or_value out, or_commitment out, or_id out)) (filter (spendable s) (ws_outputs s))"

fun select_inputs ::
  "(nat \<Rightarrow> core_error + u64) \<Rightarrow> u64 option \<Rightarrow> u64 \<Rightarrow> output_record list \<Rightarrow> output_record list \<Rightarrow> u64 \<Rightarrow>
     u64 \<Rightarrow> core_error + (output_record list \<times> u64 \<times> u64)" where
  "select_inputs minimum_fee requested amount [] selected acc fee = Inr (selected, acc, fee)"
| "select_inputs minimum_fee requested amount (out # outs) selected acc fee =
     (let selected1 = selected @ [out] in
      if 2 ^ 32 \<le> length selected1 then Inl KE_ArithmeticOverflow
      else res_bind (minimum_fee (length selected1)) (\<lambda>minimum.
        let fee1 = (case requested of None \<Rightarrow> minimum | Some f \<Rightarrow> f) in
        if fee1 < minimum then Inl KE_FeeTooLow
        else res_bind (ok_or (checked_add acc (or_value out)) KE_ArithmeticOverflow) (\<lambda>acc1.
             res_bind (ok_or (checked_add amount fee1) KE_ArithmeticOverflow) (\<lambda>needed.
               if needed \<le> acc1 then Inr (selected1, acc1, fee1)
               else select_inputs minimum_fee requested amount outs selected1 acc1 fee1))))"

definition reserve_output :: "uuid list \<Rightarrow> uuid \<Rightarrow> (output_record, core_error, unit) meth" where
  "reserve_output oids tid out =
     (if or_id out \<in> set oids
      then if or_reserved_by out \<noteq> None then (Inl KE_ReservationConflict, out)
           else (Inr (), out\<lparr>or_reserved_by := Some tid, or_state := PendingOutgoing\<rparr>)
      else (Inr (), out))"

definition new_intent ::
  "uuid \<Rightarrow> uuid \<Rightarrow> u64 \<Rightarrow> u64 \<Rightarrow> u64 \<Rightarrow> u64 \<Rightarrow> uuid list \<Rightarrow> u64 \<Rightarrow> local_transaction_intent" where
  "new_intent tid slate_id tip_height now_unix amount fee oids expires_at_height =
     \<lparr>tx_id = tid, tx_created_at_height = tip_height, tx_created_at_unix_seconds = now_unix,
      tx_cancellation_reason = None, tx_cancelled_at_height = None, tx_kernel_excess = [],
      tx_lifecycle = L_InputsReserved, tx_submitted = False, tx_exposure = NeverBroadcast,
      tx_slate_id = Some slate_id, tx_role = Some Sender, tx_amount = amount, tx_fee = fee,
      tx_reserved_output_ids = oids, tx_request_bytes = [], tx_response_bytes = [],
      tx_finalized_transaction_bytes = [], tx_transaction_hash = None, tx_attempt_count = 0,
      tx_private_context = None, tx_recipient_output_id = None, tx_change_output_id = None,
      tx_expires_at_height = expires_at_height\<rparr>"

record send_plan =
  pl_selected :: "output_record list"
  pl_total :: u64
  pl_fee :: u64
  pl_change_value :: u64
  pl_coordinate :: reserved_recovery_coordinate

text \<open>What the operating system hands the handler: identifiers, protocol identifiers and the clock.\<close>

record send_entropy =
  en_transaction_id :: uuid
  en_slate_id :: "bytes option"
  en_replay_id :: "bytes option"
  en_change_output_id :: uuid
  en_now_unix :: u64

text \<open>
  What \<open>transaction_send_create_with_identities\<close> does to the clone before its first commit: select,
  burn a change coordinate, reserve, draw the identifiers, record the intent.
\<close>

definition send_create ::
  "(nat \<Rightarrow> core_error + u64) \<Rightarrow> u64 option \<Rightarrow> u64 \<Rightarrow> u64 \<Rightarrow> send_entropy \<Rightarrow> u64 \<Rightarrow>
     wallet_state \<Rightarrow> core_error + (wallet_state \<times> (send_plan \<times> bytes \<times> bytes))" where
  "send_create minimum_fee requested amount expires_at_height ent tip_height s =
     res_bind (select_inputs minimum_fee requested amount (spendable_outputs s) [] 0 0)
       (\<lambda>(selected, acc, fee).
     res_bind (ok_or (checked_add amount fee) KE_ArithmeticOverflow) (\<lambda>required.
       if acc < required then Inl KE_InsufficientFunds
       else case reserve_recovery_coordinate 0 Change s of
         (Inl e, _) \<Rightarrow> Inl (KE_Domain e)
       | (Inr coordinate, s1) \<Rightarrow>
           (case iter_mut_try (reserve_output (map or_id selected) (en_transaction_id ent)) (ws_outputs s1) of
              (Inl e, _) \<Rightarrow> Inl e
            | (Inr _, outs) \<Rightarrow>
                res_bind (ok_or (en_slate_id ent) KE_RandomnessUnavailable) (\<lambda>slate_id.
                res_bind (ok_or (en_replay_id ent) KE_RandomnessUnavailable) (\<lambda>replay_id.
                Inr (s1\<lparr>ws_outputs := outs,
                        ws_transactions := ws_transactions s1 @
                          [new_intent (en_transaction_id ent) (uuid_from_protocol_id slate_id) tip_height
                             (en_now_unix ent) amount fee (map or_id selected) expires_at_height]\<rparr>,
                     \<lparr>pl_selected = selected, pl_total = acc, pl_fee = fee,
                      pl_change_value = acc - required, pl_coordinate = coordinate\<rparr>,
                     slate_id, replay_id))))))"

text \<open>
  The embedded node and the slate builder as the handler uses them: the current identity, the
  minimum fee for a number of inputs (two outputs, one kernel), the output builder for the seed, the
  sender offer, the interaction addresses derived from a body, and the canonical envelope.
\<close>

record ('b, 'addr) slate_ops =
  sl_current_identity :: "core_error + core_chain_identity"
  sl_minimum_fee :: "nat \<Rightarrow> core_error + u64"
  sl_output_builder :: "bytes \<Rightarrow> core_error + 'b"
  sl_sender_offer ::
    "'b \<Rightarrow> (bytes \<times> bytes) list \<Rightarrow> u64 \<Rightarrow> u64 \<Rightarrow> u64 \<Rightarrow> u64 \<Rightarrow> reserved_recovery_coordinate \<Rightarrow>
       core_error + recoverable_sender_parts"
  sl_automatic_addresses :: "bytes \<Rightarrow> core_error + ('addr \<times> 'addr)"
  sl_envelope ::
    "core_chain_identity \<Rightarrow> bytes \<Rightarrow> bytes \<Rightarrow> u64 \<Rightarrow> 'addr \<Rightarrow> 'addr \<Rightarrow> bytes \<Rightarrow> core_error + bytes"

fun slate_input :: "wallet_state \<Rightarrow> output_record \<Rightarrow> core_error + (bytes \<times> bytes)" where
  "slate_input s out =
     res_bind (ok_or (or_commitment out) KE_UnsupportedSpendingEvidence) (\<lambda>commitment.
     res_bind (ok_or (output_blinding s (or_id out)) KE_UnsupportedSpendingEvidence) (\<lambda>blinding.
       Inr (commitment, blinding)))"

fun slate_inputs :: "wallet_state \<Rightarrow> output_record list \<Rightarrow> core_error + (bytes \<times> bytes) list" where
  "slate_inputs s [] = Inr []"
| "slate_inputs s (out # outs) =
     res_bind (slate_input s out) (\<lambda>i. res_bind (slate_inputs s outs) (\<lambda>is. Inr (i # is)))"

definition build_offer ::
  "('b, 'addr) slate_ops \<Rightarrow> core_chain_identity \<Rightarrow> 'addr option \<Rightarrow> 'addr option \<Rightarrow> bytes \<Rightarrow> bytes \<Rightarrow>
     u64 \<Rightarrow> u64 \<Rightarrow> u64 \<Rightarrow> send_plan \<Rightarrow> wallet_state \<Rightarrow> core_error + (recoverable_sender_parts \<times> bytes)" where
  "build_offer ops identity sender receiver slate_id replay_id amount lock_height expires_at_height plan s =
     res_bind (sl_output_builder ops (ws_root_material s)) (\<lambda>builder.
     res_bind (slate_inputs s (pl_selected plan)) (\<lambda>inputs.
     res_bind (sl_sender_offer ops builder inputs (pl_change_value plan) amount (pl_fee plan) lock_height
                 (pl_coordinate plan)) (\<lambda>parts.
     res_bind (case (sender, receiver) of
                 (Some a, Some b) \<Rightarrow> Inr (a, b)
               | (None, None) \<Rightarrow> sl_automatic_addresses ops (rsp_body parts)
               | _ \<Rightarrow> Inl KE_AddressIdentityRequired) (\<lambda>(a, b).
     res_bind (sl_envelope ops identity slate_id replay_id expires_at_height a b (rsp_body parts))
       (\<lambda>envelope. Inr (parts, envelope))))))"

definition attach_offer ::
  "uuid \<Rightarrow> uuid \<Rightarrow> recoverable_sender_parts \<Rightarrow> bytes \<Rightarrow> wallet_state \<Rightarrow> core_error + (wallet_state \<times> unit)" where
  "attach_offer public_slate_id change_id parts envelope s =
     res_bind (find_transaction_index s public_slate_id Sender) (\<lambda>index.
       let s1 = (case rsp_change parts of
                   None \<Rightarrow> s
                 | Some change \<Rightarrow>
                     put_transaction index ((ws_transactions s ! index)\<lparr>tx_change_output_id := Some change_id\<rparr>)
                       (remember_output_blinding change_id (ro_blinding change)
                         (s\<lparr>ws_outputs := ws_outputs s @
                            [\<lparr>or_id = change_id, or_account_id = acc_id (ws_default_account s),
                              or_commitment = Some (ro_commitment change), or_value = ro_value change,
                              or_state = PendingIncoming, or_discovered_height = 0,
                              or_reserved_by = None\<rparr>]\<rparr>)));
           tx = (ws_transactions s1 ! index)\<lparr>
             tx_private_context := Some \<lparr>ptc_sender_excess_blinding = Some (rsp_excess_blinding parts),
               ptc_sender_nonce = Some (rsp_nonce parts), ptc_recipient_output_blinding = None\<rparr>,
             tx_request_bytes := envelope\<rparr>
       in Inr (put_transaction index tx s1, ()))"

text \<open>The checks before anything is selected; they yield the node and its identity snapshot.\<close>

definition send_guards ::
  "('b, 'addr) slate_ops option \<Rightarrow> u64 \<Rightarrow> u64 \<Rightarrow> 'd wallet_service \<Rightarrow>
     core_error + (('b, 'addr) slate_ops \<times> core_chain_identity)" where
  "send_guards backend lock_height expires_at_height sv =
     res_bind (ensure_phrase_confirmed sv) (\<lambda>_.
     res_bind (ok_or backend KE_EmbeddedCoreRequired) (\<lambda>bk.
     res_bind (sl_current_identity bk) (\<lambda>identity.
       if cbr_height (cci_current_tip identity) < lock_height then Inl KE_CoverPolicyRejected
       else res_bind (validate_transaction_expiry expires_at_height
                        (cbr_height (cci_current_tip identity))) (\<lambda>_. Inr (bk, identity)))))"

text \<open>
  The whole handler. The first commit makes the coordinate and the reservations durable before the
  offer is built; the second attaches the offer.
\<close>

definition transaction_send_create ::
  "(bytes \<Rightarrow> string) \<Rightarrow> 'd store_ops \<Rightarrow> ('b, 'addr) slate_ops option \<Rightarrow> send_entropy \<Rightarrow> u64 \<Rightarrow> u64 option \<Rightarrow>
     'addr option \<Rightarrow> 'addr option \<Rightarrow> u64 \<Rightarrow> u64 \<Rightarrow> ('d, tx_summary) service_op" where
  "transaction_send_create hex ops backend ent amount requested_fee sender receiver lock_height
       expires_at_height sv =
     (if amount = 0 then (Inl KE_InvalidTransactionInput, sv)
      else case send_guards backend lock_height expires_at_height sv of
        Inl e \<Rightarrow> (Inl e, sv)
      | Inr (bk, identity) \<Rightarrow>
          op_then (with_clone ops (send_create (sl_minimum_fee bk) requested_fee amount expires_at_height
                     ent (cbr_height (cci_current_tip identity)))) (\<lambda>(plan, slate_id, replay_id) sv1.
            let public_slate_id = uuid_from_protocol_id slate_id in
            case res_bind (ok_or (sv_unlocked sv1) KE_Locked) (build_offer bk identity sender receiver
                   slate_id replay_id amount lock_height expires_at_height plan) of
              Inl e \<Rightarrow> (Inl e, sv1)
            | Inr (parts, envelope) \<Rightarrow>
                op_then (with_clone ops (attach_offer public_slate_id (en_change_output_id ent) parts envelope))
                  (\<lambda>_ sv2. transaction_summary hex (en_transaction_id ent)
                     (sv2\<lparr>sv_sender_secrets := Some (public_slate_id, parts)\<rparr>)) sv1) sv)"

subsection \<open>Submission\<close>

fun outcome_transition ::
  "wallet_submission_outcome \<Rightarrow> bool \<times> tx_lifecycle \<times> transition_evidence" where
  "outcome_transition (Accepted ev) =
     (True, if wse_relayed ev then L_Submitted else L_AcceptedNotRelayed, E_SubmissionOutcome)"
| "outcome_transition (AlreadyKnown ev) = (True, L_InMempool, E_MempoolObservation)"
| "outcome_transition (NodeNotReady ev) = (False, L_RetransmitRequired, E_SubmissionOutcome)"
| "outcome_transition (TemporaryFailure ev) = (False, L_RetransmitRequired, E_SubmissionOutcome)"
| "outcome_transition (InternalFailure ev) = (False, L_RetransmitRequired, E_SubmissionOutcome)"
| "outcome_transition (RejectedInvalid ev) = (False, L_Failed, E_SubmissionOutcome)"
| "outcome_transition (RejectedFee ev) = (False, L_Failed, E_SubmissionOutcome)"
| "outcome_transition (RejectedDoubleSpend ev) = (False, L_Failed, E_SubmissionOutcome)"
| "outcome_transition (RejectedImmatureCoinbase ev) = (False, L_Failed, E_SubmissionOutcome)"
| "outcome_transition (RejectedExpired ev) = (False, L_Failed, E_SubmissionOutcome)"
| "outcome_transition (RejectedPolicy ev) = (False, L_Failed, E_SubmissionOutcome)"

definition apply_submission_outcome ::
  "wallet_submission_outcome \<Rightarrow> (local_transaction_intent, core_error, unit) meth" where
  "apply_submission_outcome outcome t =
     (case outcome_transition outcome of
        (submitted, lifecycle, ev) \<Rightarrow>
          domain_method (tx_transition lifecycle ev) (if submitted then t\<lparr>tx_submitted := True\<rparr> else t))"

definition submitted_transition ::
  "tx_lifecycle \<Rightarrow> transition_evidence \<Rightarrow> (local_transaction_intent, core_error, unit) meth" where
  "submitted_transition lifecycle ev t = domain_method (tx_transition lifecycle ev) (t\<lparr>tx_submitted := True\<rparr>)"

definition apply_submission_query ::
  "wallet_submission_query \<Rightarrow> wallet_transaction_status option \<Rightarrow>
     (local_transaction_intent, core_error, unit) meth" where
  "apply_submission_query query status t =
     (case query of
        Q_InMempool outcome \<Rightarrow>
          op_then (apply_submission_outcome outcome)
            (\<lambda>_. submitted_transition L_InMempool E_MempoolObservation) t
      | Q_Confirmed height block_hash _ \<Rightarrow>
          submitted_transition (L_Confirmed height block_hash) E_ConfirmationEvidence t
      | Q_Rejected outcome \<Rightarrow> apply_submission_outcome outcome t
      | Q_TemporarilyUnavailable outcome \<Rightarrow> apply_submission_outcome outcome t
      | Q_Unknown \<Rightarrow>
          (case status of
             Some (WS_Confirmed height block_hash) \<Rightarrow>
               submitted_transition (L_Confirmed height block_hash) E_ConfirmationEvidence t
           | Some WS_InMempool \<Rightarrow> submitted_transition L_InMempool E_MempoolObservation t
           | _ \<Rightarrow>
               if status = Some WS_Unknown \<and> is_confirmed (tx_lifecycle t)
               then domain_method (tx_transition L_Reorged E_ReorgEvidence) t
               else domain_method (tx_transition L_ReconciliationRequired E_ReconciliationEvidence) t))"

record ('w, 'tx) backend_ops =
  bk_submit :: "'tx canonical_submission \<Rightarrow> ('w, core_error, wallet_submission_outcome) meth"
  bk_rebroadcast ::
    "wallet_transaction_identifier \<Rightarrow> ('w, core_error, wallet_submission_outcome) meth"
  bk_query :: "wallet_transaction_identifier \<Rightarrow> ('w, core_error, wallet_submission_query) meth"
  bk_status :: "wallet_transaction_identifier \<Rightarrow> ('w, core_error, wallet_transaction_status) meth"

text \<open>The first half of a submission: everything that is committed before the node is contacted.\<close>

definition start_submission ::
  "(bytes \<Rightarrow> 'tx option) \<Rightarrow> uuid \<Rightarrow> bool \<Rightarrow> wallet_state \<Rightarrow>
     core_error + (wallet_state \<times> bytes \<times> 'tx canonical_submission)" where
  "start_submission from_bytes slate_id retry s =
     res_bind (find_transaction_index s slate_id Sender) (\<lambda>index.
     let tx = ws_transactions s ! index in
     if tx_lifecycle tx \<noteq> L_Finalized
        \<and> \<not> (retry \<and> tx_lifecycle tx \<in> {L_Submitting, L_RetransmitRequired})
     then Inl KE_InvalidTransactionTransition
     else res_bind (ok_or (from_bytes (tx_finalized_transaction_bytes tx)) KE_ProtocolRejected) (\<lambda>transaction.
     res_bind (ok_or (tx_transaction_hash tx) KE_ProtocolRejected) (\<lambda>hash.
     let excess = (if length (tx_kernel_excess tx) = 33 then Some (tx_kernel_excess tx) else None) in
     case canonical_submission_new transaction hash excess of
       Inl e \<Rightarrow> Inl (KE_Submission e)
     | Inr submission \<Rightarrow>
         (case tx_transition L_Submitting E_SubmissionStarted tx of
            (Inl e, _) \<Rightarrow> Inl (KE_Domain e)
          | (Inr _, tx1) \<Rightarrow>
              res_bind (ok_or (checked_add (tx_attempt_count tx1) 1) KE_ArithmeticOverflow) (\<lambda>attempts.
                Inr (put_transaction index (tx1\<lparr>tx_attempt_count := attempts\<rparr>) s, hash, submission))))))"

definition record_outcome ::
  "uuid \<Rightarrow> wallet_submission_outcome \<Rightarrow> wallet_state \<Rightarrow> core_error + (wallet_state \<times> uuid)" where
  "record_outcome slate_id outcome s =
     res_bind (find_transaction_index s slate_id Sender) (\<lambda>index.
       case apply_submission_outcome outcome (ws_transactions s ! index) of
         (Inl e, _) \<Rightarrow> Inl e
       | (Inr _, t) \<Rightarrow> Inr (put_transaction index t s, tx_id t))"

definition submit_transaction ::
  "(bytes \<Rightarrow> string) \<Rightarrow> 'd store_ops \<Rightarrow> ('w, 'tx) backend_ops option \<Rightarrow> (bytes \<Rightarrow> 'tx option) \<Rightarrow> uuid \<Rightarrow> bool \<Rightarrow>
     ('d wallet_service \<times> 'w, core_error, tx_summary) meth" where
  "submit_transaction hex ops backend from_bytes slate_id retry x =
     (case ensure_phrase_confirmed (fst x) of
        Inl e \<Rightarrow> (Inl e, x)
      | Inr _ \<Rightarrow>
          op_then (on_fst (with_clone ops (start_submission from_bytes slate_id retry)))
            (\<lambda>(hash, submission).
               op_then (case backend of
                          None \<Rightarrow> (\<lambda>y. (Inl KE_EmbeddedCoreRequired, y))
                        | Some bk \<Rightarrow>
                            on_snd (if retry then bk_rebroadcast bk (WTI_TransactionHash hash)
                                        else bk_submit bk submission))
                 (\<lambda>outcome. on_fst (op_then (with_clone ops (record_outcome slate_id outcome))
                    (transaction_summary hex)))) x)"

definition transaction_reconcile_submission ::
  "(bytes \<Rightarrow> string) \<Rightarrow> 'd store_ops \<Rightarrow> ('w, 'tx) backend_ops option \<Rightarrow> uuid \<Rightarrow>
     ('d wallet_service \<times> 'w, core_error, tx_summary) meth" where
  "transaction_reconcile_submission hex ops backend slate_id x =
     (case backend of
        None \<Rightarrow> (Inl KE_EmbeddedCoreRequired, x)
      | Some bk \<Rightarrow>
          (case res_bind (ok_or (sv_unlocked (fst x)) KE_Locked) (\<lambda>s.
                  res_bind (find_transaction_index s slate_id Sender) (\<lambda>index.
                  res_bind (ok_or (tx_transaction_hash (ws_transactions s ! index)) KE_ProtocolRejected)
                    (\<lambda>hash. Inr (if length (tx_kernel_excess (ws_transactions s ! index)) = 33
                                  then WTI_KernelExcess (tx_kernel_excess (ws_transactions s ! index))
                                  else WTI_TransactionHash hash)))) of
             Inl e \<Rightarrow> (Inl e, x)
           | Inr identifier \<Rightarrow>
               op_then (on_snd (bk_query bk identifier)) (\<lambda>query.
               op_then (if query = Q_Unknown
                        then op_then (on_snd (bk_status bk identifier)) (\<lambda>status y. (Inr (Some status), y))
                        else (\<lambda>y. (Inr None, y))) (\<lambda>status.
                 on_fst (op_then (with_clone ops (\<lambda>s.
                   res_bind (find_transaction_index s slate_id Sender) (\<lambda>index.
                     case apply_submission_query query status (ws_transactions s ! index) of
                       (Inl e, _) \<Rightarrow> Inl e
                     | (Inr _, t) \<Rightarrow> Inr (put_transaction index t s, tx_id t))))
                   (transaction_summary hex)))) x))"

definition transaction_submit ::
  "(bytes \<Rightarrow> string) \<Rightarrow> 'd store_ops \<Rightarrow> ('w, 'tx) backend_ops option \<Rightarrow> (bytes \<Rightarrow> 'tx option) \<Rightarrow> uuid \<Rightarrow>
     ('d wallet_service \<times> 'w, core_error, tx_summary) meth" where
  "transaction_submit hex ops backend from_bytes slate_id =
     submit_transaction hex ops backend from_bytes slate_id False"

definition transaction_retry_submission ::
  "(bytes \<Rightarrow> string) \<Rightarrow> 'd store_ops \<Rightarrow> ('w, 'tx) backend_ops option \<Rightarrow> (bytes \<Rightarrow> 'tx option) \<Rightarrow> uuid \<Rightarrow>
     ('d wallet_service \<times> 'w, core_error, tx_summary) meth" where
  "transaction_retry_submission hex ops backend from_bytes slate_id =
     submit_transaction hex ops backend from_bytes slate_id True"

subsection \<open>Cancellation\<close>

text \<open>Releasing a reservation, with or without a look at who holds it.\<close>

definition release_output :: "(output_record \<Rightarrow> bool) \<Rightarrow> output_record \<Rightarrow> output_record" where
  "release_output mine out =
     (if mine out
      then out\<lparr>or_reserved_by := None,
               or_state := (if or_state out = PendingOutgoing then Confirmed else or_state out)\<rparr>
      else out)"

definition cancel_manually :: "nat \<Rightarrow> wallet_state \<Rightarrow> core_error + (wallet_state \<times> uuid)" where
  "cancel_manually index s =
     (let tx = ws_transactions s ! index;
          outs = map (release_output (\<lambda>out. or_id out \<in> set (tx_reserved_output_ids tx))) (ws_outputs s)
      in case tx_transition L_Cancelled E_Cancellation tx of
           (Inl e, _) \<Rightarrow> Inl (KE_Domain e)
         | (Inr _, tx1) \<Rightarrow>
             Inr (put_transaction index
                    (tx1\<lparr>tx_cancellation_reason := Some Manual, tx_cancelled_at_height := None\<rparr>)
                    (s\<lparr>ws_outputs := outs\<rparr>), tx_id tx1))"

definition transaction_cancel ::
  "(bytes \<Rightarrow> string) \<Rightarrow> 'd store_ops \<Rightarrow> uuid \<Rightarrow> bool \<Rightarrow> ('d, tx_summary) service_op" where
  "transaction_cancel hex ops slate_id confirm_exported sv =
     (case res_bind (ok_or (sv_unlocked sv) KE_Locked) (\<lambda>s.
             res_bind (ok_or (position (\<lambda>t. tx_slate_id t = Some slate_id) (ws_transactions s))
                         KE_TransactionNotFound) (\<lambda>index. Inr (s, index))) of
        Inl e \<Rightarrow> (Inl e, sv)
      | Inr (s, index) \<Rightarrow>
          (let tx = ws_transactions s ! index in
           case cancellation_decision (tx_exposure tx) of
             DenyPossiblyBroadcast \<Rightarrow> (Inl KE_CannotCancelTransaction, sv)
           | RequireReconciliation \<Rightarrow>
               if tx_lifecycle tx \<noteq> L_ReconciliationRequired
               then (case tx_transition L_ReconciliationRequired E_ReconciliationEvidence tx of
                       (Inl e, _) \<Rightarrow> (Inl (KE_Domain e), sv)
                     | (Inr _, tx1) \<Rightarrow>
                         op_then (commit ops (put_transaction index tx1 s))
                           (\<lambda>_ sv1. (Inl KE_CannotCancelTransaction, sv1)) sv)
               else (Inl KE_CannotCancelTransaction, sv)
           | ReleaseNeverBroadcastReservations \<Rightarrow>
               if (tx_lifecycle tx \<in> {L_RequestExported, L_ResponseExported}
                   \<or> tx_finalized_transaction_bytes tx \<noteq> []) \<and> \<not> confirm_exported
               then (Inl KE_ConfirmationRequired, sv)
               else op_then (with_clone ops (cancel_manually index)) (transaction_summary hex) sv))"

definition expiring :: "u64 \<Rightarrow> local_transaction_intent \<Rightarrow> bool" where
  "expiring canonical_tip_height t \<longleftrightarrow>
     tx_role t = Some Sender \<and> tx_reserved_output_ids t \<noteq> [] \<and>
     tx_finalized_transaction_bytes t = [] \<and> tx_expires_at_height t \<noteq> 0 \<and>
     tx_expires_at_height t \<le> canonical_tip_height \<and> tx_exposure t = NeverBroadcast \<and>
     tx_lifecycle t \<notin> {L_Cancelled, L_Submitting, L_Submitted, L_AcceptedNotRelayed, L_InMempool,
                         L_Reorged, L_RetransmitRequired, L_ReconciliationRequired} \<and>
     \<not> is_confirmed (tx_lifecycle t)"

definition cancel_expired_one :: "u64 \<Rightarrow> nat \<Rightarrow> uuid wallet_op" where
  "cancel_expired_one canonical_tip_height index s =
     (let tx = ws_transactions s ! index;
          s1 = s\<lparr>ws_outputs := map (release_output (\<lambda>out. or_id out \<in> set (tx_reserved_output_ids tx)
                   \<and> or_reserved_by out = Some (tx_id tx))) (ws_outputs s)\<rparr>
      in case tx_transition L_Cancelled E_Cancellation tx of
           (Inl e, tx1) \<Rightarrow> (Inl e, put_transaction index tx1 s1)
         | (Inr _, tx1) \<Rightarrow>
             (Inr (tx_id tx), put_transaction index
                (tx1\<lparr>tx_cancellation_reason := Some ExpiredBeforeFinalization,
                     tx_cancelled_at_height := Some canonical_tip_height\<rparr>) s1))"

fun cancel_expired_loop :: "u64 \<Rightarrow> nat list \<Rightarrow> uuid list \<Rightarrow> uuid list wallet_op" where
  "cancel_expired_loop tip [] cancelled s = (Inr cancelled, s)"
| "cancel_expired_loop tip (i # is) cancelled s =
     op_then (cancel_expired_one tip i) (\<lambda>tid. cancel_expired_loop tip is (cancelled @ [tid])) s"

definition cancel_expired_unfinalized_reservations :: "u64 \<Rightarrow> uuid list wallet_op" where
  "cancel_expired_unfinalized_reservations canonical_tip_height s =
     cancel_expired_loop canonical_tip_height
       (positions (expiring canonical_tip_height) (ws_transactions s)) [] s"

subsection \<open>What a send reserves\<close>

definition total_value :: "output_record list \<Rightarrow> nat" where
  "total_value outs = sum_list (map (\<lambda>out. unat (or_value out)) outs)"

lemma total_value_snoc [simp]: "total_value (outs @ [out]) = total_value outs + unat (or_value out)"
  by (simp add: total_value_def)

lemma select_inputs_ok:
  "select_inputs minimum_fee requested amount outs sel acc fee = Inr (sel', acc', fee') \<Longrightarrow>
   unat acc = total_value sel \<Longrightarrow>
     (\<exists>k. sel' = sel @ take k outs) \<and> unat acc' = total_value sel'"
proof (induction outs arbitrary: sel acc fee)
  case Nil
  then show ?case by auto
next
  case (Cons out outs)
  have "\<exists>acc1. checked_add acc (or_value out) = Some acc1 \<and>
     (sel' = sel @ [out] \<and> acc' = acc1 \<or>
      (\<exists>fee1. select_inputs minimum_fee requested amount outs (sel @ [out]) acc1 fee1 = Inr (sel', acc', fee')))"
    using Cons.prems(1) by (auto simp: Let_def res_simps ok_or_Inr split: if_splits)
  then obtain acc1 where acc1: "checked_add acc (or_value out) = Some acc1"
    and rest: "sel' = sel @ [out] \<and> acc' = acc1 \<or>
      (\<exists>fee1. select_inputs minimum_fee requested amount outs (sel @ [out]) acc1 fee1 = Inr (sel', acc', fee'))"
    by blast
  have un: "unat acc1 = total_value (sel @ [out])"
    using checked_add_SomeD [OF acc1] Cons.prems(2) by simp
  from rest show ?case
  proof
    assume "sel' = sel @ [out] \<and> acc' = acc1"
    then show ?thesis using un by (auto intro: exI [of _ 1])
  next
    assume "\<exists>fee1. select_inputs minimum_fee requested amount outs (sel @ [out]) acc1 fee1 = Inr (sel', acc', fee')"
    then obtain k where "sel' = (sel @ [out]) @ take k outs" "unat acc' = total_value sel'"
      using Cons.IH [of "sel @ [out]" acc1] un by blast
    then show ?thesis by (auto intro: exI [of _ "Suc k"])
  qed
qed

lemma spendable_outputs_set: "set (spendable_outputs s) = {out \<in> set (ws_outputs s). spendable s out}"
  by (simp add: spendable_outputs_def)

definition reserve_for :: "uuid list \<Rightarrow> uuid \<Rightarrow> output_record \<Rightarrow> output_record" where
  "reserve_for oids tid out =
     (if or_id out \<in> set oids then out\<lparr>or_reserved_by := Some tid, or_state := PendingOutgoing\<rparr> else out)"

lemma reserve_all_ok:
  assumes "iter_mut_try (reserve_output oids tid) outs = (Inr u, outs')"
  shows "outs' = map (reserve_for oids tid) outs \<and>
     (\<forall>out \<in> set outs. or_id out \<in> set oids \<longrightarrow> or_reserved_by out = None)"
proof -
  have *: "outs' = map (\<lambda>x. snd (reserve_output oids tid x)) outs"
    "\<forall>x \<in> set outs. \<exists>v. fst (reserve_output oids tid x) = Inr v"
    using iter_mut_try_Inr_map [OF assms] by auto
  have "snd (reserve_output oids tid x) = reserve_for oids tid x \<and>
      (or_id x \<in> set oids \<longrightarrow> or_reserved_by x = None)" if "x \<in> set outs" for x
    using *(2) that by (fastforce simp: reserve_output_def reserve_for_def split: if_splits)
  then show ?thesis using *(1) by auto
qed

lemma send_create_ok:
  assumes "send_create minimum_fee requested amount expires ent tip s = Inr (s', plan, slate, replay)"
  shows "(\<exists>k. pl_selected plan = take k (spendable_outputs s))"
    and "unat amount + unat (pl_fee plan) + unat (pl_change_value plan) = total_value (pl_selected plan)"
    and "ws_outputs s' = map (reserve_for (map or_id (pl_selected plan)) (en_transaction_id ent)) (ws_outputs s)"
    and "ws_transactions s' = ws_transactions s @ [new_intent (en_transaction_id ent) (uuid_from_protocol_id slate) tip (en_now_unix ent) amount (pl_fee plan)
           (map or_id (pl_selected plan)) expires]"
    and "reserve_recovery_coordinate 0 Change s = (Inr (pl_coordinate plan),
           s\<lparr>ws_recovery_allocation_floors := ws_recovery_allocation_floors s',
             ws_non_reuse_floor := ws_non_reuse_floor s'\<rparr>)"
    and "ws_private_output_blindings s' = ws_private_output_blindings s"
    and "\<forall>out \<in> set (ws_outputs s). or_id out \<in> or_id ` set (pl_selected plan) \<longrightarrow> or_reserved_by out = None"
proof -
  obtain sel acc fee where
    sel: "select_inputs minimum_fee requested amount (spendable_outputs s) [] 0 0 = Inr (sel, acc, fee)"
    using assms by (auto simp: send_create_def res_simps)
  obtain required where req1: "checked_add amount fee = Some required"
    using assms sel by (auto simp: send_create_def res_simps ok_or_Inr)
  have req2: "required \<le> acc"
    using assms sel req1 by (auto simp: send_create_def not_less split: if_splits)
  note req = req1 req2
  obtain r s1 where reserve: "reserve_recovery_coordinate 0 Change s = (r, s1)" by fastforce
  then obtain rc where "r = Inr rc"
    using assms sel req by (cases r) (auto simp: send_create_def not_less [symmetric])
  with reserve have rc: "reserve_recovery_coordinate 0 Change s = (Inr rc, s1)" by simp
  obtain q outs where marked: "iter_mut_try (reserve_output (map or_id sel) (en_transaction_id ent)) (ws_outputs s1) = (q, outs)"
    by fastforce
  then have "q = Inr ()"
    using assms sel req rc by (cases q) (auto simp: send_create_def not_less [symmetric])
  with marked have outs: "iter_mut_try (reserve_output (map or_id sel) (en_transaction_id ent)) (ws_outputs s1) = (Inr (), outs)"
    by simp
  have res: "s' = s1\<lparr>ws_outputs := outs, ws_transactions := ws_transactions s1 @
        [new_intent (en_transaction_id ent) (uuid_from_protocol_id slate) tip (en_now_unix ent) amount fee (map or_id sel) expires]\<rparr>"
      "plan = \<lparr>pl_selected = sel, pl_total = acc, pl_fee = fee, pl_change_value = acc - required,
         pl_coordinate = rc\<rparr>"
    using assms sel req rc outs by (auto simp: send_create_def res_simps not_less [symmetric])
  have s1: "s1 = s\<lparr>ws_recovery_allocation_floors := ws_recovery_allocation_floors s1,
      ws_non_reuse_floor := ws_non_reuse_floor s1\<rparr>"
    using rc by (auto simp: reserve_recovery_coordinate_def split: option.splits)
  have frame: "ws_outputs s1 = ws_outputs s" "ws_transactions s1 = ws_transactions s"
    "ws_private_output_blindings s1 = ws_private_output_blindings s"
    using arg_cong [OF s1, of ws_outputs] arg_cong [OF s1, of ws_transactions]
      arg_cong [OF s1, of ws_private_output_blindings] by simp_all
  have t: "(\<exists>k. sel = take k (spendable_outputs s))" "unat acc = total_value sel"
    using select_inputs_ok [OF sel] by (auto simp: total_value_def)
  note ro = reserve_all_ok [OF outs]
  show "\<exists>k. pl_selected plan = take k (spendable_outputs s)" using t(1) res by simp
  have "unat (acc - required) = unat acc - unat required"
    using req(2) by (simp add: unat_sub)
  then show "unat amount + unat (pl_fee plan) + unat (pl_change_value plan) = total_value (pl_selected plan)"
    using checked_add_SomeD [OF req(1)] req(2) t(2) res by (simp add: word_le_nat_alt)
  show "ws_outputs s' = map (reserve_for (map or_id (pl_selected plan)) (en_transaction_id ent)) (ws_outputs s)"
    "ws_transactions s' = ws_transactions s @ [new_intent (en_transaction_id ent) (uuid_from_protocol_id slate) tip (en_now_unix ent) amount (pl_fee plan)
           (map or_id (pl_selected plan)) expires]"
    "ws_private_output_blindings s' = ws_private_output_blindings s"
    "\<forall>out \<in> set (ws_outputs s). or_id out \<in> or_id ` set (pl_selected plan) \<longrightarrow> or_reserved_by out = None"
    using ro frame res by auto
  show "reserve_recovery_coordinate 0 Change s = (Inr (pl_coordinate plan),
           s\<lparr>ws_recovery_allocation_floors := ws_recovery_allocation_floors s',
             ws_non_reuse_floor := ws_non_reuse_floor s'\<rparr>)"
    using rc res s1 by simp
qed

subsection \<open>Automatic cancellation\<close>

definition expired :: "u64 \<Rightarrow> local_transaction_intent \<Rightarrow> local_transaction_intent" where
  "expired tip t =
     t\<lparr>tx_lifecycle := L_Cancelled, tx_cancellation_reason := Some ExpiredBeforeFinalization,
       tx_cancelled_at_height := Some tip\<rparr>"

definition held_by :: "local_transaction_intent \<Rightarrow> output_record \<Rightarrow> bool" where
  "held_by t out \<longleftrightarrow> or_id out \<in> set (tx_reserved_output_ids t) \<and> or_reserved_by out = Some (tx_id t)"

lemma expiring_transition:
  assumes "expiring tip t"
  shows "tx_transition L_Cancelled E_Cancellation t = (Inr (), t\<lparr>tx_lifecycle := L_Cancelled\<rparr>)"
proof -
  have "transition_permitted (tx_lifecycle t) L_Cancelled E_Cancellation"
    using assms
    by (cases "tx_lifecycle t") (auto simp: expiring_def transition_permitted_def transition_table_def)
  then show ?thesis by (simp add: tx_transition_def max_def)
qed

lemma cancel_expired_one_eq:
  assumes "expiring tip (ws_transactions s ! i)"
  shows "cancel_expired_one tip i s = (Inr (tx_id (ws_transactions s ! i)),
     s\<lparr>ws_outputs := map (release_output (held_by (ws_transactions s ! i))) (ws_outputs s),
       ws_transactions := (ws_transactions s)[i := expired tip (ws_transactions s ! i)]\<rparr>)"
  using expiring_transition [OF assms]
  by (simp add: cancel_expired_one_def Let_def put_transaction_def expired_def held_by_def [abs_def])

text \<open>An output is released at most once, and only from a transaction that is being cancelled.\<close>

definition released_only :: "local_transaction_intent set \<Rightarrow> output_record \<Rightarrow> output_record \<Rightarrow> bool" where
  "released_only ts out out' \<longleftrightarrow>
     (if \<exists>t \<in> ts. held_by t out then out' = release_output (\<lambda>_. True) out else out' = out)"

lemma release_output_unheld: "or_reserved_by out = None \<Longrightarrow> \<not> held_by t out"
  by (simp add: held_by_def)

lemma released_only_step:
  assumes "released_only ts out out'"
  shows "released_only (insert t ts) out (release_output (held_by t) out')"
proof (cases "\<exists>u \<in> ts. held_by u out")
  case True
  then show ?thesis
    using assms release_output_unheld [of out' t]
    by (auto simp: released_only_def release_output_def)
next
  case False
  then show ?thesis
    using assms by (auto simp: released_only_def release_output_def)
qed

lemma cancel_expired_loop_ok:
  assumes "distinct js" and "\<forall>j \<in> set js. j < length (ws_transactions s) \<and> expiring tip (ws_transactions s ! j)"
  shows "\<exists>outs. cancel_expired_loop tip js cancelled s =
      (Inr (cancelled @ map (\<lambda>j. tx_id (ws_transactions s ! j)) js),
       s\<lparr>ws_outputs := outs,
         ws_transactions := map (\<lambda>j. if j \<in> set js then expired tip (ws_transactions s ! j)
                                      else ws_transactions s ! j) [0 ..< length (ws_transactions s)]\<rparr>) \<and>
     (\<forall>ts0 outs0. list_all2 (released_only ts0) outs0 (ws_outputs s) \<longrightarrow>
        list_all2 (released_only (ts0 \<union> (\<lambda>j. ws_transactions s ! j) ` set js)) outs0 outs)"
  using assms
proof (induction js arbitrary: cancelled s)
  case Nil
  have "map (\<lambda>j. ws_transactions s ! j) [0 ..< length (ws_transactions s)] = ws_transactions s"
    by (rule map_nth)
  then show ?case by (intro exI [of _ "ws_outputs s"]) simp
next
  case (Cons j js)
  let ?t = "ws_transactions s ! j"
  let ?s1 = "s\<lparr>ws_outputs := map (release_output (held_by ?t)) (ws_outputs s),
       ws_transactions := (ws_transactions s)[j := expired tip ?t]\<rparr>"
  have j: "j < length (ws_transactions s)" "expiring tip ?t" "j \<notin> set js" using Cons.prems by auto
  have step: "cancel_expired_one tip j s = (Inr (tx_id ?t), ?s1)"
    by (rule cancel_expired_one_eq [OF j(2)])
  have other: "ws_transactions ?s1 ! i = ws_transactions s ! i" if "i \<in> set js" for i
    using that j(3) by (cases "i = j") simp_all
  have pre: "\<forall>i \<in> set js. i < length (ws_transactions ?s1) \<and> expiring tip (ws_transactions ?s1 ! i)"
    using Cons.prems(2) other by auto
  from Cons.IH [OF _ pre, of "cancelled @ [tx_id ?t]"] Cons.prems(1) obtain outs where
    run: "cancel_expired_loop tip js (cancelled @ [tx_id ?t]) ?s1 =
      (Inr ((cancelled @ [tx_id ?t]) @ map (\<lambda>i. tx_id (ws_transactions ?s1 ! i)) js),
       ?s1\<lparr>ws_outputs := outs,
         ws_transactions := map (\<lambda>i. if i \<in> set js then expired tip (ws_transactions ?s1 ! i)
                                      else ws_transactions ?s1 ! i) [0 ..< length (ws_transactions ?s1)]\<rparr>)"
    and rel: "\<And>ts0 outs0. list_all2 (released_only ts0) outs0 (ws_outputs ?s1) \<Longrightarrow>
        list_all2 (released_only (ts0 \<union> (\<lambda>i. ws_transactions ?s1 ! i) ` set js)) outs0 outs"
    by auto
  have ids: "map (\<lambda>i. tx_id (ws_transactions ?s1 ! i)) js = map (\<lambda>i. tx_id (ws_transactions s ! i)) js"
    by (rule map_cong [OF refl]) (use other in simp)
  have txs: "map (\<lambda>i. if i \<in> set js then expired tip (ws_transactions ?s1 ! i)
        else ws_transactions ?s1 ! i) [0 ..< length (ws_transactions ?s1)] =
      map (\<lambda>i. if i \<in> set (j # js) then expired tip (ws_transactions s ! i)
        else ws_transactions s ! i) [0 ..< length (ws_transactions s)]"
    by (rule map_cong) (use j in \<open>auto simp: nth_list_update\<close>)
  have img: "(\<lambda>i. ws_transactions ?s1 ! i) ` set js = (\<lambda>i. ws_transactions s ! i) ` set js"
    by (rule image_cong [OF refl]) (rule other)
  have "list_all2 (released_only (ts0 \<union> (\<lambda>i. ws_transactions s ! i) ` set (j # js))) outs0 outs"
    if "list_all2 (released_only ts0) outs0 (ws_outputs s)" for ts0 outs0
  proof -
    have "list_all2 (released_only (insert ?t ts0)) outs0 (ws_outputs ?s1)"
      using that released_only_step [of ts0 _ _ ?t] by (simp add: list_all2_conv_all_nth)
    from rel [OF this] show ?thesis using img by simp
  qed
  then show ?case
    using step run ids txs by (intro exI [of _ outs]) (simp add: op_then_def)
qed

lemma positions_distinct: "distinct (positions P xs)"
proof -
  have "sorted_wrt (<) (map fst (filter Q (enumerate n xs)))" for Q n
  proof (induction xs arbitrary: n)
    case Nil
    then show ?case by simp
  next
    case (Cons x xs)
    have "\<forall>i \<in> set (map fst (filter Q (enumerate (Suc n) xs))). n < i"
      by (auto simp: in_set_enumerate_eq)
    then show ?case using Cons [of "Suc n"] by simp
  qed
  then have "sorted_wrt (<) (positions P xs)" by (simp add: positions_def)
  then show ?thesis by (simp add: strict_sorted_iff)
qed

lemma released_only_refl: "list_all2 (released_only {}) outs outs"
  by (auto simp: released_only_def list_all2_conv_all_nth)

lemma cancel_expired_ok:
  "\<exists>outs. cancel_expired_unfinalized_reservations tip s =
     (Inr (map tx_id (filter (expiring tip) (ws_transactions s))),
      s\<lparr>ws_outputs := outs,
        ws_transactions := map (\<lambda>t. if expiring tip t then expired tip t else t) (ws_transactions s)\<rparr>) \<and>
    list_all2 (released_only {t \<in> set (ws_transactions s). expiring tip t}) (ws_outputs s) outs"
proof -
  let ?js = "positions (expiring tip) (ws_transactions s)"
  have js: "\<forall>j \<in> set ?js. j < length (ws_transactions s) \<and> expiring tip (ws_transactions s ! j)"
    by (auto simp: set_positions)
  obtain outs where
    run: "cancel_expired_loop tip ?js [] s = (Inr ([] @ map (\<lambda>j. tx_id (ws_transactions s ! j)) ?js),
       s\<lparr>ws_outputs := outs,
         ws_transactions := map (\<lambda>j. if j \<in> set ?js then expired tip (ws_transactions s ! j)
            else ws_transactions s ! j) [0 ..< length (ws_transactions s)]\<rparr>)"
    and rel0: "\<forall>ts0 outs0. list_all2 (released_only ts0) outs0 (ws_outputs s) \<longrightarrow>
        list_all2 (released_only (ts0 \<union> (\<lambda>j. ws_transactions s ! j) ` set ?js)) outs0 outs"
    using cancel_expired_loop_ok [OF positions_distinct js, of "[]"] by blast
  have rel: "list_all2 (released_only ((\<lambda>j. ws_transactions s ! j) ` set ?js)) (ws_outputs s) outs"
    using rel0 [rule_format, OF released_only_refl] by simp
  have "map (\<lambda>j. ws_transactions s ! j) ?js = filter (expiring tip) (ws_transactions s)"
  proof -
    have "map (\<lambda>j. ws_transactions s ! j) ?js =
        map snd (filter (\<lambda>(i, x). expiring tip x) (enumerate 0 (ws_transactions s)))"
      by (auto simp: positions_def in_set_enumerate_eq)
    also have "\<dots> = filter (expiring tip) (map snd (enumerate 0 (ws_transactions s)))"
      by (simp only: filter_map comp_def case_prod_unfold)
    finally show ?thesis by simp
  qed
  then have ids: "map (\<lambda>j. tx_id (ws_transactions s ! j)) ?js =
      map tx_id (filter (expiring tip) (ws_transactions s))"
    by (metis (no_types, lifting) list.map_comp comp_apply map_eq_conv)
  have txs: "map (\<lambda>j. if j \<in> set ?js then expired tip (ws_transactions s ! j) else ws_transactions s ! j)
      [0 ..< length (ws_transactions s)] =
      map (\<lambda>t. if expiring tip t then expired tip t else t) (ws_transactions s)"
    by (rule nth_equalityI) (auto simp: set_positions)
  have "(\<lambda>j. ws_transactions s ! j) ` set ?js = {t \<in> set (ws_transactions s). expiring tip t}"
    by (auto simp: set_positions in_set_conv_nth)
  then show ?thesis
    using run rel ids txs by (auto simp: cancel_expired_unfinalized_reservations_def)
qed

subsection \<open>Persist before act\<close>

lemma position_update:
  assumes "position P xs = Some i" and "P y"
  shows "position P (xs[i := y]) = Some i"
  using assms
proof (induction xs arbitrary: i)
  case Nil
  then show ?case by simp
next
  case (Cons x xs)
  then show ?case by (cases i) (auto split: if_splits)
qed

definition submission_recorded :: "uuid \<Rightarrow> wallet_state \<Rightarrow> bool" where
  "submission_recorded slate_id s \<longleftrightarrow>
     (\<exists>index. find_transaction_index s slate_id Sender = Inr index \<and>
        index < length (ws_transactions s) \<and>
        SubmissionStarted \<le> tx_exposure (ws_transactions s ! index))"

lemma find_transaction_index_ok:
  assumes "find_transaction_index s slate_id role = Inr index"
  shows "position (\<lambda>t. tx_slate_id t = Some slate_id \<and> tx_role t = Some role) (ws_transactions s) = Some index"
    and "index < length (ws_transactions s)"
    and "tx_slate_id (ws_transactions s ! index) = Some slate_id"
    and "tx_role (ws_transactions s ! index) = Some role"
proof -
  show pos: "position (\<lambda>t. tx_slate_id t = Some slate_id \<and> tx_role t = Some role) (ws_transactions s) = Some index"
    using assms by (auto simp: find_transaction_index_def ok_or_Inr)
  from position_SomeD [OF pos] show "index < length (ws_transactions s)"
    and "tx_slate_id (ws_transactions s ! index) = Some slate_id"
    and "tx_role (ws_transactions s ! index) = Some role" by auto
qed

lemma find_transaction_index_put:
  assumes "find_transaction_index s slate_id role = Inr index"
    and "tx_slate_id t = Some slate_id" "tx_role t = Some role"
  shows "find_transaction_index (put_transaction index t s) slate_id role = Inr index"
  using position_update [OF find_transaction_index_ok(1) [OF assms(1)], of t] assms(2,3)
  by (simp add: find_transaction_index_def put_transaction_def)

lemma find_transaction_index_generation [simp]:
  "find_transaction_index (s\<lparr>ws_generation := g\<rparr>) slate_id role = find_transaction_index s slate_id role"
  by (simp add: find_transaction_index_def)

lemma submission_recorded_generation [simp]:
  "submission_recorded slate_id (s\<lparr>ws_generation := g\<rparr>) = submission_recorded slate_id s"
  by (simp add: submission_recorded_def)

lemma submission_recorded_put:
  assumes "find_transaction_index s slate_id Sender = Inr index"
    and "tx_slate_id t = Some slate_id" "tx_role t = Some Sender" "SubmissionStarted \<le> tx_exposure t"
  shows "submission_recorded slate_id (put_transaction index t s)"
  using find_transaction_index_put [OF assms(1-3)] find_transaction_index_ok(2) [OF assms(1)] assms(4)
  by (auto simp: submission_recorded_def put_transaction_def)

lemma case_sum_Inr_iff: "case_sum (\<lambda>e. Inl (f e)) g r = Inr b \<longleftrightarrow> (\<exists>a. r = Inr a \<and> g a = Inr b)"
  by (cases r) auto

lemma start_submission_recorded:
  assumes "start_submission from_bytes slate_id retry s = Inr (s1, hash, submission)"
  shows "submission_recorded slate_id s1"
proof -
  from assms obtain index where idx: "find_transaction_index s slate_id Sender = Inr index"
    by (auto simp: start_submission_def res_simps)
  obtain q tx1 where tr: "tx_transition L_Submitting E_SubmissionStarted (ws_transactions s ! index) = (q, tx1)"
    by fastforce
  have tx1: "tx_transition L_Submitting E_SubmissionStarted (ws_transactions s ! index) = (Inr (), tx1)"
    and "\<exists>attempts. s1 = put_transaction index (tx1\<lparr>tx_attempt_count := attempts\<rparr>) s"
    using assms idx tr
    by (auto simp: start_submission_def res_simps Let_def case_sum_Inr_iff split: if_splits)
  then obtain attempts where s1: "s1 = put_transaction index (tx1\<lparr>tx_attempt_count := attempts\<rparr>) s"
    by blast
  have eq: "tx1 = (ws_transactions s ! index)\<lparr>tx_exposure := max (tx_exposure (ws_transactions s ! index))
      SubmissionStarted, tx_lifecycle := L_Submitting\<rparr>"
    using tx1 by (auto simp: tx_transition_Inr_iff)
  show ?thesis
    unfolding s1 using find_transaction_index_ok(3,4) [OF idx]
    by (intro submission_recorded_put [OF idx]) (simp_all add: eq)
qed

lemma apply_submission_outcome_ok:
  assumes "apply_submission_outcome outcome t = (Inr (), t')"
  shows "tx_exposure t \<le> tx_exposure t' \<and> tx_slate_id t' = tx_slate_id t \<and> tx_role t' = tx_role t \<and>
     tx_id t' = tx_id t \<and> tx_reserved_output_ids t' = tx_reserved_output_ids t"
  using assms
  by (auto simp: apply_submission_outcome_def res_simps tx_transition_Inr_iff split: prod.splits if_splits)

text \<open>Recording an outcome keeps the exposure floor the validator demands.\<close>

lemma apply_submission_outcome_floor:
  assumes "apply_submission_outcome outcome t = (Inr (), t')" and "exposure_floor_ok t"
  shows "exposure_floor_ok t'"
proof -
  obtain submitted lifecycle ev where o: "outcome_transition outcome = (submitted, lifecycle, ev)"
    by (cases "outcome_transition outcome")
  let ?t0 = "if submitted then t\<lparr>tx_submitted := True\<rparr> else t"
  have run: "tx_transition lifecycle ev ?t0 = (Inr (), t')"
    using assms(1) o by (simp add: apply_submission_outcome_def res_simps)
  have strong: "submitted \<Longrightarrow> PossiblyRelayed \<le> observed_exposure ev"
    using o by (cases outcome) (auto simp: exposure_order)
  have t': "t' = ?t0\<lparr>tx_exposure := max (tx_exposure t) (observed_exposure ev), tx_lifecycle := lifecycle\<rparr>"
    and perm: "transition_permitted (tx_lifecycle t) lifecycle ev"
    using run by (auto simp: tx_transition_Inr_iff split: if_splits)
  have floor: "minimum_current_exposure lifecycle False \<le> max (tx_exposure t) (observed_exposure ev)"
  proof -
    have "minimum_current_exposure (tx_lifecycle t) False \<le> tx_exposure t"
      using assms(2) unfolding exposure_floor_ok_def by (subst (asm) minimum_current_exposure_split) simp
    then show ?thesis
      using perm table_evidence_covers_floor
      by (auto simp: transition_permitted_def le_max_iff_disj)
  qed
  have "tx_submitted t \<longrightarrow> PossiblyRelayed \<le> tx_exposure t"
    using assms(2) unfolding exposure_floor_ok_def by (subst (asm) minimum_current_exposure_split) simp
  then have "tx_submitted ?t0 \<longrightarrow> PossiblyRelayed \<le> max (tx_exposure t) (observed_exposure ev)"
    using strong by (auto simp: le_max_iff_disj split: if_splits)
  with floor show ?thesis
    unfolding exposure_floor_ok_def t' by (subst minimum_current_exposure_split) simp
qed

lemma record_outcome_recorded:
  assumes "record_outcome slate_id outcome s = Inr (s1, tid)" and "submission_recorded slate_id s"
  shows "submission_recorded slate_id s1"
proof -
  from assms(1) obtain index where idx: "find_transaction_index s slate_id Sender = Inr index"
    by (auto simp: record_outcome_def res_simps)
  obtain q t where run: "apply_submission_outcome outcome (ws_transactions s ! index) = (q, t)" by fastforce
  have t: "apply_submission_outcome outcome (ws_transactions s ! index) = (Inr (), t)"
    and s1: "s1 = put_transaction index t s"
    using assms(1) idx run by (auto simp: record_outcome_def res_simps case_sum_Inr_iff)
  have "SubmissionStarted \<le> tx_exposure (ws_transactions s ! index)"
    using assms(2) idx by (auto simp: submission_recorded_def)
  then show ?thesis
    unfolding s1 using apply_submission_outcome_ok [OF t] find_transaction_index_ok(3,4) [OF idx]
    by (intro submission_recorded_put [OF idx]) (auto intro: order_trans)
qed

context durable_store
begin

lemma submit_records_first:
  fixes w w' :: 'w
  assumes run: "submit_transaction hex ops backend from_bytes slate_id retry (sv, w) = (r, (sv', w'))"
    and contacted: "w' \<noteq> w"
  shows "\<exists>s'. sv_unlocked sv' = Some s' \<and> submission_recorded slate_id s'"
proof -
  have phrase: "ensure_phrase_confirmed sv = Inr ()"
    using run contacted by (auto simp: submit_transaction_def split: sum.splits)
  obtain p sv1 where start: "with_clone ops (start_submission from_bytes slate_id retry) sv = (p, sv1)"
    by fastforce
  obtain hash submission where p: "p = Inr (hash, submission)"
    using run contacted phrase start
    by (cases p) (auto simp: submit_transaction_def op_then_def on_fst_def)
  from with_clone_ok [OF start [unfolded p]] obtain s1 where
    rec: "sv_unlocked sv1 = Some s1" "submission_recorded slate_id s1"
    using start_submission_recorded by fastforce
  obtain bk where bk: "backend = Some bk"
    using run contacted phrase start p
    by (cases backend) (auto simp: submit_transaction_def op_then_def on_fst_def)
  let ?call = "if retry then bk_rebroadcast bk (WTI_TransactionHash hash) else bk_submit bk submission"
  obtain q w1 where call: "?call w = (q, w1)" by fastforce
  show ?thesis
  proof (cases q)
    case (Inl e)
    then have "sv' = sv1"
      using run phrase start p bk call
      by (auto simp: submit_transaction_def op_then_def on_fst_def on_snd_def)
    then show ?thesis using rec by auto
  next
    case (Inr outcome)
    obtain u sv2 where last: "with_clone ops (record_outcome slate_id outcome) sv1 = (u, sv2)" by fastforce
    have "sv' = sv2"
      using run phrase start p bk call Inr last
      by (cases u) (auto simp: submit_transaction_def op_then_def on_fst_def on_snd_def
          transaction_summary_def)
    moreover have "\<exists>s'. sv_unlocked sv2 = Some s'"
      using with_clone_ok [of _ sv1 _ sv2] with_clone_error [of _ sv1 _ sv2] last rec(1) by (cases u) fastforce+
    moreover have "submission_recorded slate_id s'" if "sv_unlocked sv2 = Some s'" for s'
      by (rule with_clone_invariant [OF last, of "submission_recorded slate_id", OF _ _ _ that])
        (use rec in \<open>auto intro: record_outcome_recorded\<close>)
    ultimately show ?thesis by blast
  qed
qed

lemma cancel_exposed:
  assumes "sv_unlocked sv = Some s"
    and "position (\<lambda>t. tx_slate_id t = Some slate_id) (ws_transactions s) = Some index"
    and "tx_exposure (ws_transactions s ! index) \<noteq> NeverBroadcast"
    and "transaction_cancel hex ops slate_id confirmed sv = (r, sv')"
  shows "(\<exists>e. r = Inl e) \<and> (\<exists>s'. sv_unlocked sv' = Some s' \<and> ws_outputs s' = ws_outputs s)"
proof -
  let ?tx = "ws_transactions s ! index"
  have dec: "cancellation_decision (tx_exposure ?tx) = RequireReconciliation"
    using assms(3) by (cases "tx_exposure ?tx") auto
  show ?thesis
  proof (cases "tx_lifecycle ?tx = L_ReconciliationRequired")
    case True
    then show ?thesis using assms dec by (auto simp: transaction_cancel_def Let_def)
  next
    case False
    obtain q tx1 where t: "tx_transition L_ReconciliationRequired E_ReconciliationEvidence ?tx = (q, tx1)"
      by fastforce
    show ?thesis
    proof (cases q)
      case (Inl e)
      then show ?thesis using assms dec False t by (auto simp: transaction_cancel_def Let_def)
    next
      case (Inr u)
      obtain c sv1 where commit: "commit ops (put_transaction index tx1 s) sv = (c, sv1)" by fastforce
      have "sv' = sv1 \<and> (\<exists>e. r = Inl e)"
        using assms dec False t Inr commit
        by (auto simp: transaction_cancel_def Let_def op_then_def split: sum.splits)
      moreover have "\<exists>s'. sv_unlocked sv1 = Some s' \<and> ws_outputs s' = ws_outputs s"
      proof (cases c)
        case (Inl e)
        then show ?thesis using commit_error [of _ sv e sv1] commit assms(1) by simp
      next
        case (Inr v)
        then show ?thesis
          using commit_ok [of "put_transaction index tx1 s" sv sv1] commit by (auto simp: put_transaction_def)
      qed
      ultimately show ?thesis by blast
    qed
  qed
qed

end

context durable_store
begin

text \<open>What a send leaves behind, whether it succeeds, fails before or fails after its first commit.\<close>

lemma send_create_commits:
  assumes run: "transaction_send_create hex ops backend ent amount requested sender receiver lock_height expires sv
      = (r, sv')"
    and s: "sv_unlocked sv = Some s" and s': "sv_unlocked sv' = Some s'"
  shows "(\<exists>e. r = Inl e) \<and> s' = s \<or>
    (\<exists>bk identity s1 plan slate replay g.
       backend = Some bk \<and> sl_current_identity bk = Inr identity \<and>
       validate_transaction_expiry expires (cbr_height (cci_current_tip identity)) = Inr () \<and>
       send_create (sl_minimum_fee bk) requested amount expires ent (cbr_height (cci_current_tip identity)) s =
         Inr (s1, plan, slate, replay) \<and>
       ((\<exists>e. r = Inl e) \<and> s' = s1\<lparr>ws_generation := g\<rparr> \<or>
        (\<exists>parts envelope s2 g2. attach_offer (uuid_from_protocol_id slate) (en_change_output_id ent) parts envelope
             (s1\<lparr>ws_generation := g\<rparr>) = Inr (s2, ()) \<and> s' = s2\<lparr>ws_generation := g2\<rparr>)) \<and>
       wallet_validate s' = Inr ())"
proof -
  let ?pre = "send_guards backend lock_height expires sv"
  show ?thesis
  proof (cases "amount = 0 \<or> (\<exists>e. ?pre = Inl e)")
    case True
    then have "(\<exists>e. r = Inl e) \<and> sv' = sv" using run by (auto simp: transaction_send_create_def split: if_splits)
    then show ?thesis using s s' by simp
  next
    case False
    then obtain bk identity where pre: "?pre = Inr (bk, identity)" by (cases ?pre) auto
    let ?tip = "cbr_height (cci_current_tip identity)"
    let ?first = "with_clone ops (send_create (sl_minimum_fee bk) requested amount expires ent ?tip)"
    have start: "backend = Some bk" "sl_current_identity bk = Inr identity"
      "validate_transaction_expiry expires ?tip = Inr ()"
      using pre by (auto simp: send_guards_def res_simps ok_or_Inr split: if_splits)
    obtain q sv1 where first: "?first sv = (q, sv1)" by fastforce
    show ?thesis
    proof (cases q)
      case (Inl e)
      then have "r = Inl e \<and> sv' = sv1"
        using run False pre first by (auto simp: transaction_send_create_def op_then_def)
      then show ?thesis using with_clone_error [of _ sv e sv1] first Inl s s' by auto
    next
      case (Inr x)
      obtain plan slate replay where x: "x = (plan, slate, replay)" by (cases x) auto
      obtain s1 g where s1: "send_create (sl_minimum_fee bk) requested amount expires ent ?tip s =
          Inr (s1, plan, slate, replay)" "sv_unlocked sv1 = Some (s1\<lparr>ws_generation := g\<rparr>)"
        "wallet_validate (s1\<lparr>ws_generation := g\<rparr>) = Inr ()"
        using with_clone_ok [OF first [unfolded Inr x]] s by auto
      let ?build = "build_offer bk identity sender receiver slate replay amount lock_height expires plan
          (s1\<lparr>ws_generation := g\<rparr>)"
      have stay: ?thesis if "(\<exists>e. r = Inl e) \<and> sv_unlocked sv' = sv_unlocked sv1"
        using that start s1 s' by auto
      show ?thesis
      proof (cases ?build)
        case build: (Inl e)
        then have "r = Inl e \<and> sv' = sv1"
          using run False pre first Inr x s1(2)
          by (auto simp: transaction_send_create_def op_then_def Let_def)
        then show ?thesis using stay by auto
      next
        case build: (Inr y)
        obtain parts envelope where y: "y = (parts, envelope)" by fastforce
        let ?second = "with_clone ops (attach_offer (uuid_from_protocol_id slate) (en_change_output_id ent)
            parts envelope)"
        obtain p sv2 where second: "?second sv1 = (p, sv2)" by fastforce
        have last: "case p of Inl e \<Rightarrow> r = Inl e \<and> sv' = sv2
            | Inr u \<Rightarrow> sv_unlocked sv' = sv_unlocked sv2"
          using run False pre first Inr x s1(2) build y second
          by (auto simp: transaction_send_create_def op_then_def Let_def transaction_summary_def
              split: sum.splits)
        show ?thesis
        proof (cases p)
          case (Inl e)
          then show ?thesis using stay last with_clone_error [of _ sv1 e sv2] second by auto
        next
          case (Inr u)
          obtain s2 g2 where attach: "attach_offer (uuid_from_protocol_id slate) (en_change_output_id ent) parts envelope
              (s1\<lparr>ws_generation := g\<rparr>) = Inr (s2, ())" and "sv_unlocked sv2 = Some (s2\<lparr>ws_generation := g2\<rparr>)"
            and "wallet_validate (s2\<lparr>ws_generation := g2\<rparr>) = Inr ()"
            using with_clone_ok [OF second [unfolded Inr]] s1(2) by auto
          moreover have "sv_unlocked sv' = sv_unlocked sv2" using last Inr by simp
          ultimately have "s' = s2\<lparr>ws_generation := g2\<rparr>" "wallet_validate s' = Inr ()" using s' by auto
          then show ?thesis using start s1(1) attach by blast
        qed
      qed
    qed
  qed
qed

end

lemma attach_offer_outputs:
  assumes "attach_offer public_slate_id change_id parts envelope s = Inr (s2, ())"
  shows "\<exists>extra. ws_outputs s2 = ws_outputs s @ extra \<and> length extra \<le> 1 \<and>
     (\<forall>out \<in> set extra. or_id out = change_id \<and> or_state out = PendingIncoming \<and> or_reserved_by out = None) \<and>
     ws_recovery_allocation_floors s2 = ws_recovery_allocation_floors s \<and>
     length (ws_transactions s2) = length (ws_transactions s) \<and>
     list_all2 (\<lambda>t t2. tx_id t2 = tx_id t \<and> tx_reserved_output_ids t2 = tx_reserved_output_ids t \<and>
        tx_lifecycle t2 = tx_lifecycle t \<and> tx_exposure t2 = tx_exposure t \<and>
        tx_amount t2 = tx_amount t \<and> tx_fee t2 = tx_fee t) (ws_transactions s) (ws_transactions s2)"
proof -
  obtain index where idx: "find_transaction_index s public_slate_id Sender = Inr index"
    using assms by (auto simp: attach_offer_def res_simps)
  note lt = find_transaction_index_ok(2) [OF idx]
  show ?thesis
    using assms idx lt
    by (cases "rsp_change parts")
      (auto simp: attach_offer_def res_simps put_transaction_def Let_def remember_output_blinding_def
        list_all2_conv_all_nth nth_list_update split: option.splits)
qed

subsection \<open>Properties\<close>


definition sample_funds :: wallet_state where
  "sample_funds = sample_wallet\<lparr>ws_outputs := [sample_output 5 8 7 Confirmed None],
     ws_private_output_blindings := [\<lparr>pob_output_id = 5, pob_blinding = zeros 32\<rparr>],
     ws_recovery := Some \<lparr>rm_scheme = RECOVERY_SCHEME_BIP39_256_V1, rm_phrase_confirmed = True\<rparr>\<rparr>"

definition sample_slate_ops :: "(unit, unit) slate_ops" where
  "sample_slate_ops =
     \<lparr>sl_current_identity = Inr sample_core_identity, sl_minimum_fee = (\<lambda>n. Inr 1),
      sl_output_builder = (\<lambda>seed. Inl KE_RecoveryPhraseInvalid),
      sl_sender_offer = (\<lambda>_ _ _ _ _ _ _. Inl KE_Protocol), sl_automatic_addresses = (\<lambda>_. Inl KE_Protocol),
      sl_envelope = (\<lambda>_ _ _ _ _ _ _. Inl KE_Protocol)\<rparr>"

definition sample_entropy :: send_entropy where
  "sample_entropy = \<lparr>en_transaction_id = 9, en_slate_id = Some (zeros 32), en_replay_id = Some (zeros 32),
     en_change_output_id = 6, en_now_unix = 0\<rparr>"

definition sample_sent :: wallet_state where
  "sample_sent = sample_funds\<lparr>ws_outputs := [sample_output 5 8 7 PendingOutgoing (Some 9)],
     ws_recovery_allocation_floors := (ws_recovery_allocation_floors sample_funds)\<lparr>raf_change := 1\<rparr>,
     ws_non_reuse_floor := 1, ws_transactions := [new_intent 9 0 5 0 4 1 [5] 8]\<rparr>"

lemmas sample_send_defs = sample_funds_def sample_slate_ops_def sample_entropy_def sample_sent_def
  sample_core_identity_def sample_wallet_defs new_intent_def

lemma sample_spendable: "spendable_outputs sample_funds = [sample_output 5 8 7 Confirmed None]"
  by (simp add: spendable_outputs_def sample_funds_def spendable_def sample_output_def output_blinding_def)

lemma uuid_of_zeros: "uuid_from_protocol_id (zeros n) = 0"
proof -
  have "foldl (\<lambda>acc b. push_bit 8 acc + ucast b) (0 :: uuid) (replicate k (0 :: u8)) = 0" for k
    by (induction k) simp_all
  then show ?thesis by (simp add: uuid_from_protocol_id_def zeros_def)
qed

lemma sample_selection:
  "select_inputs (\<lambda>n. Inr 1) None 4 [sample_output 5 8 7 Confirmed None] [] 0 0 =
     Inr ([sample_output 5 8 7 Confirmed None], 7, 1)"
  by (simp add: checked_add_def sample_output_def)

lemma sample_send_create:
  "\<exists>plan. send_create (\<lambda>n. Inr 1) None 4 8 sample_entropy 5 sample_funds =
     Inr (sample_sent, plan, zeros 32, zeros 32)"
proof -
  have req: "checked_add (4 :: u64) 1 = Some 5" by (simp add: checked_add_def)
  have floors: "\<exists>rc. reserve_recovery_coordinate 0 Change sample_funds = (Inr rc, sample_funds\<lparr>
      ws_recovery_allocation_floors := (ws_recovery_allocation_floors sample_funds)\<lparr>raf_change := 1\<rparr>,
      ws_non_reuse_floor := 1\<rparr>)"
    by (simp add: reserve_recovery_coordinate_def sample_funds_def sample_wallet_def wallet_new_def checked_add_def
        floors_default_def)
  have out: "ws_outputs sample_funds = [sample_output 5 8 7 Confirmed None]" "ws_transactions sample_funds = []"
    by (simp_all add: sample_funds_def sample_wallet_def wallet_new_def)
  obtain rc where rc: "reserve_recovery_coordinate 0 Change sample_funds = (Inr rc, sample_funds\<lparr>
      ws_recovery_allocation_floors := (ws_recovery_allocation_floors sample_funds)\<lparr>raf_change := 1\<rparr>,
      ws_non_reuse_floor := 1\<rparr>)" using floors by blast
  have held: "reserve_output [or_id (sample_output 5 8 7 Confirmed None)] 9 (sample_output 5 8 7 Confirmed None) =
      (Inr (), sample_output 5 8 7 PendingOutgoing (Some 9))"
    and oid: "or_id (sample_output 5 8 7 Confirmed None) = 5"
    by (simp_all add: reserve_output_def sample_output_def)
  show ?thesis
    by (simp add: send_create_def sample_spendable sample_selection req rc out sample_entropy_def held
        del: select_inputs.simps)
      (simp add: oid uuid_of_zeros sample_sent_def)
qed

lemma sample_sent_valid: "wallet_validate (sample_sent\<lparr>ws_generation := 1\<rparr>) = Inr ()"
  by (simp add: sample_send_defs validate_defs exposure_order RECOVERY_SCHEME_BIP39_256_V1_def)

text \<open>A send whose offer cannot be built keeps its reservation: the first commit stands.\<close>

lemma sample_send_run:
  "\<exists>sv'. transaction_send_create hex (directory_ops (sample_store NoFault)) (Some sample_slate_ops) sample_entropy
      4 None None None 0 8 (sample_service sample_funds) = (Inl KE_RecoveryPhraseInvalid, sv') \<and>
     sv_unlocked sv' = Some (sample_sent\<lparr>ws_generation := 1\<rparr>)"
proof -
  have "\<exists>d m. commit (directory_ops (sample_store NoFault)) sample_sent (sample_service sample_funds) =
    (Inr (), (sample_service sample_funds)\<lparr>sv_location := d, sv_metadata := m,
        sv_unlocked := Some (sample_sent\<lparr>ws_generation := 1\<rparr>)\<rparr>)"
    by (rule sample_commit [OF _ _ _ _ _ _ _ sample_sent_valid])
      (simp_all add: sample_sent_def sample_funds_def sample_wallet_def wallet_new_def)
  then obtain d m where c: "commit (directory_ops (sample_store NoFault)) sample_sent (sample_service sample_funds) =
    (Inr (), (sample_service sample_funds)\<lparr>sv_location := d, sv_metadata := m,
        sv_unlocked := Some (sample_sent\<lparr>ws_generation := 1\<rparr>)\<rparr>)" by blast
  have guards: "send_guards (Some sample_slate_ops) 0 8 (sample_service sample_funds) =
      Inr (sample_slate_ops, sample_core_identity)"
    by (simp add: send_guards_def ensure_phrase_confirmed_def sample_service_def sample_funds_def
        sample_slate_ops_def sample_core_identity_def validate_transaction_expiry_def checked_add_def
        MAX_TRANSACTION_LIFETIME_BLOCKS_def)
  show ?thesis
    using sample_send_create c guards
    by (auto simp: transaction_send_create_def with_clone_def op_then_def sample_service_def Let_def
        build_offer_def sample_slate_ops_def sample_core_identity_def)
qed





definition sample_submitting :: "tx_lifecycle \<Rightarrow> broadcast_exposure \<Rightarrow> wallet_state" where
  "sample_submitting l e = sample_funds\<lparr>
     ws_outputs := [sample_output 5 8 7 PendingOutgoing (Some 1)],
     ws_transactions := [(sample_intent l e)\<lparr>tx_slate_id := Some 3, tx_reserved_output_ids := [5],
       tx_finalized_transaction_bytes := [1], tx_transaction_hash := Some [7], tx_attempt_count := 1\<rparr>]\<rparr>"

lemmas sample_submitting_defs = sample_submitting_def sample_funds_def sample_wallet_defs
  RECOVERY_SCHEME_BIP39_256_V1_def

lemma sample_submitting_valid:
  "wallet_validate (sample_submitting L_Submitting SubmissionStarted\<lparr>ws_generation := g\<rparr>) = Inr ()"
  by (simp add: sample_submitting_defs validate_defs exposure_order)

text \<open>A node that counts the calls it gets and refuses them.\<close>

definition sample_backend :: "(nat, bytes) backend_ops" where
  "sample_backend =
     \<lparr>bk_submit = (\<lambda>_ w. (Inl KE_NodeNotReady, Suc w)), bk_rebroadcast = (\<lambda>_ w. (Inl KE_NodeNotReady, Suc w)),
      bk_query = (\<lambda>_ w. (Inl KE_NodeNotReady, Suc w)), bk_status = (\<lambda>_ w. (Inl KE_NodeNotReady, Suc w))\<rparr>"



text \<open>
  C39: a rejection cannot be recorded while the transaction still holds an input. Recording it moves
  the transaction to \<open>Failed\<close>, the validator accepts no unspent output held by a failed
  transaction, and so the commit fails and the transaction stays \<open>Submitting\<close>.
\<close>

theorem rejection_never_committed:
  assumes "sv_unlocked sv = Some s" and "wallet_validate s = Inr ()" and "distinct (map tx_id (ws_transactions s))"
    and "find_transaction_index s slate_id Sender = Inr index"
    and "tx_lifecycle (ws_transactions s ! index) = L_Submitting"
    and "out \<in> set (ws_outputs s)" and "or_id out \<in> set (tx_reserved_output_ids (ws_transactions s ! index))"
    and "or_reserved_by out = Some (tx_id (ws_transactions s ! index))" and "\<not> is_spent (or_state out)"
    and "outcome_transition outcome = (False, L_Failed, E_SubmissionOutcome)"
    and "with_clone (directory_ops env) (record_outcome slate_id outcome) sv = (r, sv')"
  shows "(\<exists>e. r = Inl e) \<and> sv_unlocked sv' = sv_unlocked sv"
proof (cases r)
  case (Inl e)
  then show ?thesis using directory.with_clone_error assms(11) by blast
next
  case (Inr tid)
  let ?tx = "ws_transactions s ! index"
  obtain s1 g where rec: "record_outcome slate_id outcome s = Inr (s1, tid)"
    and valid: "wallet_validate (s1\<lparr>ws_generation := g\<rparr>) = Inr ()"
    using directory.with_clone_ok [OF assms(11) [unfolded Inr]] assms(1) by auto
  obtain t where t: "tx_transition L_Failed E_SubmissionOutcome ?tx = (Inr (), t)" and s1: "s1 = put_transaction index t s"
    using rec assms(4,10)
    by (auto simp: record_outcome_def apply_submission_outcome_def res_simps case_sum_Inr_iff split: prod.splits)
  have failed: "tx_lifecycle t = L_Failed" using t by (auto simp: tx_transition_Inr_iff)
  note lt = find_transaction_index_ok(2) [OF assms(4)]
  have uniq: "i = index" if "i < length (ws_transactions s)" "tx_id (ws_transactions s ! i) = tx_id ?tx" for i
    using assms(3) that lt by (simp add: distinct_conv_nth) metis
  have only: "tx_lifecycle u = L_Failed" if u: "u \<in> set (ws_transactions s1)" "tx_id u = tx_id ?tx" for u
  proof -
    from u(1) obtain i where "i < length (ws_transactions s)" "u = (ws_transactions s)[index := t] ! i"
      by (auto simp: s1 put_transaction_def in_set_conv_nth)
    then show ?thesis using u(2) failed uniq by (cases "i = index") auto
  qed
  have "\<exists>u \<in> set (ws_transactions s). tx_id u = tx_id ?tx \<and> or_id out \<in> set (tx_reserved_output_ids u) \<and>
      tx_lifecycle u \<notin> {L_Cancelled, L_Failed}"
    using lt assms(5,7) by (intro bexI [of _ ?tx]) auto
  then have "\<not> (\<exists>q \<in> set (ws_funding_reservations s). fr_id q = tx_id ?tx \<and> retains_inputs (fr_state q) \<and>
          or_id out \<in> set (fr_reserved_output_ids q))"
    using validated_owner [OF assms(2,6,8,9)] by blast
  moreover have "ws_funding_reservations s1 = ws_funding_reservations s" "out \<in> set (ws_outputs s1)"
    using assms(6) by (simp_all add: s1 put_transaction_def)
  ultimately have False using validated_owner [OF valid, of out "tx_id ?tx"] assms(8,9) only by auto
  then show ?thesis ..
qed

theorem rejection_never_committed_witness:
  "\<exists>e sv'. with_clone (directory_ops (sample_store NoFault))
     (record_outcome 3 (RejectedFee \<lparr>wse_transaction_hash = [7], wse_primary_kernel_excess = None,
        wse_accepted_to_mempool = False, wse_broadcast_attempted = False, wse_relayed = False,
        wse_diagnostic = None\<rparr>)) (sample_service (sample_submitting L_Submitting SubmissionStarted)) = (Inl e, sv')"
proof -
  let ?s = "sample_submitting L_Submitting SubmissionStarted" and ?out = "sample_output 5 8 7 PendingOutgoing (Some 1)"
  let ?o = "RejectedFee \<lparr>wse_transaction_hash = [7], wse_primary_kernel_excess = None,
        wse_accepted_to_mempool = False, wse_broadcast_attempted = False, wse_relayed = False,
        wse_diagnostic = None\<rparr>"
  obtain r sv' where run: "with_clone (directory_ops (sample_store NoFault)) (record_outcome 3 ?o) (sample_service ?s) =
      (r, sv')" by fastforce
  have valid: "wallet_validate ?s = Inr ()"
    using sample_submitting_valid [of 0] by (simp add: sample_submitting_def sample_funds_def sample_wallet_def wallet_new_def)
  have "find_transaction_index ?s 3 Sender = Inr 0" "?out \<in> set (ws_outputs ?s)"
    "tx_lifecycle (ws_transactions ?s ! 0) = L_Submitting" "distinct (map tx_id (ws_transactions ?s))"
    "or_id ?out \<in> set (tx_reserved_output_ids (ws_transactions ?s ! 0))"
    "or_reserved_by ?out = Some (tx_id (ws_transactions ?s ! 0))" "\<not> is_spent (or_state ?out)"
    by (simp_all add: find_transaction_index_def sample_submitting_def sample_intent_def sample_output_def)
  from rejection_never_committed [OF _ valid this(4,1,3,2,5,6,7) _ run] run show ?thesis
    by (auto simp: sample_service_def)
qed


end
