(* ===== verification/Transport.thy ===== *)
theory Transport
  imports Text_Codec
begin

text \<open>
  The protocol adapter (\<open>dom-wallet-protocol\<close>): fee floor and sender construction, the manual
  transport text with its content hash, and its QR frames with their reassembly. The hash, the
  base64 and hex encoders and the slate and transaction library are outside the repository: they
  are the records \<open>transport_env\<close> and \<open>slate_lib\<close>, and what the adapter relies on is stated as
  \<open>transport_laws\<close>.
\<close>

definition TRANSPORT_PREFIX :: string where "TRANSPORT_PREFIX = ''DOMSLATE1.''"
definition QR_FRAME_PREFIX :: string where "QR_FRAME_PREFIX = ''DOMQR1.''"
definition MAX_TRANSPORT_BYTES :: nat where "MAX_TRANSPORT_BYTES = 1048576"
definition MAX_QR_SINGLE_TEXT_BYTES :: nat where "MAX_QR_SINGLE_TEXT_BYTES = 900"
definition QR_FRAME_PAYLOAD_BYTES :: nat where "QR_FRAME_PAYLOAD_BYTES = 600"
definition MAX_QR_FRAMES :: nat where "MAX_QR_FRAMES = 128"

datatype protocol_error =
    PE_InvalidCanonicalEncoding | PE_InvalidAmountOrFee | PE_FeeTooLow | PE_InvalidInput
  | PE_InvalidKernelConfiguration | PE_ProtocolRejected | PE_InvalidTransport | PE_InvalidQrFrame
  | PE_SlateBindingMismatch

record 'sl transport_env =
  te_hash :: "bytes \<Rightarrow> bytes"
  te_b64_encode :: "bytes \<Rightarrow> string"
  te_b64_decode :: "string \<Rightarrow> bytes option"
  te_hex_encode :: "bytes \<Rightarrow> string"
  te_hex_decode :: "string \<Rightarrow> bytes option"
  te_slate_serialize :: "'sl \<Rightarrow> bytes option"
  te_slate_deserialize :: "bytes \<Rightarrow> 'sl option"

definition url_safe :: "char \<Rightarrow> bool" where
  "url_safe c \<longleftrightarrow> is_ascii_digit c \<or> (of_char c :: nat) = 45 \<or> (of_char c :: nat) = 95 \<or>
     65 \<le> (of_char c :: nat) \<and> (of_char c :: nat) \<le> 90 \<or> 97 \<le> (of_char c :: nat) \<and> (of_char c :: nat) \<le> 122"

text \<open>
  The hash has 32 bytes. \<open>URL_SAFE_NO_PAD\<close> is a strict codec: it decodes exactly what it encodes,
  over the URL-safe alphabet, with four characters for three bytes. Hex reads back what it wrote,
  two lower-case digits per byte.
\<close>

definition transport_laws :: "'sl transport_env \<Rightarrow> bool" where
  "transport_laws env \<longleftrightarrow>
     (\<forall>b. length (te_hash env b) = 32) \<and>
     (\<forall>b s. te_b64_decode env s = Some b \<longleftrightarrow> te_b64_encode env b = s) \<and>
     (\<forall>b. 3 * length (te_b64_encode env b) \<le> 4 * length b + 2) \<and>
     (\<forall>b. list_all url_safe (te_b64_encode env b)) \<and>
     (\<forall>b. te_hex_decode env (te_hex_encode env b) = Some b) \<and>
     (\<forall>b. length (te_hex_encode env b) = 2 * length b) \<and>
     (\<forall>b. list_all is_lower_hex (te_hex_encode env b))"

subsection \<open>Slates\<close>

definition encode_slate :: "'sl transport_env \<Rightarrow> 'sl \<Rightarrow> protocol_error + bytes" where
  "encode_slate env slate = ok_or (te_slate_serialize env slate) PE_InvalidCanonicalEncoding"

definition decode_slate :: "'sl transport_env \<Rightarrow> bytes \<Rightarrow> protocol_error + 'sl" where
  "decode_slate env bs =
     (if MAX_TRANSPORT_BYTES < length bs then Inl PE_InvalidCanonicalEncoding
      else ok_or (te_slate_deserialize env bs) PE_InvalidCanonicalEncoding)"

definition canonical_slate :: "'sl transport_env \<Rightarrow> bytes \<Rightarrow> protocol_error + unit" where
  "canonical_slate env bs =
     res_bind (decode_slate env bs) (\<lambda>slate.
     res_bind (encode_slate env slate) (\<lambda>canonical.
       ensure (canonical = bs) PE_InvalidCanonicalEncoding))"

subsection \<open>The transport text\<close>

record transport_envelope =
  en_version :: u8
  en_response :: bool
  en_network :: string
  en_chain_id :: bytes
  en_slate_id :: uuid
  en_payload :: bytes
  en_content_hash :: bytes

definition canonical_network :: "string \<Rightarrow> protocol_error + string" where
  "canonical_network value =
     (if value \<in> {''PRIVATE_TESTNET'', ''PUBLIC_TESTNET'', ''MAINNET''} then Inr value
      else Inl PE_InvalidTransport)"

definition transport_body :: "string \<Rightarrow> bytes \<Rightarrow> uuid \<Rightarrow> bool \<Rightarrow> bytes \<Rightarrow> bytes" where
  "transport_body network chain_id slate_id response slate_bytes =
     [1, if response then 1 else 0, of_nat (length network)] @ ascii network @ chain_id
       @ uuid_bytes slate_id @ u32_le_bytes (of_nat (length slate_bytes)) @ slate_bytes"

definition export_transport ::
  "'sl transport_env \<Rightarrow> string \<Rightarrow> bytes \<Rightarrow> uuid \<Rightarrow> bool \<Rightarrow> bytes \<Rightarrow> protocol_error + string" where
  "export_transport env network chain_id slate_id response slate_bytes =
     (if MAX_TRANSPORT_BYTES < length slate_bytes then Inl PE_InvalidTransport
      else res_bind (canonical_slate env slate_bytes) (\<lambda>_.
           res_bind (canonical_network network) (\<lambda>network.
             if 256 \<le> length network \<or> 2 ^ 32 \<le> length slate_bytes then Inl PE_InvalidTransport
             else let body = transport_body network chain_id slate_id response slate_bytes
                  in Inr (TRANSPORT_PREFIX @ te_b64_encode env (body @ te_hash env body)))))"

text \<open>\<open>take\<close>: the next bytes of the input and the rest; the offset is what has been consumed.\<close>

definition take_bytes :: "nat \<Rightarrow> bytes \<Rightarrow> protocol_error + (bytes \<times> bytes)" where
  "take_bytes n bs = (if length bs < n then Inl PE_InvalidTransport else Inr (take n bs, drop n bs))"

definition take_u8 :: "bytes \<Rightarrow> protocol_error + (u8 \<times> bytes)" where
  "take_u8 bs = res_bind (take_bytes 1 bs) (\<lambda>(v, rest). Inr (hd v, rest))"

definition parse_body :: "'sl transport_env \<Rightarrow> bytes \<Rightarrow> bytes \<Rightarrow> protocol_error + transport_envelope" where
  "parse_body env body supplied_hash =
     res_bind (take_u8 body) (\<lambda>(version, r1).
     res_bind (ensure (version = 1) PE_InvalidTransport) (\<lambda>_.
     res_bind (take_u8 r1) (\<lambda>(flag, r2).
     res_bind (if flag = 0 then Inr False else if flag = 1 then Inr True else Inl PE_InvalidTransport)
       (\<lambda>response.
     res_bind (take_u8 r2) (\<lambda>(network_len, r3).
     res_bind (take_bytes (unat network_len) r3) (\<lambda>(network_bytes, r4).
     res_bind (ensure (utf8_valid network_bytes) PE_InvalidTransport) (\<lambda>_.
     res_bind (canonical_network (string_of_bytes network_bytes)) (\<lambda>network.
     res_bind (take_bytes 32 r4) (\<lambda>(chain_id, r5).
     res_bind (take_bytes 16 r5) (\<lambda>(uuid, r6).
     res_bind (take_bytes 4 r6) (\<lambda>(len, r7).
     let payload_len = unat (of_le_bytes len :: u32) in
     res_bind (ensure (payload_len \<le> MAX_TRANSPORT_BYTES) PE_InvalidTransport) (\<lambda>_.
     res_bind (take_bytes payload_len r7) (\<lambda>(payload, r8).
     res_bind (ensure (r8 = []) PE_InvalidCanonicalEncoding) (\<lambda>_.
     res_bind (canonical_slate env payload) (\<lambda>_.
       Inr \<lparr>en_version = version, en_response = response, en_network = network, en_chain_id = chain_id,
            en_slate_id = uuid_from_bytes uuid, en_payload = payload,
            en_content_hash = supplied_hash\<rparr>)))))))))))))))"

definition import_transport :: "'sl transport_env \<Rightarrow> string \<Rightarrow> protocol_error + transport_envelope" where
  "import_transport env text =
     (if 2 * MAX_TRANSPORT_BYTES + 128 < length text \<or> \<not> is_ascii text
       \<or> list_ex is_ascii_whitespace text \<or> \<not> starts_with text TRANSPORT_PREFIX
      then Inl PE_InvalidTransport
      else let encoded = drop (length TRANSPORT_PREFIX) text in
        if encoded = [] \<or> CHR ''='' \<in> set encoded then Inl PE_InvalidTransport
        else res_bind (ok_or (te_b64_decode env encoded) PE_InvalidTransport) (\<lambda>bs.
          if length bs < 1 + 1 + 1 + 32 + 16 + 4 + 32 then Inl PE_InvalidTransport
          else let without_hash = take (length bs - 32) bs; supplied_hash = drop (length bs - 32) bs in
            if te_hash env without_hash \<noteq> supplied_hash then Inl PE_InvalidTransport
            else parse_body env without_hash supplied_hash))"

subsection \<open>QR frames\<close>

datatype qr_encoding =
    QR_Single string bytes
  | QR_Multi "string list" bytes

definition frame_integrity :: "bytes \<Rightarrow> u16 \<Rightarrow> u16 \<Rightarrow> bytes \<Rightarrow> bytes" where
  "frame_integrity message_id index total_frames payload =
     message_id @ u16_le_bytes index @ u16_le_bytes total_frames @ payload"

definition qr_frame :: "'sl transport_env \<Rightarrow> bytes \<Rightarrow> u16 \<Rightarrow> u16 \<Rightarrow> bytes \<Rightarrow> string" where
  "qr_frame env message_id index total_frames chunk =
     QR_FRAME_PREFIX @ te_hex_encode env message_id @ ''.'' @ nat_to_string (unat index) @ ''.''
       @ nat_to_string (unat total_frames) @ ''.'' @ te_b64_encode env chunk @ ''.''
       @ te_hex_encode env (te_hash env (frame_integrity message_id index total_frames chunk))"

definition qr_encode_transport :: "'sl transport_env \<Rightarrow> string \<Rightarrow> protocol_error + qr_encoding" where
  "qr_encode_transport env text =
     res_bind (import_transport env text) (\<lambda>envelope.
       if length text \<le> MAX_QR_SINGLE_TEXT_BYTES then Inr (QR_Single text (en_content_hash envelope))
       else let message_id = en_content_hash envelope;
                total_frames = (length text + QR_FRAME_PAYLOAD_BYTES - 1) div QR_FRAME_PAYLOAD_BYTES in
         if total_frames = 0 \<or> MAX_QR_FRAMES < total_frames \<or> 2 ^ 16 \<le> total_frames then Inl PE_InvalidQrFrame
         else let chunks = chunks_of QR_FRAME_PAYLOAD_BYTES (ascii text) in
           if 2 ^ 16 < length chunks then Inl PE_InvalidQrFrame
           else Inr (QR_Multi (map (\<lambda>(i, chunk). qr_frame env message_id (of_nat i) (of_nat total_frames) chunk)
                       (enumerate 0 chunks)) message_id))"

record parsed_qr_frame =
  pf_message_id :: bytes
  pf_index :: u16
  pf_total :: u16
  pf_payload :: bytes

definition frame_shape_bad :: "string \<Rightarrow> u16 \<Rightarrow> u16 \<Rightarrow> string \<Rightarrow> string \<Rightarrow> bool" where
  "frame_shape_bad id_hex index total_frames encoded checksum_hex \<longleftrightarrow>
     total_frames = 0 \<or> MAX_QR_FRAMES < unat total_frames \<or> total_frames \<le> index \<or> length id_hex \<noteq> 64
   \<or> length checksum_hex \<noteq> 64 \<or> \<not> list_all is_lower_hex id_hex \<or> \<not> list_all is_lower_hex checksum_hex
   \<or> CHR ''='' \<in> set encoded"

definition parse_qr_frame :: "'sl transport_env \<Rightarrow> string \<Rightarrow> protocol_error + parsed_qr_frame" where
  "parse_qr_frame env value =
     (if QR_FRAME_PAYLOAD_BYTES * 2 + 256 < length value \<or> \<not> is_ascii value
       \<or> list_ex is_ascii_whitespace value
      then Inl PE_InvalidQrFrame
      else case split_on (CHR ''.'') value of
        [tag, id_hex, index_text, total_text, encoded, checksum_hex] \<Rightarrow>
          if tag \<noteq> ''DOMQR1'' then Inl PE_InvalidQrFrame
          else res_bind (ok_or (parse_u16 index_text) PE_InvalidQrFrame) (\<lambda>index.
               res_bind (ok_or (parse_u16 total_text) PE_InvalidQrFrame) (\<lambda>total_frames.
                 if frame_shape_bad id_hex index total_frames encoded checksum_hex then Inl PE_InvalidQrFrame
                 else res_bind (ok_or (te_hex_decode env id_hex) PE_InvalidQrFrame) (\<lambda>message_id.
                      res_bind (ok_or (te_hex_decode env checksum_hex) PE_InvalidQrFrame) (\<lambda>checksum.
                      if length message_id \<noteq> 32 then Inl PE_InvalidQrFrame
                      else res_bind (ok_or (te_b64_decode env encoded) PE_InvalidQrFrame) (\<lambda>payload.
                        if QR_FRAME_PAYLOAD_BYTES < length payload then Inl PE_InvalidQrFrame
                        else if te_hash env (frame_integrity message_id index total_frames payload) \<noteq> checksum
                        then Inl PE_InvalidQrFrame
                        else Inr \<lparr>pf_message_id = message_id, pf_index = index, pf_total = total_frames,
                                  pf_payload = payload\<rparr>)))))
      | _ \<Rightarrow> Inl PE_InvalidQrFrame)"

subsection \<open>Reassembly\<close>

record qr_reassembly_status =
  qs_message_id :: "bytes option"
  qs_received_frames :: u16
  qs_total_frames :: u16
  qs_complete_text :: "string option"

record qr_reassembler =
  qr_message_id :: "bytes option"
  qr_total_frames :: "u16 option"
  qr_frames :: "(u16 \<times> bytes) list"

definition qr_default :: qr_reassembler where
  "qr_default = \<lparr>qr_message_id = None, qr_total_frames = None, qr_frames = []\<rparr>"

definition u16_count :: "nat \<Rightarrow> u16 option" where
  "u16_count n = (if n < 2 ^ 16 then Some (of_nat n) else None)"

definition qr_status :: "qr_reassembler \<Rightarrow> qr_reassembly_status" where
  "qr_status q =
     \<lparr>qs_message_id = qr_message_id q,
      qs_received_frames = (case u16_count (length (qr_frames q)) of None \<Rightarrow> - 1 | Some n \<Rightarrow> n),
      qs_total_frames = (case qr_total_frames q of None \<Rightarrow> 0 | Some n \<Rightarrow> n), qs_complete_text = None\<rparr>"

definition qr_clear :: "qr_reassembler \<Rightarrow> qr_reassembler" where
  "qr_clear q = q\<lparr>qr_message_id := None, qr_total_frames := None, qr_frames := []\<rparr>"

definition accept_header :: "parsed_qr_frame \<Rightarrow> (qr_reassembler, protocol_error, unit) meth" where
  "accept_header frame q =
     (case (qr_message_id q, qr_total_frames q) of
        (None, None) \<Rightarrow>
          (Inr (), q\<lparr>qr_message_id := Some (pf_message_id frame), qr_total_frames := Some (pf_total frame)\<rparr>)
      | (Some message_id, Some total_frames) \<Rightarrow>
          if message_id = pf_message_id frame \<and> total_frames = pf_total frame then (Inr (), q)
          else (Inl PE_InvalidQrFrame, q)
      | _ \<Rightarrow> (Inl PE_InvalidQrFrame, q))"

definition store_frame :: "parsed_qr_frame \<Rightarrow> (qr_reassembler, protocol_error, unit) meth" where
  "store_frame frame q =
     (case map_of (qr_frames q) (pf_index frame) of
        Some existing \<Rightarrow> (if existing \<noteq> pf_payload frame then Inl PE_InvalidQrFrame else Inr (), q)
      | None \<Rightarrow> (Inr (), q\<lparr>qr_frames := qr_frames q @ [(pf_index frame, pf_payload frame)]\<rparr>))"

fun gather_frames :: "(u16 \<times> bytes) list \<Rightarrow> nat list \<Rightarrow> protocol_error + bytes" where
  "gather_frames frames [] = Inr []"
| "gather_frames frames (i # is) =
     res_bind (ok_or (map_of frames (of_nat i)) PE_InvalidQrFrame) (\<lambda>payload.
     res_bind (gather_frames frames is) (\<lambda>rest. Inr (payload @ rest)))"

definition complete_text :: "'sl transport_env \<Rightarrow> qr_reassembler \<Rightarrow> u16 \<Rightarrow> protocol_error + string" where
  "complete_text env q total_frames =
     res_bind (gather_frames (qr_frames q) [0 ..< unat total_frames]) (\<lambda>bs.
       if 2 * MAX_TRANSPORT_BYTES + 128 < length bs \<or> \<not> utf8_valid bs then Inl PE_InvalidQrFrame
       else res_bind (import_transport env (string_of_bytes bs)) (\<lambda>envelope.
         if Some (en_content_hash envelope) \<noteq> qr_message_id q then Inl PE_InvalidQrFrame
         else Inr (string_of_bytes bs)))"

definition finish_push :: "'sl transport_env \<Rightarrow> qr_reassembler \<Rightarrow> protocol_error + qr_reassembly_status" where
  "finish_push env q =
     res_bind (ok_or (qr_total_frames q) PE_InvalidQrFrame) (\<lambda>total_frames.
       if unat total_frames < length (qr_frames q) then Inl PE_InvalidQrFrame
       else res_bind (if length (qr_frames q) = unat total_frames
                      then res_bind (complete_text env q total_frames) (\<lambda>text. Inr (Some text))
                      else Inr None) (\<lambda>complete.
            res_bind (ok_or (u16_count (length (qr_frames q))) PE_InvalidQrFrame) (\<lambda>received.
              Inr \<lparr>qs_message_id = qr_message_id q, qs_received_frames = received,
                   qs_total_frames = total_frames, qs_complete_text = complete\<rparr>)))"

definition qr_push ::
  "'sl transport_env \<Rightarrow> string \<Rightarrow> (qr_reassembler, protocol_error, qr_reassembly_status) meth" where
  "qr_push env scanned q =
     (if starts_with scanned TRANSPORT_PREFIX
      then (if qr_message_id q \<noteq> None then Inl PE_InvalidQrFrame
            else res_bind (import_transport env scanned) (\<lambda>envelope.
              Inr \<lparr>qs_message_id = Some (en_content_hash envelope), qs_received_frames = 1,
                   qs_total_frames = 1, qs_complete_text = Some scanned\<rparr>), q)
      else case parse_qr_frame env scanned of
        Inl e \<Rightarrow> (Inl e, q)
      | Inr frame \<Rightarrow>
          op_then (accept_header frame) (\<lambda>_.
          op_then (store_frame frame) (\<lambda>_ q. (finish_push env q, q))) q)"

subsection \<open>Reading back what was written\<close>

lemma take_bytes_iff [res_simps]: "take_bytes n bs = Inr (v, rest) \<longleftrightarrow> bs = v @ rest \<and> length v = n"
proof
  assume "take_bytes n bs = Inr (v, rest)"
  then show "bs = v @ rest \<and> length v = n"
    by (auto simp: take_bytes_def min_def not_less split: if_splits)
qed (auto simp: take_bytes_def)

lemma take_u8_iff [res_simps]: "take_u8 bs = Inr (v, rest) \<longleftrightarrow> bs = v # rest"
proof
  assume "take_u8 bs = Inr (v, rest)"
  then obtain x where "bs = x @ rest" "length x = 1" "v = hd x" by (auto simp: take_u8_def res_simps)
  then show "bs = v # rest" by (cases x) auto
qed (auto simp: take_u8_def take_bytes_def)

lemma canonical_networkD:
  assumes "canonical_network n = Inr m"
  shows "m = n" "length n \<le> 15" "is_ascii n"
  using assms by (auto simp: canonical_network_def is_ascii_def split: if_splits)

lemma parse_body_iff:
  "parse_body env body h = Inr e \<longleftrightarrow>
     body = transport_body (en_network e) (en_chain_id e) (en_slate_id e) (en_response e) (en_payload e) \<and>
     en_version e = 1 \<and> en_content_hash e = h \<and> length (en_chain_id e) = 32 \<and>
     canonical_network (en_network e) = Inr (en_network e) \<and>
     length (en_payload e) \<le> MAX_TRANSPORT_BYTES \<and> canonical_slate env (en_payload e) = Inr ()"
  (is "?parse \<longleftrightarrow> ?body \<and> ?rest")
proof
  assume ?parse
  then obtain flag nlen nb chain uid len payload where
    body: "body = 1 # flag # nlen # nb @ chain @ uid @ len @ payload"
    and lens: "length nb = unat nlen" "length chain = 32" "length uid = 16" "length len = 4"
      "length payload = unat (of_le_bytes len :: u32)"
    and net: "canonical_network (string_of_bytes nb) = Inr (en_network e)"
    and flag: "flag = (if en_response e then 1 else 0)"
    and e: "e = \<lparr>en_version = 1, en_response = en_response e, en_network = en_network e, en_chain_id = chain,
            en_slate_id = uuid_from_bytes uid, en_payload = payload, en_content_hash = h\<rparr>"
    and ok: "length payload \<le> MAX_TRANSPORT_BYTES" "canonical_slate env payload = Inr ()"
    by (auto simp: parse_body_def res_simps Let_def split: if_splits)
  have nb: "en_network e = string_of_bytes nb" using canonical_networkD(1) [OF net] by simp
  have "of_nat (length (en_network e)) = nlen" using lens(1) by (simp add: nb)
  moreover have "u32_le_bytes (of_nat (length payload)) = len"
    using lens(4,5) by simp
  ultimately have ?body
    using body lens flag by (simp add: transport_body_def nb) (subst e, simp)+
  moreover have "en_version e = 1 \<and> en_content_hash e = h \<and> en_chain_id e = chain \<and> en_payload e = payload"
    by (subst e, simp)+
  ultimately show "?body \<and> ?rest" using lens(2) net nb ok by simp
next
  assume rhs: "?body \<and> ?rest"
  then have net: "canonical_network (en_network e) = Inr (en_network e)" by simp
  note n = canonical_networkD [OF net]
  have "unat (of_nat (length (en_network e)) :: u8) = length (en_network e)"
    using n(2) by (intro unat_of_nat_word) simp
  moreover have "unat (of_nat (length (en_payload e)) :: u32) = length (en_payload e)"
    using rhs by (intro unat_of_nat_word) (simp add: MAX_TRANSPORT_BYTES_def)
  ultimately show ?parse
    using rhs net utf8_valid_ascii [OF n(3)]
    by (simp add: parse_body_def transport_body_def take_u8_def take_bytes_def Let_def)
qed

lemma transport_lawsD:
  assumes "transport_laws env"
  shows "length (te_hash env b) = 32" "te_b64_decode env s = Some b \<longleftrightarrow> te_b64_encode env b = s"
    "3 * length (te_b64_encode env b) \<le> 4 * length b + 2" "list_all url_safe (te_b64_encode env b)"
    "te_hex_decode env (te_hex_encode env b) = Some b" "length (te_hex_encode env b) = 2 * length b"
    "list_all is_lower_hex (te_hex_encode env b)"
  using assms by (simp_all add: transport_laws_def)

lemma b64_decode_encode: "transport_laws env \<Longrightarrow> te_b64_decode env (te_b64_encode env b) = Some b"
  by (simp add: transport_lawsD(2))

lemma b64_Nil:
  assumes "transport_laws env"
  shows "te_b64_encode env b = [] \<longleftrightarrow> b = []"
proof -
  have "3 * length (te_b64_encode env []) \<le> 4 * length ([] :: bytes) + 2"
    by (rule transport_lawsD(3) [OF assms])
  then have "length (te_b64_encode env []) = 0" by (simp only: list.size)
  then have nil: "te_b64_encode env [] = []" by simp
  then have "te_b64_decode env [] = Some []" by (simp add: transport_lawsD(2) [OF assms])
  then show ?thesis using nil transport_lawsD(2) [OF assms, of "[]" b] by auto
qed

lemma url_safe_plain:
  assumes "url_safe c"
  shows "(of_char c :: nat) < 128" "\<not> is_ascii_whitespace c" "c \<noteq> CHR ''=''" "c \<noteq> CHR ''.''"
  using assms by (auto simp: url_safe_def is_ascii_digit_def is_ascii_whitespace_def)

lemma is_ascii_append [simp]: "is_ascii (s @ t) \<longleftrightarrow> is_ascii s \<and> is_ascii t"
  by (auto simp: is_ascii_def)

lemma is_ascii_simps [simp]:
  "is_ascii []" "is_ascii (c # s) \<longleftrightarrow> (of_char c :: nat) < 128 \<and> is_ascii s"
  by (auto simp: is_ascii_def)

lemma b64_plain:
  assumes "transport_laws env"
  shows "is_ascii (te_b64_encode env b)" "\<not> list_ex is_ascii_whitespace (te_b64_encode env b)"
    "CHR ''='' \<notin> set (te_b64_encode env b)" "CHR ''.'' \<notin> set (te_b64_encode env b)"
  using transport_lawsD(4) [OF assms, of b] url_safe_plain
  unfolding list_all_iff is_ascii_def list_ex_iff by blast+

lemma prefix_plain: "is_ascii TRANSPORT_PREFIX" "\<not> list_ex is_ascii_whitespace TRANSPORT_PREFIX"
  by (simp_all add: TRANSPORT_PREFIX_def is_ascii_def is_ascii_whitespace_def)

lemma length_transport_body:
  "length (transport_body n c i r p) = 3 + length n + length c + 16 + 4 + length p"
  by (simp add: transport_body_def)

definition envelope_body :: "transport_envelope \<Rightarrow> bytes" where
  "envelope_body e = transport_body (en_network e) (en_chain_id e) (en_slate_id e) (en_response e) (en_payload e)"

lemma import_of_encoded:
  assumes laws: "transport_laws env" and short: "length body \<le> MAX_TRANSPORT_BYTES + 70" and "55 \<le> length body"
  shows "import_transport env (TRANSPORT_PREFIX @ te_b64_encode env (body @ te_hash env body)) =
     parse_body env body (te_hash env body)"
proof -
  have "3 * length (te_b64_encode env (body @ te_hash env body)) \<le> 4 * (length body + 32) + 2"
    using transport_lawsD(3) [OF laws, of "body @ te_hash env body"] transport_lawsD(1) [OF laws] by simp
  then have "length TRANSPORT_PREFIX + length (te_b64_encode env (body @ te_hash env body))
      \<le> 2 * MAX_TRANSPORT_BYTES + 128"
    using short by (simp add: MAX_TRANSPORT_BYTES_def TRANSPORT_PREFIX_def)
  moreover have "te_b64_decode env (te_b64_encode env (body @ te_hash env body)) = Some (body @ te_hash env body)"
    by (simp add: transport_lawsD(2) [OF laws])
  moreover have "te_b64_encode env (body @ te_hash env body) \<noteq> []"
    using assms(3) by (auto simp: b64_Nil [OF laws])
  ultimately show ?thesis
    using assms(3) b64_plain [OF laws] prefix_plain
    by (simp add: import_transport_def Let_def transport_lawsD(1) [OF laws])
qed

lemma import_shape:
  assumes laws: "transport_laws env" and "import_transport env text = Inr e"
  obtains body where "text = TRANSPORT_PREFIX @ te_b64_encode env (body @ te_hash env body)"
    "parse_body env body (te_hash env body) = Inr e"
proof -
  let ?enc = "drop (length TRANSPORT_PREFIX) text"
  have "starts_with text TRANSPORT_PREFIX" using assms(2) by (auto simp: import_transport_def split: if_splits)
  then have shape: "text = TRANSPORT_PREFIX @ ?enc" by (rule starts_withD)
  obtain bs where bs: "te_b64_decode env ?enc = Some bs" "te_hash env (take (length bs - 32) bs) = drop (length bs - 32) bs"
    "parse_body env (take (length bs - 32) bs) (drop (length bs - 32) bs) = Inr e"
    using assms(2) by (auto simp: import_transport_def Let_def res_simps split: if_splits)
  let ?body = "take (length bs - 32) bs"
  have "bs = ?body @ te_hash env ?body" using bs(2) by simp
  then have "te_b64_encode env (?body @ te_hash env ?body) = ?enc"
    using bs(1) transport_lawsD(2) [OF laws, of ?enc bs] by simp
  with shape bs that [of ?body] show thesis by simp
qed

lemma transport_iff:
  assumes laws: "transport_laws env"
  shows "import_transport env text = Inr e \<longleftrightarrow>
    en_version e = 1 \<and> length (en_chain_id e) = 32 \<and> en_content_hash e = te_hash env (envelope_body e) \<and>
    export_transport env (en_network e) (en_chain_id e) (en_slate_id e) (en_response e) (en_payload e) = Inr text"
    (is "?import \<longleftrightarrow> ?export")
proof
  assume ?import
  then obtain body where shape: "text = TRANSPORT_PREFIX @ te_b64_encode env (body @ te_hash env body)"
    and "parse_body env body (te_hash env body) = Inr e"
    by (rule import_shape [OF laws])
  then show ?export
    using canonical_networkD(2) [of "en_network e" "en_network e"]
    by (auto simp: parse_body_iff export_transport_def envelope_body_def MAX_TRANSPORT_BYTES_def Let_def)
next
  assume ?export
  then have net: "canonical_network (en_network e) = Inr (en_network e)"
    and ok: "length (en_payload e) \<le> MAX_TRANSPORT_BYTES" "canonical_slate env (en_payload e) = Inr ()"
    and shape: "text = TRANSPORT_PREFIX @ te_b64_encode env (envelope_body e @ te_hash env (envelope_body e))"
    by (auto simp: export_transport_def envelope_body_def res_simps Let_def dest: canonical_networkD(1)
        split: if_splits)
  have len: "length (envelope_body e) \<le> MAX_TRANSPORT_BYTES + 70" "55 \<le> length (envelope_body e)"
    using \<open>?export\<close> canonical_networkD(2) [OF net] ok(1) by (simp_all add: envelope_body_def length_transport_body)
  show ?import
    unfolding shape import_of_encoded [OF laws len]
    using \<open>?export\<close> net ok by (simp add: parse_body_iff envelope_body_def)
qed

subsection \<open>Frames\<close>

lemma lower_hex_plain:
  assumes "is_lower_hex c"
  shows "(of_char c :: nat) < 128" "\<not> is_ascii_whitespace c" "c \<noteq> CHR ''.''"
  using assms by (auto simp: is_lower_hex_def is_ascii_digit_def is_ascii_whitespace_def)

lemma digit_plain:
  assumes "is_ascii_digit c"
  shows "(of_char c :: nat) < 128" "\<not> is_ascii_whitespace c" "c \<noteq> CHR ''.''"
  using assms by (auto simp: is_ascii_digit_def is_ascii_whitespace_def)

text \<open>A field of a frame: ASCII without whitespace and without the separator.\<close>

definition plain_field :: "string \<Rightarrow> bool" where
  "plain_field s \<longleftrightarrow> is_ascii s \<and> \<not> list_ex is_ascii_whitespace s \<and> CHR ''.'' \<notin> set s"

lemma plain_fieldI:
  "(\<And>c. c \<in> set s \<Longrightarrow> (of_char c :: nat) < 128) \<Longrightarrow> (\<And>c. c \<in> set s \<Longrightarrow> \<not> is_ascii_whitespace c) \<Longrightarrow>
   (\<And>c. c \<in> set s \<Longrightarrow> c \<noteq> CHR ''.'') \<Longrightarrow> plain_field s"
  by (auto simp: plain_field_def is_ascii_def list_ex_iff)

lemma plain_fields:
  assumes "transport_laws env"
  shows "plain_field (te_hex_encode env b)" "plain_field (te_b64_encode env b)" "plain_field (nat_to_string n)"
    "plain_field ''DOMQR1''"
proof -
  show "plain_field (te_hex_encode env b)"
    using transport_lawsD(7) [OF assms, of b] by (intro plain_fieldI) (simp_all add: list_all_iff lower_hex_plain)
  show "plain_field (te_b64_encode env b)" using b64_plain [OF assms] by (simp add: plain_field_def)
  show "plain_field (nat_to_string n)"
    using nat_to_string_digits by (intro plain_fieldI) (simp_all add: digit_plain)
  show "plain_field ''DOMQR1''" by (simp add: plain_field_def is_ascii_def is_ascii_whitespace_def)
qed

lemma qr_frame_parse:
  assumes laws: "transport_laws env" and "length h = 32" and "unat n \<le> MAX_QR_FRAMES" and "i < n"
    and "length chunk \<le> QR_FRAME_PAYLOAD_BYTES"
  shows "parse_qr_frame env (qr_frame env h i n chunk) =
    Inr \<lparr>pf_message_id = h, pf_index = i, pf_total = n, pf_payload = chunk\<rparr>"
proof -
  let ?sum = "te_hash env (frame_integrity h i n chunk)"
  let ?fields = "[''DOMQR1'', te_hex_encode env h, nat_to_string (unat i), nat_to_string (unat n),
      te_b64_encode env chunk, te_hex_encode env ?sum]"
  note plain = plain_fields [OF laws, unfolded plain_field_def]
  have split: "split_on (CHR ''.'') (qr_frame env h i n chunk) = ?fields"
    using plain by (simp add: qr_frame_def QR_FRAME_PREFIX_def)
  have ascii: "is_ascii (qr_frame env h i n chunk)" "\<not> list_ex is_ascii_whitespace (qr_frame env h i n chunk)"
    using plain by (simp_all add: qr_frame_def QR_FRAME_PREFIX_def is_ascii_whitespace_def)
  have "unat i < unat n" using assms(4) by (simp add: word_less_nat_alt)
  then have "length (nat_to_string (unat i)) \<le> 3" "length (nat_to_string (unat n)) \<le> 3"
    using assms(3) by (auto simp: MAX_QR_FRAMES_def intro!: length_nat_to_string_le)
  moreover have "3 * length (te_b64_encode env chunk) \<le> 4 * length chunk + 2"
    by (rule transport_lawsD(3) [OF laws])
  ultimately have len: "length (qr_frame env h i n chunk) \<le> QR_FRAME_PAYLOAD_BYTES * 2 + 256"
    using assms(2,5) by (simp add: qr_frame_def QR_FRAME_PREFIX_def QR_FRAME_PAYLOAD_BYTES_def
        transport_lawsD(1,6) [OF laws])
  have shape: "\<not> frame_shape_bad (te_hex_encode env h) i n (te_b64_encode env chunk) (te_hex_encode env ?sum)"
    using assms(2,3,4) b64_plain(3) [OF laws]
    by (auto simp: frame_shape_bad_def transport_lawsD(1,6,7) [OF laws] not_le)
  show ?thesis
    using assms(2,5) ascii len shape
    by (simp add: parse_qr_frame_def split transport_lawsD(5) [OF laws] b64_decode_encode [OF laws])
qed

subsection \<open>Reassembling in any order\<close>

text \<open>The scanner feeds the reassembler one text after the other; the results in order.\<close>

fun qr_scan ::
  "'sl transport_env \<Rightarrow> string list \<Rightarrow> qr_reassembler \<Rightarrow>
     (protocol_error + qr_reassembly_status) list \<times> qr_reassembler" where
  "qr_scan env [] q = ([], q)"
| "qr_scan env (p # ps) q =
     (case qr_push env p q of (r, q1) \<Rightarrow> (case qr_scan env ps q1 of (rs, q2) \<Rightarrow> (r # rs, q2)))"

text \<open>The reassembler has stored exactly the chunks with the indices \<open>I\<close>.\<close>

definition qr_holds :: "bytes \<Rightarrow> bytes list \<Rightarrow> nat set \<Rightarrow> qr_reassembler \<Rightarrow> bool" where
  "qr_holds h cs I q \<longleftrightarrow>
     I \<subseteq> {..< length cs} \<and> distinct (map fst (qr_frames q)) \<and>
     set (qr_frames q) = (\<lambda>i. (of_nat i, cs ! i)) ` I \<and>
     (if I = {} then q = qr_default
      else qr_message_id q = Some h \<and> qr_total_frames q = Some (of_nat (length cs)))"

lemma u16_of_nat_inject: "i < 65536 \<Longrightarrow> j < 65536 \<Longrightarrow> (of_nat i :: u16) = of_nat j \<Longrightarrow> i = j"
proof -
  assume i: "i < 65536" and j: "j < 65536" and eq: "(of_nat i :: u16) = of_nat j"
  have "unat (of_nat i :: u16) = i" by (rule unat_of_nat_word) (use i in simp)
  moreover have "unat (of_nat j :: u16) = j" by (rule unat_of_nat_word) (use j in simp)
  ultimately show "i = j" using eq by metis
qed

lemma qr_holds_small:
  "qr_holds h cs I q \<Longrightarrow> length cs < 65536 \<Longrightarrow> i \<in> I \<Longrightarrow> i < 65536"
  unfolding qr_holds_def by (meson less_trans lessThan_iff subsetD)

lemma qr_holds_length:
  assumes "qr_holds h cs I q" and "length cs < 65536"
  shows "length (qr_frames q) = card I"
proof -
  have "inj_on (\<lambda>i. (of_nat i :: u16, cs ! i)) I"
    by (intro inj_onI) (auto intro: u16_of_nat_inject qr_holds_small [OF assms])
  then have "card (set (qr_frames q)) = card I" using assms(1) by (simp add: qr_holds_def card_image)
  moreover have "distinct (qr_frames q)" using assms(1) by (simp add: qr_holds_def distinct_map)
  ultimately show ?thesis using distinct_card by fastforce
qed

lemma qr_holds_lookup:
  assumes "qr_holds h cs I q" and "length cs < 65536" and "i < length cs"
  shows "map_of (qr_frames q) (of_nat i) = (if i \<in> I then Some (cs ! i) else None)"
proof (cases "i \<in> I")
  case True
  then have "(of_nat i, cs ! i) \<in> set (qr_frames q)" using assms(1) by (auto simp: qr_holds_def)
  then show ?thesis using True assms(1) by (simp add: qr_holds_def)
next
  case False
  have "of_nat i \<notin> fst ` set (qr_frames q)"
  proof
    assume "of_nat i \<in> fst ` set (qr_frames q)"
    then obtain j where "j \<in> I" "(of_nat i :: u16) = of_nat j" using assms(1) by (auto simp: qr_holds_def)
    then have "i = j" using assms qr_holds_small [OF assms(1,2)] by (intro u16_of_nat_inject) auto
    then show False using False \<open>j \<in> I\<close> by simp
  qed
  then show ?thesis using False by (simp add: map_of_eq_None_iff)
qed

lemma gather_frames_all:
  "\<forall>i \<in> set is. map_of frames (of_nat i) = Some (cs ! i) \<Longrightarrow>
     gather_frames frames is = Inr (concat (map (\<lambda>i. cs ! i) is))"
  by (induction "is") auto

text \<open>One frame of a message with the chunks \<open>cs\<close>.\<close>

definition frame_at :: "'sl transport_env \<Rightarrow> bytes \<Rightarrow> bytes list \<Rightarrow> nat \<Rightarrow> string" where
  "frame_at env h cs i = qr_frame env h (of_nat i) (of_nat (length cs)) (cs ! i)"

text \<open>A text that imports, cut into frames as \<open>qr_encode_transport\<close> cuts it.\<close>

definition framed :: "'sl transport_env \<Rightarrow> string \<Rightarrow> bytes \<Rightarrow> bytes list \<Rightarrow> bool" where
  "framed env msg h cs \<longleftrightarrow>
     (\<exists>e. import_transport env msg = Inr e \<and> en_content_hash e = h) \<and> concat cs = ascii msg \<and>
     length h = 32 \<and> length cs \<le> MAX_QR_FRAMES \<and> (\<forall>c \<in> set cs. length c \<le> QR_FRAME_PAYLOAD_BYTES)"

lemma import_text_bounds:
  assumes "import_transport env msg = Inr e"
  shows "length msg \<le> 2 * MAX_TRANSPORT_BYTES + 128" "is_ascii msg"
  using assms by (auto simp: import_transport_def not_less split: if_splits)

lemma frame_at_parse:
  assumes "transport_laws env" and "framed env msg h cs" and "i < length cs"
  shows "parse_qr_frame env (frame_at env h cs i) =
     Inr \<lparr>pf_message_id = h, pf_index = of_nat i, pf_total = of_nat (length cs), pf_payload = cs ! i\<rparr>"
proof -
  have small: "length cs \<le> 128" using assms(2) by (simp add: framed_def MAX_QR_FRAMES_def)
  then have un: "unat (of_nat (length cs) :: u16) = length cs" "unat (of_nat i :: u16) = i"
    using assms(3) by (simp_all add: unat_of_nat_word)
  show ?thesis
    unfolding frame_at_def
    by (rule qr_frame_parse [OF assms(1)])
      (use assms un in \<open>auto simp: framed_def word_less_nat_alt\<close>)
qed

lemma frame_at_no_transport: "\<not> starts_with (frame_at env h cs i) TRANSPORT_PREFIX"
  by (simp add: frame_at_def qr_frame_def QR_FRAME_PREFIX_def TRANSPORT_PREFIX_def starts_with_def)

lemma frame_at_inj:
  assumes "transport_laws env" and "framed env msg h cs"
  shows "inj_on (frame_at env h cs) {..< length cs}"
proof (rule inj_onI)
  fix i j
  assume ij: "i \<in> {..< length cs}" "j \<in> {..< length cs}" and "frame_at env h cs i = frame_at env h cs j"
  then have "(of_nat i :: u16) = of_nat j" using frame_at_parse [OF assms, of i] frame_at_parse [OF assms, of j] by simp
  moreover have "length cs \<le> 128" using assms(2) by (simp add: framed_def MAX_QR_FRAMES_def)
  ultimately show "i = j" using ij by (intro u16_of_nat_inject) auto
qed

lemma complete_text_ok:
  assumes "framed env msg h cs" and "qr_holds h cs {..< length cs} q" and "cs \<noteq> []"
  shows "complete_text env q (of_nat (length cs)) = Inr msg"
proof -
  have small: "length cs < 65536" using assms(1) by (simp add: framed_def MAX_QR_FRAMES_def)
  have un: "unat (of_nat (length cs) :: u16) = length cs" using small by (simp add: unat_of_nat_word)
  obtain e where e: "import_transport env msg = Inr e" "en_content_hash e = h" and cs: "concat cs = ascii msg"
    using assms(1) by (auto simp: framed_def)
  have "gather_frames (qr_frames q) [0 ..< length cs] = Inr (concat (map (\<lambda>i. cs ! i) [0 ..< length cs]))"
    by (rule gather_frames_all) (simp add: qr_holds_lookup [OF assms(2) small])
  then have "gather_frames (qr_frames q) [0 ..< length cs] = Inr (ascii msg)" by (simp add: map_nth cs)
  moreover have "qr_message_id q = Some h" using assms(2,3) by (auto simp: qr_holds_def lessThan_empty_iff split: if_splits)
  ultimately show ?thesis
    using import_text_bounds [OF e(1)] utf8_valid_ascii e un by (simp add: complete_text_def)
qed

lemma qr_push_frame:
  assumes "transport_laws env" and "framed env msg h cs" and "i < length cs" and "qr_holds h cs I q"
  shows "\<exists>q'. qr_push env (frame_at env h cs i) q =
      (Inr \<lparr>qs_message_id = Some h, qs_received_frames = of_nat (card (insert i I)),
            qs_total_frames = of_nat (length cs),
            qs_complete_text = (if insert i I = {..< length cs} then Some msg else None)\<rparr>, q') \<and>
    qr_holds h cs (insert i I) q'"
proof -
  let ?f = "\<lparr>pf_message_id = h, pf_index = of_nat i, pf_total = of_nat (length cs), pf_payload = cs ! i\<rparr>"
  let ?J = "insert i I"
  have small: "length cs < 65536" using assms(2) by (simp add: framed_def MAX_QR_FRAMES_def)
  have un: "unat (of_nat (length cs) :: u16) = length cs" using small by (simp add: unat_of_nat_word)
  define q1 where "q1 = q\<lparr>qr_message_id := Some h, qr_total_frames := Some (of_nat (length cs))\<rparr>"
  have header: "accept_header ?f q = (Inr (), q1)"
    using assms(4) by (cases "I = {}") (auto simp: qr_holds_def accept_header_def q1_def qr_default_def)
  obtain q2 where store: "store_frame ?f q1 = (Inr (), q2)" and J: "qr_holds h cs ?J q2"
  proof (cases "i \<in> I")
    case True
    then have "store_frame ?f q1 = (Inr (), q1)"
      using qr_holds_lookup [OF assms(4) small assms(3)] by (simp add: store_frame_def q1_def)
    moreover have "q1 = q" using True assms(4) by (cases q) (auto simp: qr_holds_def q1_def split: if_splits)
    ultimately show ?thesis using that assms(4) True by (simp add: insert_absorb)
  next
    case False
    let ?q2 = "q1\<lparr>qr_frames := qr_frames q @ [(of_nat i, cs ! i)]\<rparr>"
    have none: "map_of (qr_frames q) (of_nat i) = None"
      using qr_holds_lookup [OF assms(4) small assms(3)] False by simp
    then have "store_frame ?f q1 = (Inr (), ?q2)" by (simp add: store_frame_def q1_def)
    moreover have "qr_holds h cs ?J ?q2"
      using assms(3,4) none by (auto simp: qr_holds_def q1_def map_of_eq_None_iff)
    ultimately show ?thesis using that by blast
  qed
  have len: "length (qr_frames q2) = card ?J" by (rule qr_holds_length [OF J small])
  have sub: "?J \<subseteq> {..< length cs}" using J by (simp add: qr_holds_def)
  then have le: "card ?J \<le> length cs" using card_mono [of "{..< length cs}" ?J] by simp
  have full: "card ?J = length cs \<longleftrightarrow> ?J = {..< length cs}"
    by (metis card_lessThan card_subset_eq finite_lessThan sub)
  have ids: "qr_message_id q2 = Some h" "qr_total_frames q2 = Some (of_nat (length cs))"
    using J by (simp_all add: qr_holds_def)
  have "finish_push env q2 = Inr \<lparr>qs_message_id = Some h, qs_received_frames = of_nat (card ?J),
            qs_total_frames = of_nat (length cs),
            qs_complete_text = (if ?J = {..< length cs} then Some msg else None)\<rparr>"
  proof (cases "?J = {..< length cs}")
    case True
    have "complete_text env q2 (of_nat (length cs)) = Inr msg"
      by (rule complete_text_ok [OF assms(2) J [unfolded True]]) (use assms(3) in auto)
    then show ?thesis
      using True full len ids un le small by (simp add: finish_push_def u16_count_def)
  next
    case False
    then show ?thesis
      using full len ids un le small by (simp add: finish_push_def u16_count_def)
  qed
  then show ?thesis
    using header store J frame_at_no_transport frame_at_parse [OF assms(1-3)]
    by (auto simp: qr_push_def op_then_def)
qed

definition frame_status :: "bytes \<Rightarrow> string \<Rightarrow> bytes list \<Rightarrow> nat set \<Rightarrow> qr_reassembly_status" where
  "frame_status h msg cs J =
     \<lparr>qs_message_id = Some h, qs_received_frames = of_nat (card J), qs_total_frames = of_nat (length cs),
      qs_complete_text = (if J = {..< length cs} then Some msg else None)\<rparr>"

lemma qr_scan_frames:
  assumes "transport_laws env" and "framed env msg h cs" and "\<forall>j \<in> set js. j < length cs" and "qr_holds h cs I q"
  shows "fst (qr_scan env (map (frame_at env h cs) js) q) =
    map (\<lambda>k. Inr (frame_status h msg cs (I \<union> set (take (Suc k) js)))) [0 ..< length js]"
  using assms(3,4)
proof (induction js arbitrary: I q)
  case Nil
  then show ?case by simp
next
  case (Cons j js)
  obtain q1 where push: "qr_push env (frame_at env h cs j) q = (Inr (frame_status h msg cs (insert j I)), q1)"
    and q1: "qr_holds h cs (insert j I) q1"
    using qr_push_frame [OF assms(1,2) _ Cons.prems(2), of j] Cons.prems(1) by (auto simp: frame_status_def)
  have rest: "fst (qr_scan env (map (frame_at env h cs) js) q1) =
      map (\<lambda>k. Inr (frame_status h msg cs (insert j I \<union> set (take (Suc k) js)))) [0 ..< length js]"
    using Cons.IH [OF _ q1] Cons.prems(1) by simp
  have idx: "[0 ..< length (j # js)] = 0 # map Suc [0 ..< length js]"
    by (simp add: upt_conv_Cons map_Suc_upt del: upt_Suc)
  show ?case
    using rest push unfolding idx by (simp add: case_prod_unfold)
qed

lemma qr_encode_framed:
  assumes laws: "transport_laws env" and "qr_encode_transport env msg = Inr (QR_Multi frames h)"
  obtains cs where "framed env msg h cs" "frames = map (frame_at env h cs) [0 ..< length cs]"
proof -
  let ?cs = "chunks_of QR_FRAME_PAYLOAD_BYTES (ascii msg)"
  have pos: "0 < QR_FRAME_PAYLOAD_BYTES" by (simp add: QR_FRAME_PAYLOAD_BYTES_def)
  have total: "length ?cs = (length msg + QR_FRAME_PAYLOAD_BYTES - 1) div QR_FRAME_PAYLOAD_BYTES"
    using length_chunks_of [OF pos, of "ascii msg"] by simp
  obtain e where e: "import_transport env msg = Inr e" "h = en_content_hash e" "length ?cs \<le> MAX_QR_FRAMES"
    and frames: "frames = map (\<lambda>(i, chunk). qr_frame env h (of_nat i) (of_nat (length ?cs)) chunk) (enumerate 0 ?cs)"
    using assms(2) by (auto simp: qr_encode_transport_def res_simps Let_def total split: if_splits)
  have "length h = 32" using e transport_iff [OF laws] transport_lawsD(1) [OF laws] by simp
  then have "framed env msg h ?cs"
    using e pos chunks_of_length by (auto simp: framed_def)
  moreover have "frames = map (frame_at env h ?cs) [0 ..< length ?cs]"
    unfolding frames by (rule nth_equalityI) (simp_all add: nth_enumerate_eq frame_at_def)
  ultimately show thesis by (rule that)
qed

subsection \<open>Properties\<close>

text \<open>
  C28: importing is exactly the inverse of exporting. A text is accepted as an envelope if and only if
  it is the text that exporting the envelope's own fields produces, with version one and the hash of
  its body: every export reads back unchanged, and no second spelling of an envelope, altered byte
  or truncated text is accepted.
\<close>

theorem transport_exact:
  assumes "transport_laws env"
  shows "import_transport env msg = Inr e \<longleftrightarrow>
    en_version e = 1 \<and> length (en_chain_id e) = 32 \<and>
    en_content_hash e = te_hash env (transport_body (en_network e) (en_chain_id e) (en_slate_id e)
        (en_response e) (en_payload e)) \<and>
    export_transport env (en_network e) (en_chain_id e) (en_slate_id e) (en_response e) (en_payload e) = Inr msg"
  using transport_iff [OF assms, of msg e] by (simp only: envelope_body_def)

text \<open>
  C29: the frames of a QR message can be scanned in any order and any number of times. Whatever
  sequence of its frames is scanned, no scan is refused, every status counts the different frames seen so far,
  and the complete text is reported exactly from the moment the last missing frame was seen, and is
  the text that was encoded.
\<close>

theorem qr_any_order:
  assumes "transport_laws env" and "qr_encode_transport env msg = Inr (QR_Multi frames h)"
    and "set ps \<subseteq> set frames" and "k < length ps"
  shows "fst (qr_scan env ps qr_default) ! k =
    Inr \<lparr>qs_message_id = Some h, qs_received_frames = of_nat (card (set (take (Suc k) ps))),
         qs_total_frames = of_nat (length frames),
         qs_complete_text = (if set (take (Suc k) ps) = set frames then Some msg else None)\<rparr>"
proof -
  obtain cs where cs: "framed env msg h cs" and frames: "frames = map (frame_at env h cs) [0 ..< length cs]"
    by (rule qr_encode_framed [OF assms(1,2)])
  let ?f = "frame_at env h cs" and ?A = "{..< length cs}"
  note inj = frame_at_inj [OF assms(1) cs]
  have img: "set frames = ?f ` ?A" by (simp add: frames atLeast0LessThan)
  define js where "js = map (inv_into ?A ?f) ps"
  have js: "ps = map ?f js" using assms(3) img by (auto simp: js_def f_inv_into_f map_idI subset_iff)
  have "inv_into ?A ?f p \<in> ?A" if "p \<in> set ps" for p
    using assms(3) img that by (intro inv_into_into) auto
  then have range: "set js \<subseteq> ?A" by (auto simp: js_def)
  then have sub: "set (take (Suc k) js) \<subseteq> ?A" using set_take_subset by fastforce
  have init: "qr_holds h cs {} qr_default" by (simp add: qr_holds_def qr_default_def)
  have "fst (qr_scan env ps qr_default) ! k = Inr (frame_status h msg cs (set (take (Suc k) js)))"
  proof -
    have "\<forall>j \<in> set js. j < length cs" using range by auto
    from qr_scan_frames [OF assms(1) cs this init] show ?thesis using assms(4) by (simp add: js)
  qed
  moreover have "set (take (Suc k) ps) = ?f ` set (take (Suc k) js)" by (simp add: js take_map)
  moreover have "card (?f ` set (take (Suc k) js)) = card (set (take (Suc k) js))"
    using inj_on_subset [OF inj sub] by (rule card_image)
  moreover have "?f ` set (take (Suc k) js) = ?f ` ?A \<longleftrightarrow> set (take (Suc k) js) = ?A"
    using inj_on_image_eq_iff [OF inj sub] by simp
  ultimately show ?thesis by (simp add: frame_status_def img) (simp add: frames)
qed

text \<open>
  A concrete environment for the witnesses: base64 over the URL-safe alphabet without padding, hex,
  a constant for the hash and a slate codec that accepts every byte string.
\<close>

definition sample_digit :: "nat \<Rightarrow> char" where
  "sample_digit k = char_of (if k < 26 then 65 + k else if k < 52 then 71 + k else if k < 62 then k - 4
     else if k = 62 then 45 else 95)"

definition sample_digit_value :: "char \<Rightarrow> nat" where
  "sample_digit_value c = (let n = of_char c in
     if n = 45 then 62 else if n = 95 then 63 else if n < 58 then n + 4 else if n < 91 then n - 65 else n - 71)"

fun sample_b64 :: "bytes \<Rightarrow> string" where
  "sample_b64 [] = []"
| "sample_b64 [a] = map sample_digit [unat a div 4, unat a mod 4 * 16]"
| "sample_b64 [a, b] =
     map sample_digit [unat a div 4, unat a mod 4 * 16 + unat b div 16, unat b mod 16 * 4]"
| "sample_b64 (a # b # c # bs) =
     map sample_digit [unat a div 4, unat a mod 4 * 16 + unat b div 16,
       unat b mod 16 * 4 + unat c div 64, unat c mod 64] @ sample_b64 bs"

definition sample_byte :: "nat \<Rightarrow> u8" where "sample_byte n = of_nat n"

fun sample_unb64 :: "string \<Rightarrow> bytes" where
  "sample_unb64 (w # x # y # z # cs) =
     (let v = sample_digit_value in
      [sample_byte (v w * 4 + v x div 16), sample_byte (v x mod 16 * 16 + v y div 4),
       sample_byte (v y mod 4 * 64 + v z)]) @ sample_unb64 cs"
| "sample_unb64 [w, x, y] =
     (let v = sample_digit_value in
      [sample_byte (v w * 4 + v x div 16), sample_byte (v x mod 16 * 16 + v y div 4)])"
| "sample_unb64 [w, x] = (let v = sample_digit_value in [sample_byte (v w * 4 + v x div 16)])"
| "sample_unb64 _ = []"

definition sample_hex_digit :: "nat \<Rightarrow> char" where
  "sample_hex_digit k = char_of (if k < 10 then 48 + k else 87 + k)"

definition sample_hex_value :: "char \<Rightarrow> nat" where
  "sample_hex_value c = (let n = of_char c in if n < 58 then n - 48 else n - 87)"

fun sample_unhex :: "string \<Rightarrow> bytes" where
  "sample_unhex (x # y # cs) = sample_byte (sample_hex_value x * 16 + sample_hex_value y) # sample_unhex cs"
| "sample_unhex _ = []"

definition sample_transport_env :: "bytes transport_env" where
  "sample_transport_env =
     \<lparr>te_hash = (\<lambda>_. zeros 32), te_b64_encode = sample_b64,
      te_b64_decode = (\<lambda>s. if sample_b64 (sample_unb64 s) = s then Some (sample_unb64 s) else None),
      te_hex_encode = concat \<circ> map (\<lambda>b. [sample_hex_digit (unat b div 16), sample_hex_digit (unat b mod 16)]),
      te_hex_decode = (\<lambda>s. Some (sample_unhex s)), te_slate_serialize = Some, te_slate_deserialize = Some\<rparr>"

lemma sample_digit_char:
  assumes "k < 64"
  shows "sample_digit_value (sample_digit k) = k" "url_safe (sample_digit k)"
  using assms by (auto simp: sample_digit_value_def sample_digit_def url_safe_def is_ascii_digit_def Let_def
      of_char_of)

lemma sample_hex_char:
  assumes "k < 16"
  shows "sample_hex_value (sample_hex_digit k) = k" "is_lower_hex (sample_hex_digit k)"
  using assms by (auto simp: sample_hex_value_def sample_hex_digit_def is_lower_hex_def is_ascii_digit_def
      Let_def of_char_of)

lemma byte_split:
  fixes b :: u8
  shows "unat b div 4 < 64" "unat b mod 4 * 16 < 64" "unat b div 16 < 16" "unat b mod 16 < 16"
    "unat b div 64 < 4" "unat b mod 64 < 64"
proof -
  have "unat b < 256" using unsigned_less [of b, where 'a = nat] by simp
  then show "unat b div 4 < 64" "unat b mod 4 * 16 < 64" "unat b div 16 < 16" "unat b mod 16 < 16"
    "unat b div 64 < 4" "unat b mod 64 < 64" by (simp_all add: less_mult_imp_div_less)
qed

lemma byte_join: "n = unat b \<Longrightarrow> sample_byte n = b"
  by (simp add: sample_byte_def)

lemma sextet_bounds:
  fixes x y :: u8
  shows "unat x mod 4 * 16 + unat y div 16 < 64" "unat x mod 16 * 4 + unat y div 64 < 64" "unat x mod 16 * 4 < 64"
proof -
  have "p * 16 + q < 64" if "p < 4" "q < 16" for p q :: nat using that by arith
  moreover have "p * 4 + q < 64" if "p < 16" "q < 4" for p q :: nat using that by arith
  moreover have "unat x mod 4 < 4" by simp
  ultimately show "unat x mod 4 * 16 + unat y div 16 < 64" "unat x mod 16 * 4 + unat y div 64 < 64"
    by (metis byte_split)+
  then show "unat x mod 16 * 4 < 64" by (metis add_lessD1)
qed

lemma sextets_join:
  fixes x y z :: nat
  shows "y < 16 \<Longrightarrow> x div 4 * 4 + (x mod 4 * 16 + y) div 16 = x"
    and "x div 16 < 16 \<Longrightarrow> y < 4 \<Longrightarrow> (z * 16 + x div 16) mod 16 * 16 + (x mod 16 * 4 + y) div 4 = x"
    and "x div 64 < 4 \<Longrightarrow> (z * 4 + x div 64) mod 4 * 64 + x mod 64 = x"
  by simp_all

lemma sample_b64_inverse: "sample_unb64 (sample_b64 b) = b"
proof (induction b rule: sample_b64.induct)
  case (2 a)
  have "sample_byte (unat a div 4 * 4 + (unat a mod 4 * 16) div 16) = a"
    using sextets_join(1) [of 0 "unat a"] by (intro byte_join) simp
  then show ?case using byte_split [of a] by (simp add: sample_digit_char Let_def)
next
  case (3 a b)
  have "sample_byte (unat a div 4 * 4 + (unat a mod 4 * 16 + unat b div 16) div 16) = a"
    by (intro byte_join sextets_join(1) byte_split)
  moreover have "sample_byte ((unat a mod 4 * 16 + unat b div 16) mod 16 * 16 + (unat b mod 16 * 4) div 4) = b"
    using sextets_join(2) [of "unat b" 0 "unat a mod 4"] byte_split [of b] by (intro byte_join) simp
  ultimately show ?case
    using byte_split [of a] sextet_bounds(1) [of a b] sextet_bounds(3) [of b]
    by (simp only: sample_b64.simps list.map sample_unb64.simps sample_digit_char Let_def)
next
  case (4 a b c bs)
  have "sample_byte (unat a div 4 * 4 + (unat a mod 4 * 16 + unat b div 16) div 16) = a"
    "sample_byte ((unat a mod 4 * 16 + unat b div 16) mod 16 * 16 + (unat b mod 16 * 4 + unat c div 64) div 4) = b"
    "sample_byte ((unat b mod 16 * 4 + unat c div 64) mod 4 * 64 + unat c mod 64) = c"
    by (intro byte_join sextets_join byte_split)+
  then show ?case
    using 4 byte_split [of a] byte_split [of c] sextet_bounds(1) [of a b] sextet_bounds(2) [of b c]
    by (simp only: sample_b64.simps list.map sample_unb64.simps sample_digit_char Let_def append_Cons append_Nil)
qed simp

lemma sample_b64_shape:
  "3 * length (sample_b64 b) \<le> 4 * length b + 2" "list_all url_safe (sample_b64 b)"
proof (induction b rule: sample_b64.induct)
  case (4 a b c bs)
  show "3 * length (sample_b64 (a # b # c # bs)) \<le> 4 * length (a # b # c # bs) + 2"
    "list_all url_safe (sample_b64 (a # b # c # bs))"
    using 4 byte_split [of a] byte_split [of c] sextet_bounds(1) [of a b] sextet_bounds(2) [of b c]
    by (simp_all add: sample_digit_char)
next
  case (3 a b)
  show "3 * length (sample_b64 [a, b]) \<le> 4 * length [a, b] + 2" "list_all url_safe (sample_b64 [a, b])"
    using byte_split [of a] sextet_bounds(1) [of a b] sextet_bounds(3) [of b] by (simp_all add: sample_digit_char)
qed (use byte_split in \<open>simp_all add: sample_digit_char\<close>)

lemma sample_hex_inverse:
  "sample_unhex (concat (map (\<lambda>b. [sample_hex_digit (unat b div 16), sample_hex_digit (unat b mod 16)]) bs)) = bs"
  by (induction bs) (simp_all add: sample_hex_char byte_split byte_join)

lemma sample_transport_laws: "transport_laws sample_transport_env"
proof -
  have "(if sample_b64 (sample_unb64 s) = s then Some (sample_unb64 s) else None) = Some b \<longleftrightarrow> sample_b64 b = s"
    for b s using sample_b64_inverse [of b] by auto
  moreover have "length (concat (map (\<lambda>b. [sample_hex_digit (unat b div 16), sample_hex_digit (unat b mod 16)]) bs))
      = 2 * length bs" for bs :: bytes by (induction bs) simp_all
  moreover have "list_all is_lower_hex
      (concat (map (\<lambda>b. [sample_hex_digit (unat b div 16), sample_hex_digit (unat b mod 16)]) bs))" for bs :: bytes
    by (induction bs) (simp_all add: sample_hex_char byte_split)
  ultimately show ?thesis
    using sample_b64_shape
    by (simp add: transport_laws_def sample_transport_env_def zeros_def sample_hex_inverse)
qed

definition sample_envelope :: transport_envelope where
  "sample_envelope = \<lparr>en_version = 1, en_response = False, en_network = ''MAINNET'', en_chain_id = zeros 32,
     en_slate_id = 7, en_payload = zeros 700, en_content_hash = zeros 32\<rparr>"

lemma sample_b64_long: "4 * length b \<le> 3 * length (sample_b64 b)"
  by (induction b rule: sample_b64.induct) simp_all

lemma sample_export:
  "\<exists>msg. export_transport sample_transport_env (en_network sample_envelope) (en_chain_id sample_envelope)
      (en_slate_id sample_envelope) (en_response sample_envelope) (en_payload sample_envelope) = Inr msg \<and>
     900 < length msg \<and> length msg \<le> 1200"
proof -
  let ?body = "envelope_body sample_envelope"
  let ?msg = "TRANSPORT_PREFIX @ sample_b64 (?body @ zeros 32)"
  have len: "length (?body @ zeros 32) = 794"
    by (simp add: envelope_body_def length_transport_body sample_envelope_def zeros_def)
  have "export_transport sample_transport_env (en_network sample_envelope) (en_chain_id sample_envelope)
      (en_slate_id sample_envelope) (en_response sample_envelope) (en_payload sample_envelope) = Inr ?msg"
    by (simp add: export_transport_def canonical_slate_def decode_slate_def encode_slate_def
        canonical_network_def Let_def envelope_body_def MAX_TRANSPORT_BYTES_def)
      (simp add: sample_envelope_def sample_transport_env_def zeros_def)
  moreover have "900 < length ?msg" "length ?msg \<le> 1200"
    using sample_b64_long [of "?body @ zeros 32"] sample_b64_shape(1) [of "?body @ zeros 32"] len
    by (simp_all add: TRANSPORT_PREFIX_def)
  ultimately show ?thesis by blast
qed

theorem transport_exact_witness:
  "\<exists>msg. import_transport sample_transport_env msg = Inr sample_envelope"
proof -
  obtain msg where "export_transport sample_transport_env (en_network sample_envelope) (en_chain_id sample_envelope)
      (en_slate_id sample_envelope) (en_response sample_envelope) (en_payload sample_envelope) = Inr msg"
    using sample_export by blast
  then show ?thesis
    using transport_exact [OF sample_transport_laws, of msg sample_envelope]
    by (auto simp: sample_envelope_def sample_transport_env_def zeros_def)
qed

theorem qr_any_order_witness:
  "\<exists>msg frames. qr_encode_transport sample_transport_env msg = Inr (QR_Multi frames (zeros 32)) \<and>
     length frames = 2 \<and>
     map_option qs_complete_text (case fst (qr_scan sample_transport_env [frames ! 1, frames ! 0, frames ! 1] qr_default) ! 1
       of Inl e \<Rightarrow> None | Inr status \<Rightarrow> Some status) = Some (Some msg)"
proof -
  obtain msg where exp: "export_transport sample_transport_env (en_network sample_envelope) (en_chain_id sample_envelope)
      (en_slate_id sample_envelope) (en_response sample_envelope) (en_payload sample_envelope) = Inr msg"
    and len: "900 < length msg" "length msg \<le> 1200"
    using sample_export by blast
  have imp: "import_transport sample_transport_env msg = Inr sample_envelope"
    using transport_iff [OF sample_transport_laws, of msg sample_envelope] exp
    by (simp add: sample_envelope_def sample_transport_env_def zeros_def)
  have n: "(length msg + 599) div 600 = 2" "(599 + length msg) div 600 = 2"
    using len by (auto intro!: div_nat_eqI)
  have chunks: "length (chunks_of 600 (ascii msg)) = 2" using n by (simp add: length_chunks_of)
  obtain frames where enc: "qr_encode_transport sample_transport_env msg = Inr (QR_Multi frames (zeros 32))"
    and two: "length frames = 2"
    using imp len n chunks
    by (simp add: qr_encode_transport_def MAX_QR_SINGLE_TEXT_BYTES_def QR_FRAME_PAYLOAD_BYTES_def
        MAX_QR_FRAMES_def Let_def sample_envelope_def)
  let ?ps = "[frames ! 1, frames ! 0, frames ! 1]"
  have all: "set frames = {frames ! 0, frames ! 1}"
    using two by (cases frames; cases "tl frames") auto
  then have "fst (qr_scan sample_transport_env ?ps qr_default) ! 1 =
    Inr \<lparr>qs_message_id = Some (zeros 32), qs_received_frames = of_nat (card (set (take (Suc 1) ?ps))),
         qs_total_frames = of_nat (length frames),
         qs_complete_text = (if set (take (Suc 1) ?ps) = set frames then Some msg else None)\<rparr>"
    by (intro qr_any_order [OF sample_transport_laws enc]) auto
  moreover have "set (take (Suc 1) ?ps) = set frames" using all by auto
  ultimately show ?thesis using enc two by (intro exI [of _ msg] exI [of _ frames]) simp
qed

end
