(* ===== verification/Slate_Adapter.thy ===== *)
theory Slate_Adapter
  imports Transport
begin

text \<open>
  The rest of the protocol adapter (\<open>dom-wallet-protocol\<close>): the fee floor, building a sender's
  slate, answering it, finalising and re-validating a transaction. The slate and transaction
  library is the record \<open>slate_lib\<close>; the transport environment supplies the slate codec and the
  hash.
\<close>

record change_material =
  cm_commitment :: bytes
  cm_value :: u64
  cm_blinding :: bytes

record input_material =
  im_commitment :: bytes
  im_blinding :: bytes
  im_value :: u64

record public_slate_details =
  sp_chain_id :: bytes
  sp_amount :: u64
  sp_fee :: u64
  sp_input_count :: nat
  sp_has_sender_change :: bool
  sp_has_recipient_response :: bool

record slate_view =
  vw_chain_id :: bytes
  vw_amount :: u64
  vw_fee :: u64
  vw_sender_inputs :: nat
  vw_has_change :: bool
  vw_recipient_output :: "bytes option"
  vw_has_public_excess :: bool
  vw_has_public_nonce :: bool
  vw_has_partial_sig :: bool

text \<open>
  The library: weights, fee rate, limits and kernel features; building, answering, stripping and
  finalising a slate; and what the adapter reads of a transaction.
\<close>

record ('sl, 'tx) slate_lib =
  lib_weight_input :: u32
  lib_weight_output :: u32
  lib_weight_kernel :: u32
  lib_min_relay_fee_rate :: u64
  lib_max_inputs :: nat
  lib_feat_plain :: u8
  lib_feat_height_locked :: u8
  lib_build_send ::
    "(bytes \<times> bytes) list \<Rightarrow> u64 \<Rightarrow> u64 \<Rightarrow> u64 \<Rightarrow> bytes \<Rightarrow> u64 \<Rightarrow>
       ('sl \<times> bytes \<times> bytes \<times> change_material option) option"
  lib_respond :: "'sl \<Rightarrow> bytes \<Rightarrow> ('sl \<times> bytes) option"
  lib_view :: "'sl \<Rightarrow> slate_view"
  lib_sender_phase :: "'sl \<Rightarrow> 'sl"
  lib_finalize :: "'sl \<Rightarrow> bytes \<Rightarrow> bytes \<Rightarrow> bytes \<Rightarrow> 'tx option"
  lib_tx_serialize :: "'tx \<Rightarrow> bytes option"
  lib_tx_deserialize :: "bytes \<Rightarrow> 'tx option"
  lib_tx_weight :: "'tx \<Rightarrow> u32"
  lib_tx_total_fee :: "'tx \<Rightarrow> u64 option"
  lib_tx_kernels :: "'tx \<Rightarrow> bytes list"
  lib_tx_outputs :: "'tx \<Rightarrow> (bytes \<times> bytes) list"
  lib_tx_structure :: "'tx \<Rightarrow> bool"
  lib_tx_balance :: "'tx \<Rightarrow> bool"
  lib_bp2_verify :: "bytes \<Rightarrow> bytes \<Rightarrow> bool option"

record sender_secrets =
  ses_excess_blinding :: bytes
  ses_nonce :: bytes

record sender_build =
  sb_slate_bytes :: bytes
  sb_secrets :: sender_secrets
  sb_change :: "change_material option"

record recipient_response =
  rr_slate_bytes :: bytes
  rr_recipient_commitment :: bytes
  rr_output_blinding :: bytes

record finalized_transaction =
  ft_bytes :: bytes
  ft_transaction_hash :: bytes
  ft_kernel_excess :: bytes
  ft_weight :: u32
  ft_fee :: u64

subsection \<open>Weight and fee\<close>

definition expected_weight :: "('sl, 'tx) slate_lib \<Rightarrow> nat \<Rightarrow> bool \<Rightarrow> protocol_error + u32" where
  "expected_weight lib input_count change_output =
     (let outputs = (if change_output then 2 else 1 :: u32) in
      if 2 ^ 32 \<le> input_count then Inl PE_InvalidInput
      else Inr (saturating_add (saturating_add (saturating_mul (of_nat input_count) (lib_weight_input lib))
             (saturating_mul outputs (lib_weight_output lib))) (lib_weight_kernel lib)))"

definition minimum_fee :: "('sl, 'tx) slate_lib \<Rightarrow> nat \<Rightarrow> bool \<Rightarrow> protocol_error + u64" where
  "minimum_fee lib input_count change_output =
     res_bind (expected_weight lib input_count change_output) (\<lambda>weight.
       ok_or (checked_mul (ucast weight) (lib_min_relay_fee_rate lib)) PE_InvalidAmountOrFee)"

definition resolve_kernel_lock ::
  "('sl, 'tx) slate_lib \<Rightarrow> u8 option \<Rightarrow> u64 option \<Rightarrow> protocol_error + u64" where
  "resolve_kernel_lock lib kernel_features lock_height =
     (let height = (case lock_height of None \<Rightarrow> 0 | Some h \<Rightarrow> h) in
      case kernel_features of
        None \<Rightarrow> Inr height
      | Some f \<Rightarrow>
          if f = lib_feat_plain lib \<and> height = 0 then Inr 0
          else if f = lib_feat_height_locked lib \<and> height \<noteq> 0 then Inr height
          else Inl PE_InvalidKernelConfiguration)"

subsection \<open>Sender\<close>

fun sum_inputs :: "bytes set \<Rightarrow> u64 \<Rightarrow> input_material list \<Rightarrow> protocol_error + u64" where
  "sum_inputs unique acc [] = Inr acc"
| "sum_inputs unique acc (i # is) =
     (if im_commitment i \<in> unique then Inl PE_InvalidInput
      else res_bind (ok_or (checked_add acc (im_value i)) PE_InvalidAmountOrFee)
             (\<lambda>acc1. sum_inputs (insert (im_commitment i) unique) acc1 is))"

definition build_sender ::
  "('sl, 'tx) slate_lib \<Rightarrow> 'sl transport_env \<Rightarrow> input_material list \<Rightarrow> u64 \<Rightarrow> u64 \<Rightarrow> bytes \<Rightarrow> u8 option \<Rightarrow>
     u64 option \<Rightarrow> protocol_error + sender_build" where
  "build_sender lib env inputs amount fee chain_id kernel_features lock_height =
     (if inputs = [] \<or> lib_max_inputs lib < length inputs \<or> amount = 0 then Inl PE_InvalidAmountOrFee
      else res_bind (minimum_fee lib (length inputs) True) (\<lambda>minimum.
        if fee < minimum then Inl PE_InvalidAmountOrFee
        else res_bind (sum_inputs {} 0 inputs) (\<lambda>acc.
             res_bind (ok_or (checked_add amount fee) PE_InvalidAmountOrFee) (\<lambda>required.
             res_bind (ok_or (checked_sub acc required) PE_InvalidAmountOrFee) (\<lambda>change_value.
             res_bind (resolve_kernel_lock lib kernel_features lock_height) (\<lambda>lock.
             res_bind (ok_or (lib_build_send lib (map (\<lambda>i. (im_commitment i, im_blinding i)) inputs)
                        change_value amount fee chain_id lock) PE_ProtocolRejected)
               (\<lambda>(slate, excess, nonce, change).
             res_bind (encode_slate env slate) (\<lambda>slate_bytes.
               Inr \<lparr>sb_slate_bytes = slate_bytes,
                    sb_secrets = \<lparr>ses_excess_blinding = excess, ses_nonce = nonce\<rparr>,
                    sb_change = change\<rparr>))))))))"

subsection \<open>Recipient\<close>

definition create_recipient_response ::
  "('sl, 'tx) slate_lib \<Rightarrow> 'sl transport_env \<Rightarrow> bytes \<Rightarrow> bytes \<Rightarrow> protocol_error + recipient_response" where
  "create_recipient_response lib env slate_bytes expected_chain_id =
     res_bind (decode_slate env slate_bytes) (\<lambda>slate.
     res_bind (ok_or (lib_respond lib slate expected_chain_id) PE_ProtocolRejected) (\<lambda>(answer, blinding).
     res_bind (ok_or (vw_recipient_output (lib_view lib answer)) PE_ProtocolRejected) (\<lambda>commitment.
     res_bind (encode_slate env answer) (\<lambda>answer_bytes.
       Inr \<lparr>rr_slate_bytes = answer_bytes, rr_recipient_commitment = commitment,
            rr_output_blinding = blinding\<rparr>))))"

definition slate_public_details ::
  "('sl, 'tx) slate_lib \<Rightarrow> 'sl transport_env \<Rightarrow> bytes \<Rightarrow> protocol_error + public_slate_details" where
  "slate_public_details lib env slate_bytes =
     res_bind (decode_slate env slate_bytes) (\<lambda>slate.
       let v = lib_view lib slate in
       Inr \<lparr>sp_chain_id = vw_chain_id v, sp_amount = vw_amount v, sp_fee = vw_fee v,
            sp_input_count = vw_sender_inputs v, sp_has_sender_change = vw_has_change v,
            sp_has_recipient_response = (vw_recipient_output v \<noteq> None \<or> vw_has_public_excess v
              \<or> vw_has_public_nonce v \<or> vw_has_partial_sig v)\<rparr>)"

subsection \<open>Transactions\<close>

definition encode_transaction :: "('sl, 'tx) slate_lib \<Rightarrow> 'tx \<Rightarrow> protocol_error + bytes" where
  "encode_transaction lib tx = ok_or (lib_tx_serialize lib tx) PE_InvalidCanonicalEncoding"

definition decode_transaction :: "('sl, 'tx) slate_lib \<Rightarrow> bytes \<Rightarrow> protocol_error + 'tx" where
  "decode_transaction lib bs = ok_or (lib_tx_deserialize lib bs) PE_InvalidCanonicalEncoding"

definition validate_transaction :: "('sl, 'tx) slate_lib \<Rightarrow> 'tx \<Rightarrow> protocol_error + unit" where
  "validate_transaction lib tx =
     (if \<not> lib_tx_structure lib tx \<or> \<not> lib_tx_balance lib tx
       \<or> list_ex (\<lambda>(commitment, proof). lib_bp2_verify lib commitment proof \<noteq> Some True) (lib_tx_outputs lib tx)
      then Inl PE_ProtocolRejected else Inr ())"

text \<open>The fee check that finalising and re-validating share: total fee against weight times rate.\<close>

definition checked_fee :: "('sl, 'tx) slate_lib \<Rightarrow> 'tx \<Rightarrow> protocol_error + u64" where
  "checked_fee lib tx =
     res_bind (ok_or (lib_tx_total_fee lib tx) PE_ProtocolRejected) (\<lambda>fee.
     res_bind (ok_or (checked_mul (ucast (lib_tx_weight lib tx)) (lib_min_relay_fee_rate lib))
                PE_InvalidAmountOrFee) (\<lambda>floor_fee.
       if fee < floor_fee then Inl PE_FeeTooLow else Inr fee))"

definition describe_transaction ::
  "('sl, 'tx) slate_lib \<Rightarrow> 'sl transport_env \<Rightarrow> 'tx \<Rightarrow> bytes \<Rightarrow> u64 \<Rightarrow> protocol_error + finalized_transaction" where
  "describe_transaction lib env tx bs fee =
     (case lib_tx_kernels lib tx of
        [] \<Rightarrow> Inl PE_ProtocolRejected
      | excess # _ \<Rightarrow>
          Inr \<lparr>ft_bytes = bs, ft_transaction_hash = te_hash env bs, ft_kernel_excess = excess,
               ft_weight = lib_tx_weight lib tx, ft_fee = fee\<rparr>)"

definition finalize_sender ::
  "('sl, 'tx) slate_lib \<Rightarrow> 'sl transport_env \<Rightarrow> bytes \<Rightarrow> bytes \<Rightarrow> sender_secrets \<Rightarrow> bytes \<Rightarrow>
     protocol_error + finalized_transaction" where
  "finalize_sender lib env response_bytes expected_request_bytes secrets chain_id =
     res_bind (decode_slate env response_bytes) (\<lambda>response.
     res_bind (decode_slate env expected_request_bytes) (\<lambda>expected.
     res_bind (encode_slate env (lib_sender_phase lib response)) (\<lambda>stripped_bytes.
     res_bind (encode_slate env expected) (\<lambda>expected_bytes.
     if stripped_bytes \<noteq> expected_bytes then Inl PE_SlateBindingMismatch
     else res_bind (ok_or (lib_finalize lib response (ses_excess_blinding secrets) (ses_nonce secrets) chain_id)
                      PE_ProtocolRejected) (\<lambda>tx.
          res_bind (checked_fee lib tx) (\<lambda>fee.
          res_bind (validate_transaction lib tx) (\<lambda>_.
          res_bind (encode_transaction lib tx) (\<lambda>bs.
            describe_transaction lib env tx bs fee))))))))"

definition validate_finalized_bytes ::
  "('sl, 'tx) slate_lib \<Rightarrow> 'sl transport_env \<Rightarrow> bytes \<Rightarrow> protocol_error + finalized_transaction" where
  "validate_finalized_bytes lib env bs =
     res_bind (decode_transaction lib bs) (\<lambda>tx.
     res_bind (validate_transaction lib tx) (\<lambda>_.
     res_bind (checked_fee lib tx) (\<lambda>fee. describe_transaction lib env tx bs fee)))"

subsection \<open>Properties\<close>

lemma sum_inputs_ok:
  "sum_inputs unique acc inputs = Inr s \<Longrightarrow>
     unat s = unat acc + (\<Sum>i \<leftarrow> inputs. unat (im_value i)) \<and> distinct (map im_commitment inputs) \<and>
     im_commitment ` set inputs \<inter> unique = {}"
proof (induction inputs arbitrary: unique acc)
  case (Cons i inputs)
  then obtain acc1 where acc1: "checked_add acc (im_value i) = Some acc1" and new: "im_commitment i \<notin> unique"
    and rest: "sum_inputs (insert (im_commitment i) unique) acc1 inputs = Inr s"
    by (auto simp: res_simps split: if_splits)
  from Cons.IH [OF rest] checked_add_SomeD [OF acc1] new show ?case by auto
qed simp

definition sample_lib :: "(bytes, bytes) slate_lib" where
  "sample_lib =
     \<lparr>lib_weight_input = 1, lib_weight_output = 4, lib_weight_kernel = 3, lib_min_relay_fee_rate = 2,
      lib_max_inputs = 10, lib_feat_plain = 0, lib_feat_height_locked = 2,
      lib_build_send = (\<lambda>inputs change amount fee chain lock. Some ([], [], [], None)),
      lib_respond = (\<lambda>slate chain. Some (slate, [])),
      lib_view = (\<lambda>slate. \<lparr>vw_chain_id = [], vw_amount = 0, vw_fee = 0, vw_sender_inputs = 1, vw_has_change = False,
        vw_recipient_output = Some [], vw_has_public_excess = True, vw_has_public_nonce = True,
        vw_has_partial_sig = True\<rparr>),
      lib_sender_phase = (\<lambda>slate. slate), lib_finalize = (\<lambda>slate excess nonce chain. Some slate),
      lib_tx_serialize = Some, lib_tx_deserialize = Some, lib_tx_weight = (\<lambda>tx. 12),
      lib_tx_total_fee = (\<lambda>tx. Some 30), lib_tx_kernels = (\<lambda>tx. [zeros 33]), lib_tx_outputs = (\<lambda>tx. []),
      lib_tx_structure = (\<lambda>tx. True), lib_tx_balance = (\<lambda>tx. True), lib_bp2_verify = (\<lambda>c p. Some True)\<rparr>"

text \<open>
  C30: a sender slate never loses or creates value and never pays too little. When building succeeds,
  the library was asked for exactly the change that makes inputs equal amount plus fee plus change,
  over inputs that are at least one, at most the limit and pairwise different, with a fee at or
  above the relay floor for that many inputs and two outputs, and with a lock height that agrees
  with the requested kernel feature.
\<close>

theorem sender_conserves:
  assumes "build_sender lib env inputs amount fee chain_id kernel_features lock_height = Inr sender"
  shows "\<exists>change lock weight. 0 < length inputs \<and> length inputs \<le> lib_max_inputs lib \<and> 0 < unat amount \<and>
    distinct (map im_commitment inputs) \<and>
    unat amount + unat fee + unat change = (\<Sum>i \<leftarrow> inputs. unat (im_value i)) \<and>
    expected_weight lib (length inputs) True = Inr weight \<and>
    unat weight * unat (lib_min_relay_fee_rate lib) \<le> unat fee \<and>
    resolve_kernel_lock lib kernel_features lock_height = Inr lock \<and>
    (\<exists>slate. lib_build_send lib (map (\<lambda>i. (im_commitment i, im_blinding i)) inputs) change amount fee chain_id lock
       = Some (slate, ses_excess_blinding (sb_secrets sender), ses_nonce (sb_secrets sender), sb_change sender) \<and>
       encode_slate env slate = Inr (sb_slate_bytes sender))"
proof -
  obtain minimum acc required change lock slate where
    pre: "inputs \<noteq> []" "length inputs \<le> lib_max_inputs lib" "amount \<noteq> 0" "minimum \<le> fee"
    and minimum: "minimum_fee lib (length inputs) True = Inr minimum"
    and acc: "sum_inputs {} 0 inputs = Inr acc" and required: "checked_add amount fee = Some required"
    and change: "checked_sub acc required = Some change"
    and lock: "resolve_kernel_lock lib kernel_features lock_height = Inr lock"
    and built: "lib_build_send lib (map (\<lambda>i. (im_commitment i, im_blinding i)) inputs) change amount fee chain_id lock
       = Some (slate, ses_excess_blinding (sb_secrets sender), ses_nonce (sb_secrets sender), sb_change sender)"
    and enc: "encode_slate env slate = Inr (sb_slate_bytes sender)"
    using assms by (auto simp: build_sender_def res_simps not_less split: if_splits)
  obtain weight where weight: "expected_weight lib (length inputs) True = Inr weight"
    and "checked_mul (ucast weight) (lib_min_relay_fee_rate lib) = Some minimum"
    using minimum by (auto simp: minimum_fee_def res_simps)
  then have "unat weight * unat (lib_min_relay_fee_rate lib) \<le> unat fee"
    using checked_mul_SomeD [of "ucast weight :: u64"] pre(4) by (simp add: word_le_nat_alt unat_u32_u64)
  moreover have "unat amount + unat fee + unat change = (\<Sum>i \<leftarrow> inputs. unat (im_value i))"
    "distinct (map im_commitment inputs)"
    using sum_inputs_ok [OF acc] checked_add_SomeD [OF required] checked_sub_SomeD [OF change] by auto
  moreover have "0 < unat amount" using pre(3) by (simp add: unat_gt_0)
  ultimately show ?thesis using pre(1,2) weight lock built enc by (intro exI [of _ change] exI [of _ lock]) auto
qed

theorem sender_conserves_witness:
  "\<exists>sender. build_sender sample_lib sample_transport_env
      [\<lparr>im_commitment = [1], im_blinding = [], im_value = 100\<rparr>] 60 30 [] None None = Inr sender \<and>
    (\<exists>change :: u64. 60 + 30 + unat change = 100)"
proof -
  obtain sender where run: "build_sender sample_lib sample_transport_env
      [\<lparr>im_commitment = [1], im_blinding = [], im_value = 100\<rparr>] 60 30 [] None None = Inr sender"
    by (simp add: build_sender_def minimum_fee_def expected_weight_def saturating_add_def saturating_mul_def
        checked_mul_def checked_add_def checked_sub_def resolve_kernel_lock_def sample_lib_def encode_slate_def
        sample_transport_env_def word_le_nat_alt word_less_nat_alt)
  from sender_conserves [OF run] run show ?thesis by auto
qed

text \<open>
  A finalised transaction stands on its own. With a transaction codec that reads back what it
  wrote, the bytes a finalisation returns pass the stand-alone validation and describe the same
  transaction: the same hash, kernel, weight and fee, and the fee is at least weight times the relay
  rate. And a response is finalised only if its sender part is the original request.
\<close>

theorem finalized_revalidates:
  assumes "\<And>tx bs. lib_tx_serialize lib tx = Some bs \<Longrightarrow> lib_tx_deserialize lib bs = Some tx"
    and "finalize_sender lib env response_bytes request_bytes secrets chain_id = Inr f"
  shows "validate_finalized_bytes lib env (ft_bytes f) = Inr f \<and>
    unat (ft_weight f) * unat (lib_min_relay_fee_rate lib) \<le> unat (ft_fee f) \<and>
    (\<exists>response request b. decode_slate env response_bytes = Inr response \<and>
       decode_slate env request_bytes = Inr request \<and>
       encode_slate env (lib_sender_phase lib response) = Inr b \<and> encode_slate env request = Inr b)"
proof -
  obtain response request b tx fee bs where
    slates: "decode_slate env response_bytes = Inr response" "decode_slate env request_bytes = Inr request"
      "encode_slate env (lib_sender_phase lib response) = Inr b" "encode_slate env request = Inr b"
    and tx: "checked_fee lib tx = Inr fee" "validate_transaction lib tx = Inr ()"
      "lib_tx_serialize lib tx = Some bs" "describe_transaction lib env tx bs fee = Inr f"
    using assms(2)
    by (auto simp: finalize_sender_def encode_transaction_def res_simps split: if_splits)
  have f: "ft_bytes f = bs" "ft_weight f = lib_tx_weight lib tx" "ft_fee f = fee"
    using tx(4) by (auto simp: describe_transaction_def split: list.splits)
  obtain floor_fee where "checked_mul (ucast (lib_tx_weight lib tx)) (lib_min_relay_fee_rate lib) = Some floor_fee"
    "floor_fee \<le> fee"
    using tx(1) by (auto simp: checked_fee_def res_simps not_less split: if_splits)
  then have "unat (ft_weight f) * unat (lib_min_relay_fee_rate lib) \<le> unat (ft_fee f)"
    using checked_mul_SomeD [of "ucast (lib_tx_weight lib tx) :: u64"] f
    by (simp add: word_le_nat_alt unat_u32_u64)
  moreover have "validate_finalized_bytes lib env (ft_bytes f) = Inr f"
    using tx f assms(1) [OF tx(3)] by (simp add: validate_finalized_bytes_def decode_transaction_def)
  ultimately show ?thesis using slates by blast
qed

theorem finalized_revalidates_witness:
  "\<exists>f. finalize_sender sample_lib sample_transport_env [7] [7] \<lparr>ses_excess_blinding = [], ses_nonce = []\<rparr> [] = Inr f \<and>
     validate_finalized_bytes sample_lib sample_transport_env (ft_bytes f) = Inr f"
proof -
  obtain f where run: "finalize_sender sample_lib sample_transport_env [7] [7]
      \<lparr>ses_excess_blinding = [], ses_nonce = []\<rparr> [] = Inr f"
    by (simp add: finalize_sender_def decode_slate_def encode_slate_def sample_lib_def sample_transport_env_def
        checked_fee_def checked_mul_def validate_transaction_def encode_transaction_def describe_transaction_def
        MAX_TRANSPORT_BYTES_def)
  have "\<And>tx bs. lib_tx_serialize sample_lib tx = Some bs \<Longrightarrow> lib_tx_deserialize sample_lib bs = Some tx"
    by (simp add: sample_lib_def)
  from finalized_revalidates [OF this run] run show ?thesis by blast
qed

end
