(* ===== verification/Scan_Page.thy ===== *)
theory Scan_Page
  imports Submission Text_Codec
begin

text \<open>
  The validation of canonical scan pages (\<open>dom-wallet-core-sync\<close>): the projections that the wallet
  keeps of a block, the full-fidelity check that rebuilds every redundant projection from the
  canonical bytes, the continuity check of a page and the cursor that a page may be committed
  with. The consensus, cryptography and serialization libraries and the cursor codec are outside
  the repository: they are the record \<open>consensus_lib\<close>. The node is the record \<open>scan_api\<close> of methods
  on a world state.
\<close>

subsection \<open>Types of the scanner interface\<close>

record wallet_scan_cursor =
  wc_version :: u16
  wc_network_magic :: u32
  wc_chain_id :: bytes
  wc_next_height :: u64
  wc_anchor_height :: u64
  wc_anchor_hash :: bytes

datatype scan_start = ScanStart_Height u64 | ScanStart_Cursor wallet_scan_cursor

record scan_request =
  rq_network :: core_network
  rq_chain_id :: bytes
  rq_start :: scan_start
  rq_max_blocks :: u64
  rq_stop_height :: "u64 option"
  rq_commitment_filters :: "bytes list"

record scan_output =
  sco_commitment :: bytes
  sco_range_proof :: bytes
  sco_recovery_capsule :: bytes
  sco_recovery_version :: u16
  sco_is_coinbase :: bool
  sco_block_height :: u64
  sco_block_hash :: bytes
  sco_output_position :: u32

record scan_input =
  sci_spent_commitment :: bytes

record scan_kernel =
  sck_excess :: bytes
  sck_features :: u8
  sck_fee :: u64
  sck_lock_height :: u64
  sck_excess_signature :: bytes

record transaction_location =
  tl_block_height :: u64
  tl_block_hash :: bytes
  tl_transaction_index :: u32

record scan_transaction =
  sct_location :: transaction_location
  sct_tx_hash :: bytes
  sct_canonical_bytes :: bytes
  sct_offset :: bytes
  sct_inputs :: "scan_input list"
  sct_outputs :: "scan_output list"
  sct_kernels :: "scan_kernel list"

record coinbase_scan_metadata =
  scm_output_commitment :: bytes
  scm_explicit_value :: u64
  scm_kernel_excess :: bytes
  scm_kernel_features :: u8
  scm_kernel_excess_signature :: bytes
  scm_offset :: bytes
  scm_output_proof_envelope :: bytes

record raw_scan_block =
  rb_height :: u64
  rb_block_hash :: bytes
  rb_previous_block_hash :: bytes
  rb_canonical_header_bytes :: bytes
  rb_timestamp :: u64
  rb_canonical_marker :: bytes
  rb_outputs :: "scan_output list"
  rb_inputs :: "scan_input list"
  rb_kernels :: "scan_kernel list"
  rb_transactions :: "scan_transaction list"
  rb_coinbase :: coinbase_scan_metadata
  rb_total_fees_noms :: u64
  rb_protocol_version :: u32
  rb_range_proof_serialization_version :: u8

record scan_result =
  rs_tip :: core_block_reference
  rs_blocks :: "raw_scan_block list"
  rs_continuation :: "wallet_scan_cursor option"

record cursor_validation =
  cv_valid :: bool
  cv_safe_rescan_anchor :: core_block_reference

record 'w scan_api =
  sa_chain_identity :: "('w, wallet_core_error, core_chain_identity) meth"
  sa_scan_range :: "scan_request \<Rightarrow> ('w, wallet_core_error, scan_result) meth"
  sa_scan_next :: "wallet_scan_cursor \<Rightarrow> u64 \<Rightarrow> ('w, wallet_core_error, scan_result) meth"
  sa_validate_cursor :: "wallet_scan_cursor \<Rightarrow> ('w, wallet_core_error, cursor_validation) meth"
  sa_canonical_hash_at_height :: "u64 \<Rightarrow> ('w, wallet_core_error, bytes option) meth"

subsection \<open>Types and functions of the consensus libraries\<close>

record 'cm cx_output =
  cxo_commitment :: 'cm
  cxo_proof :: bytes

record 'cm cx_kernel =
  cxk_excess :: 'cm
  cxk_features :: u8
  cxk_fee :: u64
  cxk_lock_height :: u64
  cxk_excess_signature :: bytes

record 'cm cx_transaction =
  cxt_inputs :: "'cm list"
  cxt_outputs :: "'cm cx_output list"
  cxt_kernels :: "'cm cx_kernel list"
  cxt_offset :: bytes

record 'cm cx_coinbase_kernel =
  cck_features :: u8
  cck_explicit_value :: u64
  cck_excess :: 'cm
  cck_excess_signature :: bytes

record 'cm cx_coinbase =
  cxc_output :: "'cm cx_output"
  cxc_kernel :: "'cm cx_coinbase_kernel"
  cxc_offset :: bytes

record ('hdr, 'cm) cx_block =
  cxb_header :: 'hdr
  cxb_coinbase :: "'cm cx_coinbase"
  cxb_transactions :: "'cm cx_transaction list"

record ('hdr, 'cm) consensus_lib =
  cl_header_from_bytes :: "bytes \<Rightarrow> 'hdr option"
  cl_header_to_bytes :: "'hdr \<Rightarrow> bytes option"
  cl_header_height :: "'hdr \<Rightarrow> u64"
  cl_header_prev_hash :: "'hdr \<Rightarrow> bytes"
  cl_header_timestamp :: "'hdr \<Rightarrow> u64"
  cl_header_version :: "'hdr \<Rightarrow> u32"
  cl_header_syntax :: "'hdr \<Rightarrow> u32 \<Rightarrow> bool"
  cl_header_identifier :: "u32 \<Rightarrow> bytes \<Rightarrow> bytes option"
  cl_commitment_from_bytes :: "bytes \<Rightarrow> 'cm option"
  cl_commitment_bytes :: "'cm \<Rightarrow> bytes"
  cl_coinbase_to_bytes :: "'cm cx_coinbase \<Rightarrow> bytes option"
  cl_coinbase_from_bytes :: "bytes \<Rightarrow> 'cm cx_coinbase option"
  cl_transaction_from_bytes :: "bytes \<Rightarrow> 'cm cx_transaction option"
  cl_transaction_to_bytes :: "'cm cx_transaction \<Rightarrow> bytes option"
  cl_range_proof_bytes :: "'cm cx_output \<Rightarrow> bytes option"
  cl_recovery_capsule :: "'cm cx_output \<Rightarrow> (u16 \<times> bytes) option option"
  cl_total_fees :: "('hdr, 'cm) cx_block \<Rightarrow> u64 option"
  cl_pmmr_roots :: "('hdr, 'cm) cx_block \<Rightarrow> bool"
  cl_blake2b_256 :: "bytes \<Rightarrow> bytes"
  cl_required_block_version :: "u32 \<Rightarrow> u64 \<Rightarrow> u32"
  cl_network_magic :: "core_network \<Rightarrow> u32"
  cl_PROTOCOL_VERSION :: u32
  cl_RANGE_PROOF_SERIALIZATION_VERSION :: u8
  cl_RANGE_PROOF_SIZE :: nat
  cl_RECOVERY_VERSION :: u16
  cl_RECOVERY_CAPSULE_SIZE :: nat
  cl_cursor_from_bytes :: "bytes \<Rightarrow> wallet_core_error + wallet_scan_cursor"
  cl_cursor_to_bytes :: "wallet_scan_cursor \<Rightarrow> bytes"
  cl_cursor_validate_shape :: "wallet_scan_cursor \<Rightarrow> wallet_core_error + unit"
  cl_cursor_new :: "core_network \<Rightarrow> bytes \<Rightarrow> u64 \<Rightarrow> core_block_reference \<Rightarrow> wallet_scan_cursor"
  cl_CURSOR_VERSION :: u16

subsection \<open>Wallet-owned projections\<close>

definition MAX_CORE_SCAN_BATCH_BLOCKS :: u64 where "MAX_CORE_SCAN_BATCH_BLOCKS = 1024"

record core_scan_output =
  cso_commitment :: bytes
  cso_range_proof :: bytes
  cso_recovery_capsule :: bytes
  cso_recovery_version :: u16
  cso_is_coinbase :: bool
  cso_block_height :: u64
  cso_block_hash :: bytes
  cso_output_position :: u32

record core_scan_input =
  csi_spent_commitment :: bytes

record core_scan_kernel =
  csk_excess :: bytes
  csk_features :: u8
  csk_fee :: u64
  csk_lock_height :: u64
  csk_excess_signature :: bytes

record core_coinbase_metadata =
  ccm_output_commitment :: bytes
  ccm_explicit_value :: u64
  ccm_kernel_excess :: bytes
  ccm_kernel_features :: u8
  ccm_kernel_excess_signature :: bytes
  ccm_offset :: bytes
  ccm_output_proof_envelope :: bytes

definition core_coinbase_of :: "coinbase_scan_metadata \<Rightarrow> core_coinbase_metadata" where
  "core_coinbase_of value =
     \<lparr>ccm_output_commitment = scm_output_commitment value,
      ccm_explicit_value = scm_explicit_value value,
      ccm_kernel_excess = scm_kernel_excess value,
      ccm_kernel_features = scm_kernel_features value,
      ccm_kernel_excess_signature = scm_kernel_excess_signature value,
      ccm_offset = scm_offset value,
      ccm_output_proof_envelope = scm_output_proof_envelope value\<rparr>"

record core_scan_block =
  csb_height :: u64
  csb_block_hash :: bytes
  csb_previous_block_hash :: bytes
  csb_canonical_header_bytes :: bytes
  csb_timestamp :: u64
  csb_canonical_marker :: bytes
  csb_outputs :: "core_scan_output list"
  csb_inputs :: "core_scan_input list"
  csb_kernels :: "core_scan_kernel list"
  csb_transactions :: "scan_transaction list"
  csb_coinbase :: core_coinbase_metadata
  csb_total_fees_noms :: u64
  csb_protocol_version :: u32
  csb_range_proof_serialization_version :: u8

text \<open>\<open>CoreCursorBytes\<close> is a newtype of the cursor's bytes.\<close>

record core_scan_batch =
  bt_observed_tip :: core_block_reference
  bt_blocks :: "core_scan_block list"
  bt_commit_cursor :: "bytes option"

datatype scan_commit_stage =
    ST_Rewind | ST_RecoveryBatch | ST_KernelEvidence | ST_ExpiryCleanup | ST_CursorEncode
  | ST_StorageCommit

datatype core_scan_error =
    CS_InvalidIdentity string
  | CS_IdentityMismatch string
  | CS_InvalidCursor string
  | CS_CursorIdentityMismatch
  | CS_ReorgDetected
  | CS_InvalidScan string
  | CS_InvalidScanLimit
  | CS_ReorgBeyondBound
  | CS_CoreNotReady
  | CS_CoreContract string
  | CS_Persistence scan_commit_stage

fun from_core :: "wallet_core_error \<Rightarrow> core_scan_error" where
  "from_core WE_MalformedCursor = CS_InvalidCursor ''MALFORMED_CURSOR''"
| "from_core WE_CursorChainMismatch = CS_CursorIdentityMismatch"
| "from_core WE_CursorReorg = CS_ReorgDetected"
| "from_core WE_CanonicalGap = CS_InvalidScan ''CANONICAL_GAP''"
| "from_core WE_InvalidScanRequest = CS_InvalidScan ''REQUEST_REJECTED''"
| "from_core WE_NodeNotReady = CS_CoreNotReady"
| "from_core WE_TemporaryFailure = CS_CoreNotReady"
| "from_core WE_InternalFailure = CS_CoreContract ''CORE_INTERNAL_FAILURE''"
| "from_core WE_SubmissionRejected = CS_CoreContract ''UNEXPECTED_SUBMISSION_FAILURE''"

subsection \<open>Identity and cursor checks\<close>

definition validate_scan_limit :: "u64 \<Rightarrow> core_scan_error + unit" where
  "validate_scan_limit limit =
     (if limit = 0 \<or> MAX_CORE_SCAN_BATCH_BLOCKS < limit then Inl CS_InvalidScanLimit else Inr ())"

definition map_identity ::
  "('hdr, 'cm) consensus_lib \<Rightarrow> core_chain_identity \<Rightarrow> core_scan_error + core_chain_identity" where
  "map_identity lib identity =
     (if cl_network_magic lib (cci_network identity) \<noteq> cci_network_magic identity
      then Inl (CS_InvalidIdentity ''NETWORK_MAGIC_MISMATCH'')
      else if cci_chain_id identity = zeros 32 then Inl (CS_InvalidIdentity ''ZERO_CHAIN_ID'')
      else if cci_genesis_hash identity = zeros 32 \<and> cci_network identity \<noteq> CN_Regtest
      then Inl (CS_InvalidIdentity ''ZERO_GENESIS_HASH'')
      else if cci_protocol_version identity \<noteq> cl_PROTOCOL_VERSION lib
      then Inl (CS_InvalidIdentity ''UNSUPPORTED_PROTOCOL_VERSION'')
      else if cci_range_proof_serialization_version identity \<noteq> cl_RANGE_PROOF_SERIALIZATION_VERSION lib
      then Inl (CS_InvalidIdentity ''UNSUPPORTED_RANGE_PROOF_VERSION'')
      else if cbr_hash (cci_current_tip identity) = zeros 32
      then Inl (CS_InvalidIdentity ''ZERO_TIP_HASH'')
      else Inr identity)"

definition validate_same_chain ::
  "core_chain_identity \<Rightarrow> core_chain_identity \<Rightarrow> core_scan_error + unit" where
  "validate_same_chain expected actual =
     (if cci_network expected \<noteq> cci_network actual then Inl (CS_IdentityMismatch ''NETWORK'')
      else if cci_network_magic expected \<noteq> cci_network_magic actual
      then Inl (CS_IdentityMismatch ''NETWORK_MAGIC'')
      else if cci_chain_id expected \<noteq> cci_chain_id actual then Inl (CS_IdentityMismatch ''CHAIN_ID'')
      else if cci_genesis_hash expected \<noteq> cci_genesis_hash actual
      then Inl (CS_IdentityMismatch ''GENESIS_HASH'')
      else if cci_protocol_version expected \<noteq> cci_protocol_version actual
      then Inl (CS_IdentityMismatch ''PROTOCOL_VERSION'')
      else if cci_range_proof_serialization_version expected \<noteq> cci_range_proof_serialization_version actual
      then Inl (CS_IdentityMismatch ''RANGE_PROOF_VERSION'')
      else if cci_coinbase_maturity expected \<noteq> cci_coinbase_maturity actual
      then Inl (CS_IdentityMismatch ''COINBASE_MATURITY'')
      else Inr ())"

definition validate_cursor_identity ::
  "('hdr, 'cm) consensus_lib \<Rightarrow> wallet_scan_cursor \<Rightarrow> core_chain_identity \<Rightarrow> core_scan_error + unit" where
  "validate_cursor_identity lib cursor identity =
     (if wc_version cursor \<noteq> cl_CURSOR_VERSION lib then Inl (CS_InvalidCursor ''UNSUPPORTED_VERSION'')
      else if wc_network_magic cursor \<noteq> cci_network_magic identity \<or> wc_chain_id cursor \<noteq> cci_chain_id identity
      then Inl CS_CursorIdentityMismatch
      else if wc_anchor_hash cursor = zeros 32 then Inl (CS_InvalidCursor ''ZERO_ANCHOR_HASH'')
      else Inr ())"

definition validate_cursor_result ::
  "wallet_scan_cursor \<Rightarrow> cursor_validation \<Rightarrow> core_scan_error + core_block_reference" where
  "validate_cursor_result cursor validation =
     (if \<not> cv_valid validation
       \<or> cbr_height (cv_safe_rescan_anchor validation) \<noteq> wc_anchor_height cursor
       \<or> cbr_hash (cv_safe_rescan_anchor validation) \<noteq> wc_anchor_hash cursor
      then Inl CS_ReorgDetected else Inr (cv_safe_rescan_anchor validation))"

definition core_cursor_parse ::
  "('hdr, 'cm) consensus_lib \<Rightarrow> bytes \<Rightarrow> core_chain_identity \<Rightarrow> core_scan_error + bytes" where
  "core_cursor_parse lib bs identity =
     res_bind (map_sum from_core id (cl_cursor_from_bytes lib bs)) (\<lambda>cursor.
     res_bind (validate_cursor_identity lib cursor identity) (\<lambda>_.
       Inr (cl_cursor_to_bytes lib cursor)))"

definition core_cursor_from_cursor ::
  "('hdr, 'cm) consensus_lib \<Rightarrow> wallet_scan_cursor \<Rightarrow> core_chain_identity \<Rightarrow> core_scan_error + bytes" where
  "core_cursor_from_cursor lib cursor identity =
     res_bind (map_sum from_core id (cl_cursor_validate_shape lib cursor)) (\<lambda>_.
     res_bind (validate_cursor_identity lib cursor identity) (\<lambda>_.
       Inr (cl_cursor_to_bytes lib cursor)))"

definition core_cursor_decode ::
  "('hdr, 'cm) consensus_lib \<Rightarrow> bytes \<Rightarrow> core_scan_error + wallet_scan_cursor" where
  "core_cursor_decode lib bs = map_sum from_core id (cl_cursor_from_bytes lib bs)"

subsection \<open>Full fidelity of a block\<close>

definition scan_output_from_transaction_output ::
  "('hdr, 'cm) consensus_lib \<Rightarrow> 'cm cx_output \<Rightarrow> bool \<Rightarrow> u64 \<Rightarrow> bytes \<Rightarrow> u32 \<Rightarrow>
     core_scan_error + scan_output" where
  "scan_output_from_transaction_output lib out is_coinbase block_height block_hash output_position =
     res_bind (ok_or (cl_range_proof_bytes lib out) (CS_InvalidScan ''OUTPUT_PROOF_ENVELOPE'')) (\<lambda>range_proof.
     res_bind (ok_or (cl_recovery_capsule lib out) (CS_InvalidScan ''OUTPUT_RECOVERY_CAPSULE'')) (\<lambda>capsule.
       Inr \<lparr>sco_commitment = cl_commitment_bytes lib (cxo_commitment out), sco_range_proof = range_proof,
            sco_recovery_capsule = (case capsule of None \<Rightarrow> [] | Some (version, bs) \<Rightarrow> bs),
            sco_recovery_version = (case capsule of None \<Rightarrow> 0 | Some (version, bs) \<Rightarrow> version),
            sco_is_coinbase = is_coinbase, sco_block_height = block_height,
            sco_block_hash = block_hash, sco_output_position = output_position\<rparr>))"

fun project_outputs ::
  "('hdr, 'cm) consensus_lib \<Rightarrow> raw_scan_block \<Rightarrow> u32 \<Rightarrow> 'cm cx_output list \<Rightarrow>
     core_scan_error + (scan_output list \<times> u32)" where
  "project_outputs lib block output_position [] = Inr ([], output_position)"
| "project_outputs lib block output_position (out # outs) =
     res_bind (scan_output_from_transaction_output lib out False (rb_height block) (rb_block_hash block)
                 output_position) (\<lambda>projected_output.
     res_bind (ok_or (checked_add output_position 1) (CS_InvalidScan ''OUTPUT_POSITION_OVERFLOW'')) (\<lambda>next_position.
     res_bind (project_outputs lib block next_position outs) (\<lambda>(rest, final_position).
       Inr (projected_output # rest, final_position))))"

definition project_input :: "('hdr, 'cm) consensus_lib \<Rightarrow> 'cm \<Rightarrow> scan_input" where
  "project_input lib inp = \<lparr>sci_spent_commitment = cl_commitment_bytes lib inp\<rparr>"

definition project_kernel :: "('hdr, 'cm) consensus_lib \<Rightarrow> 'cm cx_kernel \<Rightarrow> scan_kernel" where
  "project_kernel lib ker =
     \<lparr>sck_excess = cl_commitment_bytes lib (cxk_excess ker), sck_features = cxk_features ker,
      sck_fee = cxk_fee ker, sck_lock_height = cxk_lock_height ker,
      sck_excess_signature = cxk_excess_signature ker\<rparr>"

definition project_coinbase_kernel :: "('hdr, 'cm) consensus_lib \<Rightarrow> 'cm cx_coinbase_kernel \<Rightarrow> scan_kernel" where
  "project_coinbase_kernel lib ker =
     \<lparr>sck_excess = cl_commitment_bytes lib (cck_excess ker), sck_features = cck_features ker,
      sck_fee = 0, sck_lock_height = 0, sck_excess_signature = cck_excess_signature ker\<rparr>"

definition decode_projected ::
  "('hdr, 'cm) consensus_lib \<Rightarrow> raw_scan_block \<Rightarrow> nat \<Rightarrow> scan_transaction \<Rightarrow>
     core_scan_error + 'cm cx_transaction" where
  "decode_projected lib block index projected =
     res_bind (ensure (index < 2 ^ 32) (CS_InvalidScan ''TRANSACTION_INDEX_OVERFLOW'')) (\<lambda>_.
     res_bind (ensure (sct_location projected =
         \<lparr>tl_block_height = rb_height block, tl_block_hash = rb_block_hash block,
          tl_transaction_index = of_nat index\<rparr>) (CS_InvalidScan ''TRANSACTION_LOCATION'')) (\<lambda>_.
     res_bind (ensure (cl_blake2b_256 lib (sct_canonical_bytes projected) = sct_tx_hash projected)
         (CS_InvalidScan ''TRANSACTION_HASH'')) (\<lambda>_.
     res_bind (ok_or (cl_transaction_from_bytes lib (sct_canonical_bytes projected))
         (CS_InvalidScan ''TRANSACTION_DECODE'')) (\<lambda>transaction.
     res_bind (ok_or (cl_transaction_to_bytes lib transaction) (CS_InvalidScan ''TRANSACTION_ENCODE'')) (\<lambda>bs.
     res_bind (ensure (bs = sct_canonical_bytes projected)
         (CS_InvalidScan ''NONCANONICAL_TRANSACTION_BYTES'')) (\<lambda>_.
     res_bind (ensure (cxt_offset transaction = sct_offset projected)
         (CS_InvalidScan ''TRANSACTION_OFFSET'')) (\<lambda>_.
     res_bind (ensure (map (project_input lib) (cxt_inputs transaction) = sct_inputs projected)
         (CS_InvalidScan ''TRANSACTION_INPUT_PROJECTION'')) (\<lambda>_.
       Inr transaction))))))))"

fun project_transactions ::
  "('hdr, 'cm) consensus_lib \<Rightarrow> raw_scan_block \<Rightarrow> nat \<Rightarrow> u32 \<Rightarrow> scan_transaction list \<Rightarrow>
     core_scan_error + ('cm cx_transaction list \<times> scan_output list)" where
  "project_transactions lib block index output_position [] = Inr ([], [])"
| "project_transactions lib block index output_position (projected # rest) =
     res_bind (decode_projected lib block index projected) (\<lambda>transaction.
     res_bind (project_outputs lib block output_position (cxt_outputs transaction)) (\<lambda>(outs, next_position).
     res_bind (ensure (outs = sct_outputs projected) (CS_InvalidScan ''TRANSACTION_OUTPUT_PROJECTION'')) (\<lambda>_.
     res_bind (ensure (map (project_kernel lib) (cxt_kernels transaction) = sct_kernels projected)
         (CS_InvalidScan ''TRANSACTION_KERNEL_PROJECTION'')) (\<lambda>_.
     res_bind (project_transactions lib block (Suc index) next_position rest) (\<lambda>(txs, later).
       Inr (transaction # txs, outs @ later))))))"

definition checked_header ::
  "('hdr, 'cm) consensus_lib \<Rightarrow> raw_scan_block \<Rightarrow> core_chain_identity \<Rightarrow> core_scan_error + 'hdr" where
  "checked_header lib block identity =
     res_bind (ok_or (cl_header_from_bytes lib (rb_canonical_header_bytes block))
         (CS_InvalidScan ''HEADER_DECODE'')) (\<lambda>header.
     res_bind (ok_or (cl_header_to_bytes lib header) (CS_InvalidScan ''HEADER_ENCODE'')) (\<lambda>bs.
     res_bind (ensure (bs = rb_canonical_header_bytes block)
         (CS_InvalidScan ''NONCANONICAL_HEADER_BYTES'')) (\<lambda>_.
     res_bind (ensure (cl_header_height lib header = rb_height block
           \<and> cl_header_prev_hash lib header = rb_previous_block_hash block
           \<and> cl_header_timestamp lib header = rb_timestamp block
           \<and> cl_header_version lib header = rb_protocol_version block)
         (CS_InvalidScan ''HEADER_PROJECTION_MISMATCH'')) (\<lambda>_.
     res_bind (ensure (cl_header_syntax lib header (cci_network_magic identity))
         (CS_InvalidScan ''HEADER_SYNTAX'')) (\<lambda>_.
     res_bind (ok_or (cl_header_identifier lib (cci_network_magic identity) (rb_canonical_header_bytes block))
         (CS_InvalidScan ''HEADER_IDENTIFIER'')) (\<lambda>header_identifier.
     res_bind (ensure (header_identifier = rb_block_hash block) (CS_InvalidScan ''HEADER_HASH_MISMATCH'')) (\<lambda>_.
       Inr header)))))))"

definition rebuilt_coinbase ::
  "('hdr, 'cm) consensus_lib \<Rightarrow> coinbase_scan_metadata \<Rightarrow> core_scan_error + 'cm cx_coinbase" where
  "rebuilt_coinbase lib meta =
     res_bind (ok_or (cl_commitment_from_bytes lib (scm_output_commitment meta))
         (CS_InvalidScan ''COINBASE_COMMITMENT'')) (\<lambda>coinbase_commitment.
     res_bind (ok_or (cl_commitment_from_bytes lib (scm_kernel_excess meta))
         (CS_InvalidScan ''COINBASE_EXCESS'')) (\<lambda>coinbase_excess.
     res_bind (ok_or (cl_coinbase_to_bytes lib
           \<lparr>cxc_output = \<lparr>cxo_commitment = coinbase_commitment, cxo_proof = scm_output_proof_envelope meta\<rparr>,
            cxc_kernel = \<lparr>cck_features = scm_kernel_features meta,
              cck_explicit_value = scm_explicit_value meta, cck_excess = coinbase_excess,
              cck_excess_signature = scm_kernel_excess_signature meta\<rparr>,
            cxc_offset = scm_offset meta\<rparr>)
         (CS_InvalidScan ''COINBASE_ENCODE'')) (\<lambda>coinbase_bytes.
       ok_or (cl_coinbase_from_bytes lib coinbase_bytes) (CS_InvalidScan ''COINBASE_DECODE''))))"

definition validate_full_fidelity_projection ::
  "('hdr, 'cm) consensus_lib \<Rightarrow> raw_scan_block \<Rightarrow> core_chain_identity \<Rightarrow> core_scan_error + unit" where
  "validate_full_fidelity_projection lib block identity =
     res_bind (checked_header lib block identity) (\<lambda>header.
     res_bind (rebuilt_coinbase lib (rb_coinbase block)) (\<lambda>coinbase.
     res_bind (scan_output_from_transaction_output lib (cxc_output coinbase) True (rb_height block)
         (rb_block_hash block) 0) (\<lambda>coinbase_output.
     res_bind (project_transactions lib block 0 1 (rb_transactions block)) (\<lambda>(transactions, outs).
     res_bind (ensure (rb_inputs block = concat (map (\<lambda>t. map (project_input lib) (cxt_inputs t)) transactions))
         (CS_InvalidScan ''FLAT_INPUT_PROJECTION'')) (\<lambda>_.
     res_bind (ensure (rb_outputs block = coinbase_output # outs)
         (CS_InvalidScan ''FLAT_OUTPUT_PROJECTION'')) (\<lambda>_.
     res_bind (ensure (rb_kernels block = project_coinbase_kernel lib (cxc_kernel coinbase)
             # concat (map (\<lambda>t. map (project_kernel lib) (cxt_kernels t)) transactions))
         (CS_InvalidScan ''FLAT_KERNEL_PROJECTION'')) (\<lambda>_.
     res_bind (ok_or (cl_total_fees lib
           \<lparr>cxb_header = header, cxb_coinbase = coinbase, cxb_transactions = transactions\<rparr>)
         (CS_InvalidScan ''TOTAL_FEE_OVERFLOW'')) (\<lambda>total_fees.
     res_bind (ensure (total_fees = rb_total_fees_noms block) (CS_InvalidScan ''TOTAL_FEE_PROJECTION'')) (\<lambda>_.
       ensure (cl_pmmr_roots lib
           \<lparr>cxb_header = header, cxb_coinbase = coinbase, cxb_transactions = transactions\<rparr>)
         (CS_InvalidScan ''BLOCK_BODY_COMMITMENT''))))))))))"

definition map_output ::
  "('hdr, 'cm) consensus_lib \<Rightarrow> raw_scan_block \<Rightarrow> scan_output \<Rightarrow> core_scan_error + core_scan_output" where
  "map_output lib block out =
     (if sco_block_height out \<noteq> rb_height block \<or> sco_block_hash out \<noteq> rb_block_hash block
      then Inl (CS_InvalidScan ''OUTPUT_BLOCK_CONTEXT'')
      else if length (sco_range_proof out) \<noteq> cl_RANGE_PROOF_SIZE lib
      then Inl (CS_InvalidScan ''RANGE_PROOF_LENGTH'')
      else if \<not> (sco_recovery_version out = 0 \<and> length (sco_recovery_capsule out) = 0
               \<or> sco_recovery_version out = cl_RECOVERY_VERSION lib
                 \<and> length (sco_recovery_capsule out) = cl_RECOVERY_CAPSULE_SIZE lib)
      then Inl (CS_InvalidScan ''RECOVERY_CAPSULE_FORMAT'')
      else Inr \<lparr>cso_commitment = sco_commitment out, cso_range_proof = sco_range_proof out,
                cso_recovery_capsule = sco_recovery_capsule out,
                cso_recovery_version = sco_recovery_version out, cso_is_coinbase = sco_is_coinbase out,
                cso_block_height = sco_block_height out, cso_block_hash = sco_block_hash out,
                cso_output_position = sco_output_position out\<rparr>)"

definition core_kernel_of :: "scan_kernel \<Rightarrow> core_scan_kernel" where
  "core_kernel_of ker =
     \<lparr>csk_excess = sck_excess ker, csk_features = sck_features ker, csk_fee = sck_fee ker,
      csk_lock_height = sck_lock_height ker, csk_excess_signature = sck_excess_signature ker\<rparr>"

definition map_block ::
  "('hdr, 'cm) consensus_lib \<Rightarrow> core_chain_identity \<Rightarrow> raw_scan_block \<Rightarrow> core_scan_error + core_scan_block" where
  "map_block lib identity block =
     (if rb_block_hash block = zeros 32 \<or> rb_canonical_marker block \<noteq> rb_block_hash block
      then Inl (CS_InvalidScan ''NONCANONICAL_BLOCK'')
      else if rb_protocol_version block \<noteq> cl_required_block_version lib (cci_network_magic identity) (rb_height block)
      then Inl (CS_InvalidScan ''PROTOCOL_VERSION'')
      else if rb_range_proof_serialization_version block \<noteq> cci_range_proof_serialization_version identity
      then Inl (CS_InvalidScan ''RANGE_PROOF_VERSION'')
      else res_bind (validate_full_fidelity_projection lib block identity) (\<lambda>_.
        res_bind (map_results (map_output lib block) (rb_outputs block)) (\<lambda>outputs.
          Inr \<lparr>csb_height = rb_height block, csb_block_hash = rb_block_hash block,
               csb_previous_block_hash = rb_previous_block_hash block,
               csb_canonical_header_bytes = rb_canonical_header_bytes block,
               csb_timestamp = rb_timestamp block, csb_canonical_marker = rb_canonical_marker block,
               csb_outputs = outputs,
               csb_inputs = map (\<lambda>inp. \<lparr>csi_spent_commitment = sci_spent_commitment inp\<rparr>) (rb_inputs block),
               csb_kernels = map core_kernel_of (rb_kernels block),
               csb_transactions = rb_transactions block,
               csb_coinbase = core_coinbase_of (rb_coinbase block),
               csb_total_fees_noms = rb_total_fees_noms block,
               csb_protocol_version = rb_protocol_version block,
               csb_range_proof_serialization_version = rb_range_proof_serialization_version block\<rparr>)))"

subsection \<open>The adapter and its requests\<close>

record 'w core_chain_adapter =
  ad_api :: "'w scan_api"
  ad_identity :: core_chain_identity
  ad_maximum_batch_blocks :: u64
  ad_maximum_reorg_depth :: u64

definition adapter_connect ::
  "('hdr, 'cm) consensus_lib \<Rightarrow> 'w scan_api \<Rightarrow> core_chain_identity option \<Rightarrow> u64 \<Rightarrow> u64 \<Rightarrow>
     ('w, core_scan_error, 'w core_chain_adapter) meth" where
  "adapter_connect lib api persisted_identity maximum_batch_blocks maximum_reorg_depth =
     op_then (lift_result (validate_scan_limit maximum_batch_blocks)) (\<lambda>_.
     op_then (map_err from_core (sa_chain_identity api)) (\<lambda>raw.
     op_then (lift_result (map_identity lib raw)) (\<lambda>identity.
     op_then (lift_result (case persisted_identity of None \<Rightarrow> Inr ()
                           | Some expected \<Rightarrow> validate_same_chain expected identity)) (\<lambda>_.
       lift_result (Inr \<lparr>ad_api = api, ad_identity = identity,
         ad_maximum_batch_blocks = maximum_batch_blocks,
         ad_maximum_reorg_depth = maximum_reorg_depth\<rparr>)))))"

definition current_identity ::
  "('hdr, 'cm) consensus_lib \<Rightarrow> 'w core_chain_adapter \<Rightarrow> ('w, core_scan_error, core_chain_identity) meth" where
  "current_identity lib ad =
     op_then (map_err from_core (sa_chain_identity (ad_api ad))) (\<lambda>raw.
     op_then (lift_result (map_identity lib raw)) (\<lambda>current.
     op_then (lift_result (validate_same_chain (ad_identity ad) current)) (\<lambda>_.
       lift_result (Inr current))))"

definition current_tip ::
  "('hdr, 'cm) consensus_lib \<Rightarrow> 'w core_chain_adapter \<Rightarrow> ('w, core_scan_error, core_block_reference) meth" where
  "current_tip lib ad =
     op_then (current_identity lib ad) (\<lambda>identity. lift_result (Inr (cci_current_tip identity)))"

definition canonical_hash_at_height ::
  "'w core_chain_adapter \<Rightarrow> u64 \<Rightarrow> ('w, core_scan_error, bytes option) meth" where
  "canonical_hash_at_height ad height = map_err from_core (sa_canonical_hash_at_height (ad_api ad) height)"

definition adapter_validate_cursor ::
  "('hdr, 'cm) consensus_lib \<Rightarrow> 'w core_chain_adapter \<Rightarrow> bytes \<Rightarrow>
     ('w, core_scan_error, core_block_reference) meth" where
  "adapter_validate_cursor lib ad cursor_bytes =
     op_then (lift_result (core_cursor_decode lib cursor_bytes)) (\<lambda>cursor.
     op_then (lift_result (validate_cursor_identity lib cursor (ad_identity ad))) (\<lambda>_.
     op_then (map_err from_core (sa_validate_cursor (ad_api ad) cursor)) (\<lambda>validation.
       lift_result (validate_cursor_result cursor validation))))"

definition check_limit :: "'w core_chain_adapter \<Rightarrow> u64 \<Rightarrow> core_scan_error + unit" where
  "check_limit ad limit =
     res_bind (validate_scan_limit limit) (\<lambda>_.
       if ad_maximum_batch_blocks ad < limit then Inl CS_InvalidScanLimit else Inr ())"

subsection \<open>Continuity of a page\<close>

fun walk_blocks ::
  "('hdr, 'cm) consensus_lib \<Rightarrow> core_chain_identity \<Rightarrow> u64 \<Rightarrow> bytes \<Rightarrow> raw_scan_block list \<Rightarrow>
     core_scan_error + core_scan_block list" where
  "walk_blocks lib identity next_height previous_hash [] = Inr []"
| "walk_blocks lib identity next_height previous_hash (block # blocks) =
     (if rb_height block \<noteq> next_height then Inl (CS_InvalidScan ''NONCONTIGUOUS_HEIGHT'')
      else if rb_previous_block_hash block \<noteq> previous_hash
      then Inl (CS_InvalidScan ''PREVIOUS_HASH_MISMATCH'')
      else res_bind (map_block lib identity block) (\<lambda>mapped_block.
        res_bind (ok_or (checked_add next_height 1) (CS_InvalidScan ''HEIGHT_OVERFLOW'')) (\<lambda>following.
        res_bind (walk_blocks lib identity following (csb_block_hash mapped_block) blocks) (\<lambda>mapped.
          Inr (mapped_block # mapped)))))"

definition expected_previous ::
  "'w core_chain_adapter \<Rightarrow> u64 \<Rightarrow> core_block_reference option \<Rightarrow> ('w, core_scan_error, bytes) meth" where
  "expected_previous ad expected_start previous_anchor =
     (if expected_start = 0 then lift_result (Inr (zeros 32))
      else case previous_anchor of
        Some anchor \<Rightarrow>
          lift_result (if checked_add (cbr_height anchor) 1 \<noteq> Some expected_start
                       then Inl (CS_InvalidScan ''START_ANCHOR_GAP'') else Inr (cbr_hash anchor))
      | None \<Rightarrow>
          op_then (canonical_hash_at_height ad (expected_start - 1)) (\<lambda>hash.
            lift_result (ok_or hash (CS_InvalidScan ''MISSING_PREVIOUS_HASH''))))"

definition bound_cursor ::
  "('hdr, 'cm) consensus_lib \<Rightarrow> 'w core_chain_adapter \<Rightarrow> core_chain_identity \<Rightarrow> wallet_scan_cursor \<Rightarrow>
     ('w, core_scan_error, bytes) meth" where
  "bound_cursor lib ad identity cursor =
     op_then (lift_result (core_cursor_from_cursor lib cursor identity)) (\<lambda>bs.
     op_then (adapter_validate_cursor lib ad bs) (\<lambda>_. lift_result (Inr bs)))"

definition page_cursor ::
  "('hdr, 'cm) consensus_lib \<Rightarrow> core_chain_identity \<Rightarrow> scan_result \<Rightarrow> core_scan_block \<Rightarrow>
     core_scan_error + wallet_scan_cursor" where
  "page_cursor lib identity result last_block =
     res_bind
       (case rs_continuation result of
          Some cursor \<Rightarrow>
            if cbr_height (rs_tip result) \<le> csb_height last_block
            then Inl (CS_InvalidScan ''CURSOR_PAST_TIP'') else Inr cursor
        | None \<Rightarrow>
            if csb_height last_block < cbr_height (rs_tip result)
            then Inl (CS_InvalidScan ''MISSING_CONTINUATION'')
            else res_bind (ok_or (checked_add (csb_height last_block) 1) (CS_InvalidScan ''HEIGHT_OVERFLOW''))
              (\<lambda>next_height. Inr (cl_cursor_new lib (cci_network identity) (cci_chain_id identity) next_height
                 \<lparr>cbr_height = csb_height last_block, cbr_hash = csb_block_hash last_block\<rparr>)))
       (\<lambda>cursor.
          if wc_next_height cursor \<noteq> saturating_add (csb_height last_block) 1
           \<or> wc_anchor_height cursor \<noteq> csb_height last_block
           \<or> wc_anchor_hash cursor \<noteq> csb_block_hash last_block
          then Inl (CS_InvalidScan ''CONTINUATION_REGRESSION'') else Inr cursor)"

definition commit_cursor_of ::
  "('hdr, 'cm) consensus_lib \<Rightarrow> 'w core_chain_adapter \<Rightarrow> core_chain_identity \<Rightarrow> u64 \<Rightarrow> scan_result \<Rightarrow>
     core_scan_block list \<Rightarrow> ('w, core_scan_error, bytes option) meth" where
  "commit_cursor_of lib ad identity expected_start result mapped =
     (if mapped = [] then
        (if rs_continuation result \<noteq> None then lift_result (Inl (CS_InvalidScan ''CURSOR_WITHOUT_BLOCKS''))
         else if expected_start = 0 \<and> cbr_height (rs_tip result) = 0 then
           op_then (bound_cursor lib ad identity
               (cl_cursor_new lib (cci_network identity) (cci_chain_id identity) 1
                  \<lparr>cbr_height = 0, cbr_hash = cbr_hash (rs_tip result)\<rparr>)) (\<lambda>bs. lift_result (Inr (Some bs)))
         else lift_result (Inr None))
      else
        op_then (lift_result (page_cursor lib identity result (last mapped))) (\<lambda>cursor.
        op_then (bound_cursor lib ad identity cursor) (\<lambda>bs. lift_result (Inr (Some bs)))))"

definition validate_and_map ::
  "('hdr, 'cm) consensus_lib \<Rightarrow> 'w core_chain_adapter \<Rightarrow> scan_result \<Rightarrow> u64 \<Rightarrow>
     core_block_reference option \<Rightarrow> core_chain_identity \<Rightarrow> ('w, core_scan_error, core_scan_batch) meth" where
  "validate_and_map lib ad result expected_start previous_anchor identity =
     op_then (lift_result (ensure (length (rs_blocks result) \<le> unat (ad_maximum_batch_blocks ad))
         (CS_InvalidScan ''BATCH_TOO_LARGE''))) (\<lambda>_.
     op_then (lift_result (ensure (cbr_hash (rs_tip result) \<noteq> zeros 32)
         (CS_InvalidScan ''ZERO_TIP_HASH''))) (\<lambda>_.
     op_then (canonical_hash_at_height ad (cbr_height (rs_tip result))) (\<lambda>canonical_tip.
     op_then (lift_result (ensure (canonical_tip = Some (cbr_hash (rs_tip result)))
         (CS_InvalidScan ''TIP_HASH_DISAGREEMENT''))) (\<lambda>_.
     op_then (expected_previous ad expected_start previous_anchor) (\<lambda>previous_hash.
     op_then (lift_result (walk_blocks lib identity expected_start previous_hash (rs_blocks result))) (\<lambda>mapped.
     op_then (commit_cursor_of lib ad identity expected_start result mapped) (\<lambda>commit_cursor.
       lift_result (Inr \<lparr>bt_observed_tip = rs_tip result, bt_blocks = mapped,
         bt_commit_cursor = commit_cursor\<rparr>))))))))"

definition scan_from_height ::
  "('hdr, 'cm) consensus_lib \<Rightarrow> 'w core_chain_adapter \<Rightarrow> u64 \<Rightarrow> u64 \<Rightarrow>
     ('w, core_scan_error, core_scan_batch) meth" where
  "scan_from_height lib ad start_height limit =
     op_then (lift_result (check_limit ad limit)) (\<lambda>_.
     op_then (current_identity lib ad) (\<lambda>identity.
     op_then (map_err from_core (sa_scan_range (ad_api ad)
         \<lparr>rq_network = cci_network identity, rq_chain_id = cci_chain_id identity,
          rq_start = ScanStart_Height start_height, rq_max_blocks = limit,
          rq_stop_height = None, rq_commitment_filters = []\<rparr>)) (\<lambda>result.
       validate_and_map lib ad result start_height None identity)))"

definition adapter_scan_next ::
  "('hdr, 'cm) consensus_lib \<Rightarrow> 'w core_chain_adapter \<Rightarrow> bytes \<Rightarrow> u64 \<Rightarrow>
     ('w, core_scan_error, core_scan_batch) meth" where
  "adapter_scan_next lib ad cursor_bytes limit =
     op_then (lift_result (check_limit ad limit)) (\<lambda>_.
     op_then (current_identity lib ad) (\<lambda>identity.
     op_then (lift_result (core_cursor_decode lib cursor_bytes)) (\<lambda>cursor.
     op_then (lift_result (validate_cursor_identity lib cursor identity)) (\<lambda>_.
     op_then (adapter_validate_cursor lib ad cursor_bytes) (\<lambda>_.
     op_then (map_err from_core (sa_scan_next (ad_api ad) cursor limit)) (\<lambda>result.
       validate_and_map lib ad result (wc_next_height cursor)
         (Some \<lparr>cbr_height = wc_anchor_height cursor, cbr_hash = wc_anchor_hash cursor\<rparr>) identity))))))"

subsection \<open>An accepted block is determined by its canonical bytes\<close>

lemma project_outputs_cong:
  "rb_height b1 = rb_height b2 \<Longrightarrow> rb_block_hash b1 = rb_block_hash b2 \<Longrightarrow>
     project_outputs lib b1 pos outs = project_outputs lib b2 pos outs"
  by (induction outs arbitrary: pos) auto

lemma decode_projected_Inr:
  assumes "decode_projected lib block index projected = Inr transaction"
  shows "cl_transaction_from_bytes lib (sct_canonical_bytes projected) = Some transaction \<and>
    sct_location projected = \<lparr>tl_block_height = rb_height block, tl_block_hash = rb_block_hash block,
      tl_transaction_index = of_nat index\<rparr> \<and>
    sct_tx_hash projected = cl_blake2b_256 lib (sct_canonical_bytes projected) \<and>
    sct_offset projected = cxt_offset transaction \<and>
    sct_inputs projected = map (project_input lib) (cxt_inputs transaction)"
  using assms by (auto simp: decode_projected_def res_simps)

lemma project_transactions_unique:
  assumes "rb_height b1 = rb_height b2" "rb_block_hash b1 = rb_block_hash b2"
    and "map sct_canonical_bytes ts1 = map sct_canonical_bytes ts2"
    and "project_transactions lib b1 index pos ts1 = Inr r1"
    and "project_transactions lib b2 index pos ts2 = Inr r2"
  shows "r1 = r2 \<and> ts1 = (ts2 :: scan_transaction list)"
  using assms(3-5)
proof (induction ts1 arbitrary: index pos ts2 r1 r2)
  case Nil
  then show ?case by simp
next
  case (Cons t1 ts1)
  from Cons.prems(1) obtain t2 ts' where ts2: "ts2 = t2 # ts'"
    and b: "sct_canonical_bytes t1 = sct_canonical_bytes t2"
    and bs: "map sct_canonical_bytes ts1 = map sct_canonical_bytes ts'" by (cases ts2) auto
  from Cons.prems(2) obtain x1 o1 p1 q1 where d1: "decode_projected lib b1 index t1 = Inr x1"
    and o1: "project_outputs lib b1 pos (cxt_outputs x1) = Inr (o1, p1)" "o1 = sct_outputs t1"
    and k1: "map (project_kernel lib) (cxt_kernels x1) = sct_kernels t1"
    and q1: "project_transactions lib b1 (Suc index) p1 ts1 = Inr q1" "r1 = (x1 # fst q1, o1 @ snd q1)"
    by (auto simp: res_simps)
  from Cons.prems(3) obtain x2 o2 p2 q2 where d2: "decode_projected lib b2 index t2 = Inr x2"
    and o2: "project_outputs lib b2 pos (cxt_outputs x2) = Inr (o2, p2)" "o2 = sct_outputs t2"
    and k2: "map (project_kernel lib) (cxt_kernels x2) = sct_kernels t2"
    and q2: "project_transactions lib b2 (Suc index) p2 ts' = Inr q2" "r2 = (x2 # fst q2, o2 @ snd q2)"
    by (auto simp: res_simps ts2)
  note e1 = decode_projected_Inr [OF d1] and e2 = decode_projected_Inr [OF d2]
  have x: "x1 = x2" using e1 e2 b by simp
  have p: "o1 = o2" "p1 = p2" using o1(1) o2(1) by (simp_all add: x project_outputs_cong [OF assms(1,2)])
  have t: "t1 = t2" using e1 e2 b x k1 k2 o1(2) o2(2) p(1) assms(1,2) by (intro scan_transaction.equality) auto
  show ?case using Cons.IH [OF bs q1(1)] q2 q1(2) p x t ts2 by auto
qed

lemma checked_header_Inr:
  assumes "checked_header lib block identity = Inr header"
  shows "cl_header_from_bytes lib (rb_canonical_header_bytes block) = Some header \<and>
    rb_height block = cl_header_height lib header \<and>
    rb_previous_block_hash block = cl_header_prev_hash lib header \<and>
    rb_timestamp block = cl_header_timestamp lib header \<and>
    rb_protocol_version block = cl_header_version lib header \<and>
    cl_header_identifier lib (cci_network_magic identity) (rb_canonical_header_bytes block) = Some (rb_block_hash block)"
  using assms by (auto simp: checked_header_def res_simps)

lemma map_block_Inr:
  assumes "map_block lib identity block = Inr b"
  obtains "rb_canonical_marker block = rb_block_hash block"
    and "rb_range_proof_serialization_version block = cci_range_proof_serialization_version identity"
    and "validate_full_fidelity_projection lib block identity = Inr ()"
    and "list_all2 (\<lambda>x y. map_output lib block x = Inr y) (rb_outputs block) (csb_outputs b)"
    and "csb_height b = rb_height block" "csb_block_hash b = rb_block_hash block"
    and "csb_previous_block_hash b = rb_previous_block_hash block"
    and "csb_block_hash b \<noteq> zeros 32"
  using assms by (auto simp: map_block_def res_simps split: if_splits)

lemma fidelity_unique:
  assumes "validate_full_fidelity_projection lib b1 identity = Inr ()"
    and "validate_full_fidelity_projection lib b2 identity = Inr ()"
    and "rb_canonical_header_bytes b1 = rb_canonical_header_bytes b2"
    and "rb_coinbase b1 = rb_coinbase b2"
    and "map sct_canonical_bytes (rb_transactions b1) = map sct_canonical_bytes (rb_transactions b2)"
    and "rb_canonical_marker b1 = rb_block_hash b1" "rb_canonical_marker b2 = rb_block_hash b2"
    and "rb_range_proof_serialization_version b1 = rb_range_proof_serialization_version b2"
  shows "b1 = (b2 :: raw_scan_block)"
proof -
  from assms(1) obtain h1 cb1 co1 ts1 os1 where h1: "checked_header lib b1 identity = Inr h1"
    and cb1: "rebuilt_coinbase lib (rb_coinbase b1) = Inr cb1"
    and co1: "scan_output_from_transaction_output lib (cxc_output cb1) True (rb_height b1) (rb_block_hash b1) 0 = Inr co1"
    and p1: "project_transactions lib b1 0 1 (rb_transactions b1) = Inr (ts1, os1)"
    and f1: "rb_inputs b1 = concat (map (\<lambda>t. map (project_input lib) (cxt_inputs t)) ts1)"
      "rb_outputs b1 = co1 # os1"
      "rb_kernels b1 = project_coinbase_kernel lib (cxc_kernel cb1)
         # concat (map (\<lambda>t. map (project_kernel lib) (cxt_kernels t)) ts1)"
      "cl_total_fees lib \<lparr>cxb_header = h1, cxb_coinbase = cb1, cxb_transactions = ts1\<rparr> = Some (rb_total_fees_noms b1)"
    by (auto simp: validate_full_fidelity_projection_def res_simps)
  from assms(2) obtain h2 cb2 co2 ts2 os2 where h2: "checked_header lib b2 identity = Inr h2"
    and cb2: "rebuilt_coinbase lib (rb_coinbase b2) = Inr cb2"
    and co2: "scan_output_from_transaction_output lib (cxc_output cb2) True (rb_height b2) (rb_block_hash b2) 0 = Inr co2"
    and p2: "project_transactions lib b2 0 1 (rb_transactions b2) = Inr (ts2, os2)"
    and f2: "rb_inputs b2 = concat (map (\<lambda>t. map (project_input lib) (cxt_inputs t)) ts2)"
      "rb_outputs b2 = co2 # os2"
      "rb_kernels b2 = project_coinbase_kernel lib (cxc_kernel cb2)
         # concat (map (\<lambda>t. map (project_kernel lib) (cxt_kernels t)) ts2)"
      "cl_total_fees lib \<lparr>cxb_header = h2, cxb_coinbase = cb2, cxb_transactions = ts2\<rparr> = Some (rb_total_fees_noms b2)"
    by (auto simp: validate_full_fidelity_projection_def res_simps)
  note hd1 = checked_header_Inr [OF h1] and hd2 = checked_header_Inr [OF h2]
  have h: "h1 = h2" using hd1 hd2 assms(3) by simp
  have hh: "rb_height b1 = rb_height b2" "rb_block_hash b1 = rb_block_hash b2"
    using hd1 hd2 assms(3) h by simp_all
  have cb: "cb1 = cb2" using cb1 cb2 assms(4) by simp
  have co: "co1 = co2" using co1 co2 cb hh by simp
  have ts: "(ts1, os1) = (ts2, os2) \<and> rb_transactions b1 = rb_transactions b2"
    by (rule project_transactions_unique [OF hh assms(5) p1 p2])
  show ?thesis
    using hd1 hd2 h hh cb co ts f1 f2 assms(3,4,6-8) by (intro raw_scan_block.equality) auto
qed

text \<open>
  C4: a block the wallet accepts from the scanner is determined by its canonical bytes. When two
  answers carry the same header bytes, coinbase and canonical transaction bytes and both pass the
  check, they are projected to the same block: inputs, outputs with their positions, kernels, fees,
  hashes and locations leave a faulty or compromised scanner no freedom.
\<close>

theorem accepted_block_determined:
  assumes "map_block lib identity r1 = Inr b1" and "map_block lib identity r2 = Inr b2"
    and "rb_canonical_header_bytes r1 = rb_canonical_header_bytes r2"
    and "rb_coinbase r1 = rb_coinbase r2"
    and "map sct_canonical_bytes (rb_transactions r1) = map sct_canonical_bytes (rb_transactions r2)"
  shows "b1 = b2"
proof -
  have "r1 = r2"
    using assms(1,2) by (elim map_block_Inr) (rule fidelity_unique [OF _ _ assms(3-5)], simp_all)
  then show ?thesis using assms(1,2) by simp
qed

subsection \<open>An accepted page is a chain of blocks\<close>

text \<open>
  What the wallet relies on of the cursor codec: encoding a cursor of valid shape and decoding the
  bytes gives the cursor back, and \<open>WalletScanCursor::new\<close> builds a cursor with the given next height
  and anchor.
\<close>

definition cursor_laws :: "('hdr, 'cm) consensus_lib \<Rightarrow> bool" where
  "cursor_laws lib \<longleftrightarrow>
     (\<forall>c. cl_cursor_validate_shape lib c = Inr () \<longrightarrow> cl_cursor_from_bytes lib (cl_cursor_to_bytes lib c) = Inr c) \<and>
     (\<forall>network chain_id next_height anchor.
        wc_next_height (cl_cursor_new lib network chain_id next_height anchor) = next_height \<and>
        wc_anchor_height (cl_cursor_new lib network chain_id next_height anchor) = cbr_height anchor \<and>
        wc_anchor_hash (cl_cursor_new lib network chain_id next_height anchor) = cbr_hash anchor)"

text \<open>Heights without a gap and every block naming its predecessor's hash.\<close>

definition linked_from :: "u64 \<Rightarrow> bytes \<Rightarrow> core_scan_block list \<Rightarrow> bool" where
  "linked_from start previous_hash blocks \<longleftrightarrow>
     (\<forall>i < length blocks.
        unat (csb_height (blocks ! i)) = unat start + i \<and>
        csb_previous_block_hash (blocks ! i) =
          (if i = 0 then previous_hash else csb_block_hash (blocks ! (i - 1))))"

lemma linked_from_Nil [simp]: "linked_from start previous_hash []"
  by (simp add: linked_from_def)

lemma linked_from_Cons:
  assumes "linked_from next_height (csb_block_hash b) bs"
    and "csb_height b = start" "csb_previous_block_hash b = previous_hash"
    and "checked_add start 1 = Some next_height"
  shows "linked_from start previous_hash (b # bs)"
  unfolding linked_from_def
proof (intro allI impI)
  fix i assume i: "i < length (b # bs)"
  show "unat (csb_height ((b # bs) ! i)) = unat start + i \<and>
      csb_previous_block_hash ((b # bs) ! i) =
        (if i = 0 then previous_hash else csb_block_hash ((b # bs) ! (i - 1)))"
  proof (cases i)
    case 0
    then show ?thesis using assms by simp
  next
    case (Suc j)
    then have "unat (csb_height (bs ! j)) = unat next_height + j \<and>
        csb_previous_block_hash (bs ! j) = (if j = 0 then csb_block_hash b else csb_block_hash (bs ! (j - 1)))"
      using assms(1) i by (simp add: linked_from_def)
    then show ?thesis using Suc checked_add_SomeD [OF assms(4)] by (cases j) auto
  qed
qed

lemma walk_blocks_Inr:
  assumes "walk_blocks lib identity start previous_hash raw = Inr blocks"
  shows "linked_from start previous_hash blocks \<and>
    list_all2 (\<lambda>r b. map_block lib identity r = Inr b) raw blocks \<and>
    unat start + length blocks < 2 ^ 64"
  using assms
proof (induction raw arbitrary: start previous_hash blocks)
  case Nil
  then show ?case using unat_u64_bound [of start] by simp
next
  case (Cons r raw)
  from Cons.prems obtain b following bs where h: "rb_height r = start" "rb_previous_block_hash r = previous_hash"
    and b: "map_block lib identity r = Inr b" and f: "checked_add start 1 = Some following"
    and w: "walk_blocks lib identity following (csb_block_hash b) raw = Inr bs" "blocks = b # bs"
    by (auto simp: res_simps split: if_splits)
  note ih = Cons.IH [OF w(1)]
  have "csb_height b = start" "csb_previous_block_hash b = previous_hash"
    using h by (auto intro: map_block_Inr [OF b])
  with ih f b show ?case
    by (auto simp: w(2) intro: linked_from_Cons dest: checked_add_SomeD)
qed

lemma linked_from_last:
  assumes "linked_from start previous_hash blocks" "blocks \<noteq> []"
  shows "unat (csb_height (last blocks)) = unat start + length blocks - 1"
  using assms by (cases blocks) (auto simp: linked_from_def last_conv_nth)

lemma bound_cursor_Inr:
  assumes "bound_cursor lib ad identity cursor w = (Inr bs, w')"
  shows "bs = cl_cursor_to_bytes lib cursor \<and> cl_cursor_validate_shape lib cursor = Inr () \<and>
    validate_cursor_identity lib cursor identity = Inr ()"
  using assms by (auto simp: bound_cursor_def core_cursor_from_cursor_def res_simps map_sum_def split: sum.splits)

lemma page_cursor_Inr:
  assumes "page_cursor lib identity result b = Inr cursor" "unat (csb_height b) + 1 < 2 ^ 64"
  shows "unat (wc_next_height cursor) = unat (csb_height b) + 1 \<and> wc_anchor_height cursor = csb_height b \<and>
    wc_anchor_hash cursor = csb_block_hash b \<and>
    (rs_continuation result = None \<longleftrightarrow> cbr_height (rs_tip result) \<le> csb_height b)"
  using assms
  by (auto simp: page_cursor_def res_simps unat_saturating_add split: option.splits if_splits)

text \<open>The cursor that a page may be committed with points right behind its last block.\<close>

definition cursor_follows :: "('hdr, 'cm) consensus_lib \<Rightarrow> bytes \<Rightarrow> core_scan_block \<Rightarrow> bool" where
  "cursor_follows lib bs b \<longleftrightarrow>
     (\<exists>c. cl_cursor_from_bytes lib bs = Inr c \<and> unat (wc_next_height c) = unat (csb_height b) + 1 \<and>
        wc_anchor_height c = csb_height b \<and> wc_anchor_hash c = csb_block_hash b)"

lemma expected_previous_Inr:
  assumes "expected_previous ad start anchor w = (Inr h, w')"
  shows "(start = 0 \<longrightarrow> h = zeros 32) \<and>
    (start \<noteq> 0 \<longrightarrow> (\<forall>a. anchor = Some a \<longrightarrow> h = cbr_hash a \<and> unat start = unat (cbr_height a) + 1))"
  using assms
  by (auto simp: expected_previous_def res_simps split: if_splits option.splits dest: checked_add_SomeD)

lemma commit_cursor_of_Inr:
  assumes "commit_cursor_of lib ad identity start result blocks w = (Inr cursor, w')"
    and "cursor_laws lib" and "linked_from start previous_hash blocks" and "unat start + length blocks < 2 ^ 64"
  shows "(blocks \<noteq> [] \<longrightarrow> (\<exists>bs. cursor = Some bs \<and> cursor_follows lib bs (last blocks))) \<and>
    (blocks = [] \<longrightarrow> start \<noteq> 0 \<longrightarrow> cursor = None)"
proof (cases "blocks = []")
  case True
  then show ?thesis using assms(1) by (auto simp: commit_cursor_of_def res_simps split: if_splits)
next
  case False
  have bound: "unat (csb_height (last blocks)) + 1 < 2 ^ 64"
    using linked_from_last [OF assms(3) False] assms(4) False by (cases blocks) auto
  from assms(1) False obtain c bs w1 w2 where c: "page_cursor lib identity result (last blocks) = Inr c"
    and bs: "bound_cursor lib ad identity c w1 = (Inr bs, w2)" and cursor: "cursor = Some bs"
    by (auto simp: commit_cursor_of_def res_simps)
  have "cl_cursor_from_bytes lib bs = Inr c"
    using assms(2) bound_cursor_Inr [OF bs] by (auto simp: cursor_laws_def)
  then have "cursor_follows lib bs (last blocks)"
    unfolding cursor_follows_def using page_cursor_Inr [OF c bound] by blast
  then show ?thesis using False cursor by simp
qed

text \<open>
  C3: a scan page the wallet accepts is a chain of blocks. Its blocks are the projections of what
  the node sent, at most as many as the batch limit, with heights that start where the scan asked
  and rise by one without overflow, each naming the hash of its predecessor, the first one the
  anchor of the cursor the scan continued from; and the page can only be committed with a cursor
  that decodes to the position right behind its last block.
\<close>

theorem accepted_page_is_chain:
  assumes "validate_and_map lib ad result start anchor identity w = (Inr batch, w')"
    and "cursor_laws lib"
  shows "list_all2 (\<lambda>r b. map_block lib identity r = Inr b) (rs_blocks result) (bt_blocks batch) \<and>
    length (bt_blocks batch) \<le> unat (ad_maximum_batch_blocks ad) \<and>
    unat start + length (bt_blocks batch) < 2 ^ 64 \<and>
    (\<exists>previous_hash. linked_from start previous_hash (bt_blocks batch) \<and>
       (start = 0 \<longrightarrow> previous_hash = zeros 32) \<and>
       (\<forall>a. start \<noteq> 0 \<longrightarrow> anchor = Some a \<longrightarrow>
          previous_hash = cbr_hash a \<and> unat start = unat (cbr_height a) + 1)) \<and>
    (bt_blocks batch \<noteq> [] \<longrightarrow>
       (\<exists>bs. bt_commit_cursor batch = Some bs \<and> cursor_follows lib bs (last (bt_blocks batch)))) \<and>
    (bt_blocks batch = [] \<longrightarrow> start \<noteq> 0 \<longrightarrow> bt_commit_cursor batch = None)"
proof -
  from assms(1) obtain h w1 w2 w3 w4 mapped cursor where
    small: "length (rs_blocks result) \<le> unat (ad_maximum_batch_blocks ad)"
    and h: "expected_previous ad start anchor w1 = (Inr h, w2)"
    and walk: "walk_blocks lib identity start h (rs_blocks result) = Inr mapped"
    and cursor: "commit_cursor_of lib ad identity start result mapped w3 = (Inr cursor, w4)"
    and batch: "batch = \<lparr>bt_observed_tip = rs_tip result, bt_blocks = mapped, bt_commit_cursor = cursor\<rparr>"
    by (auto simp: validate_and_map_def res_simps)
  note walked = walk_blocks_Inr [OF walk]
  moreover have "length mapped = length (rs_blocks result)"
    using walked list_all2_lengthD by fastforce
  ultimately show ?thesis
    using small expected_previous_Inr [OF h] commit_cursor_of_Inr [OF cursor assms(2)]
    by (simp add: batch) blast
qed

subsection \<open>A concrete chain\<close>

text \<open>The cursor behind the first blocks of a chain, and the page that a node serving it answers with.\<close>

definition chain_cursor ::
  "('hdr, 'cm) consensus_lib \<Rightarrow> core_chain_identity \<Rightarrow> raw_scan_block list \<Rightarrow> nat \<Rightarrow> wallet_scan_cursor" where
  "chain_cursor lib identity chain n =
     cl_cursor_new lib (cci_network identity) (cci_chain_id identity) (of_nat n)
       \<lparr>cbr_height = of_nat (n - 1), cbr_hash = rb_block_hash (chain ! (n - 1))\<rparr>"

definition chain_page ::
  "('hdr, 'cm) consensus_lib \<Rightarrow> core_chain_identity \<Rightarrow> raw_scan_block list \<Rightarrow> nat \<Rightarrow> nat \<Rightarrow> scan_result" where
  "chain_page lib identity chain start limit =
     \<lparr>rs_tip = cci_current_tip identity, rs_blocks = take limit (drop start chain),
      rs_continuation = (if start + limit < length chain then Some (chain_cursor lib identity chain (start + limit))
                         else None)\<rparr>"

text \<open>
  A consensus library and a chain for the witnesses: headers are one byte, the height; a block holds
  a coinbase and one transaction; the cursor codec is the concatenation of the cursor's fields.
\<close>

definition sample_cx_transaction :: "bytes cx_transaction" where
  "sample_cx_transaction =
     \<lparr>cxt_inputs = [[9]], cxt_outputs = [\<lparr>cxo_commitment = [5], cxo_proof = []\<rparr>],
      cxt_kernels = [\<lparr>cxk_excess = [6], cxk_features = 0, cxk_fee = 3, cxk_lock_height = 0,
        cxk_excess_signature = []\<rparr>], cxt_offset = []\<rparr>"

definition sample_cx_coinbase :: "bytes cx_coinbase" where
  "sample_cx_coinbase =
     \<lparr>cxc_output = \<lparr>cxo_commitment = [4], cxo_proof = []\<rparr>,
      cxc_kernel = \<lparr>cck_features = 1, cck_explicit_value = 50, cck_excess = [3], cck_excess_signature = []\<rparr>,
      cxc_offset = []\<rparr>"

definition sample_block_hash :: "u8 \<Rightarrow> bytes" where
  "sample_block_hash h = replicate 32 (h + 1)"

definition sample_cursor_bytes :: "wallet_scan_cursor \<Rightarrow> bytes" where
  "sample_cursor_bytes c =
     u16_le_bytes (wc_version c) @ u32_le_bytes (wc_network_magic c) @ u64_le_bytes (wc_next_height c) @
     u64_le_bytes (wc_anchor_height c) @ wc_chain_id c @ wc_anchor_hash c"

definition sample_cursor_of :: "bytes \<Rightarrow> wallet_scan_cursor" where
  "sample_cursor_of bs =
     \<lparr>wc_version = of_le_bytes (take 2 bs), wc_network_magic = of_le_bytes (take 4 (drop 2 bs)),
      wc_chain_id = take 32 (drop 22 bs), wc_next_height = of_le_bytes (take 8 (drop 6 bs)),
      wc_anchor_height = of_le_bytes (take 8 (drop 14 bs)), wc_anchor_hash = drop 54 bs\<rparr>"

definition sample_consensus :: "(bytes, bytes) consensus_lib" where
  "sample_consensus =
     \<lparr>cl_header_from_bytes = Some, cl_header_to_bytes = Some, cl_header_height = (\<lambda>h. ucast (hd h)),
      cl_header_prev_hash = (\<lambda>h. sample_block_hash (hd h - 1)), cl_header_timestamp = (\<lambda>h. 0),
      cl_header_version = (\<lambda>h. 1), cl_header_syntax = (\<lambda>h magic. True),
      cl_header_identifier = (\<lambda>magic bs. Some (sample_block_hash (hd bs))),
      cl_commitment_from_bytes = Some, cl_commitment_bytes = (\<lambda>c. c),
      cl_coinbase_to_bytes = (\<lambda>c. Some []), cl_coinbase_from_bytes = (\<lambda>bs. Some sample_cx_coinbase),
      cl_transaction_from_bytes = (\<lambda>bs. Some sample_cx_transaction),
      cl_transaction_to_bytes = (\<lambda>t. Some [7]),
      cl_range_proof_bytes = (\<lambda>out. Some (cxo_proof out)), cl_recovery_capsule = (\<lambda>out. Some None),
      cl_total_fees = (\<lambda>b. Some 3), cl_pmmr_roots = (\<lambda>b. True), cl_blake2b_256 = (\<lambda>bs. bs),
      cl_required_block_version = (\<lambda>magic h. 1), cl_network_magic = (\<lambda>n. 77),
      cl_PROTOCOL_VERSION = 1, cl_RANGE_PROOF_SERIALIZATION_VERSION = 2, cl_RANGE_PROOF_SIZE = 0,
      cl_RECOVERY_VERSION = 1, cl_RECOVERY_CAPSULE_SIZE = 10,
      cl_cursor_from_bytes = (\<lambda>bs. Inr (sample_cursor_of bs)), cl_cursor_to_bytes = sample_cursor_bytes,
      cl_cursor_validate_shape = (\<lambda>c. if length (wc_chain_id c) = 32 \<and> length (wc_anchor_hash c) = 32
        then Inr () else Inl WE_MalformedCursor),
      cl_cursor_new = (\<lambda>network chain_id n anchor.
        \<lparr>wc_version = 1, wc_network_magic = 77, wc_chain_id = chain_id, wc_next_height = n,
         wc_anchor_height = cbr_height anchor, wc_anchor_hash = cbr_hash anchor\<rparr>),
      cl_CURSOR_VERSION = 1\<rparr>"

definition sample_scan_output :: "u8 \<Rightarrow> u8 \<Rightarrow> bool \<Rightarrow> u32 \<Rightarrow> scan_output" where
  "sample_scan_output h commitment is_coinbase pos =
     \<lparr>sco_commitment = [commitment], sco_range_proof = [], sco_recovery_capsule = [],
      sco_recovery_version = 0, sco_is_coinbase = is_coinbase, sco_block_height = ucast h,
      sco_block_hash = sample_block_hash h, sco_output_position = pos\<rparr>"

definition sample_raw_block :: "u8 \<Rightarrow> raw_scan_block" where
  "sample_raw_block h =
     \<lparr>rb_height = ucast h, rb_block_hash = sample_block_hash h,
      rb_previous_block_hash = sample_block_hash (h - 1), rb_canonical_header_bytes = [h], rb_timestamp = 0,
      rb_canonical_marker = sample_block_hash h,
      rb_outputs = [sample_scan_output h 4 True 0, sample_scan_output h 5 False 1],
      rb_inputs = [\<lparr>sci_spent_commitment = [9]\<rparr>],
      rb_kernels = [\<lparr>sck_excess = [3], sck_features = 1, sck_fee = 0, sck_lock_height = 0, sck_excess_signature = []\<rparr>,
        \<lparr>sck_excess = [6], sck_features = 0, sck_fee = 3, sck_lock_height = 0, sck_excess_signature = []\<rparr>],
      rb_transactions = [\<lparr>sct_location = \<lparr>tl_block_height = ucast h, tl_block_hash = sample_block_hash h,
          tl_transaction_index = 0\<rparr>, sct_tx_hash = [7], sct_canonical_bytes = [7], sct_offset = [],
          sct_inputs = [\<lparr>sci_spent_commitment = [9]\<rparr>], sct_outputs = [sample_scan_output h 5 False 1],
          sct_kernels = [\<lparr>sck_excess = [6], sck_features = 0, sck_fee = 3, sck_lock_height = 0, sck_excess_signature = []\<rparr>]\<rparr>],
      rb_coinbase = \<lparr>scm_output_commitment = [4], scm_explicit_value = 50, scm_kernel_excess = [3],
        scm_kernel_features = 1, scm_kernel_excess_signature = [], scm_offset = [],
        scm_output_proof_envelope = []\<rparr>,
      rb_total_fees_noms = 3, rb_protocol_version = 1, rb_range_proof_serialization_version = 2\<rparr>"

definition sample_chain_identity :: core_chain_identity where
  "sample_chain_identity =
     \<lparr>cci_network = CN_Regtest, cci_network_magic = 77, cci_chain_id = replicate 32 8,
      cci_genesis_hash = zeros 32, cci_protocol_version = 1, cci_range_proof_serialization_version = 2,
      cci_coinbase_maturity = 10,
      cci_current_tip = \<lparr>cbr_height = 2, cbr_hash = sample_block_hash 2\<rparr>\<rparr>"

lemma sample_map_block:
  assumes "h + 1 \<noteq> 0"
  shows "is_ok (map_block sample_consensus sample_chain_identity (sample_raw_block h))"
proof -
  have "sample_block_hash h \<noteq> zeros 32"
    using assms by (simp add: sample_block_hash_def zeros_def)
  then show ?thesis
    by (simp add: map_block_def sample_raw_block_def sample_consensus_def sample_chain_identity_def
        validate_full_fidelity_projection_def checked_header_def rebuilt_coinbase_def
        scan_output_from_transaction_output_def decode_projected_def project_input_def project_kernel_def
        project_coinbase_kernel_def sample_cx_transaction_def sample_cx_coinbase_def sample_scan_output_def
        checked_add_def map_output_def ensure_def is_ok_iff)
qed

lemma sample_cursor_inverse:
  "length (wc_chain_id c) = 32 \<Longrightarrow> sample_cursor_of (sample_cursor_bytes c) = c"
  by (simp add: sample_cursor_of_def sample_cursor_bytes_def u16_le_bytes_def u32_le_bytes_def u64_le_bytes_def)

lemma sample_cursor_laws: "cursor_laws sample_consensus"
  by (simp add: cursor_laws_def sample_consensus_def sample_cursor_inverse)

definition sample_chain :: "raw_scan_block list" where
  "sample_chain = map sample_raw_block [0, 1, 2]"

definition sample_page :: "nat \<Rightarrow> nat \<Rightarrow> scan_result" where
  "sample_page = chain_page sample_consensus sample_chain_identity sample_chain"

definition sample_scan_api :: "unit scan_api" where
  "sample_scan_api =
     \<lparr>sa_chain_identity = lift_result (Inr sample_chain_identity),
      sa_scan_range = (\<lambda>rq. lift_result (case rq_start rq of
          ScanStart_Height h \<Rightarrow> Inr (sample_page (unat h) (unat (rq_max_blocks rq)))
        | ScanStart_Cursor c \<Rightarrow> Inl WE_InvalidScanRequest)),
      sa_scan_next = (\<lambda>c limit. lift_result (Inr (sample_page (unat (wc_next_height c)) (unat limit)))),
      sa_validate_cursor = (\<lambda>c. lift_result (Inr \<lparr>cv_valid = True, cv_safe_rescan_anchor =
          \<lparr>cbr_height = wc_anchor_height c, cbr_hash = wc_anchor_hash c\<rparr>\<rparr>)),
      sa_canonical_hash_at_height = (\<lambda>h. lift_result (Inr
          (if unat h < length sample_chain then Some (rb_block_hash (sample_chain ! unat h)) else None)))\<rparr>"

definition sample_adapter :: "unit core_chain_adapter" where
  "sample_adapter = \<lparr>ad_api = sample_scan_api, ad_identity = sample_chain_identity,
     ad_maximum_batch_blocks = 2, ad_maximum_reorg_depth = 8\<rparr>"

theorem accepted_block_determined_witness:
  "\<exists>b1 b2. map_block sample_consensus sample_chain_identity (sample_raw_block 1) = Inr b1 \<and>
     map_block sample_consensus sample_chain_identity (sample_raw_block 1) = Inr b2 \<and> b1 = b2"
proof -
  obtain b where b: "map_block sample_consensus sample_chain_identity (sample_raw_block 1) = Inr b"
    using sample_map_block [of 1] by (auto simp: is_ok_iff)
  then show ?thesis
    using accepted_block_determined [OF b b] by blast
qed

end
