(* ===== verification/Core_Sync.thy ===== *)
theory Core_Sync
  imports Scan_Page
begin

text \<open>
  Reconciliation with the canonical chain (\<open>dom-wallet-core-sync\<close>): one step that scans a page and
  commits it with its cursor, the bounded search for a safe anchor after a reorganisation, the
  retry of a commit after a generation conflict and the loop to the tip. The durable side is the
  record \<open>scan_sink\<close>, the trait \<open>CoreScanTransactionSink\<close>; the state of a step is the pair of the
  node's world and the sink. The loop to the tip may run for ever when the chain keeps growing, so
  it is a partial function, and that it returns on a stable chain is a theorem.
\<close>

subsection \<open>The sink\<close>

datatype persisted_core_cursor_state =
    PC_Absent
  | PC_Valid bytes
  | PC_Invalid
  | PC_ReorgInvalidated bytes

datatype core_reconcile_result =
    RR_NoChanges
  | RR_Committed bytes
  | RR_ReorgCommitted core_block_reference bytes

record ('s, 'e) scan_sink =
  sk_core_cursor_state :: "'s \<Rightarrow> 'e + persisted_core_cursor_state"
  sk_committed_canonical_hash :: "u64 \<Rightarrow> 's \<Rightarrow> 'e + bytes option"
  sk_commit_core_batch :: "core_scan_batch \<Rightarrow> bytes \<Rightarrow> ('s, 'e, unit) meth"
  sk_commit_core_reorg :: "core_block_reference \<Rightarrow> core_scan_batch \<Rightarrow> bytes \<Rightarrow> ('s, 'e, unit) meth"
  sk_persistence_stage :: "'e \<Rightarrow> scan_commit_stage"
  sk_recover_generation_conflict :: "'e \<Rightarrow> ('s, 'e, bool) meth"

subsection \<open>Committing\<close>

definition GENERATION_CONFLICT_MAX_ATTEMPTS :: nat where "GENERATION_CONFLICT_MAX_ATTEMPTS = 5"

text \<open>
  The attempts count up from one; the code compares the attempt with the maximum for equality, and
  waits between attempts. The loop leaves at the maximum, so what follows it is not reached.
\<close>

function generation_retry ::
  "('s, 'e) scan_sink \<Rightarrow> ('s, 'e, unit) meth \<Rightarrow> nat \<Rightarrow> ('s, core_scan_error, unit) meth" where
  "generation_retry sink commit attempt s =
     (case commit s of
        (Inr u, s1) \<Rightarrow> (Inr (), s1)
      | (Inl error, s1) \<Rightarrow>
          (case sk_recover_generation_conflict sink error s1 of
             (Inl reload_error, s2) \<Rightarrow> (Inl (CS_Persistence (sk_persistence_stage sink reload_error)), s2)
           | (Inr recovered, s2) \<Rightarrow>
               if \<not> recovered \<or> GENERATION_CONFLICT_MAX_ATTEMPTS \<le> attempt
               then (Inl (CS_Persistence (sk_persistence_stage sink error)), s2)
               else generation_retry sink commit (Suc attempt) s2))"
  by pat_completeness auto
termination
  by (relation "measure (\<lambda>(sink, commit, attempt, s). GENERATION_CONFLICT_MAX_ATTEMPTS - attempt)") auto

declare generation_retry.simps [simp del]

definition commit_with_generation_retry ::
  "('s, 'e) scan_sink \<Rightarrow> ('s, 'e, unit) meth \<Rightarrow> ('s, core_scan_error, unit) meth" where
  "commit_with_generation_retry sink commit = generation_retry sink commit 1"

definition cursor_state ::
  "('s, 'e) scan_sink \<Rightarrow> ('w \<times> 's, core_scan_error, persisted_core_cursor_state) meth" where
  "cursor_state sink x =
     (map_sum (\<lambda>_. CS_Persistence ST_CursorEncode) id (sk_core_cursor_state sink (snd x)), x)"

definition commit_normal ::
  "('s, 'e) scan_sink \<Rightarrow> core_scan_batch \<Rightarrow> ('w \<times> 's, core_scan_error, core_reconcile_result) meth" where
  "commit_normal sink batch =
     (case bt_commit_cursor batch of
        None \<Rightarrow> lift_result (Inr RR_NoChanges)
      | Some cursor \<Rightarrow>
          op_then (on_snd (commit_with_generation_retry sink (sk_commit_core_batch sink batch cursor)))
            (\<lambda>_. lift_result (Inr (RR_Committed cursor))))"

subsection \<open>Reorganisations\<close>

fun search_anchor ::
  "'w core_chain_adapter \<Rightarrow> ('s, 'e) scan_sink \<Rightarrow> nat list \<Rightarrow>
     ('w \<times> 's, core_scan_error, core_block_reference) meth" where
  "search_anchor ad sink [] x = (Inl CS_ReorgBeyondBound, x)"
| "search_anchor ad sink (height # heights) x =
     op_then (lift_result (map_sum (\<lambda>_. CS_Persistence ST_Rewind) id
         (sk_committed_canonical_hash sink (of_nat height) (snd x)))) (\<lambda>local_hash.
     op_then (on_fst (canonical_hash_at_height ad (of_nat height))) (\<lambda>core_hash y.
       (case (local_hash, core_hash) of
          (Some l, Some c) \<Rightarrow>
            if l = c \<and> c \<noteq> zeros 32 then (Inr \<lparr>cbr_height = of_nat height, cbr_hash = c\<rparr>, y)
            else search_anchor ad sink heights y
        | _ \<Rightarrow> search_anchor ad sink heights y))) x"

definition find_safe_anchor ::
  "'w core_chain_adapter \<Rightarrow> ('s, 'e) scan_sink \<Rightarrow> u64 \<Rightarrow>
     ('w \<times> 's, core_scan_error, core_block_reference) meth" where
  "find_safe_anchor ad sink invalid_height =
     search_anchor ad sink
       (rev [unat (saturating_sub invalid_height (ad_maximum_reorg_depth ad)) ..< unat invalid_height])"

definition replacement_cursor ::
  "('hdr, 'cm) consensus_lib \<Rightarrow> 'w core_chain_adapter \<Rightarrow> core_block_reference \<Rightarrow> core_scan_batch \<Rightarrow>
     ('w, core_scan_error, bytes) meth" where
  "replacement_cursor lib ad safe_anchor batch =
     (case bt_commit_cursor batch of
        Some replacement \<Rightarrow> lift_result (Inr replacement)
      | None \<Rightarrow>
          if bt_observed_tip batch = safe_anchor then
            op_then (lift_result (ok_or (checked_add (cbr_height safe_anchor) 1)
                (CS_InvalidCursor ''ANCHOR_HEIGHT_OVERFLOW''))) (\<lambda>next_height.
              bound_cursor lib ad (ad_identity ad)
                (cl_cursor_new lib (cci_network (ad_identity ad)) (cci_chain_id (ad_identity ad))
                   next_height safe_anchor))
          else lift_result (Inl (CS_InvalidScan ''REORG_REPLACEMENT_EMPTY'')))"

definition reconcile_reorg ::
  "('hdr, 'cm) consensus_lib \<Rightarrow> 'w core_chain_adapter \<Rightarrow> ('s, 'e) scan_sink \<Rightarrow> bytes \<Rightarrow>
     ('w \<times> 's, core_scan_error, core_reconcile_result) meth" where
  "reconcile_reorg lib ad sink invalid_cursor =
     op_then (lift_result (core_cursor_decode lib invalid_cursor)) (\<lambda>cursor.
     op_then (find_safe_anchor ad sink (wc_anchor_height cursor)) (\<lambda>safe_anchor.
     op_then (lift_result (ok_or (checked_add (cbr_height safe_anchor) 1)
         (CS_InvalidCursor ''ANCHOR_HEIGHT_OVERFLOW''))) (\<lambda>start_height.
     op_then (on_fst (scan_from_height lib ad start_height (ad_maximum_batch_blocks ad))) (\<lambda>batch.
     op_then (on_fst (replacement_cursor lib ad safe_anchor batch)) (\<lambda>replacement.
     op_then (on_snd (commit_with_generation_retry sink
         (sk_commit_core_reorg sink safe_anchor batch replacement))) (\<lambda>_.
       lift_result (Inr (RR_ReorgCommitted safe_anchor replacement))))))))"

subsection \<open>Reconciliation steps\<close>

definition reconcile_once ::
  "('hdr, 'cm) consensus_lib \<Rightarrow> 'w core_chain_adapter \<Rightarrow> ('s, 'e) scan_sink \<Rightarrow>
     ('w \<times> 's, core_scan_error, core_reconcile_result) meth" where
  "reconcile_once lib ad sink =
     op_then (cursor_state sink) (\<lambda>state.
       case state of
         PC_Absent \<Rightarrow>
           op_then (on_fst (scan_from_height lib ad 0 (ad_maximum_batch_blocks ad))) (commit_normal sink)
       | PC_Valid cursor \<Rightarrow> (\<lambda>x.
           case on_fst (adapter_validate_cursor lib ad cursor) x of
             (Inr _, y) \<Rightarrow>
               op_then (on_fst (adapter_scan_next lib ad cursor (ad_maximum_batch_blocks ad)))
                 (commit_normal sink) y
           | (Inl CS_ReorgDetected, y) \<Rightarrow> reconcile_reorg lib ad sink cursor y
           | (Inl error, y) \<Rightarrow> (Inl error, y))
       | PC_ReorgInvalidated cursor \<Rightarrow> reconcile_reorg lib ad sink cursor
       | PC_Invalid \<Rightarrow> lift_result (Inl (CS_InvalidCursor ''PERSISTED_CURSOR_INVALID'')))"

definition genesis_batch ::
  "('hdr, 'cm) consensus_lib \<Rightarrow> 'w core_chain_adapter \<Rightarrow> ('w, core_scan_error, core_scan_batch) meth" where
  "genesis_batch lib ad =
     op_then (current_identity lib ad) (\<lambda>identity.
     op_then (canonical_hash_at_height ad 0) (\<lambda>found.
     op_then (lift_result (ok_or found (CS_InvalidScan ''MISSING_CANONICAL_GENESIS''))) (\<lambda>genesis_hash.
     op_then (lift_result (ensure (\<not> (cci_network identity = CN_Mainnet \<and> genesis_hash \<noteq> cci_genesis_hash identity))
         (CS_InvalidScan ''GENESIS_HASH_DISAGREEMENT''))) (\<lambda>_.
       if cbr_height (cci_current_tip identity) = 0 then
         op_then (lift_result (ensure (genesis_hash = cbr_hash (cci_current_tip identity))
             (CS_InvalidScan ''TIP_GENESIS_DISAGREEMENT''))) (\<lambda>_.
         op_then (bound_cursor lib ad identity
             (cl_cursor_new lib (cci_network identity) (cci_chain_id identity) 1
                \<lparr>cbr_height = 0, cbr_hash = cbr_hash (cci_current_tip identity)\<rparr>)) (\<lambda>cursor.
           lift_result (Inr \<lparr>bt_observed_tip = cci_current_tip identity, bt_blocks = [],
             bt_commit_cursor = Some cursor\<rparr>)))
       else scan_from_height lib ad 1 (ad_maximum_batch_blocks ad)))))"

definition reconcile_wallet_once ::
  "('hdr, 'cm) consensus_lib \<Rightarrow> 'w core_chain_adapter \<Rightarrow> ('s, 'e) scan_sink \<Rightarrow>
     ('w \<times> 's, core_scan_error, core_reconcile_result) meth" where
  "reconcile_wallet_once lib ad sink =
     op_then (cursor_state sink) (\<lambda>state.
       if state \<noteq> PC_Absent then reconcile_once lib ad sink
       else op_then (on_fst (genesis_batch lib ad)) (commit_normal sink))"

fun committed_cursor :: "persisted_core_cursor_state \<Rightarrow> core_scan_error + bytes" where
  "committed_cursor (PC_Valid cursor) = Inr cursor"
| "committed_cursor PC_Absent = Inl (CS_InvalidScan ''SCAN_STALLED_WITHOUT_CURSOR'')"
| "committed_cursor PC_Invalid = Inl (CS_InvalidCursor ''PERSISTED_CURSOR_INVALID'')"
| "committed_cursor (PC_ReorgInvalidated cursor) = Inl CS_ReorgDetected"

text \<open>One round of the loop: \<open>Some\<close> result leaves the loop, \<open>None\<close> goes round again.\<close>

definition reconcile_round ::
  "('hdr, 'cm) consensus_lib \<Rightarrow> 'w core_chain_adapter \<Rightarrow> ('s, 'e) scan_sink \<Rightarrow>
     ('w \<times> 's, core_scan_error, core_reconcile_result option) meth" where
  "reconcile_round lib ad sink =
     op_then (reconcile_wallet_once lib ad sink) (\<lambda>result.
     op_then (cursor_state sink) (\<lambda>state.
     op_then (lift_result (committed_cursor state)) (\<lambda>cursor.
     op_then (on_fst (adapter_validate_cursor lib ad cursor)) (\<lambda>anchor.
     op_then (on_fst (current_tip lib ad)) (\<lambda>tip.
       lift_result
         (if anchor = tip then Inr (Some result)
          else if result = RR_NoChanges then Inl (CS_InvalidScan ''SCAN_STALLED_BEFORE_TARGET'')
          else Inr None))))))"

partial_function (option) reconcile_to_tip ::
  "('hdr, 'cm) consensus_lib \<Rightarrow> 'w core_chain_adapter \<Rightarrow> ('s, 'e) scan_sink \<Rightarrow> 'w \<times> 's \<Rightarrow>
     ((core_scan_error + core_reconcile_result) \<times> ('w \<times> 's)) option" where
  "reconcile_to_tip lib ad sink x =
     (case reconcile_round lib ad sink x of
        (Inl e, y) \<Rightarrow> Some (Inl e, y)
      | (Inr (Some result), y) \<Rightarrow> Some (Inr result, y)
      | (Inr None, y) \<Rightarrow> reconcile_to_tip lib ad sink y)"

subsection \<open>What a step does to the sink\<close>

lemma generation_retry_Inr:
  "generation_retry sink commit attempt s = (Inr u, s') \<Longrightarrow> \<exists>t v. commit t = (Inr v, s')"
proof (induction sink commit attempt s rule: generation_retry.induct)
  case (1 sink commit attempt s)
  obtain r t where "commit s = (r, t)" by (cases "commit s")
  then show ?case
    using 1 by (auto simp: generation_retry.simps [of sink commit attempt s] split: sum.splits prod.splits if_splits)
qed

lemma commit_with_generation_retry_ok:
  "commit s = (Inr u, s') \<Longrightarrow> commit_with_generation_retry sink commit s = (Inr (), s')"
  by (simp add: commit_with_generation_retry_def generation_retry.simps)

lemma commit_normal_Inr:
  assumes "commit_normal sink batch (w, s) = (Inr r, (w', s'))"
  shows "(r = RR_NoChanges \<and> s' = s) \<or>
    (\<exists>c t. r = RR_Committed c \<and> bt_commit_cursor batch = Some c \<and> sk_commit_core_batch sink batch c t = (Inr (), s'))"
  using assms
  by (auto simp: commit_normal_def commit_with_generation_retry_def res_simps split: option.splits
      dest!: generation_retry_Inr)

text \<open>
  What the reconciliation needs of a sink: a successful commit publishes exactly the cursor it was
  given.
\<close>

locale publishing_sink =
  fixes sink :: "('s, 'e) scan_sink" and accepted :: "bytes \<Rightarrow> bool"
  assumes batch_publishes: "accepted c \<Longrightarrow> sk_commit_core_batch sink b c s = (Inr (), s') \<Longrightarrow>
      sk_core_cursor_state sink s' = Inr (PC_Valid c)"
    and reorg_publishes: "accepted c \<Longrightarrow> sk_commit_core_reorg sink a b c s = (Inr (), s') \<Longrightarrow>
      sk_core_cursor_state sink s' = Inr (PC_Valid c)"
begin

lemma retry_publishes:
  "accepted c \<Longrightarrow> commit_with_generation_retry sink (sk_commit_core_batch sink b c) s = (Inr u, s') \<Longrightarrow>
     sk_core_cursor_state sink s' = Inr (PC_Valid c)"
  using batch_publishes by (fastforce simp: commit_with_generation_retry_def dest: generation_retry_Inr)

lemma retry_reorg_publishes:
  "accepted c \<Longrightarrow> commit_with_generation_retry sink (sk_commit_core_reorg sink a b c) s = (Inr u, s') \<Longrightarrow>
     sk_core_cursor_state sink s' = Inr (PC_Valid c)"
  using reorg_publishes by (fastforce simp: commit_with_generation_retry_def dest: generation_retry_Inr)

lemma commit_normal_publishes:
  assumes "commit_normal sink batch (w, s) = (Inr (RR_Committed c), (w', s'))" "accepted c"
  shows "sk_core_cursor_state sink s' = Inr (PC_Valid c)"
  using commit_normal_Inr [OF assms(1)] batch_publishes assms(2) by auto

end

text \<open>
  What the reconciliation does to a sink is a sequence of its commits. Two properties of the sink are
  carried through a step: \<open>I\<close> holds before it and after it when it succeeds, \<open>J\<close>, which is weaker,
  still holds when it fails.
\<close>

definition ends :: "('s \<Rightarrow> bool) \<Rightarrow> ('s \<Rightarrow> bool) \<Rightarrow> ('w \<times> 's, 'e, 'a) meth \<Rightarrow> bool" where
  "ends I J m \<longleftrightarrow> (\<forall>x r y. m x = (r, y) \<longrightarrow> I (snd x) \<longrightarrow> (if is_ok r then I (snd y) else J (snd y)))"

lemma endsD: "ends I J m \<Longrightarrow> m x = (r, y) \<Longrightarrow> I (snd x) \<Longrightarrow> if is_ok r then I (snd y) else J (snd y)"
  unfolding ends_def by blast

lemma ends_op_then: "ends I J m \<Longrightarrow> (\<And>a. ends I J (k a)) \<Longrightarrow> ends I J (op_then m k)"
  unfolding ends_def op_then_def is_ok_iff by (auto split: prod.splits sum.splits; fastforce)

lemma ends_lift: "(\<And>s. I s \<Longrightarrow> J s) \<Longrightarrow> ends I J (lift_result r)"
  by (simp add: ends_def lift_result_def)

lemma ends_on_fst: "(\<And>s. I s \<Longrightarrow> J s) \<Longrightarrow> ends I J (on_fst m)"
  by (auto simp: ends_def on_fst_iff)

lemma ends_on_snd:
  "(\<And>s r t. m s = (r, t) \<Longrightarrow> I s \<Longrightarrow> if is_ok r then I t else J t) \<Longrightarrow> ends I J (on_snd m)"
  by (simp add: ends_def on_snd_iff)

lemma ends_cursor_state: "(\<And>s. I s \<Longrightarrow> J s) \<Longrightarrow> ends I J (cursor_state sink)"
  by (auto simp: ends_def cursor_state_def)

lemma search_anchor_sink: "search_anchor ad sink hs x = (r, y) \<Longrightarrow> snd y = snd x"
proof (induction hs arbitrary: x r y)
  case (Cons h hs)
  then show ?case
    by (auto simp: op_then_def lift_result_def on_fst_def split: prod.splits sum.splits option.splits if_splits)
qed simp

lemma generation_retry_ends:
  "generation_retry sink commit attempt s = (r, t) \<Longrightarrow> I s \<Longrightarrow>
     (\<And>s r t. commit s = (r, t) \<Longrightarrow> I s \<Longrightarrow> if is_ok r then I t else J t) \<Longrightarrow>
     (\<And>e s r t. sk_recover_generation_conflict sink e s = (r, t) \<Longrightarrow> J s \<Longrightarrow> if r = Inr True then I t else J t) \<Longrightarrow>
     (\<And>s. I s \<Longrightarrow> J s) \<Longrightarrow> if is_ok r then I t else J t"
proof (induction sink commit attempt s arbitrary: r t rule: generation_retry.induct)
  case (1 sink commit attempt s)
  obtain q s1 where c: "commit s = (q, s1)" by fastforce
  have com: "if is_ok q then I s1 else J s1" using 1(4) [OF c 1(3)] .
  show ?case
  proof (cases q)
    case (Inr u)
    then show ?thesis using 1(2) c com by (auto simp: generation_retry.simps [of sink commit attempt s])
  next
    case (Inl e)
    obtain p s2 where p: "sk_recover_generation_conflict sink e s1 = (p, s2)" by fastforce
    then have rec: "if p = Inr True then I s2 else J s2" using 1(5) com Inl by (simp add: is_ok_iff)
    show ?thesis
    proof (cases "p = Inr True \<and> \<not> GENERATION_CONFLICT_MAX_ATTEMPTS \<le> attempt")
      case True
      then have again: "generation_retry sink commit (Suc attempt) s2 = (r, t)"
        using 1(2) c Inl p by (auto simp: generation_retry.simps [of sink commit attempt s])
      have s2: "I s2" using True rec by simp
      have last: "\<not> (\<not> True \<or> GENERATION_CONFLICT_MAX_ATTEMPTS \<le> attempt)" using True by simp
      show ?thesis
        by (rule 1(1) [OF c [symmetric] Inl p [symmetric] conjunct1 [OF True] last again s2 1(4-6)])
    next
      case False
      then have "\<not> is_ok r" "t = s2" using 1(2) c Inl p
        by (auto simp: generation_retry.simps [of sink commit attempt s] is_ok_iff split: sum.splits if_splits)
      then show ?thesis using rec 1(6) by (auto split: if_splits)
    qed
  qed
qed

locale invariant_sink =
  fixes sink :: "('s, 'e) scan_sink" and I J :: "'s \<Rightarrow> bool"
  assumes weaker: "I s \<Longrightarrow> J s"
    and batch_ends: "sk_commit_core_batch sink b c s = (r, t) \<Longrightarrow> I s \<Longrightarrow> if is_ok r then I t else J t"
    and reorg_ends: "sk_commit_core_reorg sink a b c s = (r, t) \<Longrightarrow> I s \<Longrightarrow> if is_ok r then I t else J t"
    and recover_ends: "sk_recover_generation_conflict sink e s = (q, t) \<Longrightarrow> J s \<Longrightarrow> if q = Inr True then I t else J t"
begin

lemma commit_normal_ends: "ends I J (commit_normal sink batch)"
proof (cases "bt_commit_cursor batch")
  case (Some cursor)
  have "ends I J (on_snd (commit_with_generation_retry sink (sk_commit_core_batch sink batch cursor)))"
    by (rule ends_on_snd)
      (unfold commit_with_generation_retry_def, erule generation_retry_ends [OF _ _ batch_ends recover_ends weaker])
  then show ?thesis by (auto simp: commit_normal_def Some intro!: ends_op_then ends_lift weaker)
qed (simp add: commit_normal_def ends_lift weaker)

lemma reconcile_reorg_ends: "ends I J (reconcile_reorg lib ad sink cursor)"
proof -
  have commit: "ends I J (on_snd (commit_with_generation_retry sink (sk_commit_core_reorg sink a b c)))" for a b c
    by (rule ends_on_snd)
      (unfold commit_with_generation_retry_def, erule generation_retry_ends [OF _ _ reorg_ends recover_ends weaker])
  have "ends I J (find_safe_anchor ad sink h)" for h
    by (auto simp: ends_def find_safe_anchor_def weaker dest: search_anchor_sink)
  then show ?thesis unfolding reconcile_reorg_def by (intro ends_op_then commit ends_lift ends_on_fst weaker)
qed

lemma reconcile_once_ends: "ends I J (reconcile_once lib ad sink)"
proof -
  have scan: "ends I J (op_then (on_fst (adapter_scan_next lib ad cursor (ad_maximum_batch_blocks ad))) (commit_normal sink))"
    for cursor by (intro ends_op_then ends_on_fst weaker commit_normal_ends)
  have valid: "ends I J (\<lambda>x. case on_fst (adapter_validate_cursor lib ad cursor) x of
       (Inr _, y) \<Rightarrow> op_then (on_fst (adapter_scan_next lib ad cursor (ad_maximum_batch_blocks ad))) (commit_normal sink) y
     | (Inl CS_ReorgDetected, y) \<Rightarrow> reconcile_reorg lib ad sink cursor y
     | (Inl error, y) \<Rightarrow> (Inl error, y))" for cursor
    unfolding ends_def
  proof (intro allI impI)
    fix x r y
    assume run: "(case on_fst (adapter_validate_cursor lib ad cursor) x of
        (Inr _, y) \<Rightarrow> op_then (on_fst (adapter_scan_next lib ad cursor (ad_maximum_batch_blocks ad))) (commit_normal sink) y
      | (Inl CS_ReorgDetected, y) \<Rightarrow> reconcile_reorg lib ad sink cursor y
      | (Inl error, y) \<Rightarrow> (Inl error, y)) = (r, y)" and inv: "I (snd x)"
    obtain p z where p: "on_fst (adapter_validate_cursor lib ad cursor) x = (p, z)"
      by (cases "on_fst (adapter_validate_cursor lib ad cursor) x")
    then have z: "I (snd z)" using inv by (simp add: on_fst_iff)
    consider (ok) v where "p = Inr v" | (reorg) "p = Inl CS_ReorgDetected" | (other) e where "r = Inl e" "y = z"
      using run p by (auto split: sum.splits core_scan_error.splits)
    then show "if is_ok r then I (snd y) else J (snd y)"
    proof cases
      case ok
      then have "op_then (on_fst (adapter_scan_next lib ad cursor (ad_maximum_batch_blocks ad))) (commit_normal sink) z = (r, y)"
        using run p by simp
      then show ?thesis by (rule endsD [OF scan _ z])
    next
      case reorg
      then have "reconcile_reorg lib ad sink cursor z = (r, y)" using run p by simp
      then show ?thesis by (rule endsD [OF reconcile_reorg_ends _ z])
    qed (use z weaker in \<open>simp add: is_ok_iff\<close>)
  qed
  have "ends I J (case state of
       PC_Absent \<Rightarrow> op_then (on_fst (scan_from_height lib ad 0 (ad_maximum_batch_blocks ad))) (commit_normal sink)
     | PC_Valid cursor \<Rightarrow> (\<lambda>x. case on_fst (adapter_validate_cursor lib ad cursor) x of
         (Inr _, y) \<Rightarrow> op_then (on_fst (adapter_scan_next lib ad cursor (ad_maximum_batch_blocks ad))) (commit_normal sink) y
       | (Inl CS_ReorgDetected, y) \<Rightarrow> reconcile_reorg lib ad sink cursor y
       | (Inl error, y) \<Rightarrow> (Inl error, y))
     | PC_ReorgInvalidated cursor \<Rightarrow> reconcile_reorg lib ad sink cursor
     | PC_Invalid \<Rightarrow> lift_result (Inl (CS_InvalidCursor ''PERSISTED_CURSOR_INVALID'')))" for state
    using valid reconcile_reorg_ends
    by (cases state) (auto intro!: ends_op_then commit_normal_ends ends_on_fst ends_lift weaker)
  then show ?thesis unfolding reconcile_once_def by (intro ends_op_then ends_cursor_state weaker)
qed

lemma reconcile_wallet_once_ends: "ends I J (reconcile_wallet_once lib ad sink)"
  unfolding reconcile_wallet_once_def
proof (intro ends_op_then ends_cursor_state weaker)
  fix state
  show "ends I J (if state \<noteq> PC_Absent then reconcile_once lib ad sink
      else op_then (on_fst (genesis_batch lib ad)) (commit_normal sink))"
    by (cases "state = PC_Absent")
      (simp_all add: reconcile_once_ends ends_op_then [OF ends_on_fst commit_normal_ends] weaker)
qed

lemma reconcile_round_ends: "ends I J (reconcile_round lib ad sink)"
  unfolding reconcile_round_def
  by (intro ends_op_then ends_cursor_state ends_lift ends_on_fst reconcile_wallet_once_ends weaker)

lemma reconcile_to_tip_ends:
  assumes "reconcile_to_tip lib ad sink x = Some res" and "I (snd x)"
  shows "if is_ok (fst res) then I (snd (snd res)) else J (snd (snd res))"
proof (rule reconcile_to_tip.raw_induct [of "\<lambda>lib ad sink' x res. sink' = sink \<longrightarrow> I (snd x) \<longrightarrow>
    (if is_ok (fst res) then I (snd (snd res)) else J (snd (snd res)))" "(((lib, ad), sink), x)" res,
    unfolded prod.case, THEN mp, THEN mp, OF _ assms(1) refl assms(2)], intro impI)
  fix loop lib ad sink' x res
  assume IH: "\<And>lib ad sink' x y. loop lib ad sink' x = Some y \<Longrightarrow> sink' = sink \<longrightarrow> I (snd x) \<longrightarrow>
      (if is_ok (fst y) then I (snd (snd y)) else J (snd (snd y)))"
    and run: "(case reconcile_round lib ad sink' x of (Inl e, y) \<Rightarrow> Some (Inl e, y)
      | (Inr None, y) \<Rightarrow> loop lib ad sink' y | (Inr (Some result), y) \<Rightarrow> Some (Inr result, y)) = Some res"
    and sink: "sink' = sink" and inv: "I (snd x)"
  obtain r y where r: "reconcile_round lib ad sink x = (r, y)" by (cases "reconcile_round lib ad sink x")
  note ends = endsD [OF reconcile_round_ends r inv]
  show "if is_ok (fst res) then I (snd (snd res)) else J (snd (snd res))"
  proof (cases "r = Inr None")
    case True
    then show ?thesis using run r sink ends IH [of lib ad sink y res] by simp
  next
    case False
    then have "res = (map_sum id the r, y)" using run r sink by (auto split: sum.splits option.splits)
    then show ?thesis using ends by (cases r) auto
  qed
qed

end

subsection \<open>The safe anchor\<close>

lemma search_anchor_stable:
  assumes "\<And>h. sk_committed_canonical_hash sink h s = Inr (local h)"
    and "\<And>h. canonical_hash_at_height ad h w = (Inr (chain h), w)"
  shows "search_anchor ad sink hs (w, s) =
    (case find (\<lambda>h. \<exists>c. local (of_nat h) = Some c \<and> chain (of_nat h) = Some c \<and> c \<noteq> zeros 32) hs of
       None \<Rightarrow> Inl CS_ReorgBeyondBound
     | Some h \<Rightarrow> Inr \<lparr>cbr_height = of_nat h, cbr_hash = the (chain (of_nat h))\<rparr>, (w, s))"
  by (induction hs) (auto simp: assms on_fst_def op_then_def lift_result_def split: option.splits)

lemma find_rev_upt:
  "find P (rev [lo ..< hi]) = Some h \<longleftrightarrow> lo \<le> h \<and> h < hi \<and> P h \<and> (\<forall>j. h < j \<longrightarrow> j < hi \<longrightarrow> \<not> P j)"
proof (induction hi)
  case 0
  then show ?case by simp
next
  case (Suc hi)
  then show ?case by (auto simp: less_Suc_eq)
qed

text \<open>
  C16: after a reorganisation the wallet rewinds to the highest common block. While the node's chain
  stays the same, the search below the invalidated anchor returns height and hash of the highest
  block, at most the configured depth below, on which the wallet's committed chain and the node's
  agree, leaves node and sink as they were, and reports that the bound was exceeded exactly when
  there is no such block.
\<close>

theorem safe_anchor_is_highest:
  assumes "\<And>h. sk_committed_canonical_hash sink h s = Inr (local h)"
    and "\<And>h. sa_canonical_hash_at_height (ad_api ad) h w = (Inr (chain h), w)"
  shows "snd (find_safe_anchor ad sink invalid (w, s)) = (w, s) \<and>
    (fst (find_safe_anchor ad sink invalid (w, s)) = Inr anchor \<longleftrightarrow>
       unat invalid - unat (ad_maximum_reorg_depth ad) \<le> unat (cbr_height anchor) \<and>
       cbr_height anchor < invalid \<and> cbr_hash anchor \<noteq> zeros 32 \<and>
       local (cbr_height anchor) = Some (cbr_hash anchor) \<and> chain (cbr_height anchor) = Some (cbr_hash anchor) \<and>
       (\<forall>h. cbr_height anchor < h \<longrightarrow> h < invalid \<longrightarrow>
          \<not> (\<exists>c. local h = Some c \<and> chain h = Some c \<and> c \<noteq> zeros 32))) \<and>
    (fst (find_safe_anchor ad sink invalid (w, s)) = Inl CS_ReorgBeyondBound \<longleftrightarrow>
       (\<forall>h. unat invalid - unat (ad_maximum_reorg_depth ad) \<le> unat h \<longrightarrow> h < invalid \<longrightarrow>
          \<not> (\<exists>c. local h = Some c \<and> chain h = Some c \<and> c \<noteq> zeros 32)))"
proof -
  let ?lo = "unat invalid - unat (ad_maximum_reorg_depth ad)"
  define agree where "agree h \<longleftrightarrow> (\<exists>c. local h = Some c \<and> chain h = Some c \<and> c \<noteq> zeros 32)" for h
  have node: "canonical_hash_at_height ad h w = (Inr (chain h), w)" for h
    by (simp add: canonical_hash_at_height_def map_err_def assms(2))
  let ?found = "find (\<lambda>h. agree (of_nat h)) (rev [?lo ..< unat invalid])"
  have eq: "find_safe_anchor ad sink invalid (w, s) =
      (case ?found of None \<Rightarrow> Inl CS_ReorgBeyondBound
       | Some h \<Rightarrow> Inr \<lparr>cbr_height = of_nat h, cbr_hash = the (chain (of_nat h))\<rparr>, (w, s))"
    by (simp add: find_safe_anchor_def unat_saturating_sub search_anchor_stable [OF assms(1) node] agree_def)
  have pick: "unat (of_nat h :: u64) = h" if "h < unat invalid" for h
    using that unat_u64_bound [of invalid] by (simp add: unat_of_nat_word)
  show ?thesis
  proof (cases ?found)
    case None
    have "\<not> agree h" if "?lo \<le> unat h" "h < invalid" for h
      using None that by (auto simp: find_None_iff word_less_nat_alt dest: spec [of _ "unat h"])
    with None show ?thesis by (auto simp: eq agree_def [symmetric]) (auto simp: agree_def)
  next
    case (Some n)
    then have n: "?lo \<le> n" "n < unat invalid" "agree (of_nat n)"
      and top: "\<And>j. n < j \<Longrightarrow> j < unat invalid \<Longrightarrow> \<not> agree (of_nat j)"
      by (auto simp: find_rev_upt)
    have above: "\<not> agree h" if "of_nat n < h" "h < invalid" for h
      using top [of "unat h"] that pick [OF n(2)] by (simp add: word_less_nat_alt)
    have unique: "cbr_height anchor = of_nat n"
      if "cbr_height anchor < invalid" "agree (cbr_height anchor)"
        "\<forall>h. cbr_height anchor < h \<longrightarrow> h < invalid \<longrightarrow> \<not> agree h"
    proof (rule ccontr)
      assume "cbr_height anchor \<noteq> of_nat n"
      then consider "cbr_height anchor < of_nat n" | "of_nat n < cbr_height anchor" by (metis linorder_neqE)
      then show False
        using that n above pick [OF n(2)] by cases (auto simp: word_less_nat_alt)
    qed
    have some: "\<exists>h. ?lo \<le> unat h \<and> h < invalid \<and> agree h"
      using n pick [OF n(2)] by (intro exI [of _ "of_nat n"]) (simp add: word_less_nat_alt)
    have hit: "\<lparr>cbr_height = of_nat n, cbr_hash = the (chain (of_nat n))\<rparr> = anchor \<longleftrightarrow>
       ?lo \<le> unat (cbr_height anchor) \<and> cbr_height anchor < invalid \<and> cbr_hash anchor \<noteq> zeros 32 \<and>
       local (cbr_height anchor) = Some (cbr_hash anchor) \<and> chain (cbr_height anchor) = Some (cbr_hash anchor) \<and>
       (\<forall>h. cbr_height anchor < h \<longrightarrow> h < invalid \<longrightarrow> \<not> agree h)"
      using n above unique pick [OF n(2)] by (cases anchor) (auto simp: agree_def word_less_nat_alt)
    show ?thesis using Some hit some by (simp add: eq agree_def) blast
  qed
qed

subsection \<open>Reaching the tip\<close>

lemma cursor_state_Inr [res_simps]:
  "cursor_state sink x = (Inr st, y) \<longleftrightarrow> sk_core_cursor_state sink (snd x) = Inr st \<and> y = x"
  by (auto simp: cursor_state_def map_sum_def split: sum.splits)

lemma committed_cursor_Inr [res_simps]: "committed_cursor st = Inr c \<longleftrightarrow> st = PC_Valid c"
  by (cases st) auto

lemma validated_cursor:
  assumes "adapter_validate_cursor lib ad c w = (Inr anchor, w')"
  shows "\<exists>cursor. cl_cursor_from_bytes lib c = Inr cursor \<and>
    anchor = \<lparr>cbr_height = wc_anchor_height cursor, cbr_hash = wc_anchor_hash cursor\<rparr>"
  using assms
  by (auto simp: adapter_validate_cursor_def core_cursor_decode_def validate_cursor_result_def res_simps
      map_sum_def split: sum.splits if_splits)

lemma reconcile_round_Some:
  assumes "reconcile_round lib ad sink x = (Inr (Some r), (w', s'))"
  shows "\<exists>c cursor w1. sk_core_cursor_state sink s' = Inr (PC_Valid c) \<and>
    cl_cursor_from_bytes lib c = Inr cursor \<and>
    current_tip lib ad w1 = (Inr \<lparr>cbr_height = wc_anchor_height cursor, cbr_hash = wc_anchor_hash cursor\<rparr>, w')"
proof -
  from assms obtain y c anchor z where
    c: "sk_core_cursor_state sink (snd y) = Inr (PC_Valid c)"
    and v: "adapter_validate_cursor lib ad c (fst y) = (Inr anchor, fst z)" "snd z = snd y"
    and tip: "current_tip lib ad (fst z) = (Inr anchor, w')" "s' = snd z"
    by (auto simp: reconcile_round_def res_simps split: if_splits)
  then show ?thesis using validated_cursor [OF v(1)] by auto
qed

lemma reconcile_to_tip_result:
  assumes "reconcile_to_tip lib ad sink x = Some res"
  shows "\<forall>r y. res = (Inr r, y) \<longrightarrow> (\<exists>z. reconcile_round lib ad sink z = (Inr (Some r), y))"
  by (rule reconcile_to_tip.raw_induct [where xa = "(((lib, ad), sink), x)" and
        P = "\<lambda>lib ad sink x res. \<forall>r y. res = (Inr r, y) \<longrightarrow> (\<exists>z. reconcile_round lib ad sink z = (Inr (Some r), y))",
        unfolded prod.case, OF _ assms])
    (auto split: prod.splits sum.splits option.splits)

text \<open>
  A node that serves a chain which does not change: it answers with its identity and tip, the hash
  at every height, pages of the chain with a continuation exactly when more blocks follow, and
  accepts every cursor anchored in the chain.
\<close>

definition anchored :: "raw_scan_block list \<Rightarrow> wallet_scan_cursor \<Rightarrow> bool" where
  "anchored chain cursor \<longleftrightarrow>
     unat (wc_anchor_height cursor) < length chain \<and>
     wc_anchor_hash cursor = rb_block_hash (chain ! unat (wc_anchor_height cursor)) \<and>
     unat (wc_next_height cursor) = unat (wc_anchor_height cursor) + 1"

definition serves_chain ::
  "('hdr, 'cm) consensus_lib \<Rightarrow> 'w scan_api \<Rightarrow> core_chain_identity \<Rightarrow> raw_scan_block list \<Rightarrow> bool" where
  "serves_chain lib api identity chain \<longleftrightarrow>
     cci_current_tip identity = \<lparr>cbr_height = of_nat (length chain - 1), cbr_hash = rb_block_hash (last chain)\<rparr> \<and>
     (\<forall>w. sa_chain_identity api w = (Inr identity, w)) \<and>
     (\<forall>h w. sa_canonical_hash_at_height api h w =
        (Inr (if unat h < length chain then Some (rb_block_hash (chain ! unat h)) else None), w)) \<and>
     (\<forall>rq h w. rq_start rq = ScanStart_Height h \<longrightarrow>
        sa_scan_range api rq w = (Inr (chain_page lib identity chain (unat h) (unat (rq_max_blocks rq))), w)) \<and>
     (\<forall>cursor limit w. anchored chain cursor \<longrightarrow>
        sa_scan_next api cursor limit w =
          (Inr (chain_page lib identity chain (unat (wc_next_height cursor)) (unat limit)), w)) \<and>
     (\<forall>cursor w. anchored chain cursor \<longrightarrow>
        sa_validate_cursor api cursor w =
          (Inr \<lparr>cv_valid = True, cv_safe_rescan_anchor =
             \<lparr>cbr_height = wc_anchor_height cursor, cbr_hash = wc_anchor_hash cursor\<rparr>\<rparr>, w))"

text \<open>A chain of acceptable blocks above a genesis block that the wallet does not scan.\<close>

definition acceptable_chain ::
  "('hdr, 'cm) consensus_lib \<Rightarrow> core_chain_identity \<Rightarrow> raw_scan_block list \<Rightarrow> bool" where
  "acceptable_chain lib identity chain \<longleftrightarrow>
     chain \<noteq> [] \<and> length chain < 2 ^ 64 \<and> rb_block_hash (chain ! 0) \<noteq> zeros 32 \<and>
     list_all (\<lambda>b. length (rb_block_hash b) = 32) chain \<and>
     (cci_network identity = CN_Mainnet \<longrightarrow> rb_block_hash (chain ! 0) = cci_genesis_hash identity) \<and>
     (\<forall>i. 0 < i \<longrightarrow> i < length chain \<longrightarrow>
        rb_height (chain ! i) = of_nat i \<and> rb_previous_block_hash (chain ! i) = rb_block_hash (chain ! (i - 1)) \<and>
        is_ok (map_block lib identity (chain ! i)))"

text \<open>
  The session is bound to the same chain, with a batch limit that \<open>connect\<close> accepts, and cursors
  built for it have a valid shape and name it.
\<close>

definition bound_session ::
  "('hdr, 'cm) consensus_lib \<Rightarrow> 'w core_chain_adapter \<Rightarrow> core_chain_identity \<Rightarrow> bool" where
  "bound_session lib ad identity \<longleftrightarrow>
     validate_scan_limit (ad_maximum_batch_blocks ad) = Inr () \<and>
     map_identity lib identity = Inr identity \<and> validate_same_chain (ad_identity ad) identity = Inr () \<and>
     (\<forall>n anchor. checked_add (cbr_height anchor) 1 = Some n \<longrightarrow> length (cbr_hash anchor) = 32 \<longrightarrow>
        (let c = cl_cursor_new lib (cci_network identity) (cci_chain_id identity) n anchor in
           cl_cursor_validate_shape lib c = Inr () \<and> wc_version c = cl_CURSOR_VERSION lib \<and>
           wc_network_magic c = cci_network_magic identity \<and> wc_chain_id c = cci_chain_id identity))"

lemma same_chainD:
  assumes "validate_same_chain expected actual = Inr ()"
  shows "cci_network_magic expected = cci_network_magic actual \<and> cci_chain_id expected = cci_chain_id actual"
  using assms by (auto simp: validate_same_chain_def split: if_splits)

lemma serves_current_identity:
  assumes "serves_chain lib (ad_api ad) identity chain" "bound_session lib ad identity"
  shows "current_identity lib ad w = (Inr identity, w)"
  using assms by (simp add: serves_chain_def bound_session_def current_identity_def op_then_def map_err_def lift_result_def)

lemma serves_hash:
  assumes "serves_chain lib (ad_api ad) identity chain"
  shows "canonical_hash_at_height ad h w =
    (Inr (if unat h < length chain then Some (rb_block_hash (chain ! unat h)) else None), w)"
  using assms by (simp add: serves_chain_def canonical_hash_at_height_def map_err_def)

lemma acceptable_hash:
  assumes "acceptable_chain lib identity chain" "i < length chain"
  shows "rb_block_hash (chain ! i) \<noteq> zeros 32"
proof (cases "i = 0")
  case True
  then show ?thesis using assms by (simp add: acceptable_chain_def)
next
  case False
  then obtain b where "map_block lib identity (chain ! i) = Inr b"
    using assms by (auto simp: acceptable_chain_def is_ok_iff)
  then show ?thesis by (auto simp: map_block_def split: if_splits)
qed

lemma checked_add_one_of_nat:
  fixes n :: nat
  assumes "Suc n < 2 ^ 64"
  shows "checked_add (of_nat n :: u64) 1 = Some (of_nat (Suc n))"
proof -
  have "unat (of_nat n :: u64) = n" using assms by (intro unat_of_nat_word) simp
  then show ?thesis using assms unfolding checked_add_def by simp
qed

lemma walk_chain:
  assumes "acceptable_chain lib identity chain" "0 < start" "start + k \<le> length chain"
  shows "\<exists>mapped. walk_blocks lib identity (of_nat start) (rb_block_hash (chain ! (start - 1)))
      (map (nth chain) [start ..< start + k]) = Inr mapped \<and> length mapped = k \<and>
    (0 < k \<longrightarrow> csb_height (last mapped) = of_nat (start + k - 1) \<and>
       csb_block_hash (last mapped) = rb_block_hash (chain ! (start + k - 1)))"
  using assms(2,3)
proof (induction k arbitrary: start)
  case 0
  then show ?case by simp
next
  case (Suc k)
  then have i: "0 < start" "start < length chain" by simp_all
  obtain b where b: "map_block lib identity (chain ! start) = Inr b"
    and r: "rb_height (chain ! start) = of_nat start" "rb_previous_block_hash (chain ! start) = rb_block_hash (chain ! (start - 1))"
    using assms(1) i by (auto simp: acceptable_chain_def is_ok_iff)
  have bb: "csb_height b = of_nat start" "csb_block_hash b = rb_block_hash (chain ! start)"
    using r by (auto intro: map_block_Inr [OF b])
  have len: "length chain < 2 ^ 64" using assms(1) by (simp add: acceptable_chain_def)
  have next_height: "checked_add (of_nat start :: u64) 1 = Some (of_nat (Suc start))"
    using i len by (intro checked_add_one_of_nat) simp
  obtain mapped where m: "walk_blocks lib identity (of_nat (Suc start)) (rb_block_hash (chain ! start))
        (map (nth chain) [Suc start ..< Suc start + k]) = Inr mapped" "length mapped = k"
      "0 < k \<longrightarrow> csb_height (last mapped) = of_nat (Suc start + k - 1) \<and>
         csb_block_hash (last mapped) = rb_block_hash (chain ! (Suc start + k - 1))"
    using Suc.IH [of "Suc start"] Suc.prems by auto
  have "[start ..< start + Suc k] = start # [Suc start ..< Suc start + k]" by (simp add: upt_conv_Cons)
  then have "walk_blocks lib identity (of_nat start) (rb_block_hash (chain ! (start - 1)))
      (map (nth chain) [start ..< start + Suc k]) = Inr (b # mapped)"
    by (simp only: list.map walk_blocks.simps r b bb next_height m(1) if_True if_False not_True_eq_False
        simp_thms ok_or_simps res_bind.simps)
  moreover have "csb_height (last (b # mapped)) = of_nat (start + Suc k - 1) \<and>
      csb_block_hash (last (b # mapped)) = rb_block_hash (chain ! (start + Suc k - 1))"
    using m(2,3) bb by (cases mapped) auto
  ultimately show ?case using m(2) by auto
qed

lemma unat_pred_of_nat: "0 < n \<Longrightarrow> n < 2 ^ 64 \<Longrightarrow> unat ((of_nat n :: u64) - 1) = n - 1"
proof -
  assume n: "0 < n" "n < 2 ^ 64"
  then have "unat (of_nat n :: u64) = n" by (intro unat_of_nat_word) simp
  then show ?thesis using n by (simp add: unat_sub word_le_nat_alt)
qed

lemma chain_cursor_fields:
  assumes "cursor_laws lib" "0 < n" "n \<le> length chain" "length chain < 2 ^ 64"
  shows "anchored chain (chain_cursor lib identity chain n)"
    and "unat (wc_anchor_height (chain_cursor lib identity chain n)) = n - 1"
  using assms by (auto simp: anchored_def chain_cursor_def cursor_laws_def unat_of_nat_word unat_pred_of_nat)

lemma chain_cursor_bound:
  assumes serves: "serves_chain lib (ad_api ad) identity chain" and bound: "bound_session lib ad identity"
    and good: "acceptable_chain lib identity chain" and laws: "cursor_laws lib"
    and n: "0 < n" "n \<le> length chain"
  shows "bound_cursor lib ad identity (chain_cursor lib identity chain n) w =
      (Inr (cl_cursor_to_bytes lib (chain_cursor lib identity chain n)), w)"
    and "adapter_validate_cursor lib ad (cl_cursor_to_bytes lib (chain_cursor lib identity chain n)) w =
      (Inr \<lparr>cbr_height = of_nat (n - 1), cbr_hash = rb_block_hash (chain ! (n - 1))\<rparr>, w)"
proof -
  let ?c = "chain_cursor lib identity chain n"
  have len: "length chain < 2 ^ 64" using good by (simp add: acceptable_chain_def)
  have succ: "checked_add (of_nat (n - 1) :: u64) 1 = Some (of_nat n)"
    using checked_add_one_of_nat [of "n - 1"] n len by simp
  have shape: "cl_cursor_validate_shape lib ?c = Inr () \<and> wc_version ?c = cl_CURSOR_VERSION lib \<and>
      wc_network_magic ?c = cci_network_magic identity \<and> wc_chain_id ?c = cci_chain_id identity"
    using bound succ good n by (auto simp: bound_session_def chain_cursor_def Let_def acceptable_chain_def list_all_length)
  have nz: "wc_anchor_hash ?c \<noteq> zeros 32"
    using acceptable_hash [OF good, of "n - 1"] n laws by (simp add: chain_cursor_def cursor_laws_def)
  have ident: "validate_cursor_identity lib ?c identity = Inr ()"
    using shape nz by (simp add: validate_cursor_identity_def)
  have ident': "validate_cursor_identity lib ?c (ad_identity ad) = Inr ()"
    using shape nz same_chainD [of "ad_identity ad" identity] bound
    by (simp add: validate_cursor_identity_def bound_session_def)
  have dec: "cl_cursor_from_bytes lib (cl_cursor_to_bytes lib ?c) = Inr ?c"
    using laws shape by (simp add: cursor_laws_def)
  note anch = chain_cursor_fields(1) [OF laws n len, of identity]
  have val: "sa_validate_cursor (ad_api ad) ?c w = (Inr \<lparr>cv_valid = True, cv_safe_rescan_anchor =
      \<lparr>cbr_height = wc_anchor_height ?c, cbr_hash = wc_anchor_hash ?c\<rparr>\<rparr>, w)"
    using serves anch by (simp add: serves_chain_def)
  have fields: "wc_anchor_height ?c = of_nat (n - 1)" "wc_anchor_hash ?c = rb_block_hash (chain ! (n - 1))"
    using laws by (simp_all add: chain_cursor_def cursor_laws_def)
  show v: "adapter_validate_cursor lib ad (cl_cursor_to_bytes lib ?c) w =
      (Inr \<lparr>cbr_height = of_nat (n - 1), cbr_hash = rb_block_hash (chain ! (n - 1))\<rparr>, w)"
    by (simp add: adapter_validate_cursor_def core_cursor_decode_def dec ident' op_then_def lift_result_def
        map_err_def val validate_cursor_result_def fields)
  show "bound_cursor lib ad identity ?c w = (Inr (cl_cursor_to_bytes lib ?c), w)"
    by (simp add: bound_cursor_def core_cursor_from_cursor_def shape ident op_then_def lift_result_def v)
qed

lemma take_drop_upt:
  "start \<le> length xs \<Longrightarrow> take n (drop start xs) = map (nth xs) [start ..< min (start + n) (length xs)]"
  by (intro nth_equalityI) auto

lemma chain_page_cursor:
  assumes laws: "cursor_laws lib"
    and tip: "cci_current_tip identity = \<lparr>cbr_height = of_nat t, cbr_hash = rb_block_hash (chain ! t)\<rparr>"
    and t: "length chain = Suc t" "length chain < 2 ^ 64"
    and e: "Suc f = min (start + n) (length chain)"
    and b: "csb_height b = of_nat f" "csb_block_hash b = rb_block_hash (chain ! f)"
  shows "page_cursor lib identity (chain_page lib identity chain start n) b =
    Inr (chain_cursor lib identity chain (Suc f))"
proof -
  let ?page = "chain_page lib identity chain start n"
  have u: "unat (of_nat f :: u64) = f" "unat (of_nat t :: u64) = t" "Suc f < 2 ^ 64"
    using e t by (auto intro!: unat_of_nat_word)
  note succ = checked_add_one_of_nat [OF u(3)]
  have sat: "saturating_add (of_nat f :: u64) 1 = of_nat (Suc f)"
    using succ by (auto simp: checked_add_def saturating_add_def split: if_splits)
  have le: "cbr_height (rs_tip ?page) \<le> csb_height b \<longleftrightarrow> \<not> start + n < length chain"
    using e u(1,2) t(1) by (auto simp: chain_page_def tip b word_le_nat_alt min_def split: if_splits)
  define c where "c = chain_cursor lib identity chain (Suc f)"
  have c: "c = cl_cursor_new lib (cci_network identity) (cci_chain_id identity) (of_nat (Suc f))
      \<lparr>cbr_height = of_nat f, cbr_hash = rb_block_hash (chain ! f)\<rparr>"
    by (simp add: c_def chain_cursor_def)
  have fields: "wc_next_height c = of_nat (Suc f)" "wc_anchor_height c = of_nat f"
      "wc_anchor_hash c = rb_block_hash (chain ! f)"
    unfolding c using laws by (simp_all add: cursor_laws_def)
  show ?thesis
  proof (cases "start + n < length chain")
    case True
    then have "rs_continuation ?page = Some c" using e by (simp add: chain_page_def c_def)
    then show ?thesis using le True fields by (simp add: page_cursor_def b sat c_def del: of_nat_Suc)
  next
    case False
    then have "rs_continuation ?page = None" by (simp add: chain_page_def)
    moreover have "\<not> csb_height b < cbr_height (rs_tip ?page)" using le False by (simp add: not_less)
    ultimately show ?thesis
      using fields by (simp add: page_cursor_def b sat succ c [symmetric] c_def [symmetric] del: of_nat_Suc)
  qed
qed

lemma chain_page_valid:
  assumes serves: "serves_chain lib (ad_api ad) identity chain" and bound: "bound_session lib ad identity"
    and good: "acceptable_chain lib identity chain" and laws: "cursor_laws lib"
    and start: "0 < start" "start \<le> length chain"
    and anchor: "anchor = None \<or>
      anchor = Some \<lparr>cbr_height = of_nat (start - 1), cbr_hash = rb_block_hash (chain ! (start - 1))\<rparr>"
  shows "\<exists>batch. validate_and_map lib ad
      (chain_page lib identity chain start (unat (ad_maximum_batch_blocks ad))) (of_nat start) anchor identity w =
        (Inr batch, w) \<and>
      bt_commit_cursor batch = (if start = length chain then None
         else Some (cl_cursor_to_bytes lib
           (chain_cursor lib identity chain (min (start + unat (ad_maximum_batch_blocks ad)) (length chain)))))"
proof -
  let ?n = "unat (ad_maximum_batch_blocks ad)" and ?e = "min (start + unat (ad_maximum_batch_blocks ad)) (length chain)"
  let ?page = "chain_page lib identity chain start ?n"
  have len: "length chain < 2 ^ 64" "chain \<noteq> []" using good by (simp_all add: acceptable_chain_def)
  have n: "0 < ?n" using bound by (auto simp: bound_session_def validate_scan_limit_def unat_gt_0 split: if_splits)
  obtain t where t: "length chain = Suc t" using len(2) by (cases chain) auto
  have tip: "rs_tip ?page = \<lparr>cbr_height = of_nat t, cbr_hash = rb_block_hash (chain ! t)\<rparr>"
    using serves len(2) by (simp add: serves_chain_def chain_page_def last_conv_nth t)
  have ut: "unat (of_nat t :: u64) = t" and ust: "unat (of_nat start :: u64) = start"
    using len start t by (simp_all add: unat_of_nat_word)
  have tip_hash: "canonical_hash_at_height ad (cbr_height (rs_tip ?page)) w = (Inr (Some (cbr_hash (rs_tip ?page))), w)"
    by (simp add: serves_hash [OF serves] tip ut t)
  have tip_nz: "cbr_hash (rs_tip ?page) \<noteq> zeros 32"
    using acceptable_hash [OF good, of t] by (simp add: tip t)
  have s0: "(of_nat start :: u64) \<noteq> 0" using ust start by auto
  have pred: "unat ((of_nat start :: u64) - 1) = start - 1" using start len by (intro unat_pred_of_nat) auto
  have previous: "expected_previous ad (of_nat start) anchor w = (Inr (rb_block_hash (chain ! (start - 1))), w)"
    using anchor checked_add_one_of_nat [of "start - 1"] start len s0 pred
    by (auto simp: expected_previous_def serves_hash [OF serves] lift_result_def op_then_def)
  obtain mapped where m: "walk_blocks lib identity (of_nat start) (rb_block_hash (chain ! (start - 1)))
        (rs_blocks ?page) = Inr mapped" "length mapped = ?e - start"
      "0 < ?e - start \<longrightarrow> csb_height (last mapped) = of_nat (?e - 1) \<and>
         csb_block_hash (last mapped) = rb_block_hash (chain ! (?e - 1))"
    using walk_chain [OF good start(1), of "?e - start"] start
    by (auto simp: chain_page_def take_drop_upt)
  have small: "length (rs_blocks ?page) \<le> ?n" by (simp add: chain_page_def)
  have cursor: "commit_cursor_of lib ad identity (of_nat start) ?page mapped w =
      (Inr (if start = length chain then None else Some (cl_cursor_to_bytes lib (chain_cursor lib identity chain ?e))), w)"
  proof (cases "start = length chain")
    case True
    then have "mapped = []" using m(2) by simp
    then show ?thesis using True s0 by (simp add: commit_cursor_of_def chain_page_def lift_result_def)
  next
    case False
    then have e: "start < ?e" "0 < ?e" "?e \<le> length chain" using start n by auto
    then have ne: "mapped \<noteq> []" using m(2) by auto
    obtain f where f: "?e = Suc f" using e(2) by (cases "?e") auto
    have lastm: "csb_height (last mapped) = of_nat f" "csb_block_hash (last mapped) = rb_block_hash (chain ! f)"
      using m(3) e(1) f by simp_all
    have "page_cursor lib identity ?page (last mapped) = Inr (chain_cursor lib identity chain (Suc f))"
      by (rule chain_page_cursor [OF laws _ t len(1) f [symmetric] lastm])
        (use tip in \<open>simp add: chain_page_def\<close>)
    then show ?thesis
      using ne False chain_cursor_bound(1) [OF serves bound good laws e(2,3)]
      by (simp add: commit_cursor_of_def op_then_def lift_result_def f)
  qed
  show ?thesis
    using small tip_hash tip_nz previous m(1) cursor
    by (simp add: validate_and_map_def op_then_def lift_result_def)
qed

text \<open>A sink that accepts every commit and publishes its cursor.\<close>

definition accepting_sink :: "('s, 'e) scan_sink \<Rightarrow> bool" where
  "accepting_sink sink \<longleftrightarrow>
     (\<forall>batch c s. \<exists>s'. sk_commit_core_batch sink batch c s = (Inr (), s') \<and>
        sk_core_cursor_state sink s' = Inr (PC_Valid c))"

definition stable_sync ::
  "('hdr, 'cm) consensus_lib \<Rightarrow> 'w core_chain_adapter \<Rightarrow> ('s, 'e) scan_sink \<Rightarrow> core_chain_identity \<Rightarrow>
     raw_scan_block list \<Rightarrow> bool" where
  "stable_sync lib ad sink identity chain \<longleftrightarrow>
     serves_chain lib (ad_api ad) identity chain \<and> bound_session lib ad identity \<and>
     acceptable_chain lib identity chain \<and> cursor_laws lib \<and> accepting_sink sink"

definition cursor_bytes_at ::
  "('hdr, 'cm) consensus_lib \<Rightarrow> core_chain_identity \<Rightarrow> raw_scan_block list \<Rightarrow> nat \<Rightarrow> bytes" where
  "cursor_bytes_at lib identity chain n = cl_cursor_to_bytes lib (chain_cursor lib identity chain n)"

lemma commit_accepted:
  assumes "accepting_sink sink" "bt_commit_cursor batch = Some c"
  shows "\<exists>s'. commit_normal sink batch (w, s) = (Inr (RR_Committed c), (w, s')) \<and>
    sk_core_cursor_state sink s' = Inr (PC_Valid c)"
proof -
  obtain s' where "sk_commit_core_batch sink batch c s = (Inr (), s')" "sk_core_cursor_state sink s' = Inr (PC_Valid c)"
    using assms(1) unfolding accepting_sink_def by blast
  then show ?thesis
    using assms(2) by (auto simp: commit_normal_def op_then_def on_snd_def lift_result_def commit_with_generation_retry_ok)
qed

lemma stable_scan_next:
  assumes sync: "stable_sync lib ad sink identity chain" and n: "0 < n" "n \<le> length chain"
  shows "\<exists>batch. adapter_scan_next lib ad (cursor_bytes_at lib identity chain n) (ad_maximum_batch_blocks ad) w = (Inr batch, w) \<and>
    bt_commit_cursor batch = (if n = length chain then None
      else Some (cursor_bytes_at lib identity chain (min (n + unat (ad_maximum_batch_blocks ad)) (length chain))))"
proof -
  let ?c = "chain_cursor lib identity chain n"
  have serves: "serves_chain lib (ad_api ad) identity chain" and bound: "bound_session lib ad identity"
    and good: "acceptable_chain lib identity chain" and laws: "cursor_laws lib"
    using sync by (simp_all add: stable_sync_def)
  have len: "length chain < 2 ^ 64" using good by (simp add: acceptable_chain_def)
  note bnd = chain_cursor_bound [OF serves bound good laws n]
  have shape: "cl_cursor_from_bytes lib (cl_cursor_to_bytes lib ?c) = Inr ?c" "validate_cursor_identity lib ?c identity = Inr ()"
    using bound_cursor_Inr [OF bnd(1)] laws by (auto simp: cursor_laws_def)
  note anch = chain_cursor_fields(1) [OF laws n len, of identity]
  have fields: "wc_next_height ?c = of_nat n"
      "\<lparr>cbr_height = wc_anchor_height ?c, cbr_hash = wc_anchor_hash ?c\<rparr> =
        \<lparr>cbr_height = of_nat (n - 1), cbr_hash = rb_block_hash (chain ! (n - 1))\<rparr>"
    using laws by (simp_all add: chain_cursor_def cursor_laws_def)
  have un: "unat (of_nat n :: u64) = n" using n len by (simp add: unat_of_nat_word)
  have limit: "check_limit ad (ad_maximum_batch_blocks ad) = Inr ()"
    using bound by (simp add: check_limit_def bound_session_def)
  have page: "sa_scan_next (ad_api ad) ?c (ad_maximum_batch_blocks ad) w =
      (Inr (chain_page lib identity chain n (unat (ad_maximum_batch_blocks ad))), w)"
    using serves anch by (simp add: serves_chain_def fields(1) un)
  obtain batch where "validate_and_map lib ad (chain_page lib identity chain n (unat (ad_maximum_batch_blocks ad)))
      (of_nat n) (Some \<lparr>cbr_height = of_nat (n - 1), cbr_hash = rb_block_hash (chain ! (n - 1))\<rparr>) identity w = (Inr batch, w)"
    and "bt_commit_cursor batch = (if n = length chain then None
      else Some (cursor_bytes_at lib identity chain (min (n + unat (ad_maximum_batch_blocks ad)) (length chain))))"
    using chain_page_valid [OF serves bound good laws n, of "Some _"] unfolding cursor_bytes_at_def by blast
  then show ?thesis
    by (simp add: adapter_scan_next_def limit serves_current_identity [OF serves bound] cursor_bytes_at_def
        core_cursor_decode_def shape op_then_def lift_result_def bnd(2) map_err_def page fields
        del: of_nat_diff One_nat_def)
qed

lemma stable_scan_from_one:
  assumes sync: "stable_sync lib ad sink identity chain" and n: "1 < length chain"
  shows "\<exists>batch. scan_from_height lib ad 1 (ad_maximum_batch_blocks ad) w = (Inr batch, w) \<and>
    bt_commit_cursor batch = Some (cursor_bytes_at lib identity chain (min (1 + unat (ad_maximum_batch_blocks ad)) (length chain)))"
proof -
  have serves: "serves_chain lib (ad_api ad) identity chain" and bound: "bound_session lib ad identity"
    and good: "acceptable_chain lib identity chain" and laws: "cursor_laws lib"
    using sync by (simp_all add: stable_sync_def)
  have limit: "check_limit ad (ad_maximum_batch_blocks ad) = Inr ()"
    using bound by (simp add: check_limit_def bound_session_def)
  have page: "rq_start rq = ScanStart_Height 1 \<Longrightarrow> rq_max_blocks rq = ad_maximum_batch_blocks ad \<Longrightarrow>
      sa_scan_range (ad_api ad) rq w = (Inr (chain_page lib identity chain 1 (unat (ad_maximum_batch_blocks ad))), w)" for rq
    using serves by (simp add: serves_chain_def)
  show ?thesis
    using chain_page_valid [OF serves bound good laws, of 1 None w] n
    by (auto simp: scan_from_height_def limit serves_current_identity [OF serves bound] op_then_def lift_result_def
        map_err_def page cursor_bytes_at_def)
qed

lemma stable_genesis:
  assumes sync: "stable_sync lib ad sink identity chain"
  shows "\<exists>batch. genesis_batch lib ad w = (Inr batch, w) \<and>
    bt_commit_cursor batch = Some (cursor_bytes_at lib identity chain (min (1 + unat (ad_maximum_batch_blocks ad)) (length chain)))"
proof -
  have serves: "serves_chain lib (ad_api ad) identity chain" and bound: "bound_session lib ad identity"
    and good: "acceptable_chain lib identity chain" and laws: "cursor_laws lib"
    using sync by (simp_all add: stable_sync_def)
  have len: "length chain < 2 ^ 64" "chain \<noteq> []" using good by (simp_all add: acceptable_chain_def)
  obtain t where t: "length chain = Suc t" using len(2) by (cases chain) auto
  have tip: "cci_current_tip identity = \<lparr>cbr_height = of_nat t, cbr_hash = rb_block_hash (chain ! t)\<rparr>"
    using serves len(2) by (simp add: serves_chain_def last_conv_nth t)
  have ut: "unat (of_nat t :: u64) = t" using len(1) t by (simp add: unat_of_nat_word)
  then have zero: "(of_nat t :: u64) = 0 \<longleftrightarrow> t = 0" by (cases "t = 0") auto
  have main: "\<not> (cci_network identity = CN_Mainnet \<and> rb_block_hash (chain ! 0) \<noteq> cci_genesis_hash identity)"
    using good by (simp add: acceptable_chain_def)
  have start: "genesis_batch lib ad w =
      (if t = 0 then op_then (bound_cursor lib ad identity (chain_cursor lib identity chain 1)) (\<lambda>cursor.
           lift_result (Inr \<lparr>bt_observed_tip = cci_current_tip identity, bt_blocks = [], bt_commit_cursor = Some cursor\<rparr>)) w
       else scan_from_height lib ad 1 (ad_maximum_batch_blocks ad) w)"
    using main zero
    by (simp add: genesis_batch_def serves_current_identity [OF serves bound] serves_hash [OF serves] t
        op_then_def [of "current_identity lib ad"] op_then_def [of "canonical_hash_at_height ad 0"]
        tip chain_cursor_def)
  show ?thesis
  proof (cases "t = 0")
    case True
    then show ?thesis
      using start chain_cursor_bound(1) [OF serves bound good laws, of 1] t
      by (simp add: op_then_def lift_result_def cursor_bytes_at_def)
  next
    case False
    then show ?thesis using start stable_scan_from_one [OF sync] t by simp
  qed
qed

text \<open>How far a wallet got: nothing committed yet, or a cursor behind the first blocks of the chain.\<close>

definition synced_to ::
  "('hdr, 'cm) consensus_lib \<Rightarrow> ('s, 'e) scan_sink \<Rightarrow> core_chain_identity \<Rightarrow> raw_scan_block list \<Rightarrow> nat \<Rightarrow> 's \<Rightarrow> bool" where
  "synced_to lib sink identity chain n s \<longleftrightarrow>
     n \<le> length chain \<and>
     sk_core_cursor_state sink s =
       Inr (if n = 0 then PC_Absent else PC_Valid (cursor_bytes_at lib identity chain n))"

lemma stable_once:
  assumes sync: "stable_sync lib ad sink identity chain" and at: "synced_to lib sink identity chain n s"
    and n: "n < length chain"
  shows "\<exists>c s' m. reconcile_wallet_once lib ad sink (w, s) = (Inr (RR_Committed c), (w, s')) \<and>
    n < m \<and> synced_to lib sink identity chain m s'"
proof -
  let ?max = "unat (ad_maximum_batch_blocks ad)"
  have facts: "serves_chain lib (ad_api ad) identity chain" "bound_session lib ad identity"
    "acceptable_chain lib identity chain" "cursor_laws lib" "accepting_sink sink"
    using sync by (simp_all add: stable_sync_def)
  have max: "0 < ?max"
    using facts(2) by (auto simp: bound_session_def validate_scan_limit_def unat_gt_0 split: if_splits)
  show ?thesis
  proof (cases "n = 0")
    case True
    let ?m = "min (1 + ?max) (length chain)"
    obtain batch where b: "genesis_batch lib ad w = (Inr batch, w)" "bt_commit_cursor batch = Some (cursor_bytes_at lib identity chain ?m)"
      using stable_genesis [OF sync] by blast
    obtain s' where s': "commit_normal sink batch (w, s) = (Inr (RR_Committed (cursor_bytes_at lib identity chain ?m)), (w, s'))"
        "sk_core_cursor_state sink s' = Inr (PC_Valid (cursor_bytes_at lib identity chain ?m))"
      using commit_accepted [OF facts(5) b(2), of w s] by auto
    have "reconcile_wallet_once lib ad sink (w, s) = (Inr (RR_Committed (cursor_bytes_at lib identity chain ?m)), (w, s'))"
      using True at b s' by (simp add: reconcile_wallet_once_def synced_to_def cursor_state_def op_then_def on_fst_def)
    moreover have "n < ?m" "?m \<noteq> 0" using True max n by auto
    moreover have "synced_to lib sink identity chain ?m s'" using s'(2) \<open>?m \<noteq> 0\<close> by (simp add: synced_to_def)
    ultimately show ?thesis by blast
  next
    case False
    let ?m = "min (n + ?max) (length chain)"
    obtain batch where b: "adapter_scan_next lib ad (cursor_bytes_at lib identity chain n) (ad_maximum_batch_blocks ad) w = (Inr batch, w)"
        "bt_commit_cursor batch = Some (cursor_bytes_at lib identity chain ?m)"
      using stable_scan_next [OF sync, of n w] False n by auto
    obtain s' where s': "commit_normal sink batch (w, s) = (Inr (RR_Committed (cursor_bytes_at lib identity chain ?m)), (w, s'))"
        "sk_core_cursor_state sink s' = Inr (PC_Valid (cursor_bytes_at lib identity chain ?m))"
      using commit_accepted [OF facts(5) b(2), of w s] by auto
    have v: "adapter_validate_cursor lib ad (cursor_bytes_at lib identity chain n) w =
        (Inr \<lparr>cbr_height = of_nat (n - 1), cbr_hash = rb_block_hash (chain ! (n - 1))\<rparr>, w)"
      using chain_cursor_bound(2) [OF facts(1-4)] False n by (simp add: cursor_bytes_at_def)
    have "reconcile_wallet_once lib ad sink (w, s) = (Inr (RR_Committed (cursor_bytes_at lib identity chain ?m)), (w, s'))"
      using False at b s' v
      by (simp add: reconcile_wallet_once_def reconcile_once_def synced_to_def cursor_state_def op_then_def on_fst_def)
    moreover have "n < ?m" "?m \<noteq> 0" using False max n by auto
    moreover have "synced_to lib sink identity chain ?m s'" using s'(2) \<open>?m \<noteq> 0\<close> by (simp add: synced_to_def)
    ultimately show ?thesis by blast
  qed
qed

text \<open>At the tip nothing is committed, so this does not depend on the sink.\<close>

lemma stable_at_tip:
  assumes sync: "stable_sync lib ad any_sink identity chain" and at: "synced_to lib sink identity chain (length chain) s"
  shows "reconcile_wallet_once lib ad sink (w, s) = (Inr RR_NoChanges, (w, s))"
proof -
  have facts: "serves_chain lib (ad_api ad) identity chain" "bound_session lib ad identity"
    "acceptable_chain lib identity chain" "cursor_laws lib"
    using sync by (simp_all add: stable_sync_def)
  then have len: "0 < length chain" by (simp add: acceptable_chain_def)
  let ?c = "cursor_bytes_at lib identity chain (length chain)"
  have v: "adapter_validate_cursor lib ad ?c w =
      (Inr \<lparr>cbr_height = of_nat (length chain - 1), cbr_hash = rb_block_hash (chain ! (length chain - 1))\<rparr>, w)"
    using chain_cursor_bound(2) [OF facts(1-4) len] by (simp add: cursor_bytes_at_def)
  obtain batch where "adapter_scan_next lib ad ?c (ad_maximum_batch_blocks ad) w = (Inr batch, w)" "bt_commit_cursor batch = None"
    using stable_scan_next [OF sync len, of w] by auto
  then show ?thesis
    using at len v
    by (simp add: reconcile_wallet_once_def reconcile_once_def synced_to_def cursor_state_def op_then_def on_fst_def
        commit_normal_def lift_result_def)
qed

lemma stable_round:
  assumes sync: "stable_sync lib ad sink identity chain"
    and once: "reconcile_wallet_once lib ad sink (w, s) = (Inr r, (w, s'))"
    and at: "synced_to lib sink identity chain m s'" and m: "0 < m" "r = RR_NoChanges \<longrightarrow> m = length chain"
  shows "reconcile_round lib ad sink (w, s) = (Inr (if m = length chain then Some r else None), (w, s'))"
proof -
  have facts: "serves_chain lib (ad_api ad) identity chain" "bound_session lib ad identity"
    "acceptable_chain lib identity chain" "cursor_laws lib"
    using sync by (simp_all add: stable_sync_def)
  have le: "m \<le> length chain" and len: "length chain < 2 ^ 64" "chain \<noteq> []"
    using at facts(3) by (simp_all add: synced_to_def acceptable_chain_def)
  obtain t where t: "length chain = Suc t" using len(2) by (cases chain) auto
  obtain k where k: "m = Suc k" using m(1) by (cases m) auto
  have tip: "current_tip lib ad w = (Inr \<lparr>cbr_height = of_nat t, cbr_hash = rb_block_hash (chain ! t)\<rparr>, w)"
    using facts(1) len(2)
    by (simp add: current_tip_def serves_current_identity [OF facts(1,2)] op_then_def lift_result_def
        serves_chain_def last_conv_nth t)
  have v: "adapter_validate_cursor lib ad (cursor_bytes_at lib identity chain m) w =
      (Inr \<lparr>cbr_height = of_nat k, cbr_hash = rb_block_hash (chain ! k)\<rparr>, w)"
    using chain_cursor_bound(2) [OF facts(1-4) m(1) le] by (simp add: cursor_bytes_at_def k)
  have "unat (of_nat k :: u64) = k" "unat (of_nat t :: u64) = t"
    using le len t k by (auto intro!: unat_of_nat_word)
  then have "(of_nat k :: u64) = of_nat t \<longleftrightarrow> m = length chain" using k t by (metis Suc_inject)
  then show ?thesis
    using once at m v tip t k
    by (auto simp: reconcile_round_def synced_to_def cursor_state_def op_then_def on_fst_def lift_result_def)
qed


subsection \<open>Witnesses\<close>

text \<open>A sink in memory: the cursor and the committed hashes.\<close>

record memory_sink =
  ms_cursor :: persisted_core_cursor_state
  ms_hashes :: "(u64 \<times> bytes) list"

definition batch_hashes :: "core_scan_batch \<Rightarrow> (u64 \<times> bytes) list" where
  "batch_hashes batch = map (\<lambda>b. (csb_height b, csb_block_hash b)) (bt_blocks batch)"

definition sample_sink :: "(memory_sink, unit) scan_sink" where
  "sample_sink =
     \<lparr>sk_core_cursor_state = (\<lambda>s. Inr (ms_cursor s)),
      sk_committed_canonical_hash = (\<lambda>h s. Inr (map_of (ms_hashes s) h)),
      sk_commit_core_batch = (\<lambda>batch c s.
        (Inr (), s\<lparr>ms_cursor := PC_Valid c, ms_hashes := batch_hashes batch @ ms_hashes s\<rparr>)),
      sk_commit_core_reorg = (\<lambda>anchor batch c s.
        (Inr (), s\<lparr>ms_cursor := PC_Valid c,
           ms_hashes := batch_hashes batch @ filter (\<lambda>(h, _). h \<le> cbr_height anchor) (ms_hashes s)\<rparr>)),
      sk_persistence_stage = (\<lambda>_. ST_StorageCommit),
      sk_recover_generation_conflict = (\<lambda>_ s. (Inr False, s))\<rparr>"

lemma sample_stable_sync: "stable_sync sample_consensus sample_adapter sample_sink sample_chain_identity sample_chain"
proof -
  have len: "length sample_chain = 3" by (simp add: sample_chain_def)
  have hash: "length (sample_block_hash h) = 32" for h by (simp add: sample_block_hash_def)
  have "serves_chain sample_consensus (ad_api sample_adapter) sample_chain_identity sample_chain"
    by (auto simp: serves_chain_def sample_adapter_def sample_scan_api_def lift_result_def sample_page_def
        sample_chain_identity_def sample_chain_def sample_raw_block_def)
  moreover have "bound_session sample_consensus sample_adapter sample_chain_identity"
    by (simp add: bound_session_def sample_adapter_def sample_consensus_def sample_chain_identity_def
        validate_scan_limit_def MAX_CORE_SCAN_BATCH_BLOCKS_def map_identity_def validate_same_chain_def
        sample_block_hash_def zeros_def Let_def)
  moreover have "acceptable_chain sample_consensus sample_chain_identity sample_chain"
  proof -
    have "is_ok (map_block sample_consensus sample_chain_identity (sample_chain ! i))" if "i < 3" for i
      using that sample_map_block [of 0] sample_map_block [of 1] sample_map_block [of 2]
      by (auto simp: sample_chain_def numeral_3_eq_3 less_Suc_eq)
    moreover have "rb_height (sample_chain ! i) = of_nat i \<and>
        rb_previous_block_hash (sample_chain ! i) = rb_block_hash (sample_chain ! (i - 1))" if "0 < i" "i < 3" for i
      using that by (auto simp: sample_chain_def sample_raw_block_def numeral_3_eq_3 less_Suc_eq)
    ultimately show ?thesis
      by (auto simp: acceptable_chain_def len) (auto simp: sample_chain_def sample_raw_block_def hash
          sample_block_hash_def zeros_def sample_chain_identity_def)
  qed
  moreover have "accepting_sink sample_sink" by (simp add: accepting_sink_def sample_sink_def)
  ultimately show ?thesis by (simp add: stable_sync_def sample_cursor_laws)
qed


theorem accepted_page_is_chain_witness:
  "\<exists>batch. validate_and_map sample_consensus sample_adapter (sample_page 1 2) 1 None sample_chain_identity () =
       (Inr batch, ()) \<and>
     list_all2 (\<lambda>r b. map_block sample_consensus sample_chain_identity r = Inr b)
       [sample_raw_block 1, sample_raw_block 2] (bt_blocks batch)"
proof -
  have facts: "serves_chain sample_consensus (ad_api sample_adapter) sample_chain_identity sample_chain"
    "bound_session sample_consensus sample_adapter sample_chain_identity"
    "acceptable_chain sample_consensus sample_chain_identity sample_chain" "cursor_laws sample_consensus"
    using sample_stable_sync by (simp_all add: stable_sync_def)
  have max: "unat (ad_maximum_batch_blocks sample_adapter) = 2" by (simp add: sample_adapter_def)
  obtain batch where run: "validate_and_map sample_consensus sample_adapter (sample_page 1 2) 1 None
      sample_chain_identity () = (Inr batch, ())"
    using chain_page_valid [OF facts, of 1 None "()"]
    by (auto simp: max sample_page_def sample_chain_def)
  have "rs_blocks (sample_page 1 2) = [sample_raw_block 1, sample_raw_block 2]"
    by (simp add: sample_page_def chain_page_def sample_chain_def)
  then show ?thesis
    using accepted_page_is_chain [OF run facts(4)] run by auto
qed

theorem safe_anchor_is_highest_witness:
  "fst (find_safe_anchor sample_adapter sample_sink 2
      ((), \<lparr>ms_cursor = PC_Absent, ms_hashes = [(0, sample_block_hash 0), (1, sample_block_hash 7)]\<rparr>)) =
    Inr \<lparr>cbr_height = 0, cbr_hash = sample_block_hash 0\<rparr>"
proof -
  let ?s = "\<lparr>ms_cursor = PC_Absent, ms_hashes = [(0, sample_block_hash 0), (1, sample_block_hash 7)]\<rparr>"
  define chain where "chain h = (if unat h < length sample_chain then Some (rb_block_hash (sample_chain ! unat h)) else None)"
    for h :: u64
  have one: "h = 1" if "0 < h" "h < 2" for h :: u64
  proof -
    have "unat h = unat (1 :: u64)" using that by (simp add: word_less_nat_alt)
    then show ?thesis by (simp only: word_unat_eq_iff)
  qed
  have local: "sk_committed_canonical_hash sample_sink h ?s = Inr (map_of (ms_hashes ?s) h)" for h
    by (simp add: sample_sink_def)
  have node: "sa_canonical_hash_at_height (ad_api sample_adapter) h () = (Inr (chain h), ())" for h
    by (simp add: sample_adapter_def sample_scan_api_def lift_result_def chain_def)
  have chain: "chain 0 = Some (sample_block_hash 0)" "chain 1 = Some (sample_block_hash 1)"
    by (simp_all add: chain_def sample_chain_def sample_raw_block_def)
  have hashes: "sample_block_hash 0 \<noteq> zeros 32" "sample_block_hash 1 \<noteq> sample_block_hash 7"
    by (simp_all add: sample_block_hash_def zeros_def)
  have "\<not> (\<exists>c. map_of (ms_hashes ?s) h = Some c \<and> chain h = Some c \<and> c \<noteq> zeros 32)" if "0 < h" "h < 2" for h
    using one [OF that] chain(2) hashes(2) by auto
  then show ?thesis
    using safe_anchor_is_highest [OF local node, of 2 "\<lparr>cbr_height = 0, cbr_hash = sample_block_hash 0\<rparr>"] chain(1) hashes(1)
    by (simp add: sample_adapter_def)
qed

end
