(* ===== verification/Recovery_Scan.thy ===== *)
theory Recovery_Scan
  imports Scan_Page Wallet_Run
begin

text \<open>
  Applying canonical pages to the wallet (\<open>dom-wallet-core-restore\<close>): the outputs that the seed
  recognises in a page are merged into the state, spends are marked, the window of canonical block
  anchors and the whole-history counters are kept, coinbase maturity is refreshed and Scriptless
  reservations are bound again; and the rewind to a safe height after a reorganisation. Recognising
  outputs, deriving blindings and commitments belongs to libraries outside the repository, the
  record \<open>recovery_lib\<close>; \<open>Uuid::new_v4\<close> is a function of the state it is called in. Both callers
  drop the state when a step fails, so a step returns an error or the new state.
\<close>

subsection \<open>Data\<close>

definition RECOVERY_CANONICAL_WINDOW_BLOCKS :: u64 where "RECOVERY_CANONICAL_WINDOW_BLOCKS = 2048"

datatype seed_restore_error =
    SR_InvalidMnemonic | SR_InvalidPassword | SR_InvalidDestination | SR_ChainIdentityMismatch
  | SR_CanonicalScan | SR_CoreBusy | SR_MalformedRecovery | SR_ConflictingOutput
  | SR_CoordinateOverflow | SR_Storage | SR_StateStorageLimitExceeded | SR_IncompatibleCheckpoint
  | SR_Incomplete

datatype output_recovery_domain = OD_Received | OD_Change | OD_SelfTransfer | OD_Coinbase

datatype restore_error = RE_Continuity | RE_Malformed | RE_Crypto

record restored_output =
  rso_commitment :: bytes
  rso_value :: u64
  rso_blinding :: bytes
  rso_account :: u32
  rso_derivation_index :: u64
  rso_domain :: output_recovery_domain
  rso_block_height :: u64
  rso_block_hash :: bytes
  rso_is_coinbase :: bool
  rso_spent_at_height :: "u64 option"

record recovery_chain_context =
  rcc_network_magic :: u32
  rcc_chain_id :: bytes

record 'seed recovery_lib =
  rl_restore_canonical_scan ::
    "'seed \<Rightarrow> recovery_chain_context \<Rightarrow> raw_scan_block list \<Rightarrow> restore_error + restored_output list"
  rl_legacy_coinbase_blinding :: "'seed \<Rightarrow> u64 \<Rightarrow> bytes option"
  rl_blinding_factor_valid :: "bytes \<Rightarrow> bool"
  rl_commit :: "u64 \<Rightarrow> bytes \<Rightarrow> bytes"
  rl_entropy :: "'seed \<Rightarrow> bytes"
  rl_new_uuid :: "wallet_state \<Rightarrow> uuid"

fun map_domain :: "output_recovery_domain \<Rightarrow> recovered_output_domain" where
  "map_domain OD_Received = D_Received"
| "map_domain OD_Change = D_Change"
| "map_domain OD_SelfTransfer = D_SelfTransfer"
| "map_domain OD_Coinbase = D_Coinbase"

fun update_floor ::
  "recovered_output_domain \<Rightarrow> u64 \<Rightarrow> recovery_allocation_floors \<Rightarrow> recovery_allocation_floors" where
  "update_floor D_Received i f = f\<lparr>raf_received := max (raf_received f) i\<rparr>"
| "update_floor D_Change i f = f\<lparr>raf_change := max (raf_change f) i\<rparr>"
| "update_floor D_SelfTransfer i f = f\<lparr>raf_self_transfer := max (raf_self_transfer f) i\<rparr>"
| "update_floor D_Coinbase i f = f\<lparr>raf_coinbase := max (raf_coinbase f) i\<rparr>"

definition to_core_output :: "core_scan_output \<Rightarrow> scan_output" where
  "to_core_output out =
     \<lparr>sco_commitment = cso_commitment out, sco_range_proof = cso_range_proof out,
      sco_recovery_capsule = cso_recovery_capsule out, sco_recovery_version = cso_recovery_version out,
      sco_is_coinbase = cso_is_coinbase out, sco_block_height = cso_block_height out,
      sco_block_hash = cso_block_hash out, sco_output_position = cso_output_position out\<rparr>"

definition to_core_block :: "core_scan_block \<Rightarrow> raw_scan_block" where
  "to_core_block block =
     \<lparr>rb_height = csb_height block, rb_block_hash = csb_block_hash block,
      rb_previous_block_hash = csb_previous_block_hash block,
      rb_canonical_header_bytes = csb_canonical_header_bytes block, rb_timestamp = csb_timestamp block,
      rb_canonical_marker = csb_canonical_marker block,
      rb_outputs = map to_core_output (csb_outputs block),
      rb_inputs = map (\<lambda>inp. \<lparr>sci_spent_commitment = csi_spent_commitment inp\<rparr>) (csb_inputs block),
      rb_kernels = map (\<lambda>ker. \<lparr>sck_excess = csk_excess ker, sck_features = csk_features ker,
        sck_fee = csk_fee ker, sck_lock_height = csk_lock_height ker,
        sck_excess_signature = csk_excess_signature ker\<rparr>) (csb_kernels block),
      rb_transactions = csb_transactions block,
      rb_coinbase = \<lparr>scm_output_commitment = ccm_output_commitment (csb_coinbase block),
        scm_explicit_value = ccm_explicit_value (csb_coinbase block),
        scm_kernel_excess = ccm_kernel_excess (csb_coinbase block),
        scm_kernel_features = ccm_kernel_features (csb_coinbase block),
        scm_kernel_excess_signature = ccm_kernel_excess_signature (csb_coinbase block),
        scm_offset = ccm_offset (csb_coinbase block),
        scm_output_proof_envelope = ccm_output_proof_envelope (csb_coinbase block)\<rparr>,
      rb_total_fees_noms = csb_total_fees_noms block, rb_protocol_version = csb_protocol_version block,
      rb_range_proof_serialization_version = csb_range_proof_serialization_version block\<rparr>"

subsection \<open>Merging restored outputs\<close>

definition recovered_output_state ::
  "restored_output \<Rightarrow> u64 \<Rightarrow> u64 \<Rightarrow> seed_restore_error + output_state" where
  "recovered_output_state restored tip_height coinbase_maturity =
     (case rso_spent_at_height restored of
        Some h \<Rightarrow> Inr (Spent h)
      | None \<Rightarrow>
          if rso_is_coinbase restored then
            res_bind (ok_or (checked_add (rso_block_height restored) coinbase_maturity) SR_CoordinateOverflow)
              (\<lambda>required_height.
                 if tip_height < required_height then Inr (Immature required_height) else Inr Confirmed)
          else Inr Confirmed)"

definition account_id_for ::
  "'seed recovery_lib \<Rightarrow> u32 \<Rightarrow> wallet_state \<Rightarrow> seed_restore_error + (uuid \<times> wallet_state)" where
  "account_id_for lib recovery_account s =
     (if recovery_account = 0 then Inr (acc_id (ws_default_account s), s)
      else case find (\<lambda>account. ram_recovery_account account = recovery_account) (ws_recovered_accounts s) of
        Some account \<Rightarrow> Inr (ram_account_id account, s)
      | None \<Rightarrow>
          if MAX_ACCOUNTS - 1 \<le> length (ws_recovered_accounts s) then Inl SR_MalformedRecovery
          else Inr (rl_new_uuid lib s,
                    s\<lparr>ws_recovered_accounts := ws_recovered_accounts s
                        @ [\<lparr>ram_recovery_account = recovery_account, ram_account_id = rl_new_uuid lib s\<rparr>]\<rparr>))"

definition metadata_of :: "restored_output \<Rightarrow> u32 \<Rightarrow> uuid \<Rightarrow> recovered_output_metadata" where
  "metadata_of restored output_position output_id =
     \<lparr>rom_output_id = output_id, rom_recovery_account = rso_account restored,
      rom_derivation_index = rso_derivation_index restored, rom_domain = map_domain (rso_domain restored),
      rom_is_coinbase = rso_is_coinbase restored, rom_block_hash = rso_block_hash restored,
      rom_output_position = output_position\<rparr>"

text \<open>Meeting an output again that was merged before: every binding has to agree.\<close>

definition rediscovery_conflicts ::
  "restored_output \<Rightarrow> u32 \<Rightarrow> output_record \<Rightarrow> recovered_output_metadata \<Rightarrow> bytes \<Rightarrow> bool" where
  "rediscovery_conflicts restored output_position existing meta blinding \<longleftrightarrow>
     or_value existing \<noteq> rso_value restored
   \<or> or_discovered_height existing \<noteq> rso_block_height restored
   \<or> rom_recovery_account meta \<noteq> rso_account restored
   \<or> rom_derivation_index meta \<noteq> rso_derivation_index restored
   \<or> rom_domain meta \<noteq> map_domain (rso_domain restored)
   \<or> rom_block_hash meta \<noteq> rso_block_hash restored
   \<or> rom_output_position meta \<noteq> output_position
   \<or> blinding \<noteq> rso_blinding restored"

text \<open>Adopting a locally pending output.\<close>

definition adoption_conflicts :: "restored_output \<Rightarrow> output_record \<Rightarrow> uuid \<Rightarrow> bytes \<Rightarrow> bool" where
  "adoption_conflicts restored existing expected_account blinding \<longleftrightarrow>
     or_value existing \<noteq> rso_value restored
   \<or> or_account_id existing \<noteq> expected_account
   \<or> or_discovered_height existing \<noteq> 0
   \<or> or_reserved_by existing \<noteq> None
   \<or> or_state existing \<noteq> PendingIncoming
   \<or> blinding \<noteq> rso_blinding restored"

definition merge_existing ::
  "'seed recovery_lib \<Rightarrow> restored_output \<Rightarrow> u32 \<Rightarrow> u64 \<Rightarrow> u64 \<Rightarrow> nat \<Rightarrow> wallet_state \<Rightarrow>
     seed_restore_error + wallet_state" where
  "merge_existing lib restored output_position tip_height coinbase_maturity index s =
     (let existing = ws_outputs s ! index in
      res_bind (ok_or (output_blinding s (or_id existing)) SR_ConflictingOutput) (\<lambda>blinding.
        case find (\<lambda>meta. rom_output_id meta = or_id existing) (ws_recovered_output_metadata s) of
          Some meta \<Rightarrow>
            if rediscovery_conflicts restored output_position existing meta blinding
            then Inl SR_ConflictingOutput else Inr s
        | None \<Rightarrow>
            res_bind (account_id_for lib (rso_account restored) s) (\<lambda>(expected_account, s1).
              if adoption_conflicts restored existing expected_account blinding
              then Inl SR_ConflictingOutput
              else res_bind (recovered_output_state restored tip_height coinbase_maturity) (\<lambda>confirmed_state.
                Inr (s1\<lparr>ws_outputs := (ws_outputs s1)[index :=
                          existing\<lparr>or_discovered_height := rso_block_height restored,
                                   or_state := confirmed_state\<rparr>],
                        ws_recovered_output_metadata := ws_recovered_output_metadata s1
                          @ [metadata_of restored output_position (or_id existing)]\<rparr>)))))"

definition merge_new ::
  "'seed recovery_lib \<Rightarrow> restored_output \<Rightarrow> u32 \<Rightarrow> u64 \<Rightarrow> u64 \<Rightarrow> wallet_state \<Rightarrow>
     seed_restore_error + wallet_state" where
  "merge_new lib restored output_position tip_height coinbase_maturity s =
     res_bind (account_id_for lib (rso_account restored) s) (\<lambda>(account_id, s1).
       let output_id = rl_new_uuid lib s1 in
       res_bind (recovered_output_state restored tip_height coinbase_maturity) (\<lambda>state_value.
         let s2 = remember_output_blinding output_id (rso_blinding restored)
               (s1\<lparr>ws_outputs := ws_outputs s1 @
                   [\<lparr>or_id = output_id, or_account_id = account_id,
                     or_commitment = Some (rso_commitment restored), or_value = rso_value restored,
                     or_state = state_value, or_discovered_height = rso_block_height restored,
                     or_reserved_by = None\<rparr>]\<rparr>) in
         Inr (s2\<lparr>ws_recovered_output_metadata := ws_recovered_output_metadata s2
                   @ [metadata_of restored output_position output_id]\<rparr>)))"

definition raise_floors :: "restored_output \<Rightarrow> wallet_state \<Rightarrow> wallet_state" where
  "raise_floors restored s =
     s\<lparr>ws_recovery_allocation_floors :=
          update_floor (map_domain (rso_domain restored)) (rso_derivation_index restored)
            (ws_recovery_allocation_floors s),
       ws_non_reuse_floor := max (ws_non_reuse_floor s) (rso_derivation_index restored)\<rparr>"

definition merge_restored_output ::
  "'seed recovery_lib \<Rightarrow> u64 \<Rightarrow> u64 \<Rightarrow> restored_output \<Rightarrow> u32 \<Rightarrow> wallet_state \<Rightarrow>
     seed_restore_error + wallet_state" where
  "merge_restored_output lib tip_height coinbase_maturity restored output_position s =
     (let s1 = raise_floors restored s in
      case position (\<lambda>out. or_commitment out = Some (rso_commitment restored)) (ws_outputs s1) of
        Some index \<Rightarrow> merge_existing lib restored output_position tip_height coinbase_maturity index s1
      | None \<Rightarrow> merge_new lib restored output_position tip_height coinbase_maturity s1)"

definition restore_legacy_coinbase ::
  "'seed recovery_lib \<Rightarrow> 'seed \<Rightarrow> core_scan_block \<Rightarrow> seed_restore_error + (restored_output \<times> u32) option" where
  "restore_legacy_coinbase lib seed block =
     (case find (\<lambda>out. cso_is_coinbase out \<and> cso_recovery_version out = 0 \<and> cso_recovery_capsule out = []
             \<and> cso_commitment out = ccm_output_commitment (csb_coinbase block)) (csb_outputs block) of
        None \<Rightarrow> Inr None
      | Some out \<Rightarrow>
          if cso_block_height out \<noteq> csb_height block \<or> cso_block_hash out \<noteq> csb_block_hash block
          then Inl SR_MalformedRecovery
          else res_bind (ok_or (rl_legacy_coinbase_blinding lib seed (csb_height block)) SR_MalformedRecovery)
            (\<lambda>blinding.
               if \<not> rl_blinding_factor_valid lib blinding then Inl SR_MalformedRecovery
               else if rl_commit lib (ccm_explicit_value (csb_coinbase block)) blinding \<noteq> cso_commitment out
               then Inr None
               else Inr (Some (\<lparr>rso_commitment = cso_commitment out,
                   rso_value = ccm_explicit_value (csb_coinbase block), rso_blinding = blinding,
                   rso_account = 0, rso_derivation_index = csb_height block, rso_domain = OD_Coinbase,
                   rso_block_height = csb_height block, rso_block_hash = csb_block_hash block,
                   rso_is_coinbase = True, rso_spent_at_height = None\<rparr>, cso_output_position out))))"

subsection \<open>The canonical window, counters and maturity\<close>

definition sum_counts :: "recovery_canonical_block list \<Rightarrow> u64 option" where
  "sum_counts blocks =
     foldl (\<lambda>acc block. Option.bind acc (\<lambda>n. checked_add n (ucast (rcb_output_count block)))) (Some 0) blocks"

definition migrate_durable_scan_counters :: "wallet_state \<Rightarrow> seed_restore_error + wallet_state" where
  "migrate_durable_scan_counters s =
     (if ws_recovery_scanned_blocks s \<noteq> 0 \<or> ws_recovery_canonical_blocks s = [] then Inr s
      else res_bind (ok_or (sum_counts (ws_recovery_canonical_blocks s)) SR_CoordinateOverflow) (\<lambda>outputs.
        Inr (s\<lparr>ws_recovery_scanned_blocks := of_nat (length (ws_recovery_canonical_blocks s)),
               ws_recovery_scanned_outputs := outputs\<rparr>)))"

definition prune_recovery_canonical_window :: "wallet_state \<Rightarrow> wallet_state" where
  "prune_recovery_canonical_window s =
     (let blocks = ws_recovery_canonical_blocks s in
      if blocks = [] then s
      else let minimum = saturating_sub (rcb_height (last blocks))
                 (saturating_sub RECOVERY_CANONICAL_WINDOW_BLOCKS 1) in
        if rcb_height (hd blocks) < minimum
        then s\<lparr>ws_recovery_canonical_blocks := filter (\<lambda>block. minimum \<le> rcb_height block) blocks\<rparr>
        else s)"

definition refresh_output ::
  "recovered_output_metadata list \<Rightarrow> u64 \<Rightarrow> u64 \<Rightarrow> output_record \<Rightarrow> seed_restore_error + output_record" where
  "refresh_output metas tip_height coinbase_maturity out =
     (if is_spent (or_state out) then Inr out
      else case find (\<lambda>meta. rom_output_id meta = or_id out) metas of
        None \<Rightarrow> Inr out
      | Some meta \<Rightarrow>
          if rom_is_coinbase meta then
            res_bind (ok_or (checked_add (or_discovered_height out) coinbase_maturity) SR_CoordinateOverflow)
              (\<lambda>required_height.
                 Inr (out\<lparr>or_state := if tip_height < required_height then Immature required_height
                                      else Confirmed\<rparr>))
          else Inr (out\<lparr>or_state := Confirmed\<rparr>))"

definition refresh_maturity :: "u64 \<Rightarrow> u64 \<Rightarrow> wallet_state \<Rightarrow> seed_restore_error + wallet_state" where
  "refresh_maturity tip_height coinbase_maturity s =
     res_bind (map_results (refresh_output (ws_recovered_output_metadata s) tip_height coinbase_maturity)
                 (ws_outputs s)) (\<lambda>outs.
       Inr (s\<lparr>ws_outputs := outs\<rparr>))"

subsection \<open>One block\<close>

definition record_block :: "core_scan_block \<Rightarrow> wallet_state \<Rightarrow> seed_restore_error + wallet_state" where
  "record_block block s =
     (let legacy = length (filter (\<lambda>out. cso_recovery_version out = 0 \<and> cso_recovery_capsule out = [])
                     (csb_outputs block)) in
      if 2 ^ 32 \<le> legacy then Inl SR_MalformedRecovery
      else case find (\<lambda>existing. rcb_height existing = csb_height block) (ws_recovery_canonical_blocks s) of
        Some existing \<Rightarrow>
          if rcb_block_hash existing \<noteq> csb_block_hash block then Inl SR_ConflictingOutput else Inr s
      | None \<Rightarrow>
          if 2 ^ 32 \<le> length (csb_outputs block) then Inl SR_MalformedRecovery
          else
            res_bind (ok_or (checked_add (ws_recovery_scanned_blocks s) 1) SR_CoordinateOverflow) (\<lambda>blocks.
            res_bind (ok_or (checked_add (ws_recovery_scanned_outputs s) (of_nat (length (csb_outputs block))))
                SR_CoordinateOverflow) (\<lambda>outputs.
            res_bind (ok_or (checked_add (ws_legacy_proof_only_outputs s) (of_nat legacy))
                SR_CoordinateOverflow) (\<lambda>legacy_outputs.
              Inr (s\<lparr>ws_recovery_canonical_blocks := ws_recovery_canonical_blocks s @
                       [\<lparr>rcb_height = csb_height block, rcb_block_hash = csb_block_hash block,
                         rcb_previous_block_hash = csb_previous_block_hash block,
                         rcb_output_count = of_nat (length (csb_outputs block)),
                         rcb_legacy_proof_only_outputs = of_nat legacy\<rparr>],
                     ws_recovery_scanned_blocks := blocks, ws_recovery_scanned_outputs := outputs,
                     ws_legacy_proof_only_outputs := legacy_outputs\<rparr>)))))"

definition spend_input ::
  "u64 \<Rightarrow> core_scan_input \<Rightarrow> bytes set \<times> wallet_state \<Rightarrow> seed_restore_error + bytes set \<times> wallet_state" where
  "spend_input height inp x =
     (case x of (page_inputs, s) \<Rightarrow>
        let c = csi_spent_commitment inp in
        if c \<in> page_inputs then Inl SR_ConflictingOutput
        else case find (\<lambda>out. or_commitment out = Some c) (ws_outputs s) of
          None \<Rightarrow> Inr (insert c page_inputs, s)
        | Some out \<Rightarrow>
            if (case or_state out of Spent h \<Rightarrow> h \<noteq> height | _ \<Rightarrow> False)
            then Inl SR_ConflictingOutput
            else Inr (insert c page_inputs,
              s\<lparr>ws_outputs := update_first (\<lambda>out. or_commitment out = Some c)
                  (\<lambda>out. out\<lparr>or_state := Spent height, or_reserved_by := None\<rparr>) (ws_outputs s)\<rparr>))"

definition apply_block ::
  "core_scan_block \<Rightarrow> bytes set \<times> wallet_state \<Rightarrow> seed_restore_error + bytes set \<times> wallet_state" where
  "apply_block block x =
     (case x of (page_inputs, s) \<Rightarrow>
        res_bind (record_block block s) (\<lambda>s1.
          try_fold (spend_input (csb_height block)) (csb_inputs block) (page_inputs, s1)))"

subsection \<open>One page\<close>

fun scan_failure :: "restore_error \<Rightarrow> seed_restore_error" where
  "scan_failure RE_Continuity = SR_ConflictingOutput"
| "scan_failure RE_Malformed = SR_MalformedRecovery"
| "scan_failure RE_Crypto = SR_MalformedRecovery"

text \<open>Collecting into a \<open>BTreeMap\<close>: the last position of a commitment counts.\<close>

definition output_positions :: "core_scan_batch \<Rightarrow> bytes \<Rightarrow> u32 option" where
  "output_positions batch =
     map_of (rev (map (\<lambda>out. (cso_commitment out, cso_output_position out))
       (concat (map csb_outputs (bt_blocks batch)))))"

definition merge_scanned ::
  "'seed recovery_lib \<Rightarrow> core_chain_identity \<Rightarrow> core_scan_batch \<Rightarrow> restored_output \<Rightarrow> wallet_state \<Rightarrow>
     seed_restore_error + wallet_state" where
  "merge_scanned lib identity batch restored s =
     res_bind (ok_or (output_positions batch (rso_commitment restored)) SR_MalformedRecovery) (\<lambda>pos.
       merge_restored_output lib (cbr_height (bt_observed_tip batch)) (cci_coinbase_maturity identity)
         restored pos s)"

definition merge_legacy ::
  "'seed recovery_lib \<Rightarrow> 'seed \<Rightarrow> core_chain_identity \<Rightarrow> core_scan_batch \<Rightarrow> core_scan_block \<Rightarrow> wallet_state \<Rightarrow>
     seed_restore_error + wallet_state" where
  "merge_legacy lib seed identity batch block s =
     res_bind (restore_legacy_coinbase lib seed block) (\<lambda>found.
       case found of
         None \<Rightarrow> Inr s
       | Some (restored, pos) \<Rightarrow>
           merge_restored_output lib (cbr_height (bt_observed_tip batch)) (cci_coinbase_maturity identity)
             restored pos s)"

definition domain_step :: "unit wallet_op \<Rightarrow> wallet_state \<Rightarrow> seed_restore_error + wallet_state" where
  "domain_step m s = (case m s of (Inl e, s') \<Rightarrow> Inl SR_MalformedRecovery | (Inr _, s') \<Rightarrow> Inr s')"

definition apply_recovery_batch ::
  "'seed recovery_lib \<Rightarrow> 'seed \<Rightarrow> recovery_chain_context \<Rightarrow> core_chain_identity \<Rightarrow> core_scan_batch \<Rightarrow>
     wallet_state \<Rightarrow> seed_restore_error + wallet_state" where
  "apply_recovery_batch lib seed chain identity batch s =
     res_bind (map_sum scan_failure id
         (rl_restore_canonical_scan lib seed chain (map to_core_block (bt_blocks batch)))) (\<lambda>restored.
     res_bind (try_fold (merge_scanned lib identity batch) restored s) (\<lambda>s1.
     res_bind (try_fold (merge_legacy lib seed identity batch) (bt_blocks batch) s1) (\<lambda>s2.
     res_bind (migrate_durable_scan_counters s2) (\<lambda>s3.
     res_bind (try_fold apply_block (bt_blocks batch) ({}, s3)) (\<lambda>(page_inputs, s4).
     res_bind (refresh_maturity (cbr_height (bt_observed_tip batch)) (cci_coinbase_maturity identity)
         (prune_recovery_canonical_window
            (s4\<lparr>ws_recovery_canonical_blocks := sort_key rcb_height (ws_recovery_canonical_blocks s4)\<rparr>))) (\<lambda>s5.
     res_bind (domain_step restore_scriptless_funding_reservations s5) (\<lambda>s6.
       domain_step restore_scriptless_payout_reservations s6)))))))"

subsection \<open>Rewinding\<close>

definition rewind_counters :: "u64 \<Rightarrow> wallet_state \<Rightarrow> wallet_state" where
  "rewind_counters safe_height s =
     (let rewound = filter (\<lambda>block. safe_height < rcb_height block) (ws_recovery_canonical_blocks s) in
      s\<lparr>ws_recovery_scanned_blocks := saturating_sub (ws_recovery_scanned_blocks s)
           (foldl (\<lambda>n block. saturating_add n 1) 0 rewound),
        ws_recovery_scanned_outputs := saturating_sub (ws_recovery_scanned_outputs s)
           (foldl (\<lambda>n block. saturating_add n (ucast (rcb_output_count block))) 0 rewound),
        ws_legacy_proof_only_outputs := saturating_sub (ws_legacy_proof_only_outputs s)
           (foldl (\<lambda>n block. saturating_add n (ucast (rcb_legacy_proof_only_outputs block))) 0 rewound),
        ws_recovery_canonical_blocks := filter (\<lambda>block. rcb_height block \<le> safe_height)
           (ws_recovery_canonical_blocks s)\<rparr>)"

definition unspend_above :: "u64 \<Rightarrow> output_record \<Rightarrow> output_record" where
  "unspend_above safe_height out =
     (case or_state out of
        Spent h \<Rightarrow> if safe_height < h then out\<lparr>or_state := Confirmed\<rparr> else out
      | _ \<Rightarrow> out)"

definition rewind_recovery_state :: "u64 \<Rightarrow> u64 \<Rightarrow> wallet_state \<Rightarrow> seed_restore_error + wallet_state" where
  "rewind_recovery_state safe_height tip_height s =
     (let removed_ids = or_id ` set (filter (\<lambda>out. safe_height < or_discovered_height out) (ws_outputs s));
          s1 = s\<lparr>ws_outputs := filter (\<lambda>out. or_discovered_height out \<le> safe_height) (ws_outputs s),
                 ws_private_output_blindings := filter (\<lambda>secret. pob_output_id secret \<notin> removed_ids)
                   (ws_private_output_blindings s),
                 ws_recovered_output_metadata := filter (\<lambda>meta. rom_output_id meta \<notin> removed_ids)
                   (ws_recovered_output_metadata s)\<rparr>;
          s2 = rewind_counters safe_height s1;
          s3 = s2\<lparr>ws_outputs := map (unspend_above safe_height) (ws_outputs s2)\<rparr>
      in res_bind (refresh_maturity tip_height 0 s3)
           (domain_step (rollback_confirmations_after_height safe_height)))"

subsection \<open>The recovery engine sees the scanned block\<close>

lemma to_core_output_inverse: "map_output lib r x = Inr y \<Longrightarrow> to_core_output y = x"
  by (auto simp: map_output_def to_core_output_def split: if_splits)

lemma eta_scan:
  "\<lparr>sci_spent_commitment = sci_spent_commitment inp\<rparr> = inp"
  "\<lparr>sck_excess = sck_excess ker, sck_features = sck_features ker, sck_fee = sck_fee ker,
    sck_lock_height = sck_lock_height ker, sck_excess_signature = sck_excess_signature ker\<rparr> = ker"
  "\<lparr>scm_output_commitment = scm_output_commitment cb, scm_explicit_value = scm_explicit_value cb,
    scm_kernel_excess = scm_kernel_excess cb, scm_kernel_features = scm_kernel_features cb,
    scm_kernel_excess_signature = scm_kernel_excess_signature cb, scm_offset = scm_offset cb,
    scm_output_proof_envelope = scm_output_proof_envelope cb\<rparr> = cb"
  by simp_all

lemma to_core_block_inverse:
  assumes "map_block lib identity r = Inr b"
  shows "to_core_block b = r"
proof -
  have "map to_core_output (csb_outputs b) = rb_outputs r"
    using assms by (elim map_block_Inr)
      (auto simp: list_all2_conv_all_nth to_core_output_inverse intro!: nth_equalityI)
  then show ?thesis
    using assms by (auto simp: map_block_def to_core_block_def core_coinbase_of_def core_kernel_of_def
        res_simps comp_def eta_scan split: if_splits intro!: raw_scan_block.equality)
qed

subsection \<open>Floors\<close>

fun domain_floor :: "recovered_output_domain \<Rightarrow> recovery_allocation_floors \<Rightarrow> u64" where
  "domain_floor D_Received f = raf_received f"
| "domain_floor D_Change f = raf_change f"
| "domain_floor D_SelfTransfer f = raf_self_transfer f"
| "domain_floor D_Coinbase f = raf_coinbase f"

fun class_domain :: "recovery_output_class \<Rightarrow> recovered_output_domain" where
  "class_domain ReceiveRequest = D_Received"
| "class_domain ReceiveSlate = D_Received"
| "class_domain Change = D_Change"
| "class_domain SelfTransfer = D_SelfTransfer"
| "class_domain Coinbase = D_Coinbase"

lemma class_floor_domain: "class_floor c f = domain_floor (class_domain c) f"
  by (cases c) simp_all

lemma update_floor_mono: "domain_floor d f \<le> domain_floor d (update_floor e i f)"
  by (cases d; cases e) auto

lemma update_floor_ge: "i \<le> domain_floor d (update_floor d i f)"
  by (cases d) auto

lemma raise_floors_mono: "floors_mono s (raise_floors restored s)"
  by (auto simp: raise_floors_def floors_mono_def class_floor_domain update_floor_mono le_max_iff_disj)

lemma raise_floors_burns:
  "rso_derivation_index restored \<le>
     domain_floor (map_domain (rso_domain restored)) (ws_recovery_allocation_floors (raise_floors restored s))"
  by (simp add: raise_floors_def update_floor_ge)

lemma account_id_for_floors: "account_id_for lib a s = Inr (i, t) \<Longrightarrow> same_floors s t"
  by (auto simp: account_id_for_def same_floors_def split: if_splits option.splits)

lemma remember_floors: "same_floors s (remember_output_blinding oid b s)"
  using remember_as_update [of oid b s] by (auto simp: same_floors_def)

lemma same_floors_trans: "same_floors a b \<Longrightarrow> same_floors b c \<Longrightarrow> same_floors a c"
  by (simp add: same_floors_def)

lemma merge_restored_output_floors:
  assumes "merge_restored_output lib tip maturity restored pos s = Inr t"
  shows "same_floors (raise_floors restored s) t"
proof (cases "position (\<lambda>out. or_commitment out = Some (rso_commitment restored)) (ws_outputs (raise_floors restored s))")
  case (Some i)
  then show ?thesis
    using assms account_id_for_floors
    by (fastforce simp: merge_restored_output_def merge_existing_def Let_def res_simps same_floors_def
        split: option.splits if_splits)
next
  case None
  then obtain acct s1 st where a: "account_id_for lib (rso_account restored) (raise_floors restored s) = Inr (acct, s1)"
    and t: "t = (let s2 = remember_output_blinding (rl_new_uuid lib s1) (rso_blinding restored)
          (s1\<lparr>ws_outputs := ws_outputs s1 @ [\<lparr>or_id = rl_new_uuid lib s1, or_account_id = acct,
              or_commitment = Some (rso_commitment restored), or_value = rso_value restored,
              or_state = st, or_discovered_height = rso_block_height restored, or_reserved_by = None\<rparr>]\<rparr>)
        in s2\<lparr>ws_recovered_output_metadata := ws_recovered_output_metadata s2
              @ [metadata_of restored pos (rl_new_uuid lib s1)]\<rparr>)"
    using assms by (auto simp: merge_restored_output_def merge_new_def Let_def res_simps)
  have "same_floors s1 t"
    using remember_floors [of "s1\<lparr>ws_outputs := _\<rparr>"] by (auto simp: t Let_def same_floors_def)
  then show ?thesis using account_id_for_floors [OF a] same_floors_trans by blast
qed

lemma same_then_mono: "floors_mono a b \<Longrightarrow> same_floors b c \<Longrightarrow> floors_mono a c"
  using same_floors_mono floors_mono_trans by blast

lemma merge_floors:
  assumes "merge_restored_output lib tip maturity restored pos s = Inr t"
  shows "floors_mono s t \<and> rso_derivation_index restored \<le>
    domain_floor (map_domain (rso_domain restored)) (ws_recovery_allocation_floors t)"
  using merge_restored_output_floors [OF assms] same_then_mono [OF raise_floors_mono]
    raise_floors_burns [of restored s]
  by (auto simp: same_floors_def)

lemma floors_mono_refl [simp]: "floors_mono s s"
  by (simp add: floors_mono_def)

lemma domain_floor_mono:
  "floors_mono s t \<Longrightarrow>
     domain_floor d (ws_recovery_allocation_floors s) \<le> domain_floor d (ws_recovery_allocation_floors t)"
  unfolding floors_mono_def by (cases d) (metis class_domain.simps class_floor_domain)+

lemma record_block_floors: "record_block b s = Inr t \<Longrightarrow> same_floors s t"
  by (auto simp: record_block_def same_floors_def res_simps Let_def split: if_splits option.splits)

lemma spend_input_floors: "spend_input h inp x = Inr y \<Longrightarrow> same_floors (snd x) (snd y)"
  by (auto simp: spend_input_def same_floors_def Let_def split: if_splits option.splits prod.splits)

lemma apply_block_floors:
  assumes "apply_block b x = Inr y"
  shows "same_floors (snd x) (snd y)"
proof -
  obtain p s where x: "x = (p, s)" by (cases x)
  from assms obtain s1 where s1: "record_block b s = Inr s1"
    and fold: "try_fold (spend_input (csb_height b)) (csb_inputs b) (p, s1) = Inr y"
    by (auto simp: apply_block_def x res_simps)
  have "same_floors s1 (snd y)"
    by (rule try_fold_invariant [where I = "\<lambda>z. same_floors s1 (snd z)", OF fold])
      (auto simp: same_floors_def dest: spend_input_floors)
  then show ?thesis using record_block_floors [OF s1] by (auto simp: x same_floors_def)
qed

lemma domain_step_Inr: "domain_step m s = Inr t \<longleftrightarrow> (\<exists>u. m s = (Inr u, t))"
  by (auto simp: domain_step_def split: prod.splits sum.splits)

lemma refresh_maturity_Inr:
  "refresh_maturity tip maturity s = Inr t \<longleftrightarrow>
     (\<exists>outs. list_all2 (\<lambda>x y. refresh_output (ws_recovered_output_metadata s) tip maturity x = Inr y) (ws_outputs s) outs \<and>
        t = s\<lparr>ws_outputs := outs\<rparr>)"
  by (auto simp: refresh_maturity_def res_simps)

lemma prune_Inr:
  "\<exists>blocks. prune_recovery_canonical_window s = s\<lparr>ws_recovery_canonical_blocks := blocks\<rparr> \<and> set blocks \<subseteq> set (ws_recovery_canonical_blocks s)"
  by (auto simp: prune_recovery_canonical_window_def Let_def intro: exI [of _ "ws_recovery_canonical_blocks s"])

text \<open>The phases of a page, named.\<close>

lemma apply_recovery_batchE:
  assumes "apply_recovery_batch lib seed chain identity batch s = Inr t"
  obtains restored s1 s2 s3 p s4 outs blocks where
    "rl_restore_canonical_scan lib seed chain (map to_core_block (bt_blocks batch)) = Inr restored"
    "try_fold (merge_scanned lib identity batch) restored s = Inr s1"
    "try_fold (merge_legacy lib seed identity batch) (bt_blocks batch) s1 = Inr s2"
    "migrate_durable_scan_counters s2 = Inr s3"
    "try_fold apply_block (bt_blocks batch) ({}, s3) = Inr (p, s4)"
    "list_all2 (\<lambda>x y. refresh_output (ws_recovered_output_metadata s4) (cbr_height (bt_observed_tip batch))
       (cci_coinbase_maturity identity) x = Inr y) (ws_outputs s4) outs"
    "prune_recovery_canonical_window (s4\<lparr>ws_recovery_canonical_blocks := sort_key rcb_height (ws_recovery_canonical_blocks s4)\<rparr>)
       = s4\<lparr>ws_recovery_canonical_blocks := blocks\<rparr>"
    "restore_frame (s4\<lparr>ws_recovery_canonical_blocks := blocks, ws_outputs := outs\<rparr>) t"
proof -
  from assms obtain restored s1 s2 s3 p s4 s5 s6 where
    a: "rl_restore_canonical_scan lib seed chain (map to_core_block (bt_blocks batch)) = Inr restored"
    "try_fold (merge_scanned lib identity batch) restored s = Inr s1"
    "try_fold (merge_legacy lib seed identity batch) (bt_blocks batch) s1 = Inr s2"
    "migrate_durable_scan_counters s2 = Inr s3"
    "try_fold apply_block (bt_blocks batch) ({}, s3) = Inr (p, s4)"
    and b: "refresh_maturity (cbr_height (bt_observed_tip batch)) (cci_coinbase_maturity identity)
         (prune_recovery_canonical_window
            (s4\<lparr>ws_recovery_canonical_blocks := sort_key rcb_height (ws_recovery_canonical_blocks s4)\<rparr>)) = Inr s5"
    and c: "domain_step restore_scriptless_funding_reservations s5 = Inr s6"
      "domain_step restore_scriptless_payout_reservations s6 = Inr t"
    by (auto simp: apply_recovery_batch_def res_simps map_sum_def split: sum.splits)
  obtain blocks where blocks: "prune_recovery_canonical_window
      (s4\<lparr>ws_recovery_canonical_blocks := sort_key rcb_height (ws_recovery_canonical_blocks s4)\<rparr>)
       = s4\<lparr>ws_recovery_canonical_blocks := blocks\<rparr>"
    using prune_Inr [of "s4\<lparr>ws_recovery_canonical_blocks := sort_key rcb_height (ws_recovery_canonical_blocks s4)\<rparr>"] by auto
  with b obtain outs where outs: "list_all2 (\<lambda>x y. refresh_output (ws_recovered_output_metadata s4) (cbr_height (bt_observed_tip batch))
       (cci_coinbase_maturity identity) x = Inr y) (ws_outputs s4) outs"
     "s5 = s4\<lparr>ws_recovery_canonical_blocks := blocks, ws_outputs := outs\<rparr>"
    by (auto simp: refresh_maturity_Inr)
  have "restore_frame s5 t"
    using c restore_funding_frame restore_payout_frame restore_frame_trans by (fastforce simp: domain_step_Inr)
  with that a blocks outs show thesis by blast
qed

lemma migrate_frame:
  "migrate_durable_scan_counters s = Inr t \<Longrightarrow>
     \<exists>blocks outs. t = s\<lparr>ws_recovery_scanned_blocks := blocks, ws_recovery_scanned_outputs := outs\<rparr>"
  by (cases s) (auto simp: migrate_durable_scan_counters_def res_simps split: if_splits)

lemma merge_scanned_floors:
  assumes "merge_scanned lib identity batch restored s = Inr t"
  shows "floors_mono s t" and "rso_derivation_index restored \<le>
    domain_floor (map_domain (rso_domain restored)) (ws_recovery_allocation_floors t)"
  using assms by (auto simp: merge_scanned_def res_simps dest: merge_floors)

lemma merge_legacy_floors:
  assumes "merge_legacy lib seed identity batch block s = Inr t"
  shows "floors_mono s t"
    and "restore_legacy_coinbase lib seed block = Inr (Some (restored, pos)) \<Longrightarrow>
      rso_derivation_index restored \<le>
        domain_floor (map_domain (rso_domain restored)) (ws_recovery_allocation_floors t)"
  using assms by (auto simp: merge_legacy_def res_simps split: option.splits dest: merge_floors)

lemma apply_blocks_floors:
  assumes "try_fold apply_block blocks (p, s) = Inr (p', t)"
  shows "same_floors s t"
  using try_fold_invariant [where I = "\<lambda>z. same_floors s (snd z)", OF assms]
    apply_block_floors same_floors_trans
  by (fastforce simp: same_floors_def)

text \<open>The floor of a restored index, from the merge of its output to the end of the page.\<close>

lemma batch_floors:
  assumes run: "apply_recovery_batch lib seed chain identity batch s = Inr t"
  shows "floors_mono s t"
    and "rl_restore_canonical_scan lib seed chain (map to_core_block (bt_blocks batch)) = Inr restored \<Longrightarrow>
      r \<in> set restored \<Longrightarrow>
      rso_derivation_index r \<le> domain_floor (map_domain (rso_domain r)) (ws_recovery_allocation_floors t)"
    and "b \<in> set (bt_blocks batch) \<Longrightarrow> restore_legacy_coinbase lib seed b = Inr (Some (r, pos)) \<Longrightarrow>
      rso_derivation_index r \<le> domain_floor (map_domain (rso_domain r)) (ws_recovery_allocation_floors t)"
proof -
  from run obtain found s1 s2 s3 p s4 outs blocks where
    scan: "rl_restore_canonical_scan lib seed chain (map to_core_block (bt_blocks batch)) = Inr found"
    and s1: "try_fold (merge_scanned lib identity batch) found s = Inr s1"
    and s2: "try_fold (merge_legacy lib seed identity batch) (bt_blocks batch) s1 = Inr s2"
    and s3: "migrate_durable_scan_counters s2 = Inr s3"
    and s4: "try_fold apply_block (bt_blocks batch) ({}, s3) = Inr (p, s4)"
    and t: "restore_frame (s4\<lparr>ws_recovery_canonical_blocks := blocks, ws_outputs := outs\<rparr>) t"
    by (rule apply_recovery_batchE)
  have s1_mono: "floors_mono s s1"
    by (rule try_fold_invariant [where I = "floors_mono s", OF s1])
      (auto intro: floors_mono_trans merge_scanned_floors)
  have s2_mono: "floors_mono s1 s2"
    by (rule try_fold_invariant [where I = "floors_mono s1", OF s2])
      (auto intro: floors_mono_trans merge_legacy_floors)
  have "same_floors s2 s3" using migrate_frame [OF s3] by (auto simp: same_floors_def)
  then have "same_floors s2 t"
    using apply_blocks_floors [OF s4] restore_frame_floors [OF t] by (simp add: same_floors_def)
  then have end_mono: "floors_mono s2 t" by (rule same_floors_mono)
  show "floors_mono s t" using s1_mono s2_mono end_mono floors_mono_trans by blast
  show "rso_derivation_index r \<le> domain_floor (map_domain (rso_domain r)) (ws_recovery_allocation_floors t)"
    if "rl_restore_canonical_scan lib seed chain (map to_core_block (bt_blocks batch)) = Inr restored"
      "r \<in> set restored"
  proof -
    have "r \<in> set found" using that scan by simp
    from try_fold_establishes [where I = "\<lambda>_. True" and
        Q = "\<lambda>u. rso_derivation_index r \<le> domain_floor (map_domain (rso_domain r)) (ws_recovery_allocation_floors u)",
        OF s1 this]
    have "rso_derivation_index r \<le> domain_floor (map_domain (rso_domain r)) (ws_recovery_allocation_floors s1)"
      by (meson merge_scanned_floors domain_floor_mono order_trans)
    then show ?thesis
      using domain_floor_mono [OF floors_mono_trans [OF s2_mono end_mono]] order_trans by blast
  qed
  show "rso_derivation_index r \<le> domain_floor (map_domain (rso_domain r)) (ws_recovery_allocation_floors t)"
    if "b \<in> set (bt_blocks batch)" "restore_legacy_coinbase lib seed b = Inr (Some (r, pos))"
  proof -
    from try_fold_establishes [where I = "\<lambda>_. True" and
        Q = "\<lambda>u. rso_derivation_index r \<le> domain_floor (map_domain (rso_domain r)) (ws_recovery_allocation_floors u)",
        OF s2 that(1)]
    have "rso_derivation_index r \<le> domain_floor (map_domain (rso_domain r)) (ws_recovery_allocation_floors s2)"
      by (meson merge_legacy_floors that(2) domain_floor_mono order_trans)
    then show ?thesis using domain_floor_mono [OF end_mono] order_trans by blast
  qed
qed

subsection \<open>Spends\<close>

text \<open>The first output with a commitment, and what the end of a page has done to it.\<close>

abbreviation first_with :: "bytes \<Rightarrow> output_record list \<Rightarrow> output_record option" where
  "first_with c outs \<equiv> find (\<lambda>out. or_commitment out = Some c) outs"

definition spent_in :: "u64 \<Rightarrow> bytes \<Rightarrow> bytes set \<times> wallet_state \<Rightarrow> bool" where
  "spent_in h c x \<longleftrightarrow> c \<in> fst x \<and>
     (\<forall>out. first_with c (ws_outputs (snd x)) = Some out \<longrightarrow>
        or_state out = Spent h \<and> or_reserved_by out = None)"

lemma first_with_update_other:
  "c \<noteq> d \<Longrightarrow> (\<And>out. or_commitment (f out) = or_commitment out) \<Longrightarrow>
     first_with c (update_first (\<lambda>out. or_commitment out = Some d) f outs) = first_with c outs"
  by (induction outs) auto

lemma spend_input_spends:
  assumes "spend_input h inp x = Inr y" and "csi_spent_commitment inp = c"
  shows "spent_in h c y"
proof (cases "first_with c (ws_outputs (snd x))")
  case None
  then show ?thesis using assms by (auto simp: spend_input_def spent_in_def Let_def split: prod.splits if_splits)
next
  case (Some out)
  have "first_with c (update_first (\<lambda>out. or_commitment out = Some c)
      (\<lambda>out. out\<lparr>or_state := Spent h, or_reserved_by := None\<rparr>) (ws_outputs (snd x)))
      = Some (out\<lparr>or_state := Spent h, or_reserved_by := None\<rparr>)"
    by (rule find_update_first [OF Some]) (use find_SomeD [OF Some] in simp)
  then show ?thesis using assms Some
    by (auto simp: spend_input_def spent_in_def Let_def split: prod.splits if_splits)
qed

lemma spend_input_keeps:
  assumes "spend_input h' inp x = Inr y" and "spent_in h c x"
  shows "spent_in h c y"
proof -
  have "csi_spent_commitment inp \<noteq> c"
    using assms by (auto simp: spend_input_def spent_in_def Let_def split: prod.splits)
  then show ?thesis using assms
    by (auto simp: spend_input_def spent_in_def Let_def first_with_update_other
        split: prod.splits if_splits option.splits)
qed

lemma record_block_outputs: "record_block b s = Inr t \<Longrightarrow> ws_outputs t = ws_outputs s"
  by (auto simp: record_block_def res_simps Let_def split: if_splits option.splits)

lemma apply_block_keeps: "apply_block b x = Inr y \<Longrightarrow> spent_in h c x \<Longrightarrow> spent_in h c y"
proof -
  assume run: "apply_block b x = Inr y" and inv: "spent_in h c x"
  obtain p s where x: "x = (p, s)" by (cases x)
  from run obtain s1 where s1: "record_block b s = Inr s1"
    and fold: "try_fold (spend_input (csb_height b)) (csb_inputs b) (p, s1) = Inr y"
    by (auto simp: apply_block_def x res_simps)
  have "spent_in h c (p, s1)" using inv record_block_outputs [OF s1] by (simp add: x spent_in_def)
  then show "spent_in h c y"
    by (rule try_fold_invariant [where I = "spent_in h c", OF fold]) (rule spend_input_keeps)
qed

lemma apply_block_spends:
  assumes run: "apply_block b x = Inr y" and inp: "inp \<in> set (csb_inputs b)"
  shows "spent_in (csb_height b) (csi_spent_commitment inp) y"
proof -
  obtain p s where x: "x = (p, s)" by (cases x)
  from run obtain s1 where fold: "try_fold (spend_input (csb_height b)) (csb_inputs b) (p, s1) = Inr y"
    by (auto simp: apply_block_def x res_simps)
  show ?thesis
    by (rule try_fold_establishes [where I = "\<lambda>_. True", OF fold inp])
      (auto intro: spend_input_spends spend_input_keeps)
qed

lemma apply_blocks_spend:
  assumes "try_fold apply_block blocks x = Inr y" and "b \<in> set blocks" and "inp \<in> set (csb_inputs b)"
  shows "spent_in (csb_height b) (csi_spent_commitment inp) y"
  by (rule try_fold_establishes [where I = "\<lambda>_. True", OF assms(1,2)])
    (auto intro: apply_block_spends [OF _ assms(3)] apply_block_keeps)

lemma known_commitment_iff: "c \<in> set (known_commitments outs) \<longleftrightarrow> first_with c outs \<noteq> None"
  by (force simp: known_commitments_def map_filter_def find_None_iff image_iff)

lemma known_commitments_map: "map or_commitment xs = map or_commitment ys \<Longrightarrow> known_commitments xs = known_commitments ys"
proof -
  have "known_commitments zs = map the (filter (\<lambda>c. c \<noteq> None) (map or_commitment zs))" for zs
    by (simp add: known_commitments_def map_filter_def filter_map comp_def)
  then show "map or_commitment xs = map or_commitment ys \<Longrightarrow> known_commitments xs = known_commitments ys"
    by simp
qed

lemma known_commitments_append [simp]:
  "known_commitments (xs @ ys) = known_commitments xs @ known_commitments ys"
  by (simp add: known_commitments_def map_filter_def)

text \<open>With distinct commitments, the first output with a commitment is the only one.\<close>

lemma first_with_unique:
  "distinct (known_commitments outs) \<Longrightarrow> out \<in> set outs \<Longrightarrow> or_commitment out = Some c \<Longrightarrow>
     first_with c outs = Some out"
proof (induction outs)
  case (Cons x xs)
  show ?case
  proof (cases "or_commitment x = Some c")
    case True
    have "c \<notin> set (known_commitments xs)"
      using Cons.prems True by (auto simp: known_commitments_def map_filter_simps)
    then show ?thesis using Cons.prems True known_commitment_iff [of c xs] by (auto simp: find_None_iff)
  next
    case False
    then show ?thesis using Cons by (auto simp: known_commitments_def map_filter_simps split: option.splits)
  qed
qed simp

lemma merge_restored_output_known:
  assumes "merge_restored_output lib tip maturity restored pos s = Inr t"
  shows "set (known_commitments (ws_outputs s)) \<subseteq> set (known_commitments (ws_outputs t))"
proof -
  have account: "ws_outputs s2 = ws_outputs s1" if "account_id_for lib a s1 = Inr (i, s2)" for a s1 i s2
    using that by (auto simp: account_id_for_def split: if_splits option.splits)
  have raise: "ws_outputs (raise_floors restored s) = ws_outputs s" by (simp add: raise_floors_def)
  have remember: "ws_outputs (remember_output_blinding oid b u) = ws_outputs u" for oid b u
    using remember_as_update [of oid b u] by auto
  show ?thesis
  proof (cases "position (\<lambda>out. or_commitment out = Some (rso_commitment restored)) (ws_outputs (raise_floors restored s))")
    case (Some i)
    then have i: "i < length (ws_outputs s)" by (auto simp: raise dest: position_SomeD)
    have "map or_commitment (ws_outputs t) = map or_commitment (ws_outputs s)"
      using assms Some
      by (auto simp: merge_restored_output_def merge_existing_def Let_def res_simps raise map_list_update_same i
          split: option.splits if_splits dest!: account)
    then show ?thesis using known_commitments_map by (metis order_refl)
  next
    case None
    then show ?thesis using assms
      by (auto simp: merge_restored_output_def merge_new_def Let_def res_simps raise remember dest!: account)
  qed
qed

lemma spend_input_known:
  "spend_input h inp x = Inr y \<Longrightarrow> map or_commitment (ws_outputs (snd y)) = map or_commitment (ws_outputs (snd x))"
  by (auto simp: spend_input_def Let_def map_update_first split: prod.splits if_splits option.splits)

lemma apply_block_known:
  assumes "apply_block b x = Inr y"
  shows "map or_commitment (ws_outputs (snd y)) = map or_commitment (ws_outputs (snd x))"
proof -
  obtain p s where x: "x = (p, s)" by (cases x)
  from assms obtain s1 where s1: "record_block b s = Inr s1"
    and fold: "try_fold (spend_input (csb_height b)) (csb_inputs b) (p, s1) = Inr y"
    by (auto simp: apply_block_def x res_simps)
  have "map or_commitment (ws_outputs (snd y)) = map or_commitment (ws_outputs s1)"
    by (rule try_fold_invariant [where I = "\<lambda>z. map or_commitment (ws_outputs (snd z)) = map or_commitment (ws_outputs s1)", OF fold])
      (auto dest: spend_input_known)
  then show ?thesis by (simp add: x record_block_outputs [OF s1])
qed

lemma apply_blocks_known:
  assumes "try_fold apply_block blocks (p, s) = Inr (p', t)"
  shows "known_commitments (ws_outputs t) = known_commitments (ws_outputs s)"
proof -
  have "map or_commitment (ws_outputs (snd (p', t))) = map or_commitment (ws_outputs s)"
    by (rule try_fold_invariant [where I = "\<lambda>z. map or_commitment (ws_outputs (snd z)) = map or_commitment (ws_outputs s)", OF assms])
      (auto dest: apply_block_known)
  then show ?thesis by (intro known_commitments_map) simp
qed

lemma refresh_output_commitment: "refresh_output metas tip maturity x = Inr y \<Longrightarrow> or_commitment y = or_commitment x"
  by (auto simp: refresh_output_def res_simps split: if_splits option.splits)

lemma refresh_output_spent: "refresh_output metas tip maturity x = Inr y \<Longrightarrow> is_spent (or_state x) \<Longrightarrow> y = x"
  by (simp add: refresh_output_def)

text \<open>The end of a page, from the outputs after its last block.\<close>

lemma page_end_outputs:
  assumes refresh: "list_all2 (\<lambda>x y. refresh_output metas tip maturity x = Inr y) before outs"
    and grow: "outs_grow outs after" and dist: "distinct (known_commitments after)"
    and out: "out \<in> set after" "or_commitment out = Some c"
  shows "first_with c before = Some x \<Longrightarrow> is_spent (or_state x) \<Longrightarrow>
           or_state out = or_state x \<and> or_reserved_by out = or_reserved_by x"
    and "first_with c before = None \<Longrightarrow> or_state out \<in> {PendingIncoming, PendingOutgoing}"
proof -
  obtain held new where after: "after = held @ new" and held: "list_all2 out_held outs held"
    and new: "\<forall>out \<in> set new. or_state out \<in> {PendingIncoming, PendingOutgoing}"
    using grow by (auto simp: outs_grow_def)
  have comm: "map or_commitment held = map or_commitment before"
    using list_all2_mono [OF refresh, of "\<lambda>x y. or_commitment x = or_commitment y"]
      list_all2_mono [OF held, of "\<lambda>x y. or_commitment x = or_commitment y"]
    by (simp add: list_all2_map_eq refresh_output_commitment out_held_def out_identity_def)
  have len: "length before = length outs" "length outs = length held"
    using refresh held by (auto dest: list_all2_lengthD)
  show "or_state out = or_state x \<and> or_reserved_by out = or_reserved_by x"
    if x: "first_with c before = Some x" "is_spent (or_state x)"
  proof -
    from find_SomeD [OF x(1)] obtain i where i: "i < length before" "before ! i = x" "or_commitment x = Some c"
      by (auto simp: in_set_conv_nth)
    have "outs ! i = x"
      using list_all2_nthD [OF refresh i(1)] x(2) i(2) refresh_output_spent by metis
    then have h: "out_held x (held ! i)" using list_all2_nthD [OF held, of i] i(1) len by simp
    have "first_with c after = Some (held ! i)"
      using i len h by (intro first_with_unique [OF dist]) (auto simp: after out_held_def out_identity_def)
    moreover have "first_with c after = Some out" by (rule first_with_unique [OF dist out])
    ultimately show ?thesis using h x(2) by (auto simp: out_held_def)
  qed
  show "or_state out \<in> {PendingIncoming, PendingOutgoing}" if none: "first_with c before = None"
  proof -
    have "c \<notin> set (known_commitments held)"
      using none by (simp add: known_commitments_map [OF comm] known_commitment_iff)
    then have "out \<notin> set held" using out(2) known_commitment_iff [of c held] by (auto simp: find_None_iff)
    then show ?thesis using out(1) new after by auto
  qed
qed

subsection \<open>Rewinding\<close>

lemma refresh_output_fields:
  assumes "refresh_output metas tip maturity x = Inr y"
  shows "or_id y = or_id x" "or_discovered_height y = or_discovered_height x" "or_value y = or_value x"
    "or_reserved_by y = or_reserved_by x" "or_state y = Spent h \<longleftrightarrow> or_state x = Spent h"
  using assms by (auto simp: refresh_output_def res_simps split: if_splits option.splits)

lemma unspend_above_fields [simp]:
  "or_id (unspend_above safe x) = or_id x"
  "or_discovered_height (unspend_above safe x) = or_discovered_height x"
  "or_state (unspend_above safe x) = Spent h \<longleftrightarrow> or_state x = Spent h \<and> h \<le> safe"
  by (auto simp: unspend_above_def split: output_state.splits)

text \<open>The state between the removal of rewound evidence and the rollback of confirmations.\<close>

definition rewound_base :: "u64 \<Rightarrow> wallet_state \<Rightarrow> wallet_state" where
  "rewound_base safe s =
     (let removed = or_id ` {out \<in> set (ws_outputs s). safe < or_discovered_height out} in
      rewind_counters safe
        (s\<lparr>ws_outputs := filter (\<lambda>out. or_discovered_height out \<le> safe) (ws_outputs s),
           ws_private_output_blindings := filter (\<lambda>secret. pob_output_id secret \<notin> removed)
             (ws_private_output_blindings s),
           ws_recovered_output_metadata := filter (\<lambda>meta. rom_output_id meta \<notin> removed)
             (ws_recovered_output_metadata s)\<rparr>))"

lemma rewound_base_fields [simp]:
  "ws_outputs (rewound_base safe s) = filter (\<lambda>out. or_discovered_height out \<le> safe) (ws_outputs s)"
  "ws_transactions (rewound_base safe s) = ws_transactions s"
  "ws_recovery_canonical_blocks (rewound_base safe s) =
     filter (\<lambda>block. rcb_height block \<le> safe) (ws_recovery_canonical_blocks s)"
  "ws_allocation_floor (rewound_base safe s) = ws_allocation_floor s"
  "ws_non_reuse_floor (rewound_base safe s) = ws_non_reuse_floor s"
  "ws_recovery_allocation_floors (rewound_base safe s) = ws_recovery_allocation_floors s"
  by (simp_all add: rewound_base_def rewind_counters_def Let_def)

lemma rewind_recovery_stateE:
  assumes "rewind_recovery_state safe tip s = Inr t"
  obtains outs where
    "list_all2 (\<lambda>x y. refresh_output (ws_recovered_output_metadata (rewound_base safe s)) tip 0
        (unspend_above safe x) = Inr y)
       (filter (\<lambda>out. or_discovered_height out \<le> safe) (ws_outputs s)) outs"
    "rollback_confirmations_after_height safe ((rewound_base safe s)\<lparr>ws_outputs := outs\<rparr>) = (Inr (), t)"
    "restore_frame ((rewound_base safe s)\<lparr>ws_outputs := outs,
       ws_transactions := map (reorged (\<lambda>h. safe < h)) (ws_transactions s)\<rparr>) t"
proof -
  let ?b = "rewound_base safe s"
  from assms obtain outs where outs: "list_all2 (\<lambda>x y. refresh_output (ws_recovered_output_metadata ?b) tip 0 x = Inr y)
      (map (unspend_above safe) (ws_outputs ?b)) outs"
    and roll: "rollback_confirmations_after_height safe (?b\<lparr>ws_outputs := outs\<rparr>) = (Inr (), t)"
    unfolding rewind_recovery_state_def Let_def
    by (auto simp: refresh_maturity_Inr res_simps domain_step_Inr rewound_base_def Let_def)
  have "restore_frame ((?b\<lparr>ws_outputs := outs\<rparr>)\<lparr>ws_transactions :=
      map (reorged (\<lambda>h. safe < h)) (ws_transactions (?b\<lparr>ws_outputs := outs\<rparr>))\<rparr>) t"
    using roll unfolding rollback_confirmations_after_height_def rollback_eq by (rule restore_reorged_frame)
  then show thesis using that outs roll by (auto simp: list_all2_map1)
qed

lemma merge_known_mono:
  assumes "try_fold (merge_scanned lib identity batch) found s = Inr s1"
    and "try_fold (merge_legacy lib seed identity batch) blocks s1 = Inr s2"
  shows "set (known_commitments (ws_outputs s)) \<subseteq> set (known_commitments (ws_outputs s2))"
proof -
  let ?K = "\<lambda>u. set (known_commitments (ws_outputs u))"
  have scanned: "?K u \<subseteq> ?K v" if "merge_scanned lib identity batch r u = Inr v" for r u v
    using that merge_restored_output_known by (fastforce simp: merge_scanned_def res_simps)
  have legacy: "?K u \<subseteq> ?K v" if "merge_legacy lib seed identity batch b u = Inr v" for b u v
    using that merge_restored_output_known by (fastforce simp: merge_legacy_def res_simps split: option.splits)
  have "?K s \<subseteq> ?K s1"
    by (rule try_fold_invariant [where I = "\<lambda>u. ?K s \<subseteq> ?K u", OF assms(1)])
      (use scanned in \<open>blast+\<close>)
  moreover have "?K s1 \<subseteq> ?K s2"
    by (rule try_fold_invariant [where I = "\<lambda>u. ?K s1 \<subseteq> ?K u", OF assms(2)])
      (use legacy in \<open>blast+\<close>)
  ultimately show ?thesis by blast
qed

text \<open>The window of canonical blocks and the whole-history counters.\<close>

definition scan_counters :: "wallet_state \<Rightarrow> recovery_canonical_block list \<times> u64 \<times> u64 \<times> u64" where
  "scan_counters s = (ws_recovery_canonical_blocks s, ws_recovery_scanned_blocks s,
     ws_recovery_scanned_outputs s, ws_legacy_proof_only_outputs s)"

lemma merge_restored_output_counters:
  assumes "merge_restored_output lib tip maturity restored pos s = Inr t"
  shows "scan_counters t = scan_counters s"
proof -
  have account: "scan_counters s2 = scan_counters s1" if "account_id_for lib a s1 = Inr (i, s2)" for a s1 i s2
    using that by (auto simp: account_id_for_def scan_counters_def split: if_splits option.splits)
  have remember: "scan_counters (remember_output_blinding oid b u) = scan_counters u" for oid b u
    using remember_as_update [of oid b u] by (auto simp: scan_counters_def)
  have upd: "scan_counters (u\<lparr>ws_outputs := x\<rparr>) = scan_counters u"
    "scan_counters (u\<lparr>ws_recovered_output_metadata := y\<rparr>) = scan_counters u" for u x y
    by (simp_all add: scan_counters_def)
  have raise: "scan_counters (raise_floors restored s) = scan_counters s"
    by (simp add: scan_counters_def raise_floors_def)
  show ?thesis using assms
    by (auto simp: merge_restored_output_def merge_existing_def merge_new_def Let_def res_simps raise upd remember
        split: option.splits if_splits dest!: account)
qed

lemma merges_counters:
  assumes "try_fold (merge_scanned lib identity batch) found s = Inr s1"
    and "try_fold (merge_legacy lib seed identity batch) blocks s1 = Inr s2"
  shows "scan_counters s2 = scan_counters s"
proof -
  have "scan_counters s1 = scan_counters s"
    by (rule try_fold_invariant [where I = "\<lambda>u. scan_counters u = scan_counters s", OF assms(1)])
      (auto simp: merge_scanned_def res_simps dest: merge_restored_output_counters)
  moreover have "scan_counters s2 = scan_counters s1"
    by (rule try_fold_invariant [where I = "\<lambda>u. scan_counters u = scan_counters s1", OF assms(2)])
      (auto simp: merge_legacy_def res_simps merge_restored_output_counters split: option.splits)
  ultimately show ?thesis by simp
qed

lemma spend_input_counters: "spend_input h inp x = Inr y \<Longrightarrow> scan_counters (snd y) = scan_counters (snd x)"
  by (auto simp: spend_input_def scan_counters_def Let_def split: prod.splits if_splits option.splits)

text \<open>The counters are those of \<open>s\<close> plus what the blocks above the safe height carry.\<close>

definition counts_above :: "u64 \<Rightarrow> wallet_state \<Rightarrow> wallet_state \<Rightarrow> bool" where
  "counts_above safe s u \<longleftrightarrow>
     (let above = filter (\<lambda>b. safe < rcb_height b) (ws_recovery_canonical_blocks u) in
      unat (ws_recovery_scanned_blocks u) = unat (ws_recovery_scanned_blocks s) + length above \<and>
      unat (ws_recovery_scanned_outputs u) = unat (ws_recovery_scanned_outputs s)
        + sum_list (map (\<lambda>b. unat (rcb_output_count b)) above) \<and>
      unat (ws_legacy_proof_only_outputs u) = unat (ws_legacy_proof_only_outputs s)
        + sum_list (map (\<lambda>b. unat (rcb_legacy_proof_only_outputs b)) above))"

lemma unat_of_nat_u32: "n < 2 ^ 32 \<Longrightarrow> unat (of_nat n :: u32) = n"
  by (simp add: unat_of_nat_word)

lemma record_block_counts:
  assumes "record_block b u = Inr v" and "counts_above safe s u" and "safe < csb_height b"
  shows "counts_above safe s v"
    and "set (ws_recovery_canonical_blocks v) \<subseteq> set (ws_recovery_canonical_blocks u) \<union>
      {x. rcb_height x = csb_height b}"
proof -
  have small: "unat (of_nat n :: u64) = n" if "n < 2 ^ 32" for n :: nat
    using that by (simp add: unat_of_nat_word)
  show "counts_above safe s v" using assms
    by (auto simp: record_block_def counts_above_def res_simps Let_def small unat_of_nat_u32
        split: if_splits option.splits dest!: checked_add_SomeD)
  show "set (ws_recovery_canonical_blocks v) \<subseteq> set (ws_recovery_canonical_blocks u) \<union>
      {x. rcb_height x = csb_height b}" using assms(1)
    by (auto simp: record_block_def res_simps Let_def split: if_splits option.splits)
qed

lemma counts_above_cong: "scan_counters u = scan_counters v \<Longrightarrow> counts_above safe s u = counts_above safe s v"
  by (simp add: scan_counters_def counts_above_def)

lemma apply_block_counts:
  assumes "apply_block b x = Inr y" and "counts_above safe s (snd x)" and "safe < csb_height b"
  shows "counts_above safe s (snd y)"
    and "set (ws_recovery_canonical_blocks (snd y)) \<subseteq> set (ws_recovery_canonical_blocks (snd x)) \<union>
      {z. rcb_height z = csb_height b}"
proof -
  obtain p u where x: "x = (p, u)" by (cases x)
  from assms obtain v where v: "record_block b u = Inr v"
    and fold: "try_fold (spend_input (csb_height b)) (csb_inputs b) (p, v) = Inr y"
    by (auto simp: apply_block_def x res_simps)
  have same: "scan_counters (snd y) = scan_counters v"
    by (rule try_fold_invariant [where I = "\<lambda>z. scan_counters (snd z) = scan_counters v", OF fold])
      (auto dest: spend_input_counters)
  show "counts_above safe s (snd y)"
    using record_block_counts(1) [OF v _ assms(3)] assms(2) counts_above_cong [OF same] by (simp add: x)
  show "set (ws_recovery_canonical_blocks (snd y)) \<subseteq> set (ws_recovery_canonical_blocks (snd x)) \<union>
      {z. rcb_height z = csb_height b}"
    using record_block_counts(2) [OF v _ assms(3)] assms(2) same by (simp add: x scan_counters_def)
qed

lemma apply_blocks_counts:
  assumes "try_fold apply_block blocks (p, u) = Inr (p', v)" and "counts_above safe s u"
    and "\<And>b. b \<in> set blocks \<Longrightarrow> safe < csb_height b \<and> unat (csb_height b) \<le> n"
    and "\<And>x. x \<in> set (ws_recovery_canonical_blocks u) \<Longrightarrow> unat (rcb_height x) \<le> n"
  shows "counts_above safe s v"
    and "x \<in> set (ws_recovery_canonical_blocks v) \<Longrightarrow> unat (rcb_height x) \<le> n"
proof -
  have "counts_above safe s (snd (p', v)) \<and>
      (\<forall>x \<in> set (ws_recovery_canonical_blocks (snd (p', v))). unat (rcb_height x) \<le> n)"
    by (rule try_fold_invariant [where I = "\<lambda>z. counts_above safe s (snd z) \<and>
        (\<forall>x \<in> set (ws_recovery_canonical_blocks (snd z)). unat (rcb_height x) \<le> n)", OF assms(1)])
      (use assms(2-4) apply_block_counts in \<open>fastforce+\<close>)
  then show "counts_above safe s v" "x \<in> set (ws_recovery_canonical_blocks v) \<Longrightarrow> unat (rcb_height x) \<le> n"
    by auto
qed

text \<open>Sorting and pruning keep what lies above a height that is at most a window below the newest.\<close>

lemma prune_keeps_above:
  assumes "\<And>x. x \<in> set (ws_recovery_canonical_blocks u) \<Longrightarrow> unat (rcb_height x) \<le> unat safe + 2048"
    and "prune_recovery_canonical_window (u\<lparr>ws_recovery_canonical_blocks :=
        sort_key rcb_height (ws_recovery_canonical_blocks u)\<rparr>) = u\<lparr>ws_recovery_canonical_blocks := kept\<rparr>"
  shows "mset (filter (\<lambda>b. safe < rcb_height b) kept) =
    mset (filter (\<lambda>b. safe < rcb_height b) (ws_recovery_canonical_blocks u))"
proof -
  let ?w = "sort_key rcb_height (ws_recovery_canonical_blocks u)"
  let ?m = "saturating_sub (rcb_height (last ?w)) (saturating_sub RECOVERY_CANONICAL_WINDOW_BLOCKS 1)"
  have kept: "kept = ws_recovery_canonical_blocks (prune_recovery_canonical_window (u\<lparr>ws_recovery_canonical_blocks := ?w\<rparr>))"
    by (simp add: assms(2))
  have "mset (filter (\<lambda>b. safe < rcb_height b) ?w) = mset (filter (\<lambda>b. safe < rcb_height b) (ws_recovery_canonical_blocks u))"
    by (simp add: mset_filter)
  moreover have "filter (\<lambda>b. safe < rcb_height b) kept = filter (\<lambda>b. safe < rcb_height b) ?w"
  proof (cases "?w = []")
    case True
    then show ?thesis by (auto simp: kept prune_recovery_canonical_window_def)
  next
    case False
    then have "unat (rcb_height (last ?w)) \<le> unat safe + 2048"
      using assms(1) last_in_set [of ?w] by simp
    then have "unat ?m \<le> unat safe + 1"
      by (simp add: unat_saturating_sub RECOVERY_CANONICAL_WINDOW_BLOCKS_def)
    then have keep: "?m \<le> rcb_height b" if "safe < rcb_height b" for b :: recovery_canonical_block
      using that by (simp add: word_le_nat_alt word_less_nat_alt)
    show ?thesis using False keep
      by (auto simp: kept prune_recovery_canonical_window_def Let_def intro!: filter_cong)
  qed
  ultimately show ?thesis by simp
qed

subsection \<open>Properties\<close>

definition sample_core_block :: "u8 \<Rightarrow> bytes list \<Rightarrow> bytes list \<Rightarrow> core_scan_block" where
  "sample_core_block h created spent =
     \<lparr>csb_height = ucast h, csb_block_hash = sample_block_hash h,
      csb_previous_block_hash = sample_block_hash (h - 1), csb_canonical_header_bytes = [h],
      csb_timestamp = 0, csb_canonical_marker = sample_block_hash h,
      csb_outputs = map (\<lambda>c. \<lparr>cso_commitment = c, cso_range_proof = [], cso_recovery_capsule = [1],
        cso_recovery_version = 1, cso_is_coinbase = False, cso_block_height = ucast h,
        cso_block_hash = sample_block_hash h, cso_output_position = 0\<rparr>) created,
      csb_inputs = map (\<lambda>c. \<lparr>csi_spent_commitment = c\<rparr>) spent, csb_kernels = [], csb_transactions = [],
      csb_coinbase = core_coinbase_of (rb_coinbase (sample_raw_block h)), csb_total_fees_noms = 0,
      csb_protocol_version = 1, csb_range_proof_serialization_version = 2\<rparr>"

definition sample_batch :: "core_scan_block list \<Rightarrow> core_scan_batch" where
  "sample_batch blocks =
     \<lparr>bt_observed_tip = \<lparr>cbr_height = 9, cbr_hash = sample_block_hash 9\<rparr>, bt_blocks = blocks,
      bt_commit_cursor = None\<rparr>"

text \<open>A recovery engine that recognises every output with a capsule, at derivation index 7.\<close>

definition sample_recovery :: "unit recovery_lib" where
  "sample_recovery =
     \<lparr>rl_restore_canonical_scan = (\<lambda>seed chain blocks. Inr (concat (map (\<lambda>b. map (\<lambda>out.
          \<lparr>rso_commitment = sco_commitment out, rso_value = 50, rso_blinding = replicate 32 1,
           rso_account = 0, rso_derivation_index = 7, rso_domain = OD_Received,
           rso_block_height = rb_height b, rso_block_hash = rb_block_hash b, rso_is_coinbase = False,
           rso_spent_at_height = None\<rparr>) (rb_outputs b)) blocks))),
      rl_legacy_coinbase_blinding = (\<lambda>seed h. None), rl_blinding_factor_valid = (\<lambda>b. True),
      rl_commit = (\<lambda>v b. []), rl_entropy = (\<lambda>seed. replicate 32 5),
      rl_new_uuid = (\<lambda>s. of_nat (100 + length (ws_outputs s)))\<rparr>"

definition sample_context :: recovery_chain_context where
  "sample_context = \<lparr>rcc_network_magic = 77, rcc_chain_id = replicate 32 8\<rparr>"

text \<open>
  C14: restoring from a page never lowers an allocation floor and burns every derivation index it
  meets. After a page is applied, whatever operations of the wallet follow, a coordinate reserved in
  the domain of a restored output (recognised by the recovery engine or as a legacy coinbase) has a
  larger index than that output, so its blinding factor is not used a second time.
\<close>

theorem recovered_indices_burnt:
  assumes "apply_recovery_batch lib seed chain identity batch s = Inr t"
    and "rl_restore_canonical_scan lib seed chain (map to_core_block (bt_blocks batch)) = Inr restored"
    and "r \<in> set restored
      \<or> (\<exists>b \<in> set (bt_blocks batch). \<exists>pos. restore_legacy_coinbase lib seed b = Inr (Some (r, pos)))"
    and "live_step\<^sup>*\<^sup>* t u"
    and "reserve_recovery_coordinate account class u = (Inr rc, u')"
    and "class_domain class = map_domain (rso_domain r)"
  shows "floors_mono s t \<and> rso_derivation_index r < rrc_derivation_index rc"
proof -
  have "floors_mono t u"
    using assms(4) by (induction rule: rtranclp_induct) (auto intro: floors_mono_trans live_step_floors)
  moreover have "rso_derivation_index r \<le> domain_floor (map_domain (rso_domain r)) (ws_recovery_allocation_floors t)"
    using assms(3) batch_floors [OF assms(1)] assms(2) by blast
  ultimately have "rso_derivation_index r \<le> class_floor class (ws_recovery_allocation_floors u)"
    using domain_floor_mono assms(6) by (metis class_floor_domain order_trans)
  then show ?thesis
    using reserve_ok [OF assms(5)] batch_floors(1) [OF assms(1)]
    by (simp add: word_le_nat_alt word_less_nat_alt)
qed


lemmas sample_page_simps =
  apply_recovery_batch_def sample_recovery_def sample_batch_def sample_core_block_def to_core_block_def
  to_core_output_def merge_scanned_def output_positions_def merge_restored_output_def raise_floors_def
  merge_new_def account_id_for_def recovered_output_state_def metadata_of_def merge_legacy_def
  restore_legacy_coinbase_def migrate_durable_scan_counters_def apply_block_def record_block_def
  spend_input_def prune_recovery_canonical_window_def refresh_maturity_def refresh_output_def
  domain_step_def restore_scriptless_funding_reservations_def restore_scriptless_payout_reservations_def
  positions_def remember_output_blinding_def checked_add_def ok_or_def sample_wallet_def wallet_new_def
  sample_chain_identity_def floors_default_def

lemma sample_page_applied:
  "\<exists>t. apply_recovery_batch sample_recovery () sample_context sample_chain_identity
        (sample_batch [sample_core_block 3 [[1]] [[1]]]) sample_wallet = Inr t \<and>
     map (\<lambda>out. (or_commitment out, or_state out)) (ws_outputs t) = [(Some [1], Spent 3)] \<and>
     raf_received (ws_recovery_allocation_floors t) = 7"
  by (simp add: sample_page_simps Let_def)

lemma sample_page_valid:
  "\<exists>t out. apply_recovery_batch sample_recovery () sample_context sample_chain_identity
        (sample_batch [sample_core_block 3 [[1]] [[1]]]) sample_wallet = Inr t \<and>
     wallet_validate t = Inr () \<and> ws_outputs t = [out] \<and> or_commitment out = Some [1]"
  by (simp add: sample_page_simps Let_def validate_defs sample_wallet_defs sample_block_hash_def)

theorem recovered_indices_burnt_witness:
  "\<exists>t restored rc u. apply_recovery_batch sample_recovery () sample_context sample_chain_identity
       (sample_batch [sample_core_block 3 [[1]] [[1]]]) sample_wallet = Inr t \<and>
     reserve_recovery_coordinate 0 ReceiveSlate t = (Inr rc, u) \<and>
     rl_restore_canonical_scan sample_recovery () sample_context
       (map to_core_block [sample_core_block 3 [[1]] [[1]]]) = Inr restored \<and>
     map rso_derivation_index restored = [7] \<and> 7 < rrc_derivation_index rc"
proof -
  let ?batch = "sample_batch [sample_core_block 3 [[1]] [[1]]]"
  from sample_page_applied obtain t where t: "apply_recovery_batch sample_recovery () sample_context
      sample_chain_identity ?batch sample_wallet = Inr t"
    and f: "raf_received (ws_recovery_allocation_floors t) = 7" by blast
  obtain rc u where rc: "reserve_recovery_coordinate 0 ReceiveSlate t = (Inr rc, u)"
    by (simp add: reserve_recovery_coordinate_def f checked_add_def)
  obtain r where r: "rl_restore_canonical_scan sample_recovery () sample_context
      (map to_core_block [sample_core_block 3 [[1]] [[1]]]) = Inr [r]" "rso_derivation_index r = 7" "rso_domain r = OD_Received"
    by (simp add: sample_page_simps)
  have "rso_derivation_index r < rrc_derivation_index rc"
    using recovered_indices_burnt [OF t _ _ _ rc, of "[r]" r] r(1,3) by (simp add: sample_batch_def)
  then show ?thesis using t rc r
    by (intro exI [of _ t] exI [of _ "[r]"] exI [of _ rc] exI [of _ u]) simp
qed


text \<open>
  A rewind leaves nothing of the abandoned blocks that the wallet could spend or count. Every
  output that remains outside the pending states was found at or below the safe height and is not
  spent above it, every output found at or below the safe height is still there, the canonical
  anchors and confirmations above it are gone, and no allocation floor moves: a derivation index
  used on the abandoned branch stays burnt.
\<close>

theorem rewind_exact:
  assumes "rewind_recovery_state safe tip s = Inr t"
  shows "same_floors s t \<and>
    ws_recovery_canonical_blocks t = filter (\<lambda>b. rcb_height b \<le> safe) (ws_recovery_canonical_blocks s) \<and>
    ws_transactions t = map (reorged (\<lambda>h. safe < h)) (ws_transactions s) \<and>
    (\<forall>out \<in> set (ws_outputs t). or_state out \<in> {PendingIncoming, PendingOutgoing} \<or>
       or_discovered_height out \<le> safe \<and> (\<forall>h. or_state out = Spent h \<longrightarrow> h \<le> safe)) \<and>
    (\<forall>out \<in> set (ws_outputs s). or_discovered_height out \<le> safe \<longrightarrow>
       (\<exists>out' \<in> set (ws_outputs t). or_id out' = or_id out))"
proof -
  from assms obtain outs where
    outs: "list_all2 (\<lambda>x y. refresh_output (ws_recovered_output_metadata (rewound_base safe s)) tip 0
        (unspend_above safe x) = Inr y)
       (filter (\<lambda>out. or_discovered_height out \<le> safe) (ws_outputs s)) outs"
    and frame: "restore_frame ((rewound_base safe s)\<lparr>ws_outputs := outs,
       ws_transactions := map (reorged (\<lambda>h. safe < h)) (ws_transactions s)\<rparr>) t"
    by (rule rewind_recovery_stateE)
  have grow: "outs_grow outs (ws_outputs t)" using restore_frame_outs [OF frame] by simp
  then obtain held new where t: "ws_outputs t = held @ new" and held: "list_all2 out_held outs held"
    and new: "\<forall>out \<in> set new. or_state out \<in> {PendingIncoming, PendingOutgoing}"
    by (auto simp: outs_grow_def)
  have base: "or_discovered_height y \<le> safe \<and> (\<forall>h. or_state y = Spent h \<longrightarrow> h \<le> safe)"
    if "y \<in> set outs" for y
  proof -
    from outs that obtain x where "or_discovered_height x \<le> safe"
      "refresh_output (ws_recovered_output_metadata (rewound_base safe s)) tip 0 (unspend_above safe x) = Inr y"
      by (auto dest!: list_all2_mem_right)
    then show ?thesis by (auto dest: refresh_output_fields)
  qed
  have kept: "or_state out \<in> {PendingIncoming, PendingOutgoing} \<or>
      or_discovered_height out \<le> safe \<and> (\<forall>h. or_state out = Spent h \<longrightarrow> h \<le> safe)" if "out \<in> set held" for out
  proof -
    from held that obtain y where "y \<in> set outs" "out_held y out"
      by (auto dest: list_all2_mem_right)
    then show ?thesis using base [of y] by (auto simp: out_held_def out_identity_def)
  qed
  have present: "\<exists>out' \<in> set (ws_outputs t). or_id out' = or_id out"
    if "out \<in> set (ws_outputs s)" "or_discovered_height out \<le> safe" for out
  proof -
    have "out \<in> set (filter (\<lambda>out. or_discovered_height out \<le> safe) (ws_outputs s))" using that by simp
    from list_all2_mem_left [OF outs this] obtain y where y: "y \<in> set outs"
      "refresh_output (ws_recovered_output_metadata (rewound_base safe s)) tip 0 (unspend_above safe out) = Inr y"
      by blast
    from outs_grow_mem [OF grow y(1)] refresh_output_fields(1) [OF y(2)] show ?thesis
      by (fastforce simp: out_identity_def)
  qed
  have "same_floors s t" "ws_recovery_canonical_blocks t = filter (\<lambda>b. rcb_height b \<le> safe) (ws_recovery_canonical_blocks s)"
    "ws_transactions t = map (reorged (\<lambda>h. safe < h)) (ws_transactions s)"
    using frame by (auto simp: restore_frame_def same_floors_def)
  with kept new present t show ?thesis by auto
qed

lemma sum_list_mset_cong: "mset xs = mset ys \<Longrightarrow> sum_list (map f xs) = (sum_list (map f ys) :: nat)"
  by (metis mset_map sum_mset_sum_list)

lemma counts_above_mset:
  assumes "counts_above safe s u"
    and "mset (filter (\<lambda>b. safe < rcb_height b) kept) =
      mset (filter (\<lambda>b. safe < rcb_height b) (ws_recovery_canonical_blocks u))"
  shows "counts_above safe s (u\<lparr>ws_recovery_canonical_blocks := kept\<rparr>)"
  using assms(1) mset_eq_length [OF assms(2)] sum_list_mset_cong [OF assms(2)]
  by (simp add: counts_above_def Let_def)

lemma saturating_undo: "unat (t :: u64) = unat s + n \<Longrightarrow> unat (d :: u64) = min n (2 ^ 64 - 1) \<Longrightarrow> saturating_sub t d = s"
  using unat_u64_bound [of t] by (simp add: word_unat_eq_iff unat_saturating_sub)

lemma rewound_base_counters:
  assumes "counts_above safe s t"
  shows "ws_recovery_scanned_blocks (rewound_base safe t) = ws_recovery_scanned_blocks s"
    "ws_recovery_scanned_outputs (rewound_base safe t) = ws_recovery_scanned_outputs s"
    "ws_legacy_proof_only_outputs (rewound_base safe t) = ws_legacy_proof_only_outputs s"
proof -
  show "ws_recovery_scanned_blocks (rewound_base safe t) = ws_recovery_scanned_blocks s"
    using assms unfolding rewound_base_def rewind_counters_def counts_above_def Let_def
    by simp (rule saturating_undo, simp, simp add: unat_fold_saturating sum_list_triv)
  show "ws_recovery_scanned_outputs (rewound_base safe t) = ws_recovery_scanned_outputs s"
    using assms unfolding rewound_base_def rewind_counters_def counts_above_def Let_def
    by simp (rule saturating_undo, simp, simp add: unat_fold_saturating unat_u32_u64)
  show "ws_legacy_proof_only_outputs (rewound_base safe t) = ws_legacy_proof_only_outputs s"
    using assms unfolding rewound_base_def rewind_counters_def counts_above_def Let_def
    by simp (rule saturating_undo, simp, simp add: unat_fold_saturating unat_u32_u64)
qed

lemmas sample_rewind_simps =
  rewind_recovery_state_def rewind_counters_def unspend_above_def refresh_maturity_def refresh_output_def
  domain_step_def rollback_confirmations_after_height_def on_transactions_reorg restore_reorged_reservations_def
  reorged_def op_then_def restore_scriptless_funding_reservations_def hold_transaction_inputs_def hold_for_def
  restore_scriptless_payout_reservations_def positions_def

theorem rewind_exact_witness:
  "let s = sample_wallet\<lparr>ws_outputs := [(sample_output 5 8 7 (Spent 9) None)\<lparr>or_discovered_height := 4\<rparr>,
         (sample_output 6 9 7 Confirmed None)\<lparr>or_discovered_height := 9\<rparr>]\<rparr>
   in \<exists>t. rewind_recovery_state 6 9 s = Inr t \<and> same_floors s t \<and>
        map (\<lambda>out. (or_id out, or_state out)) (ws_outputs t) = [(5, Confirmed)]"
proof -
  let ?s = "sample_wallet\<lparr>ws_outputs := [(sample_output 5 8 7 (Spent 9) None)\<lparr>or_discovered_height := 4\<rparr>,
         (sample_output 6 9 7 Confirmed None)\<lparr>or_discovered_height := 9\<rparr>]\<rparr>"
  obtain t where t: "rewind_recovery_state 6 9 ?s = Inr t"
    and outs: "map (\<lambda>out. (or_id out, or_state out)) (ws_outputs t) = [(5, Confirmed)]"
    by (simp add: sample_rewind_simps sample_wallet_def wallet_new_def sample_output_def Let_def)
  from rewind_exact [OF t] outs show ?thesis using t by (auto simp: Let_def)
qed

text \<open>
  C19: scanning blocks and rewinding them again is the identity on the whole-history counters (blocks
  scanned, outputs scanned, outputs without a recovery capsule), as the documentation of the rewind
  claims: the blocks are above the safe height and within one retained window of it. Pruning the
  window in between does not disturb this, no counter saturates, and a block that a page repeats is
  counted once.
\<close>

theorem rewind_undoes_scan:
  assumes run: "apply_recovery_batch lib seed chain identity batch s = Inr t"
    and rewound: "rewind_recovery_state safe tip t = Inr u"
    and new: "\<forall>b \<in> set (bt_blocks batch). safe < csb_height b \<and> unat (csb_height b) \<le> unat safe + 2048"
    and old: "\<forall>b \<in> set (ws_recovery_canonical_blocks s). rcb_height b \<le> safe"
    and current: "ws_recovery_scanned_blocks s \<noteq> 0 \<or> ws_recovery_canonical_blocks s = []"
  shows "ws_recovery_scanned_blocks u = ws_recovery_scanned_blocks s \<and>
    ws_recovery_scanned_outputs u = ws_recovery_scanned_outputs s \<and>
    ws_legacy_proof_only_outputs u = ws_legacy_proof_only_outputs s"
proof -
  from run obtain found s1 s2 s3 p s4 outs blocks where
    s1: "try_fold (merge_scanned lib identity batch) found s = Inr s1"
    and s2: "try_fold (merge_legacy lib seed identity batch) (bt_blocks batch) s1 = Inr s2"
    and s3: "migrate_durable_scan_counters s2 = Inr s3"
    and s4: "try_fold apply_block (bt_blocks batch) ({}, s3) = Inr (p, s4)"
    and pruned: "prune_recovery_canonical_window (s4\<lparr>ws_recovery_canonical_blocks := sort_key rcb_height (ws_recovery_canonical_blocks s4)\<rparr>)
       = s4\<lparr>ws_recovery_canonical_blocks := blocks\<rparr>"
    and t: "restore_frame (s4\<lparr>ws_recovery_canonical_blocks := blocks, ws_outputs := outs\<rparr>) t"
    by (rule apply_recovery_batchE)
  have "s3 = s2" using s3 current merges_counters [OF s1 s2]
    by (auto simp: migrate_durable_scan_counters_def scan_counters_def)
  then have s3c: "scan_counters s3 = scan_counters s" using merges_counters [OF s1 s2] by simp
  have "counts_above safe s s3"
    using old by (subst counts_above_cong [OF s3c]) (auto simp: counts_above_def Let_def filter_empty_conv not_less)
  moreover have "unat (rcb_height x) \<le> unat safe + 2048" if "x \<in> set (ws_recovery_canonical_blocks s3)" for x
    using that old s3c by (fastforce simp: scan_counters_def word_le_nat_alt)
  ultimately have s4c: "counts_above safe s s4"
    and high: "\<And>x. x \<in> set (ws_recovery_canonical_blocks s4) \<Longrightarrow> unat (rcb_height x) \<le> unat safe + 2048"
    using apply_blocks_counts [OF s4, of safe s "unat safe + 2048"] new by blast+
  have tc: "scan_counters t = scan_counters (s4\<lparr>ws_recovery_canonical_blocks := blocks\<rparr>)"
    using t by (auto simp: restore_frame_def scan_counters_def)
  have "counts_above safe s t"
    using counts_above_mset [OF s4c prune_keeps_above [OF high pruned]] counts_above_cong [OF tc] by simp
  moreover from rewound obtain outs' where
    "restore_frame ((rewound_base safe t)\<lparr>ws_outputs := outs',
       ws_transactions := map (reorged (\<lambda>h. safe < h)) (ws_transactions t)\<rparr>) u"
    by (rule rewind_recovery_stateE)
  ultimately show ?thesis
    using rewound_base_counters by (auto simp: restore_frame_def)
qed

theorem rewind_undoes_scan_witness:
  "\<exists>t u. apply_recovery_batch sample_recovery () sample_context sample_chain_identity
       (sample_batch [sample_core_block 3 [[1]] [[1]]]) sample_wallet = Inr t \<and>
     ws_recovery_scanned_blocks t = 1 \<and> rewind_recovery_state 2 9 t = Inr u \<and>
     ws_recovery_scanned_blocks u = 0 \<and> ws_recovery_scanned_outputs u = 0"
proof -
  have "\<exists>t. apply_recovery_batch sample_recovery () sample_context sample_chain_identity
       (sample_batch [sample_core_block 3 [[1]] [[1]]]) sample_wallet = Inr t \<and>
      ws_recovery_scanned_blocks t = 1 \<and> (\<exists>u. rewind_recovery_state 2 9 t = Inr u)"
    by (simp add: sample_page_simps sample_rewind_simps Let_def)
  then obtain t u where t: "apply_recovery_batch sample_recovery () sample_context sample_chain_identity
       (sample_batch [sample_core_block 3 [[1]] [[1]]]) sample_wallet = Inr t"
    "ws_recovery_scanned_blocks t = 1" and u: "rewind_recovery_state 2 9 t = Inr u"
    by blast
  have "ws_recovery_scanned_blocks u = ws_recovery_scanned_blocks sample_wallet \<and>
      ws_recovery_scanned_outputs u = ws_recovery_scanned_outputs sample_wallet"
    using rewind_undoes_scan [OF t(1) u]
    by (simp add: sample_batch_def sample_core_block_def sample_wallet_def wallet_new_def)
  then show ?thesis using t u by (auto simp: sample_wallet_def wallet_new_def)
qed

text \<open>
  C38: a defect of the maturity refresh. It sets every unspent recovered output that is not a coinbase
  to confirmed, also one that an ordinary transaction has reserved: the output keeps its reservation,
  so it cannot be selected, but from the next scanned page on the balance shows its value as
  spendable and no longer as outgoing.
\<close>

theorem refresh_unhides_reserved:
  assumes "refresh_maturity tip maturity s = Inr t"
    and "out \<in> set (ws_outputs s)" and "or_state out = PendingOutgoing"
    and "find (\<lambda>meta. rom_output_id meta = or_id out) (ws_recovered_output_metadata s) = Some m"
    and "\<not> rom_is_coinbase m"
  shows "out\<lparr>or_state := Confirmed\<rparr> \<in> set (ws_outputs t) \<and>
    or_value out \<le> bp_spendable (from_outputs (ws_outputs t))"
proof -
  have "refresh_output (ws_recovered_output_metadata s) tip maturity out = Inr (out\<lparr>or_state := Confirmed\<rparr>)"
    using assms(3-5) by (simp add: refresh_output_def)
  with assms(1,2) have mem: "out\<lparr>or_state := Confirmed\<rparr> \<in> set (ws_outputs t)"
    by (auto simp: refresh_maturity_Inr dest: list_all2_mem_left)
  have "unat (or_value out) \<le> value_of (\<lambda>s. s = Confirmed) (ws_outputs t)"
    using member_le_sum_list [of "unat (or_value out)" "map (\<lambda>out. if or_state out = Confirmed then unat (or_value out) else 0) (ws_outputs t)"]
      image_eqI [OF _ mem, of _ "\<lambda>out. if or_state out = Confirmed then unat (or_value out) else 0"]
    by (simp add: value_of_def)
  then have "unat (or_value out) \<le> unat (bp_spendable (from_outputs (ws_outputs t)))"
    using unat_u64_bound [of "or_value out"] by (simp add: from_outputs_fields)
  with mem show ?thesis by (simp add: word_le_nat_alt)
qed

theorem refresh_unhides_reserved_witness:
  "let out = (sample_output 5 8 7 PendingOutgoing (Some 9))\<lparr>or_discovered_height := 4\<rparr>;
       m = \<lparr>rom_output_id = 5, rom_recovery_account = 0, rom_derivation_index = 1, rom_domain = D_Received,
            rom_is_coinbase = False, rom_block_hash = replicate 32 1, rom_output_position = 0\<rparr>;
       s = sample_wallet\<lparr>ws_outputs := [out], ws_recovered_output_metadata := [m]\<rparr>
   in \<exists>t. refresh_maturity 9 10 s = Inr t \<and> bp_spendable (from_outputs (ws_outputs s)) = 0 \<and>
        7 \<le> bp_spendable (from_outputs (ws_outputs t)) \<and> map or_reserved_by (ws_outputs t) = [Some 9]"
proof -
  let ?out = "(sample_output 5 8 7 PendingOutgoing (Some 9))\<lparr>or_discovered_height := 4\<rparr>"
  let ?m = "\<lparr>rom_output_id = 5, rom_recovery_account = 0, rom_derivation_index = 1, rom_domain = D_Received,
            rom_is_coinbase = False, rom_block_hash = replicate 32 1, rom_output_position = 0\<rparr>"
  let ?s = "sample_wallet\<lparr>ws_outputs := [?out], ws_recovered_output_metadata := [?m]\<rparr>"
  obtain t where t: "refresh_maturity 9 10 ?s = Inr t" "map or_reserved_by (ws_outputs t) = [Some 9]"
    by (simp add: refresh_maturity_def refresh_output_def sample_output_def)
  have "7 \<le> bp_spendable (from_outputs (ws_outputs t))"
    using refresh_unhides_reserved [OF t(1), of ?out ?m] by (simp add: sample_output_def)
  then show ?thesis using t
    by (auto simp: Let_def from_outputs_def balance_add_def balance_default_def sample_output_def)
qed

end
