(* ===== verification/Wallet_Files.thy ===== *)
theory Wallet_Files
  imports Storage
begin

text \<open>
  The life of a wallet's files (\<open>dom-wallet-storage\<close>): creating a wallet in a staging directory and
  renaming it into place, resuming or aborting an interrupted creation, the structural check and
  opening, the durable rescan plan, and backups. The directories of one parent are a map from names;
  a name that is not a plain directory (a symbolic link) does not occur in it, and the parent itself
  exists. A directory that is being created lacks some of its files. Every step that touches the disk
  can fail before or after its effect (\<open>io_write\<close>); an exclusive lock that is taken fails the step
  that asks for it.
\<close>

subsection \<open>Directories and files\<close>

record ('env, 'p) wallet_files =
  wf_metadata :: "wallet_metadata option"
  wf_active :: "u64 option"
  wf_generations_dir :: bool
  wf_generations :: "u64 \<rightharpoonup> state_encoding \<times> 'env"
  wf_snapshot :: "snapshot_marker option"
  wf_authenticator :: bool
  wf_plan :: "'p option"

type_synonym ('env, 'p) catalog = "string \<rightharpoonup> ('env, 'p) wallet_files"

record backup_payload =
  bp_payload_version :: u16
  bp_state :: wallet_state
  bp_rescan_plan :: "rescan_plan option"

record 'b backup_container =
  bc_magic :: bytes
  bc_format_version :: u16
  bc_created_unix_seconds :: u64
  bc_wallet_id :: uuid
  bc_identity :: network_identity
  bc_envelope :: 'b

text \<open>Sealing and opening the plan and the backup payload, and the clock.\<close>

record ('env, 'p, 'b) files_env =
  fe_store :: "'env storage_env"
  fe_seal_plan :: "string \<Rightarrow> bytes \<Rightarrow> rescan_plan \<Rightarrow> storage_error + 'p"
  fe_open_plan :: "string \<Rightarrow> bytes \<Rightarrow> 'p \<Rightarrow> storage_error + rescan_plan"
  fe_seal_backup :: "string \<Rightarrow> bytes \<Rightarrow> backup_payload \<Rightarrow> storage_error + 'b"
  fe_open_backup :: "string \<Rightarrow> bytes \<Rightarrow> 'b \<Rightarrow> storage_error + backup_payload"
  fe_clock :: "storage_error + u64"

definition BACKUP_MAGIC :: bytes where "BACKUP_MAGIC = ascii ''DOMWBK01''"

definition BACKUP_FORMAT_VERSION :: u16 where "BACKUP_FORMAT_VERSION = 1"

definition create_staging_path :: "string \<Rightarrow> string" where
  "create_staging_path name = ''.'' @ name @ ''.create-staging''"

definition backup_staging_path :: "string \<Rightarrow> string" where
  "backup_staging_path name = ''.'' @ name @ ''.backup-import''"

definition empty_files :: "('env, 'p) wallet_files" where
  "empty_files =
     \<lparr>wf_metadata = None, wf_active = None, wf_generations_dir = False, wf_generations = Map.empty,
      wf_snapshot = None, wf_authenticator = False, wf_plan = None\<rparr>"

definition directory_of :: "('env, 'p) wallet_files \<Rightarrow> 'env wallet_directory option" where
  "directory_of f =
     (case (wf_metadata f, wf_active f) of
        (Some m, Some active) \<Rightarrow>
          Some \<lparr>wd_metadata = m, wd_active = active, wd_generations = wf_generations f,
                wd_snapshot = wf_snapshot f\<rparr>
      | _ \<Rightarrow> None)"

definition store_directory :: "'env wallet_directory \<Rightarrow> ('env, 'p) wallet_files \<Rightarrow> ('env, 'p) wallet_files" where
  "store_directory d f =
     f\<lparr>wf_metadata := Some (wd_metadata d), wf_active := Some (wd_active d),
       wf_generations := wd_generations d, wf_snapshot := wd_snapshot d\<rparr>"

text \<open>An operation on one directory; a path that does not exist is an input error.\<close>

definition on_entry ::
  "string \<Rightarrow> (('env, 'p) wallet_files, storage_error, 'a) meth \<Rightarrow> (('env, 'p) catalog, storage_error, 'a) meth" where
  "on_entry name m fs =
     (case fs name of
        None \<Rightarrow> (Inl SE_Io, fs)
      | Some f \<Rightarrow> (case m f of (r, f') \<Rightarrow> (r, fs(name \<mapsto> f'))))"

definition on_directory ::
  "('env wallet_directory, storage_error, 'a) meth \<Rightarrow> (('env, 'p) wallet_files, storage_error, 'a) meth" where
  "on_directory m f =
     (case directory_of f of
        None \<Rightarrow> (Inl SE_Io, f)
      | Some d \<Rightarrow> (case m d of (r, d') \<Rightarrow> (r, store_directory d' f)))"

subsection \<open>Opening\<close>

definition acquire_writer_lock :: "'env storage_env \<Rightarrow> storage_error + unit" where
  "acquire_writer_lock env = (if se_fault env IO_Lock = NoFault then Inr () else Inl SE_WriterActive)"

definition inspect_structure ::
  "'env storage_env \<Rightarrow> ('env, 'p) wallet_files \<Rightarrow> storage_error + wallet_metadata" where
  "inspect_structure env f =
     res_bind (io_read env IO_ReadMetadata) (\<lambda>_.
     res_bind (ok_or (wf_metadata f) SE_Io) (\<lambda>stored.
     res_bind (metadata_checked stored) (\<lambda>m.
     res_bind (io_read env IO_ReadActive) (\<lambda>_.
     res_bind (ok_or (wf_active f) SE_Io) (\<lambda>active.
       if active \<noteq> wm_active_generation m \<and> checked_add (wm_active_generation m) 1 \<noteq> Some active
       then Inl SE_GenerationConflict
       else if \<not> wf_generations_dir f then Inl SE_Io
       else res_bind (io_read env IO_ReadState) (\<lambda>_.
         res_bind (ok_or (wf_generations f active) SE_Io) (\<lambda>_. Inr m)))))))"

definition open_directory ::
  "'env storage_env \<Rightarrow> string \<Rightarrow> ('env, 'p) catalog \<Rightarrow> storage_error + 'env wallet_directory" where
  "open_directory env name fs =
     (case fs name of
        None \<Rightarrow> Inl SE_NotFound
      | Some f \<Rightarrow>
          res_bind (inspect_structure env f) (\<lambda>_.
          res_bind (acquire_writer_lock env) (\<lambda>_. ok_or (directory_of f) SE_Io)))"

subsection \<open>Creating\<close>

definition write_authenticator ::
  "'env storage_env \<Rightarrow> (('env, 'p) wallet_files, storage_error, unit) meth" where
  "write_authenticator env f =
     (if wf_authenticator f then (Inr (), f)
      else io_write env IO_Authenticator (\<lambda>f. f\<lparr>wf_authenticator := True\<rparr>) f)"

definition publish_initial ::
  "'env storage_env \<Rightarrow> wallet_state \<Rightarrow> string \<Rightarrow> (('env, 'p) wallet_files, storage_error, unit) meth" where
  "publish_initial env s password f =
     (if wf_generations f (ws_generation s) \<noteq> None then (Inl SE_GenerationAlreadyExists, f)
      else case se_seal env password (state_context (ws_wallet_id s) (ws_identity s) (ws_generation s))
                  CompactV2 s of
        Inl e \<Rightarrow> (Inl e, f)
      | Inr envelope \<Rightarrow>
          op_then (io_write env IO_WriteGeneration
              (\<lambda>f. f\<lparr>wf_generations := (wf_generations f)(ws_generation s \<mapsto> (CompactV2, envelope))\<rparr>)) (\<lambda>_.
          op_then (io_write env IO_Snapshot (\<lambda>f. f\<lparr>wf_snapshot := Some Snap_None\<rparr>)) (\<lambda>_.
          op_then (write_authenticator env) (\<lambda>_.
          op_then (io_write env IO_Pointer (\<lambda>f. f\<lparr>wf_active := Some (ws_generation s)\<rparr>)) (\<lambda>_.
          op_then (io_write env IO_Metadata (\<lambda>f. f\<lparr>wf_metadata := Some (metadata_from_state s)\<rparr>)) (\<lambda>_.
            io_write env IO_SyncRoot (\<lambda>f. f)))))) f)"

text \<open>A rename moves the directory; afterwards the staging name is free.\<close>

definition rename_entry :: "string \<Rightarrow> string \<Rightarrow> ('env, 'p) catalog \<Rightarrow> ('env, 'p) catalog" where
  "rename_entry old new fs = fs(new := fs old, old := None)"

definition fill_and_rename ::
  "'env storage_env \<Rightarrow> string \<Rightarrow> wallet_state \<Rightarrow> string \<Rightarrow>
     (('env, 'p) catalog, storage_error, 'env wallet_directory) meth" where
  "fill_and_rename env name s password =
     (let staging = create_staging_path name in
      op_then (on_entry staging (io_write env IO_CreateGenerations (\<lambda>f. f\<lparr>wf_generations_dir := True\<rparr>))) (\<lambda>_.
      op_then (lift_result (acquire_writer_lock env)) (\<lambda>_.
      op_then (on_entry staging (publish_initial env s password)) (\<lambda>_.
      op_then (io_write env IO_SyncStaging (\<lambda>fs. fs)) (\<lambda>_.
      op_then (io_write env IO_Rename (rename_entry staging name)) (\<lambda>_.
      op_then (io_write env IO_SyncParent (\<lambda>fs. fs)) (\<lambda>_ fs.
        (open_directory env name fs, fs))))))))"

text \<open>Removing the staging directory after a failure; what this reports is ignored.\<close>

definition discard_entry :: "'env storage_env \<Rightarrow> string \<Rightarrow> ('env, 'p) catalog \<Rightarrow> ('env, 'p) catalog" where
  "discard_entry env name fs = snd (io_write env IO_RemoveStaging (\<lambda>fs. fs(name := None)) fs)"

definition cleanup_on_error ::
  "'env storage_env \<Rightarrow> string \<Rightarrow> (('env, 'p) catalog, storage_error, 'a) meth \<Rightarrow>
     (('env, 'p) catalog, storage_error, 'a) meth" where
  "cleanup_on_error env staging m fs =
     (case m fs of
        (Inl e, fs1) \<Rightarrow> (Inl e, discard_entry env staging fs1)
      | (Inr a, fs1) \<Rightarrow> (Inr a, fs1))"

definition create ::
  "'env storage_env \<Rightarrow> string \<Rightarrow> wallet_state \<Rightarrow> string \<Rightarrow>
     (('env, 'p) catalog, storage_error, 'env wallet_directory) meth" where
  "create env name s password fs =
     (let staging = create_staging_path name in
      if fs name \<noteq> None then (Inl SE_AlreadyExists, fs)
      else if fs staging \<noteq> None then (Inl SE_IncompleteGeneration, fs)
      else case wallet_validate s of
        Inl e \<Rightarrow> (Inl (SE_Domain e), fs)
      | Inr _ \<Rightarrow>
          op_then (io_write env IO_CreateDirectory (\<lambda>fs. fs(staging \<mapsto> empty_files))) (\<lambda>_.
            cleanup_on_error env staging (fill_and_rename env name s password)) fs)"

definition unconfirmed_phrase :: "wallet_state \<Rightarrow> bool" where
  "unconfirmed_phrase s \<longleftrightarrow>
     (case ws_recovery s of
        None \<Rightarrow> False
      | Some r \<Rightarrow> rm_scheme r = RECOVERY_SCHEME_BIP39_256_V1 \<and> \<not> rm_phrase_confirmed r)"

text \<open>The structural check, opening and loading of a staging directory.\<close>

definition load_staging ::
  "'env storage_env \<Rightarrow> string \<Rightarrow> string \<Rightarrow> (('env, 'p) catalog, storage_error, wallet_state) meth" where
  "load_staging env staging password =
     op_then (on_entry staging (\<lambda>f. (inspect_structure env f, f))) (\<lambda>_.
     op_then (\<lambda>fs. (open_directory env staging fs, fs)) (\<lambda>_.
       on_entry staging (on_directory (storage_load env password))))"

definition resume_create ::
  "'env storage_env \<Rightarrow> string \<Rightarrow> string \<Rightarrow>
     (('env, 'p) catalog, storage_error, 'env wallet_directory \<times> wallet_state) meth" where
  "resume_create env name password fs =
     (let staging = create_staging_path name in
      if fs name \<noteq> None then (Inl SE_AlreadyExists, fs)
      else op_then (load_staging env staging password) (\<lambda>s.
           op_then (lift_result (ensure (unconfirmed_phrase s) SE_IncompleteGeneration)) (\<lambda>_.
           op_then (io_write env IO_SyncStaging (\<lambda>fs. fs)) (\<lambda>_.
           op_then (io_write env IO_Rename (rename_entry staging name)) (\<lambda>_.
           op_then (io_write env IO_SyncParent (\<lambda>fs. fs)) (\<lambda>_.
           op_then (\<lambda>fs. (open_directory env name fs, fs)) (\<lambda>d.
             lift_result (Inr (d, s)))))))) fs)"

definition abort_create ::
  "'env storage_env \<Rightarrow> string \<Rightarrow> string \<Rightarrow> (('env, 'p) catalog, storage_error, unit) meth" where
  "abort_create env name password fs =
     (let staging = create_staging_path name in
      if fs name \<noteq> None then (Inl SE_AlreadyExists, fs)
      else op_then (load_staging env staging password) (\<lambda>_.
           op_then (io_write env IO_RemoveStaging (\<lambda>fs. fs(staging := None))) (\<lambda>_.
             io_write env IO_SyncParent (\<lambda>fs. fs))) fs)"

subsection \<open>The durable rescan plan\<close>

definition save_rescan_plan ::
  "('env, 'p, 'b) files_env \<Rightarrow> wallet_state \<Rightarrow> rescan_plan \<Rightarrow> string \<Rightarrow>
     (('env, 'p) wallet_files, storage_error, unit) meth" where
  "save_rescan_plan env s plan password f =
     (case fe_seal_plan env password (rescan_context (ws_wallet_id s) (ws_identity s)) plan of
        Inl e \<Rightarrow> (Inl e, f)
      | Inr sealed \<Rightarrow> io_write (fe_store env) IO_WritePlan (\<lambda>f. f\<lparr>wf_plan := Some sealed\<rparr>) f)"

definition load_rescan_plan ::
  "('env, 'p, 'b) files_env \<Rightarrow> wallet_state \<Rightarrow> string \<Rightarrow> ('env, 'p) wallet_files \<Rightarrow>
     storage_error + rescan_plan option" where
  "load_rescan_plan env s password f =
     (case wf_plan f of
        None \<Rightarrow> Inr None
      | Some sealed \<Rightarrow>
          res_bind (io_read (fe_store env) IO_ReadPlan) (\<lambda>_.
          res_bind (fe_open_plan env password (rescan_context (ws_wallet_id s) (ws_identity s)) sealed) (\<lambda>plan.
            Inr (Some plan))))"

definition clear_rescan_plan ::
  "('env, 'p, 'b) files_env \<Rightarrow> (('env, 'p) wallet_files, storage_error, unit) meth" where
  "clear_rescan_plan env f =
     (if wf_plan f = None then (Inr (), f)
      else op_then (io_write (fe_store env) IO_RemovePlan (\<lambda>f. f\<lparr>wf_plan := None\<rparr>)) (\<lambda>_.
             io_write (fe_store env) IO_SyncRoot (\<lambda>f. f)) f)"

subsection \<open>Backups\<close>

text \<open>The backup file is an optional container: \<open>None\<close> while the destination does not exist.\<close>

definition export_backup ::
  "('env, 'p, 'b) files_env \<Rightarrow> string \<Rightarrow> string \<Rightarrow>
     (('env, 'p) wallet_files \<times> 'b backup_container option, storage_error, unit) meth" where
  "export_backup env wallet_password backup_password x =
     (if snd x \<noteq> None then (Inl SE_BackupDestinationExists, x)
      else op_then (on_fst (on_directory (storage_load (fe_store env) wallet_password))) (\<lambda>s x1.
        (case res_bind (load_rescan_plan env s wallet_password (fst x1)) (\<lambda>plan.
                res_bind (fe_clock env) (\<lambda>created.
                res_bind (fe_seal_backup env backup_password
                    (backup_context created (ws_wallet_id s) (ws_identity s))
                    \<lparr>bp_payload_version = BACKUP_FORMAT_VERSION, bp_state = s, bp_rescan_plan = plan\<rparr>) (\<lambda>envelope.
                  Inr \<lparr>bc_magic = BACKUP_MAGIC, bc_format_version = BACKUP_FORMAT_VERSION,
                       bc_created_unix_seconds = created, bc_wallet_id = ws_wallet_id s,
                       bc_identity = ws_identity s, bc_envelope = envelope\<rparr>))) of
           Inl e \<Rightarrow> (Inl e, x1)
         | Inr container \<Rightarrow> on_snd (io_write (fe_store env) IO_WriteBackup (\<lambda>_. Some container)) x1)) x)"

text \<open>Everything that is checked before a file is touched.\<close>

definition open_backup ::
  "('env, 'p, 'b) files_env \<Rightarrow> 'b backup_container \<Rightarrow> string \<Rightarrow> network_identity \<Rightarrow> storage_error + backup_payload" where
  "open_backup env container backup_password expected_identity =
     (if bc_magic container \<noteq> BACKUP_MAGIC \<or> bc_format_version container \<noteq> BACKUP_FORMAT_VERSION
      then Inl SE_UnsupportedBackupVersion
      else if bc_identity container \<noteq> expected_identity then Inl SE_IdentityMismatch
      else res_bind (fe_open_backup env backup_password
          (backup_context (bc_created_unix_seconds container) (bc_wallet_id container) (bc_identity container))
          (bc_envelope container)) (\<lambda>payload.
        if bp_payload_version payload \<noteq> BACKUP_FORMAT_VERSION
         \<or> ws_wallet_id (bp_state payload) \<noteq> bc_wallet_id container
         \<or> ws_identity (bp_state payload) \<noteq> bc_identity container
         \<or> ws_identity (bp_state payload) \<noteq> expected_identity
        then Inl SE_IdentityMismatch
        else case migrate_transaction_exposure (bp_state payload) of
          (Inl e, _) \<Rightarrow> Inl (SE_Domain e)
        | (Inr _, s) \<Rightarrow>
            res_bind (map_sum SE_Domain id (wallet_validate s)) (\<lambda>_.
              if (case bp_rescan_plan payload of
                    None \<Rightarrow> False
                  | Some plan \<Rightarrow> rp_wallet_id plan \<noteq> ws_wallet_id s \<or> rp_identity plan \<noteq> ws_identity s)
              then Inl SE_InvalidBackup
              else Inr (payload\<lparr>bp_state := s\<rparr>))))"

definition install_backup ::
  "('env, 'p, 'b) files_env \<Rightarrow> string \<Rightarrow> string \<Rightarrow> backup_payload \<Rightarrow>
     (('env, 'p) catalog, storage_error, unit) meth" where
  "install_backup env name wallet_password payload =
     (let staging = backup_staging_path name in
      op_then (case bp_rescan_plan payload of
          None \<Rightarrow> lift_result (Inr ())
        | Some plan \<Rightarrow> on_entry staging (save_rescan_plan env (bp_state payload) plan wallet_password)) (\<lambda>_.
      op_then (io_write (fe_store env) IO_Install (rename_entry staging name)) (\<lambda>_.
        io_write (fe_store env) IO_SyncInstall (\<lambda>fs. fs))))"

definition import_backup ::
  "('env, 'p, 'b) files_env \<Rightarrow> string \<Rightarrow> 'b backup_container option \<Rightarrow> string \<Rightarrow> string \<Rightarrow> network_identity \<Rightarrow>
     (('env, 'p) catalog, storage_error, 'env wallet_directory) meth" where
  "import_backup env name backup backup_password wallet_password expected_identity fs =
     (let staging = backup_staging_path name in
      if fs name \<noteq> None then (Inl SE_AlreadyExists, fs)
      else case res_bind (io_read (fe_store env) IO_ReadBackup) (\<lambda>_.
                res_bind (ok_or backup SE_Io) (\<lambda>container.
                  open_backup env container backup_password expected_identity)) of
        Inl e \<Rightarrow> (Inl e, fs)
      | Inr payload \<Rightarrow>
          if fs staging \<noteq> None then (Inl SE_IncompleteGeneration, fs)
          else op_then (cleanup_on_error (fe_store env) staging
                  (create (fe_store env) staging (bp_state payload) wallet_password)) (\<lambda>_.
               op_then (cleanup_on_error (fe_store env) staging
                  (install_backup env name wallet_password payload)) (\<lambda>_ fs1.
                 (open_directory (fe_store env) name fs1, fs1))) fs)"

subsection \<open>Creation is all or nothing\<close>

lemma op_thenE:
  assumes "op_then m k s = (r, t)"
  obtains e where "m s = (Inl e, t)" and "r = Inl e"
  | a u where "m s = (Inr a, u)" and "k a u = (r, t)"
  using assms by (auto simp: op_then_def split: prod.splits sum.splits)

lemma io_writeE:
  assumes "io_write env step effect d = (r, d')"
  obtains "r = Inr ()" and "d' = effect d"
  | "r = Inl SE_Io" and "d' = d"
  | "r = Inl SE_Io" and "d' = effect d"
  using assms by (auto simp: io_write_def split: fault.splits)

lemma io_write_Inr: "io_write env step effect d = (Inr u, d') \<Longrightarrow> d' = effect d"
  by (auto simp: io_write_def split: fault.splits)

lemma on_entry_other: "on_entry name m fs = (r, fs') \<Longrightarrow> n \<noteq> name \<Longrightarrow> fs' n = fs n"
  by (auto simp: on_entry_def split: option.splits prod.splits)

lemma on_entry_Inr:
  "on_entry name m fs = (Inr a, fs') \<longleftrightarrow> (\<exists>f f'. fs name = Some f \<and> m f = (Inr a, f') \<and> fs' = fs(name \<mapsto> f'))"
  by (auto simp: on_entry_def split: option.splits prod.splits)

text \<open>What the initial publication leaves: the files of a wallet that loads as the state given.\<close>

definition holds_state :: "'env storage_env \<Rightarrow> string \<Rightarrow> wallet_state \<Rightarrow> ('env, 'p) wallet_files \<Rightarrow> bool" where
  "holds_state env password s f \<longleftrightarrow>
     (\<exists>envelope. se_seal env password (state_context (ws_wallet_id s) (ws_identity s) (ws_generation s))
          CompactV2 s = Inr envelope \<and>
        wf_generations f (ws_generation s) = Some (CompactV2, envelope) \<and> wf_generations_dir f \<and>
        wf_active f = Some (ws_generation s) \<and> wf_metadata f = Some (metadata_from_state s))"

lemma publish_initial_holds:
  assumes "publish_initial env s password f = (Inr u, f')" and "wf_generations_dir f"
  shows "holds_state env password s f'"
  using assms
  by (auto simp: publish_initial_def holds_state_def res_simps write_authenticator_def
      split: if_splits sum.splits dest!: io_write_Inr)

lemma holds_state_loads:
  assumes "seal_opens env" and "holds_state env password s f" and "wallet_validate s = Inr ()"
    and "se_authenticate env password (authentication_context (ws_wallet_id s) (ws_identity s)) = Inr auth"
  shows "\<exists>d. directory_of f = Some d \<and> load_checked (quiet env) password d = Inr (auth, s)"
proof -
  from assms(2) obtain envelope where e: "se_seal env password
      (state_context (ws_wallet_id s) (ws_identity s) (ws_generation s)) CompactV2 s = Inr envelope"
    and f: "wf_generations f (ws_generation s) = Some (CompactV2, envelope)" "wf_active f = Some (ws_generation s)"
      "wf_metadata f = Some (metadata_from_state s)"
    by (auto simp: holds_state_def)
  have opens: "se_open env password (state_context (ws_wallet_id s) (ws_identity s) (ws_generation s)) envelope = Inr s"
    using assms(1) e by (auto simp: seal_opens_def)
  show ?thesis
    using f opens validated_migration [OF assms(3)] assms(3,4)
    by (simp add: directory_of_def load_checked_def location_metadata_def io_read_def quiet_def metadata_checked_def
        metadata_from_state_def active_generation_def interrupted_publication_def load_generation_def)
qed

lemma staging_names [simp]:
  "create_staging_path name \<noteq> name" "name \<noteq> create_staging_path name"
  "backup_staging_path name \<noteq> name" "name \<noteq> backup_staging_path name"
proof -
  have "length (create_staging_path name) \<noteq> length name" "length (backup_staging_path name) \<noteq> length name"
    by (simp_all add: create_staging_path_def backup_staging_path_def)
  then show "create_staging_path name \<noteq> name" "name \<noteq> create_staging_path name"
    "backup_staging_path name \<noteq> name" "name \<noteq> backup_staging_path name"
    by metis+
qed

text \<open>Up to the rename only the staging entry changes; when the rename is reached it is complete.\<close>

definition fill_staging ::
  "'env storage_env \<Rightarrow> string \<Rightarrow> wallet_state \<Rightarrow> string \<Rightarrow> (('env, 'p) catalog, storage_error, unit) meth" where
  "fill_staging env staging s password =
     op_then (on_entry staging (io_write env IO_CreateGenerations (\<lambda>f. f\<lparr>wf_generations_dir := True\<rparr>))) (\<lambda>_.
     op_then (lift_result (acquire_writer_lock env)) (\<lambda>_.
     op_then (on_entry staging (publish_initial env s password)) (\<lambda>_.
       io_write env IO_SyncStaging (\<lambda>fs. fs))))"

lemma op_then_assoc: "op_then (op_then m k) l = op_then m (\<lambda>a. op_then (k a) l)"
  by (rule ext) (simp add: op_then_def split: prod.splits sum.splits)

lemma fill_and_rename_phases:
  "fill_and_rename env name s password =
     op_then (fill_staging env (create_staging_path name) s password) (\<lambda>_.
     op_then (io_write env IO_Rename (rename_entry (create_staging_path name) name)) (\<lambda>_.
     op_then (io_write env IO_SyncParent (\<lambda>fs. fs)) (\<lambda>_ fs. (open_directory env name fs, fs))))"
  by (simp add: fill_and_rename_def fill_staging_def Let_def op_then_assoc)

lemma fill_staging_other:
  assumes "fill_staging env staging s password fs = (r, fs')" and "n \<noteq> staging"
  shows "fs' n = fs n"
  using assms(1) unfolding fill_staging_def
  by (elim op_thenE io_writeE) (auto simp: lift_result_def assms(2) dest!: on_entry_other [OF _ assms(2)])

lemma fill_staging_holds:
  assumes "fill_staging env staging s password fs = (Inr u, fs')"
  shows "\<exists>f. fs' staging = Some f \<and> holds_state env password s f"
proof -
  from assms obtain f1 f2 u1 where "publish_initial env s password f1 = (Inr u1, f2)" "wf_generations_dir f1"
    "fs' staging = Some f2"
    by (auto simp: fill_staging_def res_simps on_entry_Inr lift_result_def dest!: io_write_Inr)
  then show ?thesis using publish_initial_holds by blast
qed

lemma open_directory_Inr: "open_directory env name fs = Inr d \<Longrightarrow> \<exists>f. fs name = Some f \<and> directory_of f = Some d"
  by (auto simp: open_directory_def res_simps split: option.splits)

text \<open>An entry after an operation that fills it: untouched, or complete and what is returned.\<close>

definition entry_published ::
  "'env storage_env \<Rightarrow> string \<Rightarrow> wallet_state \<Rightarrow> storage_error + 'env wallet_directory \<Rightarrow>
     ('env, 'p) wallet_files option \<Rightarrow> bool" where
  "entry_published env password s r entry \<longleftrightarrow>
     entry = None \<and> (\<exists>e. r = Inl e) \<or>
     (\<exists>f. entry = Some f \<and> holds_state env password s f \<and> (\<forall>d. r = Inr d \<longrightarrow> directory_of f = Some d))"

lemma fill_and_rename_published:
  assumes run: "fill_and_rename env name s password fs = (r, fs')" and fresh: "fs name = None"
  shows "entry_published env password s r (fs' name)"
    and "n \<noteq> name \<Longrightarrow> n \<noteq> create_staging_path name \<Longrightarrow> fs' n = fs n"
proof -
  let ?st = "create_staging_path name"
  have "entry_published env password s r (fs' name) \<and> (\<forall>n. n \<noteq> name \<longrightarrow> n \<noteq> ?st \<longrightarrow> fs' n = fs n)"
    using run unfolding fill_and_rename_phases
  proof (cases rule: op_thenE)
    case (1 e)
    then show ?thesis using fill_staging_other [OF 1(1)] fresh by (auto simp: entry_published_def)
  next
    case (2 u fs1)
    note other = fill_staging_other [OF 2(1)]
    obtain f where f: "fs1 ?st = Some f" "holds_state env password s f"
      using fill_staging_holds [OF 2(1)] by blast
    from 2(2) consider "fs' = fs1" "\<exists>e. r = Inl e" | "fs' = rename_entry ?st name fs1"
        "(\<exists>e. r = Inl e) \<or> r = open_directory env name fs'"
      by (elim op_thenE io_writeE) auto
    then show ?thesis
    proof cases
      case 1
      then show ?thesis using other fresh by (auto simp: entry_published_def)
    next
      case 2
      then have "fs' name = Some f" using f by (simp add: rename_entry_def)
      moreover have "\<forall>d. r = Inr d \<longrightarrow> directory_of f = Some d"
        using 2(2) open_directory_Inr [of env name fs'] calculation by auto
      ultimately show ?thesis
        using f other 2(1) by (auto simp: entry_published_def rename_entry_def)
    qed
  qed
  then show "entry_published env password s r (fs' name)"
    "n \<noteq> name \<Longrightarrow> n \<noteq> ?st \<Longrightarrow> fs' n = fs n" by auto
qed

lemma discard_entry_other: "n \<noteq> name \<Longrightarrow> discard_entry env name fs n = fs n"
  by (simp add: discard_entry_def io_write_def split: fault.splits)

lemma create_published:
  assumes run: "create env name s password fs = (r, fs')" and fresh: "fs name = None"
  shows "entry_published env password s r (fs' name)"
    and "n \<noteq> name \<Longrightarrow> n \<noteq> create_staging_path name \<Longrightarrow> fs' n = fs n"
    and "fs' name \<noteq> None \<Longrightarrow> wallet_validate s = Inr ()"
proof -
  let ?st = "create_staging_path name"
  have "entry_published env password s r (fs' name) \<and> (\<forall>n. n \<noteq> name \<longrightarrow> n \<noteq> ?st \<longrightarrow> fs' n = fs n) \<and>
      (fs' name \<noteq> None \<longrightarrow> wallet_validate s = Inr ())"
  proof (cases "fs ?st = None \<and> wallet_validate s = Inr ()")
    case False
    then show ?thesis using run fresh
      by (auto simp: create_def Let_def entry_published_def split: if_splits sum.splits)
  next
    case True
    with run fresh have "op_then (io_write env IO_CreateDirectory (\<lambda>fs. fs(?st \<mapsto> empty_files))) (\<lambda>_.
        cleanup_on_error env ?st (fill_and_rename env name s password)) fs = (r, fs')"
      by (simp add: create_def Let_def)
    then show ?thesis
    proof (cases rule: op_thenE)
      case (1 e)
      then show ?thesis using fresh True by (auto simp: entry_published_def elim!: io_writeE)
    next
      case (2 u fs1)
      from 2(2) obtain fs2 where fill: "fill_and_rename env name s password fs1 = (r, fs2)"
        and fs': "fs' = fs2 \<or> fs' = discard_entry env ?st fs2"
        by (auto simp: cleanup_on_error_def split: prod.splits sum.splits)
      have fs1: "fs1 = fs(?st \<mapsto> empty_files)" using io_write_Inr [OF 2(1)] .
      then have "fs1 name = None" using fresh by simp
      note pub = fill_and_rename_published [OF fill this]
      show ?thesis using pub fs' fs1 True by (auto simp: discard_entry_other)
    qed
  qed
  then show "entry_published env password s r (fs' name)"
    "n \<noteq> name \<Longrightarrow> n \<noteq> ?st \<Longrightarrow> fs' n = fs n" "fs' name \<noteq> None \<Longrightarrow> wallet_validate s = Inr ()" by auto
qed

lemma nested_staging [simp]:
  "name \<noteq> create_staging_path (backup_staging_path name)" "create_staging_path (backup_staging_path name) \<noteq> name"
proof -
  have "length (create_staging_path (backup_staging_path name)) \<noteq> length name"
    by (simp add: create_staging_path_def backup_staging_path_def)
  then show "name \<noteq> create_staging_path (backup_staging_path name)" "create_staging_path (backup_staging_path name) \<noteq> name"
    by metis+
qed

lemma save_rescan_plan_holds:
  "save_rescan_plan env st plan pw f = (r, f') \<Longrightarrow> holds_state se npw s f \<Longrightarrow> holds_state se npw s f'"
  by (auto simp: save_rescan_plan_def holds_state_def split: sum.splits elim!: io_writeE)

text \<open>Installing: the staged wallet is at the destination, or the destination is as it was.\<close>

lemma install_backup_entry:
  assumes f: "fs staging = Some f" "holds_state se npw s f" and staging: "staging = backup_staging_path name"
    and run: "cleanup_on_error (fe_store env) staging (install_backup env name npw payload) fs = (r, fs')"
  shows "fs' name = fs name \<and> (\<exists>e. r = Inl e) \<or> (\<exists>f'. fs' name = Some f' \<and> holds_state se npw s f')"
    and "n \<notin> {name, staging} \<Longrightarrow> fs' n = fs n"
proof -
  from run obtain fs1 where inst: "install_backup env name npw payload fs = (r, fs1)"
    and fs': "fs' = fs1 \<or> fs' = discard_entry (fe_store env) staging fs1"
    by (auto simp: cleanup_on_error_def split: prod.splits sum.splits)
  have "(fs1 name = fs name \<and> (\<exists>e. r = Inl e) \<or> (\<exists>f'. fs1 name = Some f' \<and> holds_state se npw s f')) \<and>
      (\<forall>n. n \<notin> {name, staging} \<longrightarrow> fs1 n = fs n)"
    using inst unfolding install_backup_def Let_def
  proof (cases rule: op_thenE)
    case (1 e)
    then show ?thesis using staging
      by (auto simp: lift_result_def on_entry_def split: option.splits prod.splits)
  next
    case (2 u fs2)
    from 2(1) f staging obtain f2 where f2: "fs2 staging = Some f2" "holds_state se npw s f2"
      and same: "\<And>n. n \<noteq> staging \<Longrightarrow> fs2 n = fs n"
      by (auto simp: lift_result_def on_entry_Inr split: option.splits dest: save_rescan_plan_holds)
    from 2(2) consider "fs1 = fs2" "\<exists>e. r = Inl e" | "fs1 = rename_entry staging name fs2"
      unfolding staging by (elim op_thenE io_writeE) auto
    then show ?thesis using f2 same staging by cases (auto simp: rename_entry_def)
  qed
  then show "fs' name = fs name \<and> (\<exists>e. r = Inl e) \<or> (\<exists>f'. fs' name = Some f' \<and> holds_state se npw s f')"
    "n \<notin> {name, staging} \<Longrightarrow> fs' n = fs n"
    using fs' staging by (auto simp: discard_entry_other)
qed

lemma import_backup_published:
  assumes run: "import_backup env name backup bpw npw identity fs = (r, fs')" and fresh: "fs name = None"
    and payload: "res_bind (io_read (fe_store env) IO_ReadBackup) (\<lambda>_. res_bind (ok_or backup SE_Io)
        (\<lambda>container. open_backup env container bpw identity)) = Inr payload"
  shows "entry_published (fe_store env) npw (bp_state payload) r (fs' name)"
    and "n \<notin> {name, backup_staging_path name, create_staging_path (backup_staging_path name)} \<Longrightarrow> fs' n = fs n"
proof -
  let ?st = "backup_staging_path name" and ?se = "fe_store env" and ?s = "bp_state payload"
  have "entry_published ?se npw ?s r (fs' name) \<and>
      (\<forall>n. n \<notin> {name, ?st, create_staging_path ?st} \<longrightarrow> fs' n = fs n)"
  proof (cases "fs ?st = None")
    case False
    then show ?thesis using run fresh payload by (auto simp: import_backup_def Let_def entry_published_def)
  next
    case True
    with run fresh payload have "op_then (cleanup_on_error ?se ?st (create ?se ?st ?s npw)) (\<lambda>_.
        op_then (cleanup_on_error ?se ?st (install_backup env name npw payload)) (\<lambda>_ fs1.
          (open_directory ?se name fs1, fs1))) fs = (r, fs')"
      by (simp add: import_backup_def Let_def)
    then show ?thesis
    proof (cases rule: op_thenE)
      case (1 e)
      then obtain fs1 where c: "create ?se ?st ?s npw fs = (Inl e, fs1)" "fs' = discard_entry ?se ?st fs1"
        by (auto simp: cleanup_on_error_def split: prod.splits sum.splits)
      then show ?thesis using create_published(2) [OF c(1) True] fresh 1(2) c(2) nested_staging
        by (auto simp: entry_published_def discard_entry_other)
    next
      case (2 d fs1)
      from 2(1) have c: "create ?se ?st ?s npw fs = (Inr d, fs1)"
        by (auto simp: cleanup_on_error_def split: prod.splits sum.splits)
      note other = create_published(2) [OF c True]
      obtain f where f: "fs1 ?st = Some f" "holds_state ?se npw ?s f"
        using create_published(1) [OF c True] by (auto simp: entry_published_def)
      from 2(2) obtain r1 fs2 where inst: "cleanup_on_error ?se ?st (install_backup env name npw payload) fs1 = (r1, fs2)"
        and fs2: "fs' = fs2" and r: "(\<exists>e. r = Inl e) \<and> (\<exists>e. r1 = Inl e) \<or> r1 = Inr () \<and> r = open_directory ?se name fs'"
        by (elim op_thenE) auto
      from install_backup_entry [OF f refl inst] other [of name] fresh
      have "fs2 name = None \<and> (\<exists>e. r1 = Inl e) \<or> (\<exists>f'. fs2 name = Some f' \<and> holds_state ?se npw ?s f')"
        and keep: "\<And>n. n \<notin> {name, ?st} \<Longrightarrow> fs2 n = fs1 n"
        by auto
      then have "entry_published ?se npw ?s r (fs' name)"
        using r fs2 open_directory_Inr [of ?se name fs'] by (auto simp: entry_published_def)
      then show ?thesis using keep other fs2 by auto
    qed
  qed
  then show "entry_published ?se npw ?s r (fs' name)"
    "n \<notin> {name, ?st, create_staging_path ?st} \<Longrightarrow> fs' n = fs n" by auto
qed

subsection \<open>Properties\<close>


text \<open>What opening a backup promises: the same password and associated data open what they sealed.\<close>

definition backup_opens :: "('env, 'p, 'b) files_env \<Rightarrow> bool" where
  "backup_opens env \<longleftrightarrow>
     (\<forall>pw ctx payload e. fe_seal_backup env pw ctx payload = Inr e \<longrightarrow> fe_open_backup env pw ctx e = Inr payload)"

lemma export_backup_Inr:
  assumes "export_backup env wpw bpw (f, None) = (Inr (), (f1, backup))"
  obtains d s d' plan created envelope where
    "directory_of f = Some d" "storage_load (fe_store env) wpw d = (Inr s, d')"
    "load_rescan_plan env s wpw (store_directory d' f) = Inr plan"
    "fe_seal_backup env bpw (backup_context created (ws_wallet_id s) (ws_identity s))
        \<lparr>bp_payload_version = BACKUP_FORMAT_VERSION, bp_state = s, bp_rescan_plan = plan\<rparr> = Inr envelope"
    "backup = Some \<lparr>bc_magic = BACKUP_MAGIC, bc_format_version = BACKUP_FORMAT_VERSION,
        bc_created_unix_seconds = created, bc_wallet_id = ws_wallet_id s, bc_identity = ws_identity s,
        bc_envelope = envelope\<rparr>"
  using assms
  by (auto simp: export_backup_def res_simps on_fst_def on_snd_def on_directory_def
      split: option.splits prod.splits sum.splits dest!: io_write_Inr)

text \<open>Without faults a creation succeeds.\<close>

lemma io_write_quiet: "se_fault env = (\<lambda>_. NoFault) \<Longrightarrow> io_write env step effect d = (Inr (), effect d)"
  by (simp add: io_write_def)

lemma io_read_quiet: "se_fault env = (\<lambda>_. NoFault) \<Longrightarrow> io_read env step = Inr ()"
  by (simp add: io_read_def)

lemma create_succeeds:
  assumes "se_fault env = (\<lambda>_. NoFault)" and "fs name = None" and "fs (create_staging_path name) = None"
    and "wallet_validate s = Inr ()"
    and "se_seal env password (state_context (ws_wallet_id s) (ws_identity s) (ws_generation s)) CompactV2 s = Inr e"
  shows "\<exists>d. create env name s password fs =
    (Inr d, fs(name \<mapsto> \<lparr>wf_metadata = Some (metadata_from_state s), wf_active = Some (ws_generation s),
       wf_generations_dir = True, wf_generations = [ws_generation s \<mapsto> (CompactV2, e)],
       wf_snapshot = Some Snap_None, wf_authenticator = True, wf_plan = None\<rparr>))"
  using assms
  by (auto simp: create_def Let_def op_then_def io_write_quiet cleanup_on_error_def fill_and_rename_def on_entry_def
      lift_result_def acquire_writer_lock_def publish_initial_def empty_files_def write_authenticator_def
      rename_entry_def open_directory_def inspect_structure_def io_read_quiet metadata_checked_def
      metadata_from_state_def directory_of_def fun_eq_iff)

lemma import_backup_succeeds:
  assumes quiet: "se_fault (fe_store env) = (\<lambda>_. NoFault)" and fresh: "fs name = None" "fs (backup_staging_path name) = None"
      "fs (create_staging_path (backup_staging_path name)) = None"
    and opened: "open_backup env container bpw identity = Inr payload" "bp_rescan_plan payload = None"
    and valid: "wallet_validate (bp_state payload) = Inr ()"
    and seal: "se_seal (fe_store env) npw (state_context (ws_wallet_id (bp_state payload)) (ws_identity (bp_state payload))
        (ws_generation (bp_state payload))) CompactV2 (bp_state payload) = Inr e"
  shows "\<exists>d fs'. import_backup env name (Some container) bpw npw identity fs = (Inr d, fs')"
proof -
  from create_succeeds [OF quiet fresh(2,3) valid seal] obtain d where
    "create (fe_store env) (backup_staging_path name) (bp_state payload) npw fs =
      (Inr d, fs(backup_staging_path name \<mapsto> \<lparr>wf_metadata = Some (metadata_from_state (bp_state payload)),
         wf_active = Some (ws_generation (bp_state payload)), wf_generations_dir = True,
         wf_generations = [ws_generation (bp_state payload) \<mapsto> (CompactV2, e)],
         wf_snapshot = Some Snap_None, wf_authenticator = True, wf_plan = None\<rparr>))" ..
  then show ?thesis using quiet fresh opened
    by (simp add: import_backup_def Let_def io_read_quiet op_then_def cleanup_on_error_def install_backup_def
        lift_result_def io_write_quiet rename_entry_def open_directory_def inspect_structure_def
        metadata_checked_def metadata_from_state_def acquire_writer_lock_def directory_of_def)
qed


definition sample_files_env :: "(wallet_state, rescan_plan, backup_payload) files_env" where
  "sample_files_env =
     \<lparr>fe_store = sample_store NoFault, fe_seal_plan = (\<lambda>pw ctx p. Inr p), fe_open_plan = (\<lambda>pw ctx p. Inr p),
      fe_seal_backup = (\<lambda>pw ctx p. Inr p), fe_open_backup = (\<lambda>pw ctx p. Inr p), fe_clock = Inr 1000\<rparr>"

lemma sample_store_quiet: "se_fault (sample_store NoFault) = (\<lambda>_. NoFault)"
  by (simp add: sample_store_def fun_eq_iff)

lemma sample_store_laws: "seal_opens (sample_store NoFault)" "backup_opens sample_files_env"
  by (simp_all add: seal_opens_def sample_store_def backup_opens_def sample_files_env_def)



end
