(* ===== verification/Wallet_Seed.thy ===== *)
theory Wallet_Seed
  imports Prelude
begin

text \<open>
  The recovery phrase boundary (\<open>CanonicalWalletSeed\<close> of \<open>dom-wallet-core-recovery\<close>): building a seed
  from entropy or from a typed phrase, and diagnosing a phrase without building one. The BIP-39
  library and the legacy key derivation are the parameters of the record \<open>bip39_lib\<close>. Phrases are
  English, so white space is that of ASCII.
\<close>

datatype recovery_material_error =
    RM_RandomnessUnavailable | RM_InvalidMnemonic | RM_RecoveryRootDerivation
  | RM_LegacyCoinbaseDerivation | RM_ChainIdentityMismatch | RM_ValueOutOfRange
  | RM_CoordinateDomainMismatch | RM_OutputConstruction | RM_CanonicalEncoding | RM_CanonicalSize
  | RM_RecoveryRequired | RM_InvalidCapsule | RM_ProofVerification | RM_CapsuleAuthentication
  | RM_SelfRecoveryMismatch | RM_SlateConstruction | RM_SlateBindingMismatch
  | RM_TransactionVerification | RM_ScriptlessFundingConstruction | RM_ScriptlessPayoutConstruction
  | RM_ScriptlessSigningBinding

datatype phrase_problem =
    PP_WrongWordCount nat
  | PP_UnknownWord nat
  | PP_ChecksumMismatch
  | PP_Malformed

text \<open>The errors of the BIP-39 library that the code tells apart, and any other.\<close>

datatype bip39_error = BE_UnknownWord nat | BE_InvalidChecksum | BE_BadWordCount nat | BE_Other

record ('m, 'x) bip39_lib =
  bl_parse_in :: "string \<Rightarrow> bip39_error + 'm"
  bl_from_entropy_in :: "bytes \<Rightarrow> 'm option"
  bl_word_count :: "'m \<Rightarrow> nat"
  bl_to_entropy :: "'m \<Rightarrow> bytes"
  bl_to_seed :: "'m \<Rightarrow> bytes"
  bl_to_string :: "'m \<Rightarrow> string"
  bl_legacy_root :: "bytes \<Rightarrow> 'x option"

record ('m, 'x) canonical_wallet_seed =
  cws_mnemonic :: 'm
  cws_seed :: bytes
  cws_legacy_root :: 'x

definition CANONICAL_PHRASE_WORDS :: nat where "CANONICAL_PHRASE_WORDS = 24"

definition ascii_whitespace :: "char \<Rightarrow> bool" where
  "ascii_whitespace c \<longleftrightarrow> of_char c \<in> {9, 10, 11, 12, 13, 32 :: nat}"

text \<open>\<open>phrase.split_whitespace().count()\<close>: the maximal runs of characters that are not white space.\<close>

fun count_words :: "bool \<Rightarrow> string \<Rightarrow> nat" where
  "count_words in_word [] = 0"
| "count_words in_word (c # cs) =
     (if ascii_whitespace c then count_words False cs
      else (if in_word then 0 else 1) + count_words True cs)"

definition from_mnemonic ::
  "('m, 'x) bip39_lib \<Rightarrow> 'm \<Rightarrow> recovery_material_error + ('m, 'x) canonical_wallet_seed" where
  "from_mnemonic lib mnemonic =
     (if bl_word_count lib mnemonic \<noteq> 24 \<or> length (bl_to_entropy lib mnemonic) \<noteq> 32
      then Inl RM_InvalidMnemonic
      else res_bind (ok_or (bl_legacy_root lib (bl_to_seed lib mnemonic)) RM_LegacyCoinbaseDerivation)
        (\<lambda>legacy_root.
           Inr \<lparr>cws_mnemonic = mnemonic, cws_seed = bl_to_seed lib mnemonic, cws_legacy_root = legacy_root\<rparr>))"

definition from_entropy ::
  "('m, 'x) bip39_lib \<Rightarrow> bytes \<Rightarrow> recovery_material_error + ('m, 'x) canonical_wallet_seed" where
  "from_entropy lib entropy =
     res_bind (ok_or (bl_from_entropy_in lib entropy) RM_InvalidMnemonic) (from_mnemonic lib)"

text \<open>The operating system's randomness: \<open>None\<close> when it is not available.\<close>

definition generate ::
  "('m, 'x) bip39_lib \<Rightarrow> bytes option \<Rightarrow> recovery_material_error + ('m, 'x) canonical_wallet_seed" where
  "generate lib random = res_bind (ok_or random RM_RandomnessUnavailable) (from_entropy lib)"

definition parse_phrase ::
  "('m, 'x) bip39_lib \<Rightarrow> string \<Rightarrow> recovery_material_error + ('m, 'x) canonical_wallet_seed" where
  "parse_phrase lib phrase =
     res_bind (map_sum (\<lambda>_. RM_InvalidMnemonic) id (bl_parse_in lib phrase)) (\<lambda>mnemonic.
       if bl_word_count lib mnemonic \<noteq> CANONICAL_PHRASE_WORDS \<or> length (bl_to_entropy lib mnemonic) \<noteq> 32
       then Inl RM_InvalidMnemonic else from_mnemonic lib mnemonic)"

definition diagnose_phrase :: "('m, 'x) bip39_lib \<Rightarrow> string \<Rightarrow> phrase_problem + unit" where
  "diagnose_phrase lib phrase =
     (let n = count_words False phrase in
      if n \<noteq> CANONICAL_PHRASE_WORDS then Inl (PP_WrongWordCount n)
      else case bl_parse_in lib phrase of
        Inr mnemonic \<Rightarrow>
          if bl_word_count lib mnemonic \<noteq> CANONICAL_PHRASE_WORDS \<or> length (bl_to_entropy lib mnemonic) \<noteq> 32
          then Inl PP_Malformed else Inr ()
      | Inl (BE_UnknownWord i) \<Rightarrow> Inl (PP_UnknownWord i)
      | Inl BE_InvalidChecksum \<Rightarrow> Inl PP_ChecksumMismatch
      | Inl (BE_BadWordCount got) \<Rightarrow> Inl (PP_WrongWordCount got)
      | Inl _ \<Rightarrow> Inl PP_Malformed)"

definition copy_entropy_to :: "('m, 'x) bip39_lib \<Rightarrow> ('m, 'x) canonical_wallet_seed \<Rightarrow> bytes" where
  "copy_entropy_to lib seed = bl_to_entropy lib (cws_mnemonic seed)"

definition mnemonic_text :: "('m, 'x) bip39_lib \<Rightarrow> ('m, 'x) canonical_wallet_seed \<Rightarrow> string" where
  "mnemonic_text lib seed = bl_to_string lib (cws_mnemonic seed)"

subsection \<open>Properties\<close>

text \<open>
  What the code relies on of the BIP-39 library: a phrase that parses has as many words as its
  mnemonic, a mnemonic of 24 words has 32 bytes of entropy, a mnemonic is determined by its entropy,
  printing and parsing give the mnemonic back, and the legacy derivation accepts every seed.
\<close>

definition bip39_laws :: "('m, 'x) bip39_lib \<Rightarrow> bool" where
  "bip39_laws lib \<longleftrightarrow>
     (\<forall>phrase m. bl_parse_in lib phrase = Inr m \<longrightarrow> count_words False phrase = bl_word_count lib m) \<and>
     (\<forall>m. bl_word_count lib m = 24 \<longrightarrow> length (bl_to_entropy lib m) = 32 \<and>
        bl_from_entropy_in lib (bl_to_entropy lib m) = Some m \<and> bl_parse_in lib (bl_to_string lib m) = Inr m) \<and>
     (\<forall>e m. bl_from_entropy_in lib e = Some m \<longrightarrow> bl_to_entropy lib m = e) \<and>
     (\<forall>bs. bl_legacy_root lib bs \<noteq> None)"


text \<open>
  What the creation ceremony shows the user restores the wallet. The entropy kept in the encrypted
  state and the phrase shown for a seed both rebuild exactly that seed.
\<close>

theorem phrase_roundtrip:
  assumes "bip39_laws lib" and "from_entropy lib entropy = Inr seed"
  shows "copy_entropy_to lib seed = entropy \<and> parse_phrase lib (mnemonic_text lib seed) = Inr seed \<and>
    from_entropy lib (copy_entropy_to lib seed) = Inr seed"
proof -
  from assms(2) obtain m where m: "bl_from_entropy_in lib entropy = Some m" and seed: "from_mnemonic lib m = Inr seed"
    by (auto simp: from_entropy_def res_simps)
  then have "cws_mnemonic seed = m" and "bl_word_count lib m = 24" and "length (bl_to_entropy lib m) = 32"
    by (auto simp: from_mnemonic_def res_simps split: if_splits)
  moreover have "bl_to_entropy lib m = entropy" and "bl_parse_in lib (bl_to_string lib m) = Inr m"
    using assms(1) m calculation(2) by (simp_all add: bip39_laws_def)
  ultimately show ?thesis using m seed
    by (simp add: copy_entropy_to_def parse_phrase_def mnemonic_text_def from_entropy_def CANONICAL_PHRASE_WORDS_def)
qed

text \<open>A library with the phrases of 24 words \<open>a\<close> or \<open>b\<close>, whose entropy has 32 bytes.\<close>

definition sample_phrase :: "bool \<Rightarrow> string" where
  "sample_phrase b = concat (replicate 24 [if b then CHR ''a'' else CHR ''b'', CHR '' ''])"

definition sample_bip39 :: "(bool, unit) bip39_lib" where
  "sample_bip39 =
     \<lparr>bl_parse_in = (\<lambda>p. if p = sample_phrase True then Inr True else if p = sample_phrase False then Inr False
         else Inl BE_InvalidChecksum),
      bl_from_entropy_in = (\<lambda>e. if e = replicate 32 1 then Some True else if e = replicate 32 0 then Some False else None),
      bl_word_count = (\<lambda>m. 24), bl_to_entropy = (\<lambda>m. replicate 32 (if m then 1 else 0)),
      bl_to_seed = (\<lambda>m. [if m then 1 else 0]), bl_to_string = sample_phrase, bl_legacy_root = (\<lambda>s. Some ())\<rparr>"

lemma sample_bip39_laws: "bip39_laws sample_bip39"
proof -
  have words: "count_words False (sample_phrase b) = 24" for b
    by (cases b) (simp_all add: sample_phrase_def numeral_eq_Suc ascii_whitespace_def)
  have diff: "sample_phrase False \<noteq> sample_phrase True"
    by (simp add: sample_phrase_def numeral_eq_Suc)
  show ?thesis
    unfolding bip39_laws_def sample_bip39_def
    using words diff by (auto simp: all_bool_eq split: if_splits)
qed


theorem phrase_roundtrip_witness:
  "\<exists>seed. bip39_laws sample_bip39 \<and> from_entropy sample_bip39 (replicate 32 1) = Inr seed \<and>
     parse_phrase sample_bip39 (mnemonic_text sample_bip39 seed) = Inr seed"
proof -
  obtain seed where "from_entropy sample_bip39 (replicate 32 1) = Inr seed"
    by (simp add: from_entropy_def from_mnemonic_def sample_bip39_def)
  then show ?thesis using phrase_roundtrip [OF sample_bip39_laws] sample_bip39_laws by blast
qed

end
