(* ===== verification/Seed_Restore.thy ===== *)
theory Seed_Restore
  imports Core_Sync Recovery_Scan Wallet_Files "HOL-Library.List_Lexorder" "HOL-Library.Char_ord"
begin

text \<open>
  Restoring a wallet from its phrase (\<open>dom-wallet-core-restore\<close>): the sink that commits each applied
  page and its cursor as one encrypted generation of a staging directory, the resumable session, the
  loop with its bounded retries of a busy node, and the publication by one rename. The state of a step
  is the node's world, the catalog of wallet directories and the session; what a step does to the
  disk can fail as in \<open>Wallet_Files\<close>. Parsing the phrase is an argument, the definition
  \<open>parse_phrase\<close> of \<open>Wallet_Seed\<close>; the waiting time between retries is not observable.
\<close>

subsection \<open>The store of a directory's files\<close>

definition files_ops :: "'env storage_env \<Rightarrow> ('env, 'p) wallet_files store_ops" where
  "files_ops env =
     \<lparr>so_commit = (\<lambda>pw g s. on_directory (storage_commit env pw g s)),
      so_metadata = (\<lambda>f. res_bind (ok_or (directory_of f) SE_Io) (location_metadata env)),
      so_load = (\<lambda>pw. on_directory (storage_load env pw))\<rparr>"

lemma on_directory_Inr:
  "on_directory m f = (Inr a, f') \<longleftrightarrow>
     (\<exists>d d'. directory_of f = Some d \<and> m d = (Inr a, d') \<and> f' = store_directory d' f)"
  by (auto simp: on_directory_def split: option.splits prod.splits)

interpretation files: durable_store "files_ops env" for env :: "'env storage_env"
  using directory.commit_exact [of env] directory.commit_valid [of env] directory.load_valid [of env]
  by unfold_locales
    (fastforce simp: files_ops_def directory_ops_def storage_commit_def on_directory_Inr)+

subsection \<open>The sink\<close>

record 'seed restore_context =
  rx_seed :: 'seed
  rx_chain :: recovery_chain_context
  rx_identity :: core_chain_identity
  rx_password :: string

record 'd restore_sink_state =
  rs_directory :: 'd
  rs_state :: "wallet_state option"
  rs_last_error :: "seed_restore_error option"

text \<open>The state that a page leads to, before it is committed.\<close>

definition restored_page ::
  "'seed recovery_lib \<Rightarrow> 'seed restore_context \<Rightarrow> core_scan_batch \<Rightarrow> bytes \<Rightarrow> core_block_reference option \<Rightarrow>
     wallet_state \<Rightarrow> seed_restore_error + wallet_state" where
  "restored_page rlib ctx batch cursor reorg_anchor s =
     res_bind (case reorg_anchor of
         None \<Rightarrow> Inr s
       | Some anchor \<Rightarrow> rewind_recovery_state (cbr_height anchor) (cbr_height (bt_observed_tip batch)) s) (\<lambda>s1.
     res_bind (apply_recovery_batch rlib (rx_seed ctx) (rx_chain ctx) (rx_identity ctx) batch s1) (\<lambda>s2.
       let s3 = s2\<lparr>ws_core_scan_cursor := Some cursor, ws_seed_restore_status := Some InProgress,
                   ws_sync_status := Synchronizing\<rparr> in
       res_bind (map_sum (\<lambda>_. SR_MalformedRecovery) id (wallet_validate s3)) (\<lambda>_. Inr s3)))"

fun commit_failure :: "storage_error \<Rightarrow> seed_restore_error" where
  "commit_failure SE_StateTooLarge = SR_StateStorageLimitExceeded"
| "commit_failure e = SR_Storage"

definition reload_after ::
  "'d store_ops \<Rightarrow> string \<Rightarrow> seed_restore_error \<Rightarrow> ('d restore_sink_state, seed_restore_error, unit) meth" where
  "reload_after ops pw e sk =
     (case so_load ops pw (rs_directory sk) of
        (r, d) \<Rightarrow> (Inl e, sk\<lparr>rs_directory := d, rs_state := (case r of Inl _ \<Rightarrow> None | Inr s \<Rightarrow> Some s),
                         rs_last_error := Some e\<rparr>))"

definition restore_sink_commit ::
  "'d store_ops \<Rightarrow> 'seed recovery_lib \<Rightarrow> 'seed restore_context \<Rightarrow> core_scan_batch \<Rightarrow> bytes \<Rightarrow>
     core_block_reference option \<Rightarrow> ('d restore_sink_state, seed_restore_error, unit) meth" where
  "restore_sink_commit ops rlib ctx batch cursor reorg_anchor sk =
     (case rs_state sk of
        None \<Rightarrow> (Inl SR_Storage, sk)
      | Some s \<Rightarrow>
          (case restored_page rlib ctx batch cursor reorg_anchor s of
             Inl e \<Rightarrow> reload_after ops (rx_password ctx) e sk
           | Inr next \<Rightarrow>
               (case so_commit ops (rx_password ctx) (ws_generation s) next (rs_directory sk) of
                  (Inl e, d) \<Rightarrow> reload_after ops (rx_password ctx) (commit_failure e) (sk\<lparr>rs_directory := d\<rparr>)
                | (Inr committed, d) \<Rightarrow> (Inr (), sk\<lparr>rs_directory := d, rs_state := Some committed\<rparr>))))"

definition restore_sink ::
  "'d store_ops \<Rightarrow> ('hdr, 'cm) consensus_lib \<Rightarrow> 'seed recovery_lib \<Rightarrow> 'seed restore_context \<Rightarrow>
     ('d restore_sink_state, seed_restore_error) scan_sink" where
  "restore_sink ops clib rlib ctx =
     \<lparr>sk_core_cursor_state = (\<lambda>sk. res_bind (ok_or (rs_state sk) SR_Storage) (\<lambda>s.
        case ws_core_scan_cursor s of
          None \<Rightarrow> Inr PC_Absent
        | Some bs \<Rightarrow> map_sum (\<lambda>_. SR_IncompatibleCheckpoint) PC_Valid (core_cursor_parse clib bs (rx_identity ctx)))),
      sk_committed_canonical_hash = (\<lambda>height sk. res_bind (ok_or (rs_state sk) SR_Storage) (\<lambda>s.
        Inr (map_option rcb_block_hash
          (find (\<lambda>block. rcb_height block = height) (ws_recovery_canonical_blocks s))))),
      sk_commit_core_batch = (\<lambda>batch cursor. restore_sink_commit ops rlib ctx batch cursor None),
      sk_commit_core_reorg = (\<lambda>anchor batch cursor. restore_sink_commit ops rlib ctx batch cursor (Some anchor)),
      sk_persistence_stage = (\<lambda>e. ST_StorageCommit),
      sk_recover_generation_conflict = (\<lambda>e sk. (Inr False, sk))\<rparr>"

lemma restore_sink_commit_Inr:
  assumes "restore_sink_commit ops rlib ctx batch cursor reorg sk = (Inr u, sk')"
  obtains s nxt committed d where "rs_state sk = Some s" "restored_page rlib ctx batch cursor reorg s = Inr nxt"
    "so_commit ops (rx_password ctx) (ws_generation s) nxt (rs_directory sk) = (Inr committed, d)"
    "sk' = sk\<lparr>rs_directory := d, rs_state := Some committed\<rparr>"
  using assms
  by (auto simp: restore_sink_commit_def reload_after_def split: option.splits sum.splits prod.splits)

lemma restored_page_cursor: "restored_page rlib ctx batch cursor reorg s = Inr t \<Longrightarrow> ws_core_scan_cursor t = Some cursor"
  by (auto simp: restored_page_def res_simps Let_def)

text \<open>The sink publishes the cursor it was given, when the cursor is one of the wallet's chain.\<close>

lemma restore_publishing:
  assumes "durable_store ops"
  shows "publishing_sink (restore_sink ops clib rlib ctx) (\<lambda>c. core_cursor_parse clib c (rx_identity ctx) = Inr c)"
proof -
  have "sk_core_cursor_state (restore_sink ops clib rlib ctx) sk' = Inr (PC_Valid c)"
    if "core_cursor_parse clib c (rx_identity ctx) = Inr c"
      "restore_sink_commit ops rlib ctx b c reorg sk = (Inr (), sk')" for c b reorg sk sk'
  proof -
    from that(2) obtain s nxt committed d where "restored_page rlib ctx b c reorg s = Inr nxt"
      "so_commit ops (rx_password ctx) (ws_generation s) nxt (rs_directory sk) = (Inr committed, d)"
      "sk' = sk\<lparr>rs_directory := d, rs_state := Some committed\<rparr>"
      by (rule restore_sink_commit_Inr)
    moreover from this(2) obtain g where "committed = nxt\<lparr>ws_generation := g\<rparr>"
      using durable_store.commit_exact [OF assms] by blast
    ultimately show ?thesis
      using that(1) restored_page_cursor by (fastforce simp: restore_sink_def)
  qed
  then show ?thesis by unfold_locales (auto simp: restore_sink_def)
qed

interpretation restoring: publishing_sink "restore_sink (files_ops env) clib rlib ctx"
  "\<lambda>c. core_cursor_parse clib c (rx_identity ctx) = Inr c"
  for env :: "'env storage_env" and clib :: "('hdr, 'cm) consensus_lib" and rlib :: "'seed recovery_lib"
    and ctx :: "'seed restore_context"
  by (rule restore_publishing [OF files.durable_store_axioms])

subsection \<open>The session\<close>

datatype seed_restore_progress =
    SP_BatchCommitted core_block_reference
  | SP_ReorgCommitted core_block_reference core_block_reference
  | SP_ReadyToPublish

record ('w, 'seed) seed_restore_session =
  ss_adapter :: "'w core_chain_adapter"
  ss_context :: "'seed restore_context"
  ss_state :: "wallet_state option"
  ss_destination :: string
  ss_staging :: string
  ss_ready_to_publish :: bool

fun map_scan_error :: "core_scan_error \<Rightarrow> seed_restore_error" where
  "map_scan_error (CS_InvalidIdentity f) = SR_ChainIdentityMismatch"
| "map_scan_error (CS_IdentityMismatch f) = SR_ChainIdentityMismatch"
| "map_scan_error CS_CursorIdentityMismatch = SR_ChainIdentityMismatch"
| "map_scan_error (CS_Persistence stage) = SR_Storage"
| "map_scan_error CS_CoreNotReady = SR_CoreBusy"
| "map_scan_error e = SR_CanonicalScan"

definition cursor_anchor ::
  "('hdr, 'cm) consensus_lib \<Rightarrow> bytes \<Rightarrow> seed_restore_error + core_block_reference" where
  "cursor_anchor clib bs =
     res_bind (map_sum map_scan_error id (core_cursor_decode clib bs)) (\<lambda>cursor.
       Inr \<lparr>cbr_height = wc_anchor_height cursor, cbr_hash = wc_anchor_hash cursor\<rparr>)"

definition progress_of ::
  "('hdr, 'cm) consensus_lib \<Rightarrow> core_reconcile_result \<Rightarrow> seed_restore_error + seed_restore_progress" where
  "progress_of clib reconciliation =
     (case reconciliation of
        RR_NoChanges \<Rightarrow> Inr SP_ReadyToPublish
      | RR_Committed cursor \<Rightarrow> map_sum id SP_BatchCommitted (cursor_anchor clib cursor)
      | RR_ReorgCommitted safe_anchor cursor \<Rightarrow>
          map_sum id (SP_ReorgCommitted safe_anchor) (cursor_anchor clib cursor))"

definition advance_once ::
  "'env storage_env \<Rightarrow> ('hdr, 'cm) consensus_lib \<Rightarrow> 'seed recovery_lib \<Rightarrow>
     ('w \<times> ('env, 'p) catalog \<times> ('w, 'seed) seed_restore_session, seed_restore_error, seed_restore_progress) meth"
  where
  "advance_once env clib rlib x =
     (case x of (w, fs, ss) \<Rightarrow>
        if ss_ready_to_publish ss then (Inr SP_ReadyToPublish, x)
        else case fs (ss_staging ss) of
          None \<Rightarrow> (Inl SR_Storage, x)
        | Some f \<Rightarrow>
            (case reconcile_once clib (ss_adapter ss) (restore_sink (files_ops env) clib rlib (ss_context ss))
                    (w, \<lparr>rs_directory = f, rs_state = ss_state ss, rs_last_error = None\<rparr>) of
               (Inl e, (w1, sk)) \<Rightarrow>
                 (Inl (case rs_last_error sk of Some e' \<Rightarrow> e' | None \<Rightarrow> map_scan_error e),
                  (w1, fs(ss_staging ss \<mapsto> rs_directory sk), ss\<lparr>ss_state := rs_state sk\<rparr>))
             | (Inr reconciliation, (w1, sk)) \<Rightarrow>
                 (progress_of clib reconciliation,
                  (w1, fs(ss_staging ss \<mapsto> rs_directory sk),
                   ss\<lparr>ss_state := rs_state sk, ss_ready_to_publish := (reconciliation = RR_NoChanges)\<rparr>))))"

subsection \<open>Beginning and resuming\<close>

definition staging_path :: "string \<Rightarrow> seed_restore_error + string" where
  "staging_path destination =
     (if destination = [] then Inl SR_InvalidDestination else Inr (''.'' @ destination @ ''.seed-restore''))"

definition validate_restore_password :: "string \<Rightarrow> seed_restore_error + unit" where
  "validate_restore_password password =
     (if 8 \<le> length password \<and> length password \<le> 1024 then Inr () else Inl SR_InvalidPassword)"

definition default_node_configuration :: "network_identity \<Rightarrow> node_configuration" where
  "default_node_configuration identity =
     \<lparr>nc_endpoint_url = ''https://example.invalid/dom-rpc'', nc_expected_identity = identity,
      nc_source_identity = ''configured-dom-node'', nc_api_compatibility_version = 1,
      nc_connect_timeout_ms = 5000, nc_request_timeout_ms = 10000, nc_poll_interval_ms = 5000,
      nc_retry_ceiling = 6, nc_max_backoff_ms = 60000, nc_stable_success_threshold = 3,
      nc_tls_required = True, nc_credential_reference = None\<rparr>"

definition domain_identity :: "core_chain_identity \<Rightarrow> network_identity" where
  "domain_identity identity =
     \<lparr>ni_network = (case cci_network identity of CN_Mainnet \<Rightarrow> Mainnet | CN_Testnet \<Rightarrow> PublicTestnet
                      | CN_Regtest \<Rightarrow> PrivateTestnet),
      ni_chain_id = cci_chain_id identity, ni_genesis_id = cci_genesis_hash identity\<rparr>"

definition offline_restore_state ::
  "'seed recovery_lib \<Rightarrow> uuid \<Rightarrow> uuid \<Rightarrow> 'seed \<Rightarrow> network_identity \<Rightarrow> wallet_state" where
  "offline_restore_state rlib fresh_wallet_id fresh_account_id seed identity =
     (wallet_new fresh_wallet_id fresh_account_id identity (rl_entropy rlib seed)
        (default_node_configuration identity))
       \<lparr>ws_recovery := Some \<lparr>rm_scheme = RECOVERY_SCHEME_BIP39_256_V1, rm_phrase_confirmed = True\<rparr>,
        ws_seed_restore_status := Some InProgress, ws_sync_status := Synchronizing\<rparr>"

definition validate_checkpoint ::
  "'seed recovery_lib \<Rightarrow> wallet_state \<Rightarrow> 'seed \<Rightarrow> core_chain_identity \<Rightarrow> seed_restore_error + unit" where
  "validate_checkpoint rlib s seed identity =
     (if ws_root_material s \<noteq> rl_entropy rlib seed
       \<or> ws_identity s \<noteq> domain_identity identity
       \<or> ws_seed_restore_status s = None
       \<or> (ws_seed_restore_status s = Some Complete
           \<and> (ws_core_scan_cursor s = None \<or> ws_sync_status s \<noteq> Synced))
       \<or> (case ws_recovery s of None \<Rightarrow> True | Some r \<Rightarrow> rm_scheme r \<noteq> RECOVERY_SCHEME_BIP39_256_V1)
      then Inl SR_IncompatibleCheckpoint else Inr ())"

text \<open>\<open>SeedRestoreService\<close>, with the fresh identifiers a new state draws.\<close>

record 'w seed_restore_service =
  sr_api :: "'w scan_api"
  sr_expected_identity :: core_chain_identity
  sr_batch_blocks :: u64
  sr_reorg_depth :: u64
  sr_busy_retry_attempts :: nat

definition checkpoint_load_failure :: "storage_error \<Rightarrow> seed_restore_error" where
  "checkpoint_load_failure e = (if e = SE_InvalidPassword then SR_InvalidPassword else SR_IncompatibleCheckpoint)"

definition resume_stage ::
  "'env storage_env \<Rightarrow> 'seed recovery_lib \<Rightarrow> core_chain_identity \<Rightarrow> 'seed \<Rightarrow> string \<Rightarrow> string \<Rightarrow>
     (('env, 'p) catalog, seed_restore_error, wallet_state \<times> bool) meth" where
  "resume_stage env rlib identity seed password staging =
     op_then (map_err (\<lambda>_. SR_Storage) (\<lambda>fs. (open_directory env staging fs, fs))) (\<lambda>_.
     op_then (map_err checkpoint_load_failure (on_entry staging (on_directory (storage_load env password)))) (\<lambda>s.
     op_then (lift_result (validate_checkpoint rlib s seed identity)) (\<lambda>_.
       lift_result (Inr (s, ws_seed_restore_status s = Some Complete)))))"

definition start_stage ::
  "'env storage_env \<Rightarrow> 'seed recovery_lib \<Rightarrow> uuid \<Rightarrow> uuid \<Rightarrow> core_chain_identity \<Rightarrow> 'seed \<Rightarrow> string \<Rightarrow> string \<Rightarrow>
     (('env, 'p) catalog, seed_restore_error, wallet_state \<times> bool) meth" where
  "start_stage env rlib fresh_wallet_id fresh_account_id identity seed password staging =
     (let s = offline_restore_state rlib fresh_wallet_id fresh_account_id seed (domain_identity identity) in
      op_then (map_err (\<lambda>_. SR_Storage) (create env staging s password)) (\<lambda>_.
      op_then (map_err (\<lambda>_. SR_Storage) (io_write env IO_Restrict (\<lambda>fs. fs))) (\<lambda>_.
        lift_result (Inr (s, False)))))"

definition begin_restore ::
  "'env storage_env \<Rightarrow> ('hdr, 'cm) consensus_lib \<Rightarrow> 'seed recovery_lib \<Rightarrow> (string \<Rightarrow> 'seed option) \<Rightarrow>
     'w seed_restore_service \<Rightarrow> uuid \<Rightarrow> uuid \<Rightarrow> string \<Rightarrow> string \<Rightarrow> string \<Rightarrow>
     ('w \<times> ('env, 'p) catalog, seed_restore_error, ('w, 'seed) seed_restore_session) meth" where
  "begin_restore env clib rlib parse service fresh_wallet_id fresh_account_id mnemonic password destination =
     op_then (lift_result (validate_restore_password password)) (\<lambda>_.
     op_then (lift_result (ok_or (parse mnemonic) SR_InvalidMnemonic)) (\<lambda>seed.
     op_then (on_fst (map_err map_scan_error (adapter_connect clib (sr_api service)
         (Some (sr_expected_identity service)) (sr_batch_blocks service) (sr_reorg_depth service)))) (\<lambda>adapter x.
       if snd x destination \<noteq> None then (Inl SR_InvalidDestination, x)
       else op_then (lift_result (staging_path destination)) (\<lambda>staging.
         op_then (on_snd (if snd x staging \<noteq> None
             then resume_stage env rlib (sr_expected_identity service) seed password staging
             else start_stage env rlib fresh_wallet_id fresh_account_id (sr_expected_identity service) seed
               password staging)) (\<lambda>(s, ready).
           lift_result (Inr
             \<lparr>ss_adapter = adapter,
              ss_context = \<lparr>rx_seed = seed,
                rx_chain = \<lparr>rcc_network_magic = cci_network_magic (sr_expected_identity service),
                            rcc_chain_id = cci_chain_id (sr_expected_identity service)\<rparr>,
                rx_identity = sr_expected_identity service, rx_password = password\<rparr>,
              ss_state = Some s, ss_destination = destination, ss_staging = staging,
              ss_ready_to_publish = ready\<rparr>))) x)))"

subsection \<open>The result\<close>

datatype seed_restore_completion = OwnedOutputsRecovered | NoOwnedOutputs

datatype seed_restore_warning = LegacyBackupRequired | OffChainMetadataNotRecoverableWithSeed

record recovered_account_balance =
  rab_recovery_account :: u32
  rab_balance :: balance_projection

record seed_restore_result =
  srr_completion :: seed_restore_completion
  srr_network :: core_network
  srr_chain_id :: bytes
  srr_scanned_blocks :: u64
  srr_scanned_outputs :: u64
  srr_owned_outputs :: u64
  srr_spent_outputs :: u64
  srr_unspent_outputs :: u64
  srr_coinbase_outputs :: u64
  srr_legacy_outputs :: u64
  srr_balance :: balance_projection
  srr_accounts :: "recovered_account_balance list"
  srr_floors :: recovery_allocation_floors
  srr_final_cursor_anchor :: core_block_reference
  srr_warnings :: "seed_restore_warning list"

definition durable_scan_totals :: "wallet_state \<Rightarrow> seed_restore_error + u64 \<times> u64" where
  "durable_scan_totals s =
     (if ws_recovery_scanned_blocks s \<noteq> 0
      then Inr (ws_recovery_scanned_blocks s, ws_recovery_scanned_outputs s)
      else res_bind (ok_or (sum_counts (ws_recovery_canonical_blocks s)) SR_CoordinateOverflow) (\<lambda>outputs.
        Inr (of_nat (length (ws_recovery_canonical_blocks s)), outputs)))"

text \<open>Each output with its recovery account: the last metadata of an identifier counts.\<close>

definition output_accounts :: "wallet_state \<Rightarrow> seed_restore_error + (u32 \<times> output_record) list" where
  "output_accounts s =
     map_results (\<lambda>out.
       res_bind (ok_or (map_of (rev (map (\<lambda>m. (rom_output_id m, m)) (ws_recovered_output_metadata s))) (or_id out))
           SR_MalformedRecovery) (\<lambda>m. Inr (rom_recovery_account m, out))) (ws_outputs s)"

definition account_balances :: "(u32 \<times> output_record) list \<Rightarrow> recovered_account_balance list" where
  "account_balances outs =
     map (\<lambda>account. \<lparr>rab_recovery_account = account,
            rab_balance = from_outputs (map snd (filter (\<lambda>p. fst p = account) outs))\<rparr>)
       (sort (remdups (map fst outs)))"

definition result_from_state ::
  "('hdr, 'cm) consensus_lib \<Rightarrow> wallet_state \<Rightarrow> core_chain_identity \<Rightarrow> seed_restore_error + seed_restore_result" where
  "result_from_state clib s identity =
     res_bind (ok_or (ws_core_scan_cursor s) SR_Incomplete) (\<lambda>bs.
     res_bind (map_sum map_scan_error id (core_cursor_parse clib bs identity)) (\<lambda>cursor.
     res_bind (cursor_anchor clib cursor) (\<lambda>anchor.
     res_bind (output_accounts s) (\<lambda>outs.
     res_bind (durable_scan_totals s) (\<lambda>(scanned_blocks, scanned_outputs).
       let spent = of_nat (length (filter (\<lambda>out. is_spent (or_state out)) (ws_outputs s))) in
       Inr \<lparr>srr_completion = (if ws_outputs s = [] then NoOwnedOutputs else OwnedOutputsRecovered),
            srr_network = cci_network identity, srr_chain_id = cci_chain_id identity,
            srr_scanned_blocks = scanned_blocks, srr_scanned_outputs = scanned_outputs,
            srr_owned_outputs = of_nat (length (ws_outputs s)), srr_spent_outputs = spent,
            srr_unspent_outputs = of_nat (length (ws_outputs s)) - spent,
            srr_coinbase_outputs = of_nat (length (filter rom_is_coinbase (ws_recovered_output_metadata s))),
            srr_legacy_outputs = ws_legacy_proof_only_outputs s, srr_balance = wallet_balance s,
            srr_accounts = account_balances outs, srr_floors = ws_recovery_allocation_floors s,
            srr_final_cursor_anchor = anchor,
            srr_warnings = OffChainMetadataNotRecoverableWithSeed #
              (if ws_legacy_proof_only_outputs s \<noteq> 0 then [LegacyBackupRequired] else [])\<rparr>)))))"

subsection \<open>Publishing\<close>

definition completed_state ::
  "'env storage_env \<Rightarrow> string \<Rightarrow> string \<Rightarrow> wallet_state \<Rightarrow> (('env, 'p) catalog, seed_restore_error, wallet_state) meth" where
  "completed_state env staging password s =
     (if ws_seed_restore_status s = Some Complete then lift_result (Inr s)
      else map_err (\<lambda>_. SR_Storage) (on_entry staging
        (so_commit (files_ops env) password (ws_generation s)
          (s\<lparr>ws_seed_restore_status := Some Complete, ws_sync_status := Synced\<rparr>))))"

definition publish ::
  "'env storage_env \<Rightarrow> ('hdr, 'cm) consensus_lib \<Rightarrow> ('w, 'seed) seed_restore_session \<Rightarrow>
     (('env, 'p) catalog, seed_restore_error, seed_restore_result) meth" where
  "publish env clib ss =
     (if \<not> ss_ready_to_publish ss then lift_result (Inl SR_Incomplete)
      else op_then (lift_result (ok_or (ss_state ss) SR_Storage)) (\<lambda>s.
        if ws_core_scan_cursor s = None then lift_result (Inl SR_Incomplete)
        else op_then (completed_state env (ss_staging ss) (rx_password (ss_context ss)) s) (\<lambda>s1.
          op_then (lift_result (result_from_state clib s1 (rx_identity (ss_context ss)))) (\<lambda>result fs.
            if fs (ss_destination ss) \<noteq> None then (Inl SR_InvalidDestination, fs)
            else op_then (map_err (\<lambda>_. SR_Storage) (io_write env IO_Rename (rename_entry (ss_staging ss) (ss_destination ss)))) (\<lambda>_.
              op_then (map_err (\<lambda>_. SR_Storage) (io_write env IO_SyncParent (\<lambda>fs. fs))) (\<lambda>_.
                lift_result (Inr result))) fs))))"

subsection \<open>The loop\<close>

partial_function (option) restore_loop ::
  "'env storage_env \<Rightarrow> ('hdr, 'cm) consensus_lib \<Rightarrow> 'seed recovery_lib \<Rightarrow> nat \<Rightarrow> nat \<Rightarrow>
     'w \<times> ('env, 'p) catalog \<times> ('w, 'seed) seed_restore_session \<Rightarrow>
     ((seed_restore_error + seed_restore_result) \<times> 'w \<times> ('env, 'p) catalog) option" where
  "restore_loop env clib rlib attempts busy x =
     (case advance_once env clib rlib x of
        (Inr SP_ReadyToPublish, (w, fs, ss)) \<Rightarrow>
          (case publish env clib ss fs of (r, fs1) \<Rightarrow> Some (r, (w, fs1)))
      | (Inr progress, y) \<Rightarrow> restore_loop env clib rlib attempts 0 y
      | (Inl SR_CoreBusy, (w, fs, ss)) \<Rightarrow>
          if busy < attempts then restore_loop env clib rlib attempts (Suc busy) (w, fs, ss)
          else Some (Inl SR_CoreBusy, (w, fs))
      | (Inl e, (w, fs, ss)) \<Rightarrow> Some (Inl e, (w, fs)))"

definition restore ::
  "'env storage_env \<Rightarrow> ('hdr, 'cm) consensus_lib \<Rightarrow> 'seed recovery_lib \<Rightarrow> (string \<Rightarrow> 'seed option) \<Rightarrow>
     'w seed_restore_service \<Rightarrow> uuid \<Rightarrow> uuid \<Rightarrow> string \<Rightarrow> string \<Rightarrow> string \<Rightarrow> 'w \<times> ('env, 'p) catalog \<Rightarrow>
     ((seed_restore_error + seed_restore_result) \<times> 'w \<times> ('env, 'p) catalog) option" where
  "restore env clib rlib parse service fresh_wallet_id fresh_account_id mnemonic password destination x =
     (case begin_restore env clib rlib parse service fresh_wallet_id fresh_account_id mnemonic password destination x of
        (Inl e, y) \<Rightarrow> Some (Inl e, y)
      | (Inr ss, (w, fs)) \<Rightarrow> restore_loop env clib rlib (sr_busy_retry_attempts service) 0 (w, fs, ss))"

subsection \<open>Stages found at startup\<close>

definition abort_restore_stage ::
  "'env storage_env \<Rightarrow> string \<Rightarrow> string \<Rightarrow> (('env, 'p) catalog, seed_restore_error, unit) meth" where
  "abort_restore_stage env destination password fs =
     op_then (lift_result (validate_restore_password password)) (\<lambda>_ fs.
       if fs destination \<noteq> None then (Inl SR_InvalidDestination, fs)
       else op_then (lift_result (staging_path destination)) (\<lambda>staging.
         op_then (map_err (\<lambda>_. SR_Storage) (\<lambda>fs. (open_directory env staging fs, fs))) (\<lambda>_.
         op_then (map_err checkpoint_load_failure (on_entry staging (on_directory (storage_load env password)))) (\<lambda>s.
         op_then (lift_result (ensure (ws_seed_restore_status s \<noteq> None) SR_IncompatibleCheckpoint)) (\<lambda>_.
         op_then (map_err (\<lambda>_. SR_Storage) (io_write env IO_RemoveStaging (\<lambda>fs. fs(staging := None)))) (\<lambda>_.
           map_err (\<lambda>_. SR_Storage) (io_write env IO_SyncParent (\<lambda>fs. fs))))))) fs) fs"

text \<open>The names in the parent directory are an argument.\<close>

definition stage_destination :: "string \<Rightarrow> string option" where
  "stage_destination name =
     (if take 1 name = ''.'' \<and> length ''.seed-restore'' \<le> length (drop 1 name)
       \<and> drop (length name - length ''.seed-restore'') name = ''.seed-restore''
      then Some (take (length name - 1 - length ''.seed-restore'') (drop 1 name)) else None)"

definition discover_restore_stages ::
  "'env storage_env \<Rightarrow> string list \<Rightarrow> ('env, 'p) catalog \<Rightarrow> string list" where
  "discover_restore_stages env names fs =
     sort (List.map_filter (\<lambda>name.
       case (stage_destination name, fs name) of
         (Some destination, Some f) \<Rightarrow> if is_ok (inspect_structure env f) then Some destination else None
       | _ \<Rightarrow> None) names)"

subsection \<open>Spending a restored output\<close>

record restored_spend_source =
  sp_commitment :: bytes
  sp_value :: u64
  sp_blinding :: bytes
  sp_block_height :: u64
  sp_is_coinbase :: bool

definition restored_spend_source_load :: "wallet_state \<Rightarrow> bytes \<Rightarrow> seed_restore_error + restored_spend_source" where
  "restored_spend_source_load s commitment =
     res_bind (ok_or (case find (\<lambda>out. or_commitment out = Some commitment) (ws_outputs s) of
         Some out \<Rightarrow> if or_state out = Confirmed then Some out else None | None \<Rightarrow> None) SR_MalformedRecovery) (\<lambda>out.
     res_bind (ok_or (find (\<lambda>m. rom_output_id m = or_id out) (ws_recovered_output_metadata s))
         SR_MalformedRecovery) (\<lambda>m.
     res_bind (ok_or (output_blinding s (or_id out)) SR_MalformedRecovery) (\<lambda>blinding.
       Inr \<lparr>sp_commitment = commitment, sp_value = or_value out, sp_blinding = blinding,
            sp_block_height = or_discovered_height out, sp_is_coinbase = rom_is_coinbase m\<rparr>)))"

subsection \<open>What a page leaves alone\<close>

text \<open>The wallet a state belongs to: its identifier, chain and root material.\<close>

definition wallet_core :: "wallet_state \<Rightarrow> uuid \<times> network_identity \<times> bytes" where
  "wallet_core s = (ws_wallet_id s, ws_identity s, ws_root_material s)"

lemma wallet_core_updates [simp]:
  "wallet_core (s\<lparr>ws_outputs := a\<rparr>) = wallet_core s"
  "wallet_core (s\<lparr>ws_recovered_output_metadata := b\<rparr>) = wallet_core s"
  "wallet_core (s\<lparr>ws_recovery_canonical_blocks := c\<rparr>) = wallet_core s"
  "wallet_core (s\<lparr>ws_generation := g\<rparr>) = wallet_core s"
  "wallet_core (s\<lparr>ws_transactions := ts\<rparr>) = wallet_core s"
  "wallet_core (s\<lparr>ws_core_scan_cursor := cur\<rparr>) = wallet_core s"
  "wallet_core (s\<lparr>ws_seed_restore_status := st\<rparr>) = wallet_core s"
  "wallet_core (s\<lparr>ws_sync_status := sy\<rparr>) = wallet_core s"
  "wallet_core (s\<lparr>ws_recovery_scanned_blocks := n\<rparr>) = wallet_core s"
  "wallet_core (s\<lparr>ws_recovery_scanned_outputs := m\<rparr>) = wallet_core s"
  "wallet_core (raise_floors r s) = wallet_core s"
  "wallet_core (rewound_base h s) = wallet_core s"
  by (simp_all add: wallet_core_def raise_floors_def rewound_base_def rewind_counters_def Let_def)

text \<open>A page changes neither that nor the transactions.\<close>

definition wallet_frame :: "wallet_state \<Rightarrow> (uuid \<times> network_identity \<times> bytes) \<times> local_transaction_intent list" where
  "wallet_frame s = (wallet_core s, ws_transactions s)"

lemma wallet_frame_updates [simp]:
  "wallet_frame (s\<lparr>ws_outputs := a\<rparr>) = wallet_frame s"
  "wallet_frame (s\<lparr>ws_recovered_output_metadata := b\<rparr>) = wallet_frame s"
  "wallet_frame (s\<lparr>ws_recovery_canonical_blocks := c\<rparr>) = wallet_frame s"
  "wallet_frame (s\<lparr>ws_recovery_scanned_blocks := n\<rparr>) = wallet_frame s"
  "wallet_frame (s\<lparr>ws_recovery_scanned_outputs := m\<rparr>) = wallet_frame s"
  "wallet_frame (raise_floors r s) = wallet_frame s"
  by (simp_all add: wallet_frame_def wallet_core_def raise_floors_def Let_def)

lemma wallet_frame_remember [simp]: "wallet_frame (remember_output_blinding oid b s) = wallet_frame s"
  using remember_as_update [of oid b s] by (auto simp: wallet_frame_def wallet_core_def)

lemma wallet_frame_restore_frame: "restore_frame s t \<Longrightarrow> wallet_frame t = wallet_frame s"
  by (auto simp: restore_frame_def wallet_frame_def wallet_core_def)

lemma merge_restored_output_frame:
  assumes "merge_restored_output rlib tip maturity restored pos s = Inr t"
  shows "wallet_frame t = wallet_frame s"
proof -
  have account: "wallet_frame s2 = wallet_frame s1" if "account_id_for rlib a s1 = Inr (i, s2)" for a s1 i s2
    using that by (auto simp: account_id_for_def wallet_frame_def wallet_core_def split: if_splits option.splits)
  show ?thesis using assms
    by (auto simp: merge_restored_output_def merge_existing_def merge_new_def Let_def res_simps
        split: option.splits if_splits dest!: account)
qed

lemma apply_block_frame: "apply_block b x = Inr y \<Longrightarrow> wallet_frame (snd y) = wallet_frame (snd x)"
proof -
  assume run: "apply_block b x = Inr y"
  obtain p s where x: "x = (p, s)" by (cases x)
  from run obtain s1 where s1: "record_block b s = Inr s1"
    and fold: "try_fold (spend_input (csb_height b)) (csb_inputs b) (p, s1) = Inr y"
    by (auto simp: apply_block_def x res_simps)
  have "wallet_frame s1 = wallet_frame s" using s1
    by (auto simp: record_block_def wallet_frame_def wallet_core_def res_simps Let_def split: if_splits option.splits)
  moreover have "wallet_frame (snd y) = wallet_frame s1"
    by (rule try_fold_invariant [where I = "\<lambda>z. wallet_frame (snd z) = wallet_frame s1", OF fold])
      (auto simp: spend_input_def Let_def split: if_splits option.splits)
  ultimately show ?thesis by (simp add: x)
qed

lemma apply_recovery_batch_frame:
  assumes "apply_recovery_batch rlib seed chain identity batch s = Inr t"
  shows "wallet_frame t = wallet_frame s"
proof -
  from assms obtain found s1 s2 s3 p s4 outs blocks where
    s1: "try_fold (merge_scanned rlib identity batch) found s = Inr s1"
    and s2: "try_fold (merge_legacy rlib seed identity batch) (bt_blocks batch) s1 = Inr s2"
    and s3: "migrate_durable_scan_counters s2 = Inr s3"
    and s4: "try_fold apply_block (bt_blocks batch) ({}, s3) = Inr (p, s4)"
    and t: "restore_frame (s4\<lparr>ws_recovery_canonical_blocks := blocks, ws_outputs := outs\<rparr>) t"
    by (rule apply_recovery_batchE)
  have "wallet_frame s1 = wallet_frame s"
    by (rule try_fold_invariant [where I = "\<lambda>u. wallet_frame u = wallet_frame s", OF s1])
      (auto simp: merge_scanned_def res_simps merge_restored_output_frame)
  moreover have "wallet_frame s2 = wallet_frame s1"
    by (rule try_fold_invariant [where I = "\<lambda>u. wallet_frame u = wallet_frame s1", OF s2])
      (auto simp: merge_legacy_def res_simps merge_restored_output_frame split: option.splits)
  moreover have "wallet_frame s3 = wallet_frame s2" using migrate_frame [OF s3] by auto
  moreover have "wallet_frame (snd (p, s4)) = wallet_frame s3"
    by (rule try_fold_invariant [where I = "\<lambda>z. wallet_frame (snd z) = wallet_frame s3", OF s4])
      (auto dest: apply_block_frame)
  ultimately show ?thesis using wallet_frame_restore_frame [OF t] by simp
qed

lemma apply_recovery_batch_core:
  "apply_recovery_batch rlib seed chain identity batch s = Inr t \<Longrightarrow> wallet_core t = wallet_core s"
  by (drule apply_recovery_batch_frame) (simp add: wallet_frame_def)

lemma wallet_core_restore_frame: "restore_frame s t \<Longrightarrow> wallet_core t = wallet_core s"
  by (drule wallet_frame_restore_frame) (simp add: wallet_frame_def)

lemma rewind_core: "rewind_recovery_state safe tip s = Inr t \<Longrightarrow> wallet_core t = wallet_core s"
  by (erule rewind_recovery_stateE) (drule wallet_core_restore_frame, simp)

lemma restored_page_core: "restored_page rlib ctx batch cursor reorg s = Inr t \<Longrightarrow> wallet_core t = wallet_core s"
  by (auto simp: restored_page_def res_simps Let_def apply_recovery_batch_core rewind_core split: option.splits)

subsection \<open>The state in memory is the state on disk\<close>

definition on_disk :: "'env storage_env \<Rightarrow> string \<Rightarrow> ('env, 'p) wallet_files \<Rightarrow> wallet_state \<Rightarrow> bool" where
  "on_disk env pw f s \<longleftrightarrow>
     (\<exists>d auth. directory_of f = Some d \<and> load_checked (quiet env) pw d = Inr (auth, s))"

lemma directory_of_store [simp]: "directory_of (store_directory d f) = Some d"
  by (simp add: directory_of_def store_directory_def)

lemma commit_on_disk:
  assumes law: "seal_opens env" and disk: "on_disk env pw f old"
    and run: "so_commit (files_ops env) pw g nxt f = (r, f')"
  shows "\<exists>s. on_disk env pw f' s \<and> (s = old \<or> (\<exists>g. s = nxt\<lparr>ws_generation := g\<rparr>)) \<and> (\<forall>s2. r = Inr s2 \<longrightarrow> s2 = s)"
proof -
  from disk obtain d auth where d: "directory_of f = Some d" "load_checked (quiet env) pw d = Inr (auth, old)"
    by (auto simp: on_disk_def)
  from run d(1) obtain d' where run': "commit_with_encoding env g nxt pw CompactV2 d = (r, d')"
    and f': "f' = store_directory d' f"
    by (auto simp: files_ops_def on_directory_def storage_commit_def split: prod.splits)
  from commit_old_or_new [OF law d(2) run'] show ?thesis
    by (auto simp: f' on_disk_def stage_admits_def)
qed

lemma quiet_fields [simp]:
  "se_open (quiet env) = se_open env" "se_fault (quiet env) = (\<lambda>_. NoFault)"
  "se_authenticate (quiet env) = se_authenticate env"
  by (simp_all add: quiet_def fun_eq_iff)

lemma load_generation_quiet:
  "load_generation env g pw m a d = Inr s \<Longrightarrow> load_generation (quiet env) g pw m a d = Inr s"
  by (cases "se_fault env IO_ReadState = NoFault") (simp_all only: load_generation_def quiet_fields, simp_all)

lemma load_checked_iff:
  "load_checked env pw d = Inr (auth, s) \<longleftrightarrow>
     io_read env IO_ReadMetadata = Inr () \<and> metadata_checked (wd_metadata d) = Inr (wd_metadata d) \<and>
     se_authenticate env pw (authentication_context (wm_wallet_id (wd_metadata d)) (wm_identity (wd_metadata d))) = Inr auth \<and>
     io_read env IO_ReadActive = Inr () \<and>
     (wd_active d = wm_active_generation (wd_metadata d) \<or> interrupted_publication d) \<and>
     load_generation env (wd_active d) pw (wd_metadata d) auth d = Inr s \<and>
     ws_generation s = wd_active d \<and> ws_wallet_id s = wm_wallet_id (wd_metadata d) \<and>
     ws_identity s = wm_identity (wd_metadata d) \<and> wallet_validate s = Inr ()"
  (is "?l \<longleftrightarrow> ?r")
proof
  show "?l \<Longrightarrow> ?r"
    unfolding load_checked_def location_metadata_def active_generation_def metadata_checked_def
    by (auto simp: res_bind_Inr_iff map_sum_id_Inr split: if_splits)
  show "?r \<Longrightarrow> ?l"
    by (auto simp: load_checked_def location_metadata_def active_generation_def)
qed

lemma load_generation_metadata:
  assumes "wm_wallet_id m' = wm_wallet_id m" and "wm_identity m' = wm_identity m"
    and "wd_generations d' = wd_generations d"
  shows "load_generation env g pw m' a d' = load_generation env g pw m a d"
  unfolding load_generation_def assms by (rule refl)

lemma load_checked_quiet:
  assumes "load_checked env pw d = Inr (auth, s)"
  shows "load_checked (quiet env) pw d = Inr (auth, s)"
  using assms load_generation_quiet by (auto simp: load_checked_iff io_read_def)

lemma load_checked_repaired:
  assumes "load_checked (quiet env) pw d = Inr (auth, s)"
  shows "load_checked (quiet env) pw (d\<lparr>wd_metadata := metadata_from_state s\<rparr>) = Inr (auth, s)"
proof -
  let ?m = "metadata_from_state s"
  have "wm_wallet_id ?m = ws_wallet_id s" "wm_identity ?m = ws_identity s" "wm_active_generation ?m = ws_generation s"
    "metadata_checked ?m = Inr ?m"
    by (simp_all add: metadata_from_state_def metadata_checked_def)
  moreover from this assms have "load_generation (quiet env) (wd_active d) pw ?m auth (d\<lparr>wd_metadata := ?m\<rparr>) = Inr s"
    using load_generation_metadata [of ?m "wd_metadata d" "d\<lparr>wd_metadata := ?m\<rparr>" d] by (simp add: load_checked_iff)
  ultimately show ?thesis using assms by (simp add: load_checked_iff)
qed

lemma load_on_disk:
  assumes disk: "on_disk env pw f s" and run: "so_load (files_ops env) pw f = (r, f')"
  shows "on_disk env pw f' s \<and> (\<forall>s2. r = Inr s2 \<longrightarrow> s2 = s)"
proof -
  from disk obtain d auth where d: "directory_of f = Some d" "load_checked (quiet env) pw d = Inr (auth, s)"
    by (auto simp: on_disk_def)
  from run d(1) obtain d' where run': "storage_load env pw d = (r, d')" and f': "f' = store_directory d' f"
    by (auto simp: files_ops_def on_directory_def split: prod.splits)
  have d': "d' = d \<or> interrupted_publication d \<and> d' = d\<lparr>wd_metadata := metadata_from_state s\<rparr>"
  proof (cases "load_checked env pw d")
    case (Inl e)
    then show ?thesis using run' by (simp add: storage_load_def)
  next
    case (Inr x)
    then obtain a where "load_checked env pw d = Inr (a, s)"
      using d(2) load_checked_quiet by (cases x) fastforce
    with run' show ?thesis
      by (auto simp: storage_load_def split: if_splits elim!: op_thenE io_writeE)
  qed
  moreover have "s2 = s" if "r = Inr s2" for s2
    using storage_load_checked [of env pw d s2 d'] run' that d(2) load_checked_quiet by fastforce
  ultimately show ?thesis using d load_checked_repaired [OF d(2)] by (auto simp: f' on_disk_def)
qed

text \<open>
  What the staging directory of a restore holds: a state of the wallet being restored, which is also
  the state in memory unless a failed reload dropped that; a state marked complete has a cursor and is
  synchronised.
\<close>

definition restoring_state :: "uuid \<times> network_identity \<times> bytes \<Rightarrow> wallet_state \<Rightarrow> bool" where
  "restoring_state K s \<longleftrightarrow> wallet_core s = K \<and>
     (ws_seed_restore_status s = Some Complete \<longrightarrow> ws_core_scan_cursor s \<noteq> None \<and> ws_sync_status s = Synced)"

definition stage_held ::
  "'env storage_env \<Rightarrow> string \<Rightarrow> uuid \<times> network_identity \<times> bytes \<Rightarrow> ('env, 'p) wallet_files \<Rightarrow> wallet_state option \<Rightarrow> bool" where
  "stage_held env pw K f memory \<longleftrightarrow> seal_opens env \<and>
     (\<exists>s. on_disk env pw f s \<and> restoring_state K s \<and> (memory = None \<or> memory = Some s))"

lemma restoring_generation [simp]: "restoring_state K (s\<lparr>ws_generation := g\<rparr>) = restoring_state K s"
  by (simp add: restoring_state_def)

lemma restored_page_restoring:
  assumes "restored_page rlib ctx batch cursor reorg s = Inr t" and "restoring_state K s"
  shows "restoring_state K t"
  using restored_page_core [OF assms(1)] assms
  by (auto simp: restoring_state_def restored_page_def res_simps Let_def)

lemma reload_held:
  assumes "reload_after (files_ops env) pw e sk = (r, sk')" and "seal_opens env"
    and "on_disk env pw (rs_directory sk) s" and "restoring_state K s"
  shows "stage_held env pw K (rs_directory sk') (rs_state sk')"
proof -
  obtain q d where run: "so_load (files_ops env) pw (rs_directory sk) = (q, d)" by fastforce
  then show ?thesis using load_on_disk [OF assms(3) run] assms
    by (cases q) (auto simp: reload_after_def stage_held_def)
qed

lemma restore_commit_held:
  assumes run: "restore_sink_commit (files_ops env) rlib ctx batch cursor reorg sk = (r, sk')"
    and held: "stage_held env (rx_password ctx) K (rs_directory sk) (rs_state sk)"
  shows "stage_held env (rx_password ctx) K (rs_directory sk') (rs_state sk')"
proof (cases "rs_state sk")
  case None
  then show ?thesis using run held by (simp add: restore_sink_commit_def)
next
  case (Some s)
  with held have law: "seal_opens env" and disk: "on_disk env (rx_password ctx) (rs_directory sk) s"
    and K: "restoring_state K s" by (auto simp: stage_held_def)
  show ?thesis
  proof (cases "restored_page rlib ctx batch cursor reorg s")
    case (Inl e)
    then show ?thesis using run Some reload_held [OF _ law disk K] by (simp add: restore_sink_commit_def)
  next
    case (Inr nxt)
    obtain q d where c: "so_commit (files_ops env) (rx_password ctx) (ws_generation s) nxt (rs_directory sk) = (q, d)"
      by fastforce
    from commit_on_disk [OF law disk c] obtain u where u: "on_disk env (rx_password ctx) d u"
      "u = s \<or> (\<exists>g. u = nxt\<lparr>ws_generation := g\<rparr>)" "\<forall>s2. q = Inr s2 \<longrightarrow> s2 = u" by blast
    from u(2) have "restoring_state K u" using K restored_page_restoring [OF Inr K] by auto
    then show ?thesis
      using run Some Inr c u reload_held [of env "rx_password ctx" _ "sk\<lparr>rs_directory := d\<rparr>" r sk' u K, OF _ law]
      by (cases q) (auto simp: restore_sink_commit_def stage_held_def law)
  qed
qed

interpretation stage: invariant_sink "restore_sink (files_ops env) clib rlib ctx"
  "\<lambda>sk. stage_held env (rx_password ctx) K (rs_directory sk) (rs_state sk)"
  "\<lambda>sk. stage_held env (rx_password ctx) K (rs_directory sk) (rs_state sk)"
  for env :: "'env storage_env" and clib :: "('hdr, 'cm) consensus_lib" and rlib :: "'seed recovery_lib"
    and ctx :: "'seed restore_context" and K
  by unfold_locales (auto simp: restore_sink_def dest: restore_commit_held)

subsection \<open>A step and the loop\<close>

lemma advance_once_held:
  assumes run: "advance_once env clib rlib (w, fs, ss) = (r, (w', fs', ss'))"
    and f: "fs (ss_staging ss) = Some f" "stage_held env (rx_password (ss_context ss)) K f (ss_state ss)"
  shows "\<exists>f'. fs' = fs(ss_staging ss \<mapsto> f') \<and> stage_held env (rx_password (ss_context ss)) K f' (ss_state ss') \<and>
    ss_context ss' = ss_context ss \<and> ss_staging ss' = ss_staging ss \<and> ss_destination ss' = ss_destination ss"
proof (cases "ss_ready_to_publish ss")
  case True
  then show ?thesis using run f by (intro exI [of _ f]) (auto simp: advance_once_def fun_upd_idem)
next
  case False
  let ?sink = "restore_sink (files_ops env) clib rlib (ss_context ss)"
  obtain q w1 sk where q: "reconcile_once clib (ss_adapter ss) ?sink
      (w, \<lparr>rs_directory = f, rs_state = ss_state ss, rs_last_error = None\<rparr>) = (q, (w1, sk))"
    using prod_cases3 by blast
  have "stage_held env (rx_password (ss_context ss)) K (rs_directory sk) (rs_state sk)"
    using endsD [OF stage.reconcile_once_ends q] f(2) by simp
  then show ?thesis using run False f(1) q by (cases q) (auto simp: advance_once_def)
qed

text \<open>A destination after a restore: nothing and an error, or a complete wallet that loads and is what is reported.\<close>

definition complete_restore ::
  "uuid \<times> network_identity \<times> bytes \<Rightarrow> wallet_state \<Rightarrow> bool" where
  "complete_restore K s \<longleftrightarrow> wallet_core s = K \<and> ws_seed_restore_status s = Some Complete \<and>
     ws_sync_status s = Synced \<and> ws_core_scan_cursor s \<noteq> None"

definition restore_published ::
  "'env storage_env \<Rightarrow> ('hdr, 'cm) consensus_lib \<Rightarrow> 'seed restore_context \<Rightarrow> uuid \<times> network_identity \<times> bytes \<Rightarrow>
     seed_restore_error + seed_restore_result \<Rightarrow> ('env, 'p) wallet_files option \<Rightarrow> bool" where
  "restore_published env clib ctx K r entry \<longleftrightarrow>
     entry = None \<and> (\<exists>e. r = Inl e) \<or>
     (\<exists>f s. entry = Some f \<and> on_disk env (rx_password ctx) f s \<and> complete_restore K s \<and>
        (\<forall>result. r = Inr result \<longrightarrow> result_from_state clib s (rx_identity ctx) = Inr result))"

lemma completed_state_held:
  assumes run: "completed_state env staging pw s fs = (q, fs1)" and f: "fs staging = Some f"
    and held: "stage_held env pw K f (Some s)" and cursor: "ws_core_scan_cursor s \<noteq> None"
  shows "\<exists>f1. fs1 = fs(staging \<mapsto> f1) \<and> (\<forall>s1. q = Inr s1 \<longrightarrow> on_disk env pw f1 s1 \<and> complete_restore K s1)"
proof (cases "ws_seed_restore_status s = Some Complete")
  case True
  then show ?thesis using run f held cursor
    by (intro exI [of _ f])
      (auto simp: completed_state_def lift_result_def stage_held_def restoring_state_def complete_restore_def fun_upd_idem)
next
  case False
  let ?done = "s\<lparr>ws_seed_restore_status := Some Complete, ws_sync_status := Synced\<rparr>"
  obtain p f1 where c: "so_commit (files_ops env) pw (ws_generation s) ?done f = (p, f1)" by fastforce
  with run False f have fs1: "fs1 = fs(staging \<mapsto> f1)" and q: "\<And>s1. q = Inr s1 \<Longrightarrow> p = Inr s1"
    by (auto simp: completed_state_def map_err_def on_entry_def map_sum_id_Inr split: sum.splits)
  from held have law: "seal_opens env" "on_disk env pw f s" "wallet_core s = K"
    by (auto simp: stage_held_def restoring_state_def)
  from commit_on_disk [OF law(1,2) c] obtain u where u: "on_disk env pw f1 u" "\<forall>s2. p = Inr s2 \<longrightarrow> s2 = u" by blast
  have "complete_restore K s1" if p: "p = Inr s1" for s1
  proof -
    obtain g where "s1 = ?done\<lparr>ws_generation := g\<rparr>" using files.commit_exact [OF c [unfolded p]] by blast
    then show ?thesis using law(3) cursor by (simp add: complete_restore_def)
  qed
  then show ?thesis using fs1 q u by blast
qed

lemma publish_published:
  assumes run: "publish env clib ss fs = (r, fs')" and f: "fs (ss_staging ss) = Some f"
    and held: "stage_held env (rx_password (ss_context ss)) K f (ss_state ss)"
    and names: "fs (ss_destination ss) = None" "ss_destination ss \<noteq> ss_staging ss"
  shows "restore_published env clib (ss_context ss) K r (fs' (ss_destination ss)) \<and>
    (\<forall>n. n \<notin> {ss_destination ss, ss_staging ss} \<longrightarrow> fs' n = fs n)"
proof (cases "ss_ready_to_publish ss \<and> (\<exists>s. ss_state ss = Some s \<and> ws_core_scan_cursor s \<noteq> None)")
  case False
  then have "fs' = fs \<and> (\<exists>e. r = Inl e)" using run
    by (auto simp: publish_def lift_result_def ok_or_def split: if_splits option.splits)
  then show ?thesis using names by (auto simp: restore_published_def)
next
  case True
  then obtain s where s: "ss_state ss = Some s" "ws_core_scan_cursor s \<noteq> None" by blast
  let ?dst = "ss_destination ss" and ?st = "ss_staging ss" and ?pw = "rx_password (ss_context ss)"
  from run True s have "op_then (completed_state env ?st ?pw s) (\<lambda>s1.
      op_then (lift_result (result_from_state clib s1 (rx_identity (ss_context ss)))) (\<lambda>result fs.
        if fs ?dst \<noteq> None then (Inl SR_InvalidDestination, fs)
        else op_then (map_err (\<lambda>_. SR_Storage) (io_write env IO_Rename (rename_entry ?st ?dst))) (\<lambda>_.
          op_then (map_err (\<lambda>_. SR_Storage) (io_write env IO_SyncParent (\<lambda>fs. fs))) (\<lambda>_.
            lift_result (Inr result))) fs)) fs = (r, fs')"
    by (simp add: publish_def ok_or_def)
  then show ?thesis
  proof (cases rule: op_thenE)
    case (1 e)
    then show ?thesis using completed_state_held [OF 1(1) f held [unfolded s(1)] s(2)] names
      by (auto simp: restore_published_def)
  next
    case (2 s1 fs1)
    then obtain f1 where f1: "fs1 = fs(?st \<mapsto> f1)" "on_disk env ?pw f1 s1" "complete_restore K s1"
      using completed_state_held [OF 2(1) f held [unfolded s(1)] s(2)] by blast
    show ?thesis
    proof (cases "result_from_state clib s1 (rx_identity (ss_context ss))")
      case (Inl e)
      then have "r = Inl e" "fs' = fs1" using 2(2) by simp_all
      then show ?thesis using f1(1) names by (simp add: restore_published_def)
    next
      case (Inr result)
      with 2(2) f1(1) names have "op_then (map_err (\<lambda>_. SR_Storage) (io_write env IO_Rename (rename_entry ?st ?dst))) (\<lambda>_.
          op_then (map_err (\<lambda>_. SR_Storage) (io_write env IO_SyncParent (\<lambda>fs. fs))) (\<lambda>_.
            lift_result (Inr result))) fs1 = (r, fs')"
        by simp
      then consider "fs' = fs1" "\<exists>e. r = Inl e" | "fs' = rename_entry ?st ?dst fs1" "(\<exists>e. r = Inl e) \<or> r = Inr result"
        by (elim op_thenE) (auto simp: map_err_def lift_result_def io_write_def split: sum.splits prod.splits fault.splits)
      then show ?thesis
        using f1 names Inr by cases (auto simp: restore_published_def rename_entry_def)
    qed
  qed
qed

definition session_held ::
  "'env storage_env \<Rightarrow> uuid \<times> network_identity \<times> bytes \<Rightarrow> 'seed restore_context \<Rightarrow> string \<Rightarrow> string \<Rightarrow> ('env, 'p) catalog \<Rightarrow>
     ('env, 'p) catalog \<times> ('w, 'seed) seed_restore_session \<Rightarrow> bool" where
  "session_held env K ctx staging destination base x \<longleftrightarrow> (case x of (fs, ss) \<Rightarrow>
     ss_context ss = ctx \<and> ss_staging ss = staging \<and> ss_destination ss = destination \<and>
     (\<exists>f. fs = base(staging \<mapsto> f) \<and> stage_held env (rx_password ctx) K f (ss_state ss)))"

lemma advance_session_held:
  assumes "advance_once env clib rlib x = (r, y)" and "session_held env K ctx staging destination base (snd x)"
  shows "session_held env K ctx staging destination base (snd y)"
proof -
  obtain w fs ss w' fs' ss' where xy: "x = (w, fs, ss)" "y = (w', fs', ss')" by (cases x, cases y)
  with assms(2) obtain f where f: "fs = base(staging \<mapsto> f)" "stage_held env (rx_password ctx) K f (ss_state ss)"
    and ss: "ss_context ss = ctx" "ss_staging ss = staging" "ss_destination ss = destination"
    by (auto simp: session_held_def)
  then show ?thesis using advance_once_held [of env clib rlib w fs ss r w' fs' ss' f K] assms(1)
    by (auto simp: xy session_held_def)
qed

lemma restore_loop_published:
  assumes "restore_loop env clib rlib attempts busy x = Some res"
    and "session_held env K ctx staging destination base (snd x)"
    and "base destination = None" and "destination \<noteq> staging"
  shows "restore_published env clib ctx K (fst res) (snd (snd res) destination) \<and>
    (\<forall>n. n \<notin> {destination, staging} \<longrightarrow> snd (snd res) n = base n)"
proof (rule restore_loop.raw_induct [of "\<lambda>env clib rlib attempts busy x res.
    session_held env K ctx staging destination base (snd x) \<longrightarrow>
    restore_published env clib ctx K (fst res) (snd (snd res) destination) \<and>
    (\<forall>n. n \<notin> {destination, staging} \<longrightarrow> snd (snd res) n = base n)"
    "(((((env, clib), rlib), attempts), busy), x)" res, unfolded prod.case, THEN mp, OF _ assms(1,2)], intro impI)
  fix loop env clib rlib attempts busy x res
  assume IH: "\<And>env clib rlib attempts busy x y. loop env clib rlib attempts busy x = Some y \<Longrightarrow>
      session_held env K ctx staging destination base (snd x) \<longrightarrow>
      restore_published env clib ctx K (fst y) (snd (snd y) destination) \<and>
      (\<forall>n. n \<notin> {destination, staging} \<longrightarrow> snd (snd y) n = base n)"
    and run: "(case advance_once env clib rlib x of
        (Inr SP_ReadyToPublish, (w, fs, ss)) \<Rightarrow>
          (case publish env clib ss fs of (r, fs1) \<Rightarrow> Some (r, (w, fs1)))
      | (Inr progress, y) \<Rightarrow> loop env clib rlib attempts 0 y
      | (Inl SR_CoreBusy, (w, fs, ss)) \<Rightarrow>
          if busy < attempts then loop env clib rlib attempts (Suc busy) (w, fs, ss)
          else Some (Inl SR_CoreBusy, (w, fs))
      | (Inl e, (w, fs, ss)) \<Rightarrow> Some (Inl e, (w, fs))) = Some res"
    and inv: "session_held env K ctx staging destination base (snd x)"
  let ?case = "restore_published env clib ctx K (fst res) (snd (snd res) destination) \<and>
      (\<forall>n. n \<notin> {destination, staging} \<longrightarrow> snd (snd res) n = base n)"
  obtain r w fs ss where adv: "advance_once env clib rlib x = (r, (w, fs, ss))" using prod_cases4 by blast
  have held: "session_held env K ctx staging destination base (fs, ss)"
    using advance_session_held [OF adv inv] by simp
  then obtain f where fs: "fs = base(staging \<mapsto> f)" "stage_held env (rx_password ctx) K f (ss_state ss)"
    and ss: "ss_context ss = ctx" "ss_staging ss = staging" "ss_destination ss = destination"
    by (auto simp: session_held_def)
  have failed: ?case if "snd (snd res) = fs" "\<exists>e. fst res = Inl e"
    using that fs(1) assms(3,4) by (auto simp: restore_published_def)
  show ?case
  proof (cases r)
    case (Inl e)
    show ?thesis
    proof (cases "e = SR_CoreBusy \<and> busy < attempts")
      case True
      then have "loop env clib rlib attempts (Suc busy) (w, fs, ss) = Some res" using run by (simp add: adv Inl)
      with IH [of env clib rlib attempts "Suc busy" "(w, fs, ss)" res] held show ?thesis by simp
    next
      case False
      then have "res = (Inl e, (w, fs))" using run by (cases e) (simp_all add: adv Inl)
      then show ?thesis using failed by simp
    qed
  next
    case (Inr progress)
    then consider "progress = SP_ReadyToPublish" | "loop env clib rlib attempts 0 (w, fs, ss) = Some res"
      using run by (cases progress) (simp_all add: adv Inr)
    then show ?thesis
    proof cases
      case 1
      obtain q fs1 where p: "publish env clib ss fs = (q, fs1)" by fastforce
      then have "res = (q, (w, fs1))" using run adv Inr 1 by simp
      then show ?thesis using publish_published [OF p, of f K] fs ss assms(3,4) by auto
    next
      case 2
      with IH [of env clib rlib attempts 0 "(w, fs, ss)" res] held show ?thesis by simp
    qed
  qed
qed

subsection \<open>The beginning of a restore\<close>

lemma resume_stage_held:
  assumes law: "seal_opens env" and run: "resume_stage env rlib identity seed pw staging fs = (r, fs1)"
  shows "n \<noteq> staging \<Longrightarrow> fs1 n = fs n"
    and "r = Inr (s, ready) \<Longrightarrow> \<exists>f wid. fs1 staging = Some f \<and>
       stage_held env pw (wid, domain_identity identity, rl_entropy rlib seed) f (Some s)"
proof -
  show "fs1 n = fs n" if "n \<noteq> staging"
    using run unfolding resume_stage_def
    by (elim op_thenE) (auto simp: map_err_def lift_result_def split: sum.splits prod.splits dest: on_entry_other [OF _ that])
  assume r: "r = Inr (s, ready)"
  with run obtain f0 f1 where f0: "so_load (files_ops env) pw f0 = (Inr s, f1)" and fs1: "fs1 staging = Some f1"
    and check: "validate_checkpoint rlib s seed identity = Inr ()"
    by (auto simp: resume_stage_def res_simps on_entry_Inr files_ops_def)
  from f0 obtain d d' where d: "directory_of f0 = Some d" "storage_load env pw d = (Inr s, d')"
    by (auto simp: files_ops_def on_directory_Inr)
  then have "on_disk env pw f0 s" using storage_load_checked load_checked_quiet by (fastforce simp: on_disk_def)
  with load_on_disk [OF this f0] have "on_disk env pw f1 s" by blast
  moreover have "restoring_state (ws_wallet_id s, domain_identity identity, rl_entropy rlib seed) s"
    using check by (auto simp: validate_checkpoint_def restoring_state_def wallet_core_def split: if_splits)
  ultimately show "\<exists>f wid. fs1 staging = Some f \<and>
       stage_held env pw (wid, domain_identity identity, rl_entropy rlib seed) f (Some s)"
    using fs1 law by (auto simp: stage_held_def)
qed

lemma offline_restore_state_fields [simp]:
  "wallet_core (offline_restore_state rlib wid aid seed identity) = (wid, identity, rl_entropy rlib seed)"
  "ws_seed_restore_status (offline_restore_state rlib wid aid seed identity) = Some InProgress"
  "ws_wallet_id (offline_restore_state rlib wid aid seed identity) = wid"
  "ws_identity (offline_restore_state rlib wid aid seed identity) = identity"
  by (simp_all add: offline_restore_state_def wallet_core_def wallet_new_def)

lemma start_stage_held:
  assumes law: "seal_opens env" and run: "start_stage env rlib wid aid identity seed pw staging fs = (r, fs1)"
    and auth: "se_authenticate env pw (authentication_context wid (domain_identity identity)) = Inr a"
    and fresh: "fs staging = None"
  shows "n \<noteq> staging \<Longrightarrow> n \<noteq> create_staging_path staging \<Longrightarrow> fs1 n = fs n"
    and "r = Inr (s, ready) \<Longrightarrow> \<exists>f. fs1 staging = Some f \<and>
       stage_held env pw (wid, domain_identity identity, rl_entropy rlib seed) f (Some s)"
proof -
  let ?s = "offline_restore_state rlib wid aid seed (domain_identity identity)"
  obtain q fs0 where c: "create env staging ?s pw fs = (q, fs0)" by fastforce
  have fs1: "fs1 = fs0" using run c unfolding start_stage_def Let_def
    by (elim op_thenE) (auto simp: map_err_def lift_result_def io_write_def split: sum.splits prod.splits fault.splits)
  note pub = create_published [OF c fresh]
  show "n \<noteq> staging \<Longrightarrow> n \<noteq> create_staging_path staging \<Longrightarrow> fs1 n = fs n" using pub(2) fs1 by simp
  assume "r = Inr (s, ready)"
  with run c obtain d where s: "s = ?s" and q: "q = Inr d"
    by (auto simp: start_stage_def Let_def res_simps)
  then obtain f where f: "fs0 staging = Some f" "holds_state env pw ?s f" "wallet_validate ?s = Inr ()"
    using pub(1,3) by (auto simp: entry_published_def)
  have "on_disk env pw f ?s"
    using holds_state_loads [OF law f(2,3), of a] auth by (auto simp: on_disk_def)
  then show "\<exists>f. fs1 staging = Some f \<and>
       stage_held env pw (wid, domain_identity identity, rl_entropy rlib seed) f (Some s)"
    using f(1) fs1 s law by (auto simp: stage_held_def restoring_state_def)
qed

lemma begin_restore_held:
  assumes law: "seal_opens env"
    and run: "begin_restore env clib rlib parse service wid aid mnemonic pw destination (w, fs) = (r, (w1, fs1))"
    and auth: "se_authenticate env pw (authentication_context wid (domain_identity (sr_expected_identity service))) = Inr a"
    and staging: "staging = ''.'' @ destination @ ''.seed-restore''"
  shows "n \<notin> {staging, create_staging_path staging} \<Longrightarrow> fs1 n = fs n"
    and "fs destination \<noteq> None \<Longrightarrow> fs1 = fs \<and> (\<exists>e. r = Inl e)"
    and "r = Inr ss \<Longrightarrow> rx_password (ss_context ss) = pw \<and>
      rx_identity (ss_context ss) = sr_expected_identity service \<and>
      (\<exists>seed wid. parse mnemonic = Some seed \<and>
        session_held env (wid, domain_identity (sr_expected_identity service), rl_entropy rlib seed)
          (ss_context ss) staging destination fs1 (fs1, ss))"
proof -
  let ?id = "sr_expected_identity service"
  from run consider (early) "fs1 = fs" "\<exists>e. r = Inl e"
    | (stage) seed adapter q where "parse mnemonic = Some seed" "fs destination = None"
      "(if fs staging \<noteq> None then resume_stage env rlib ?id seed pw staging
        else start_stage env rlib wid aid ?id seed pw staging) fs = (q, fs1)"
      "(case q of Inl e \<Rightarrow> r = Inl e
        | Inr (s, ready) \<Rightarrow> r = Inr \<lparr>ss_adapter = adapter,
              ss_context = \<lparr>rx_seed = seed,
                rx_chain = \<lparr>rcc_network_magic = cci_network_magic ?id, rcc_chain_id = cci_chain_id ?id\<rparr>,
                rx_identity = ?id, rx_password = pw\<rparr>,
              ss_state = Some s, ss_destination = destination, ss_staging = staging,
              ss_ready_to_publish = ready\<rparr>)"
    unfolding begin_restore_def
    apply (elim op_thenE)
    apply (auto simp: res_simps staging staging_path_def lift_result_def op_then_def on_fst_def on_snd_def ok_or_def
        split: prod.splits sum.splits if_splits option.splits)
    done
  note cases = this
  show "fs1 n = fs n" if "n \<notin> {staging, create_staging_path staging}"
    using cases
  proof cases
    case (stage seed adapter q)
    then show ?thesis using that resume_stage_held(1) [OF law] start_stage_held(1) [OF law _ auth]
      by (cases "fs staging = None") auto
  qed simp
  show "fs destination \<noteq> None \<Longrightarrow> fs1 = fs \<and> (\<exists>e. r = Inl e)" using cases by cases auto
  show "rx_password (ss_context ss) = pw \<and> rx_identity (ss_context ss) = ?id \<and>
      (\<exists>seed wid. parse mnemonic = Some seed \<and>
        session_held env (wid, domain_identity ?id, rl_entropy rlib seed)
          (ss_context ss) staging destination fs1 (fs1, ss))" if "r = Inr ss"
    using cases
  proof cases
    case (stage seed adapter q)
    with that obtain s ready where q: "q = Inr (s, ready)" by (cases q) auto
    have "\<exists>wid f. fs1 staging = Some f \<and> stage_held env pw (wid, domain_identity ?id, rl_entropy rlib seed) f (Some s)"
    proof (cases "fs staging = None")
      case True
      then show ?thesis using start_stage_held(2) [OF law _ auth, of rlib aid seed staging fs q fs1 s ready] stage(3) q by auto
    next
      case False
      then show ?thesis using resume_stage_held(2) [OF law, of rlib ?id seed pw staging fs q fs1 s ready] stage(3) q by auto
    qed
    then have "\<exists>wid f. fs1 = fs1(staging \<mapsto> f) \<and> stage_held env pw (wid, domain_identity ?id, rl_entropy rlib seed) f (Some s)"
      using fun_upd_triv by metis
    then show ?thesis using stage q that by (auto simp: session_held_def)
  qed (use that in simp)
qed

subsection \<open>Properties\<close>


text \<open>A stage whose scan is complete, left behind by an interrupted restore.\<close>

definition restore_service :: "unit seed_restore_service" where
  "restore_service = \<lparr>sr_api = sample_scan_api, sr_expected_identity = sample_chain_identity, sr_batch_blocks = 2,
     sr_reorg_depth = 8, sr_busy_retry_attempts = 12\<rparr>"

definition scanned_state :: wallet_state where
  "scanned_state = (offline_restore_state sample_recovery 1 2 () (domain_identity sample_chain_identity))
     \<lparr>ws_seed_restore_status := Some Complete, ws_sync_status := Synced,
      ws_core_scan_cursor := Some (sample_cursor_bytes (chain_cursor sample_consensus sample_chain_identity sample_chain 3))\<rparr>"

definition scanned_stage :: "(wallet_state, rescan_plan) wallet_files" where
  "scanned_stage = empty_files\<lparr>wf_metadata := Some (metadata_from_state scanned_state), wf_active := Some 0,
     wf_generations_dir := True, wf_generations := [0 \<mapsto> (CompactV2, scanned_state)], wf_authenticator := True\<rparr>"


definition tip_cursor :: wallet_scan_cursor where
  "tip_cursor = \<lparr>wc_version = 1, wc_network_magic = 77, wc_chain_id = replicate 32 8, wc_next_height = 3,
     wc_anchor_height = 2, wc_anchor_hash = sample_block_hash 2\<rparr>"

lemma tip_cursor: "chain_cursor sample_consensus sample_chain_identity sample_chain 3 = tip_cursor"
  by (simp add: chain_cursor_def sample_consensus_def sample_chain_identity_def sample_chain_def sample_raw_block_def tip_cursor_def)

lemma tip_cursor_bytes: "length (sample_cursor_bytes tip_cursor) = 86"
  "sample_cursor_of (sample_cursor_bytes tip_cursor) = tip_cursor"
  using sample_cursor_inverse [of tip_cursor]
  by (simp_all add: tip_cursor_def sample_cursor_bytes_def u16_le_bytes_def u32_le_bytes_def u64_le_bytes_def sample_block_hash_def)

lemma scanned_valid: "wallet_validate scanned_state = Inr ()"
  using tip_cursor_bytes tip_cursor
  by (simp add: scanned_state_def offline_restore_state_def wallet_new_def validate_defs mining_default_def domain_identity_def
    default_node_configuration_def sample_chain_identity_def sample_recovery_def zeros_def ensure_def)

lemma sample_connect: "adapter_connect sample_consensus sample_scan_api (Some sample_chain_identity) 2 8 () = (Inr sample_adapter, ())"
  by (simp add: adapter_connect_def sample_adapter_def sample_scan_api_def lift_result_def map_identity_def sample_consensus_def sample_chain_identity_def
    validate_same_chain_def validate_scan_limit_def MAX_CORE_SCAN_BATCH_BLOCKS_def sample_block_hash_def zeros_def op_then_def map_err_def Let_def)

lemma scanned_fields [simp]:
  "ws_generation scanned_state = 0" "ws_core_scan_cursor scanned_state = Some (sample_cursor_bytes tip_cursor)"
  "ws_seed_restore_status scanned_state = Some Complete" "ws_outputs scanned_state = []"
  by (simp_all add: scanned_state_def offline_restore_state_def wallet_new_def tip_cursor)

lemma scanned_checkpoint: "validate_checkpoint sample_recovery scanned_state () sample_chain_identity = Inr ()"
  by (simp add: validate_checkpoint_def scanned_state_def offline_restore_state_def wallet_new_def)

lemma scanned_load: "storage_load (sample_store NoFault) pw \<lparr>wd_metadata = metadata_from_state scanned_state, wd_active = 0,
     wd_generations = [0 \<mapsto> (CompactV2, scanned_state)], wd_snapshot = None\<rparr> =
   (Inr scanned_state, \<lparr>wd_metadata = metadata_from_state scanned_state, wd_active = 0,
     wd_generations = [0 \<mapsto> (CompactV2, scanned_state)], wd_snapshot = None\<rparr>)"
  using scanned_valid validated_migration [OF scanned_valid]
  by (simp add: storage_load_def load_checked_def location_metadata_def io_read_def sample_store_def
        metadata_checked_def metadata_from_state_def active_generation_def
        interrupted_publication_def load_generation_def checked_add_def op_then_def)


lemma scanned_result: "\<exists>result. result_from_state sample_consensus scanned_state sample_chain_identity = Inr result"
proof -
  have "core_cursor_parse sample_consensus (sample_cursor_bytes tip_cursor) sample_chain_identity = Inr (sample_cursor_bytes tip_cursor)"
    using tip_cursor_bytes
    by (simp add: core_cursor_parse_def validate_cursor_identity_def sample_consensus_def) (simp add: tip_cursor_def sample_chain_identity_def sample_block_hash_def zeros_def)
  moreover obtain anchor where "cursor_anchor sample_consensus (sample_cursor_bytes tip_cursor) = Inr anchor"
    by (simp add: cursor_anchor_def core_cursor_decode_def sample_consensus_def)
  moreover have "output_accounts scanned_state = Inr []" "ws_recovery_canonical_blocks scanned_state = []"
    by (simp_all add: output_accounts_def) (simp_all add: scanned_state_def offline_restore_state_def wallet_new_def)
  ultimately show ?thesis
    by (auto simp: result_from_state_def is_ok_iff durable_scan_totals_def sum_counts_def Let_def)
qed

lemma sample_no_fault [simp]: "se_fault (sample_store NoFault) step = NoFault"
  by (simp add: sample_store_def)

lemma scanned_publish:
  "\<exists>result fs'. restore (sample_store NoFault) sample_consensus sample_recovery (\<lambda>_. Some ()) restore_service 1 2
     ''phrase'' ''password'' ''w'' ((), [''.w.seed-restore'' \<mapsto> scanned_stage]) = Some (Inr result, ((), fs'))"
proof -
  let ?env = "sample_store NoFault" and ?fs = "[''.w.seed-restore'' \<mapsto> scanned_stage]"
  let ?d = "\<lparr>wd_metadata = metadata_from_state scanned_state, wd_active = 0,
     wd_generations = [0 \<mapsto> (CompactV2, scanned_state)], wd_snapshot = None\<rparr>"
  have dir: "directory_of scanned_stage = Some ?d" "store_directory ?d scanned_stage = scanned_stage"
    by (simp_all add: scanned_stage_def directory_of_def store_directory_def empty_files_def)
  have opens: "open_directory ?env ''.w.seed-restore'' ?fs = Inr ?d"
    using dir by (simp add: open_directory_def inspect_structure_def io_read_def acquire_writer_lock_def
        scanned_stage_def metadata_checked_def metadata_from_state_def)
  have resume: "resume_stage ?env sample_recovery sample_chain_identity () ''password'' ''.w.seed-restore'' ?fs =
      (Inr (scanned_state, True), ?fs)"
    using opens scanned_load [of "''password''"] dir scanned_checkpoint
    by (simp add: resume_stage_def op_then_def map_err_def on_entry_def on_directory_def lift_result_def fun_upd_idem)
  obtain ss where begin_: "begin_restore ?env sample_consensus sample_recovery (\<lambda>_. Some ()) restore_service 1 2
      ''phrase'' ''password'' ''w'' ((), ?fs) = (Inr ss, ((), ?fs))" "ss_ready_to_publish ss" "ss_state ss = Some scanned_state"
    "ss_staging ss = ''.w.seed-restore''" "ss_destination ss = ''w''" "rx_identity (ss_context ss) = sample_chain_identity"
    using resume sample_connect
    by (simp add: begin_restore_def validate_restore_password_def staging_path_def restore_service_def op_then_def map_err_def
        lift_result_def on_fst_def on_snd_def)
  obtain result where result: "result_from_state sample_consensus scanned_state sample_chain_identity = Inr result"
    using scanned_result by blast
  have "\<exists>fs'. publish ?env sample_consensus ss ?fs = (Inr result, fs')"
    using begin_ result
    by (simp add: publish_def completed_state_def io_write_def op_then_def map_err_def lift_result_def)
  then show ?thesis using begin_
    by (auto simp: restore_def restore_loop.simps advance_once_def)
qed


end
