(* ===== verification/Wallet_Sync.thy ===== *)
theory Wallet_Sync
  imports Seed_Restore Core_Tx
begin

text \<open>
  Synchronising an unlocked wallet with the canonical chain (\<open>dom-wallet-core\<close>): the sink that commits
  each scanned page with its cursor, block evidence and expired reservations as one generation, the
  synchronisation pass of the service around it, and the rescan from genesis. The state of a pass is
  the node's world, the service and the part of the service that other operations do not use: its
  application state, the last synchronisation error, the observed tip and the backend's chain adapter.
  The kind of an I/O error, which decides whether it is worth a retry, and the seed of an entropy
  (\<open>from_entropy\<close> of \<open>Wallet_Seed\<close>) are arguments; log messages are left out.
\<close>

subsection \<open>Storage failures\<close>

datatype io_kind = IK_Interrupted | IK_TimedOut | IK_WouldBlock | IK_Other string

fun kind_name :: "io_kind \<Rightarrow> string" where
  "kind_name IK_Interrupted = ''Interrupted''"
| "kind_name IK_TimedOut = ''TimedOut''"
| "kind_name IK_WouldBlock = ''WouldBlock''"
| "kind_name (IK_Other name) = name"

datatype storage_failure =
    SF_LimitExceeded | SF_Transient | SF_Io io_kind | SF_Domain domain_error | SF_Other

fun classify_failure :: "io_kind \<Rightarrow> storage_error \<Rightarrow> storage_failure" where
  "classify_failure kind SE_StateTooLarge = SF_LimitExceeded"
| "classify_failure kind (SE_ExpectedGenerationConflict current) = SF_Transient"
| "classify_failure kind SE_WriterActive = SF_Transient"
| "classify_failure kind SE_Io =
     (if kind \<in> {IK_Interrupted, IK_TimedOut, IK_WouldBlock} then SF_Transient else SF_Io kind)"
| "classify_failure kind (SE_Domain e) = SF_Domain e"
| "classify_failure kind e = SF_Other"

definition WALLET_STATE_STORAGE_LIMIT_EXCEEDED :: string where
  "WALLET_STATE_STORAGE_LIMIT_EXCEEDED = ''WALLET_STATE_STORAGE_LIMIT_EXCEEDED''"

definition WALLET_STORAGE_IO_FAILED :: string where
  "WALLET_STORAGE_IO_FAILED = ''WALLET_STORAGE_IO_FAILED''"

fun terminal_error :: "storage_failure \<Rightarrow> (string \<times> core_error) option" where
  "terminal_error SF_Transient = None"
| "terminal_error SF_LimitExceeded = Some (WALLET_STATE_STORAGE_LIMIT_EXCEEDED, KE_Storage SE_StateTooLarge)"
| "terminal_error (SF_Io kind) = Some (WALLET_STORAGE_IO_FAILED @ '':'' @ kind_name kind, KE_Storage SE_Io)"
| "terminal_error (SF_Domain e) = Some (''WALLET_STATE_VALIDATION_FAILED'', KE_Storage (SE_Domain e))"
| "terminal_error SF_Other = Some (''WALLET_STORAGE_FAILED'', KE_Storage SE_CanonicalEncoding)"

subsection \<open>The sink\<close>

record 'd wallet_sink_state =
  wk_directory :: 'd
  wk_state :: wallet_state
  wk_observed_tip_height :: "u64 option"
  wk_last_recovery_error :: "seed_restore_error option"
  wk_last_generation_conflict :: "u64 option"
  wk_last_storage_failure :: "storage_failure option"

text \<open>What a sink needs of its environment: \<open>restore_context\<close> of the restore sink, and the I/O kind.\<close>

type_synonym sink_error = "scan_commit_stage \<times> core_error"

fun apply_block_kernels :: "core_scan_block list \<Rightarrow> unit wallet_op" where
  "apply_block_kernels [] = lift_result (Inr ())"
| "apply_block_kernels (b # bs) =
     op_then (apply_kernel_evidence (csb_height b) (csb_block_hash b)
       (sort (remdups (map csk_excess (csb_kernels b))))) (\<lambda>_. apply_block_kernels bs)"

definition complete_restore_at ::
  "('hdr, 'cm) consensus_lib \<Rightarrow> core_scan_batch \<Rightarrow> bytes \<Rightarrow> wallet_state \<Rightarrow> sink_error + wallet_state" where
  "complete_restore_at clib batch cursor s =
     (if ws_seed_restore_status s = Some InProgress
      then res_bind (map_sum (\<lambda>_. (ST_CursorEncode, KE_InvalidCoreCursor)) id (core_cursor_decode clib cursor)) (\<lambda>c.
        Inr (if cbr_height (bt_observed_tip batch) \<le> wc_anchor_height c
             then s\<lparr>ws_seed_restore_status := Some Complete, ws_sync_status := Synced\<rparr> else s))
      else Inr s)"

definition settle_page ::
  "('hdr, 'cm) consensus_lib \<Rightarrow> core_scan_batch \<Rightarrow> bytes \<Rightarrow> wallet_state \<Rightarrow> sink_error + wallet_state" where
  "settle_page clib batch cursor s =
     (case apply_block_kernels (bt_blocks batch) s of
        (Inl e, _) \<Rightarrow> Inl (ST_KernelEvidence, KE_Domain e)
      | (Inr _, s1) \<Rightarrow>
          (case cancel_expired_unfinalized_reservations (cbr_height (bt_observed_tip batch)) s1 of
             (Inl e, _) \<Rightarrow> Inl (ST_ExpiryCleanup, KE_Domain e)
           | (Inr cancelled, s2) \<Rightarrow>
               if \<exists>tid \<in> set cancelled. find (\<lambda>t. tx_id t = tid) (ws_transactions s2) = None
               then Inl (ST_ExpiryCleanup, KE_TransactionNotFound)
               else complete_restore_at clib batch cursor (s2\<lparr>ws_core_scan_cursor := Some cursor\<rparr>)))"

definition rewound_for ::
  "core_block_reference option \<Rightarrow> core_scan_batch \<Rightarrow> wallet_state \<Rightarrow> seed_restore_error + wallet_state" where
  "rewound_for reorg batch s =
     (case reorg of
        None \<Rightarrow> Inr s
      | Some anchor \<Rightarrow> rewind_recovery_state (cbr_height anchor) (cbr_height (bt_observed_tip batch)) s)"

definition wallet_sink_store ::
  "io_kind \<Rightarrow> 'd store_ops \<Rightarrow> string \<Rightarrow> core_scan_batch \<Rightarrow> wallet_state \<Rightarrow> ('d wallet_sink_state, sink_error, unit) meth" where
  "wallet_sink_store kind ops password batch next sk =
     (case so_commit ops password (ws_generation (wk_state sk)) next (wk_directory sk) of
        (Inl e, d) \<Rightarrow> (Inl (ST_StorageCommit, KE_Storage e),
          sk\<lparr>wk_directory := d, wk_last_storage_failure := Some (classify_failure kind e)\<rparr>)
      | (Inr committed, d) \<Rightarrow> (Inr (),
          sk\<lparr>wk_directory := d, wk_state := committed, wk_last_storage_failure := None,
             wk_last_generation_conflict := None,
             wk_observed_tip_height := Some (cbr_height (bt_observed_tip batch))\<rparr>))"

definition wallet_sink_commit ::
  "io_kind \<Rightarrow> 'd store_ops \<Rightarrow> ('hdr, 'cm) consensus_lib \<Rightarrow> 'seed recovery_lib \<Rightarrow> 'seed restore_context \<Rightarrow>
     core_scan_batch \<Rightarrow> bytes \<Rightarrow> core_block_reference option \<Rightarrow> ('d wallet_sink_state, sink_error, unit) meth" where
  "wallet_sink_commit kind ops clib rlib ctx batch cursor reorg sk =
     (case rewound_for reorg batch (wk_state sk) of
        Inl e \<Rightarrow> (Inl (ST_Rewind, KE_Restore), sk)
      | Inr s1 \<Rightarrow>
          (case apply_recovery_batch rlib (rx_seed ctx) (rx_chain ctx) (rx_identity ctx) batch s1 of
             Inl e \<Rightarrow> (Inl (ST_RecoveryBatch, KE_Restore), sk\<lparr>wk_last_recovery_error := Some e\<rparr>)
           | Inr s2 \<Rightarrow>
               (case settle_page clib batch cursor s2 of
                  Inl e \<Rightarrow> (Inl e, sk)
                | Inr next \<Rightarrow> wallet_sink_store kind ops (rx_password ctx) batch next sk)))"

definition wallet_sink_recover ::
  "'d store_ops \<Rightarrow> string \<Rightarrow> sink_error \<Rightarrow> ('d wallet_sink_state, sink_error, bool) meth" where
  "wallet_sink_recover ops password error sk =
     (case snd error of
        KE_Storage (SE_ExpectedGenerationConflict current) \<Rightarrow>
          (case so_load ops password (wk_directory sk) of
             (Inl e, d) \<Rightarrow> (Inl (ST_StorageCommit, KE_Storage e),
               sk\<lparr>wk_directory := d, wk_last_generation_conflict := None\<rparr>)
           | (Inr s, d) \<Rightarrow> (Inr True,
               sk\<lparr>wk_directory := d, wk_state := s, wk_last_generation_conflict := Some current\<rparr>))
      | _ \<Rightarrow> (Inr False, sk\<lparr>wk_last_generation_conflict := None\<rparr>))"

definition wallet_sink ::
  "io_kind \<Rightarrow> 'd store_ops \<Rightarrow> ('hdr, 'cm) consensus_lib \<Rightarrow> 'seed recovery_lib \<Rightarrow> 'seed restore_context \<Rightarrow>
     ('d wallet_sink_state, sink_error) scan_sink" where
  "wallet_sink kind ops clib rlib ctx =
     \<lparr>sk_core_cursor_state = (\<lambda>sk.
        case ws_core_scan_cursor (wk_state sk) of
          None \<Rightarrow> Inr PC_Absent
        | Some bs \<Rightarrow> map_sum (\<lambda>_. (ST_CursorEncode, KE_InvalidCoreCursor)) PC_Valid
            (core_cursor_parse clib bs (rx_identity ctx))),
      sk_committed_canonical_hash = (\<lambda>height sk. Inr (map_option rcb_block_hash
        (find (\<lambda>block. rcb_height block = height) (ws_recovery_canonical_blocks (wk_state sk))))),
      sk_commit_core_batch = (\<lambda>batch cursor. wallet_sink_commit kind ops clib rlib ctx batch cursor None),
      sk_commit_core_reorg = (\<lambda>anchor batch cursor.
        wallet_sink_commit kind ops clib rlib ctx batch cursor (Some anchor)),
      sk_persistence_stage = fst,
      sk_recover_generation_conflict = wallet_sink_recover ops (rx_password ctx)\<rparr>"

subsection \<open>The service around it\<close>

datatype application_state =
    AS_Closed | AS_Locked | AS_Unlocking | AS_Unlocked | AS_Synchronizing | AS_Degraded string | AS_Error string

fun application_state_name :: "application_state \<Rightarrow> string" where
  "application_state_name AS_Closed = ''CLOSED''"
| "application_state_name AS_Locked = ''LOCKED''"
| "application_state_name AS_Unlocking = ''UNLOCKING''"
| "application_state_name AS_Unlocked = ''READY''"
| "application_state_name AS_Synchronizing = ''SYNCHRONIZING''"
| "application_state_name (AS_Degraded reason) = ''DEGRADED''"
| "application_state_name (AS_Error reason) = ''ERROR''"

fun stage_display :: "scan_commit_stage \<Rightarrow> string" where
  "stage_display ST_Rewind = ''REWIND''"
| "stage_display ST_RecoveryBatch = ''RECOVERY_BATCH''"
| "stage_display ST_KernelEvidence = ''KERNEL_EVIDENCE''"
| "stage_display ST_ExpiryCleanup = ''EXPIRY_CLEANUP''"
| "stage_display ST_CursorEncode = ''CURSOR_ENCODE''"
| "stage_display ST_StorageCommit = ''STORAGE_COMMIT''"

fun scan_error_display :: "core_scan_error \<Rightarrow> string" where
  "scan_error_display (CS_InvalidIdentity code) = ''invalid Core chain identity ('' @ code @ '')''"
| "scan_error_display (CS_IdentityMismatch code) = ''Core chain identity mismatch ('' @ code @ '')''"
| "scan_error_display (CS_InvalidCursor code) = ''invalid Core cursor ('' @ code @ '')''"
| "scan_error_display CS_CursorIdentityMismatch = ''Core cursor identity mismatch''"
| "scan_error_display CS_ReorgDetected = ''Core cursor was invalidated by a reorganization''"
| "scan_error_display (CS_InvalidScan code) = ''invalid canonical scan page ('' @ code @ '')''"
| "scan_error_display CS_InvalidScanLimit = ''invalid scan limit''"
| "scan_error_display CS_ReorgBeyondBound = ''reorganization exceeds the configured reconciliation bound''"
| "scan_error_display CS_CoreNotReady = ''Core is not ready''"
| "scan_error_display (CS_CoreContract code) = ''Core scan contract failed ('' @ code @ '')''"
| "scan_error_display (CS_Persistence stage) = stage_display stage"

record 'w service_shell =
  sh_state :: application_state
  sh_synchronization_error :: "string option"
  sh_observed_tip_height :: "u64 option"
  sh_backend :: "'w core_chain_adapter option"

record wallet_summary =
  sum_wallet_id :: uuid
  sum_network :: network
  sum_generation :: u64
  sum_cursor_height :: "u64 option"
  sum_tip_height :: "u64 option"
  sum_seed_restore_status :: "string option"
  sum_balance :: balance_projection
  sum_state :: string
  sum_experimental :: bool
  sum_unaudited :: bool

fun seed_restore_status_name :: "seed_restore_status \<Rightarrow> string" where
  "seed_restore_status_name InProgress = ''in_progress''"
| "seed_restore_status_name Complete = ''complete''"

definition summary_from_state ::
  "('hdr, 'cm) consensus_lib \<Rightarrow> wallet_state \<Rightarrow> string \<Rightarrow> u64 option \<Rightarrow> wallet_summary" where
  "summary_from_state clib s application_state observed_tip_height =
     \<lparr>sum_wallet_id = ws_wallet_id s, sum_network = ni_network (ws_identity s), sum_generation = ws_generation s,
      sum_cursor_height = (case ws_core_scan_cursor s of
          None \<Rightarrow> None
        | Some bs \<Rightarrow> (case cl_cursor_from_bytes clib bs of Inl _ \<Rightarrow> None | Inr c \<Rightarrow> Some (wc_anchor_height c))),
      sum_tip_height = observed_tip_height,
      sum_seed_restore_status = map_option seed_restore_status_name (ws_seed_restore_status s),
      sum_balance = wallet_balance s, sum_state = application_state, sum_experimental = True, sum_unaudited = True\<rparr>"

type_synonym ('w, 'd) sync_state = "'w \<times> 'd wallet_service \<times> 'w service_shell"

definition service_summary ::
  "('hdr, 'cm) consensus_lib \<Rightarrow> 'd wallet_service \<Rightarrow> 'w service_shell \<Rightarrow> core_error + wallet_summary" where
  "service_summary clib sv sh =
     res_bind (ok_or (sv_unlocked sv) KE_Locked) (\<lambda>s.
       Inr (summary_from_state clib s (application_state_name (sh_state sh)) (sh_observed_tip_height sh)))"

definition backend_error :: "core_scan_error \<Rightarrow> core_error" where
  "backend_error e = KE_Backend (e = CS_CoreNotReady)"

definition finish_sync_failure :: "core_scan_error \<Rightarrow> 'w service_shell \<Rightarrow> 'w service_shell" where
  "finish_sync_failure e sh =
     (if e = CS_CoreNotReady then sh\<lparr>sh_state := AS_Unlocked\<rparr>
      else sh\<lparr>sh_synchronization_error := Some (''CURSOR_SYNCHRONIZATION_FAILED:'' @ scan_error_display e),
              sh_state := AS_Unlocked\<rparr>)"

definition sync_failure ::
  "core_scan_error \<Rightarrow> 'd wallet_sink_state \<Rightarrow> 'w service_shell \<Rightarrow> core_error \<times> 'w service_shell" where
  "sync_failure e sk sh =
     (case Option.bind (wk_last_storage_failure sk) terminal_error of
        Some (code, error) \<Rightarrow>
          (error, sh\<lparr>sh_synchronization_error := Some code, sh_state := AS_Unlocked\<rparr>)
      | None \<Rightarrow>
          (case wk_last_generation_conflict sk of
             Some current \<Rightarrow> KE_Storage (SE_ExpectedGenerationConflict current)
           | None \<Rightarrow> (case wk_last_recovery_error sk of Some _ \<Rightarrow> KE_Restore | None \<Rightarrow> backend_error e),
           finish_sync_failure e sh))"

text \<open>The checks before a pass: what it works with, and the node's answers so far.\<close>

definition begin_pass ::
  "('w, core_error, bool) meth \<Rightarrow> ('hdr, 'cm) consensus_lib \<Rightarrow> (bytes \<Rightarrow> 'seed option) \<Rightarrow>
     (('w, 'd) sync_state, core_error,
      'w core_chain_adapter \<times> wallet_state \<times> 'd \<times> 'seed restore_context) meth" where
  "begin_pass is_ready clib seed_of x =
     (case x of (w, sv, sh) \<Rightarrow>
        op_then (lift_result (ok_or (sh_backend sh) KE_EmbeddedCoreRequired)) (\<lambda>ad.
        op_then (on_fst is_ready) (\<lambda>ready.
        op_then (lift_result (ensure ready KE_NodeNotReady)) (\<lambda>_.
        op_then (lift_result (ok_or (sv_unlocked sv) KE_Locked)) (\<lambda>s.
        op_then (lift_result (ok_or (seed_of (ws_root_material s)) KE_RecoveryPhraseInvalid)) (\<lambda>seed.
        op_then (on_fst (map_err backend_error (current_identity clib ad))) (\<lambda>identity.
        op_then (lift_result (require_domain_identity (ws_identity s) identity)) (\<lambda>_.
        op_then (lift_result (ok_or (sv_location sv) KE_WalletNotOpen)) (\<lambda>location.
        op_then (lift_result (ok_or (sv_password sv) KE_Locked)) (\<lambda>password.
          lift_result (Inr (ad, s, location,
            \<lparr>rx_seed = seed,
             rx_chain = \<lparr>rcc_network_magic = cci_network_magic identity, rcc_chain_id = cci_chain_id identity\<rparr>,
             rx_identity = identity, rx_password = password\<rparr>))))))))))) x)"

datatype sync_pass = OnePage | ToTip

definition run_pass ::
  "io_kind \<Rightarrow> 'd store_ops \<Rightarrow> ('hdr, 'cm) consensus_lib \<Rightarrow> 'seed recovery_lib \<Rightarrow> sync_pass \<Rightarrow>
     'w core_chain_adapter \<Rightarrow> 'seed restore_context \<Rightarrow> 'w \<times> 'd wallet_sink_state \<Rightarrow>
     ((core_scan_error + core_reconcile_result) \<times> 'w \<times> 'd wallet_sink_state) option" where
  "run_pass kind ops clib rlib pass ad ctx x =
     (case pass of
        OnePage \<Rightarrow> Some (reconcile_wallet_once clib ad (wallet_sink kind ops clib rlib ctx) x)
      | ToTip \<Rightarrow> reconcile_to_tip clib ad (wallet_sink kind ops clib rlib ctx) x)"

definition finish_pass ::
  "'d store_ops \<Rightarrow> ('hdr, 'cm) consensus_lib \<Rightarrow> u64 \<Rightarrow> core_scan_error + core_reconcile_result \<Rightarrow> 'd wallet_sink_state \<Rightarrow>
     ('w, 'd) sync_state \<Rightarrow> (core_error + wallet_summary) \<times> ('w, 'd) sync_state" where
  "finish_pass ops clib tip r sk x =
     (case x of (w, sv, sh) \<Rightarrow>
        let sv1 = sv\<lparr>sv_location := Some (wk_directory sk), sv_unlocked := Some (wk_state sk)\<rparr>;
            sh1 = sh\<lparr>sh_state := AS_Synchronizing,
                     sh_observed_tip_height :=
                       (case wk_observed_tip_height sk of
                          Some h \<Rightarrow> Some h
                        | None \<Rightarrow> (case sh_observed_tip_height sh of Some h \<Rightarrow> Some h | None \<Rightarrow> Some tip))\<rparr>
        in case r of
             Inl e \<Rightarrow> (case sync_failure e sk sh1 of (error, sh2) \<Rightarrow> (Inl error, (w, sv1, sh2)))
           | Inr _ \<Rightarrow>
               let sh2 = sh1\<lparr>sh_synchronization_error := None\<rparr> in
               (case so_metadata ops (wk_directory sk) of
                  Inl e \<Rightarrow> (Inl (KE_Storage e), (w, sv1, sh2))
                | Inr m \<Rightarrow>
                    let sv2 = sv1\<lparr>sv_metadata := Some m\<rparr>; sh3 = sh2\<lparr>sh_state := AS_Unlocked\<rparr>
                    in (service_summary clib sv2 sh3, (w, sv2, sh3))))"

definition run_sync_pass ::
  "io_kind \<Rightarrow> 'd store_ops \<Rightarrow> ('w, core_error, bool) meth \<Rightarrow> ('hdr, 'cm) consensus_lib \<Rightarrow> 'seed recovery_lib \<Rightarrow>
     (bytes \<Rightarrow> 'seed option) \<Rightarrow> sync_pass \<Rightarrow> ('w, 'd) sync_state \<Rightarrow>
     ((core_error + wallet_summary) \<times> ('w, 'd) sync_state) option" where
  "run_sync_pass kind ops is_ready clib rlib seed_of pass x =
     (case begin_pass is_ready clib seed_of x of
        (Inl e, y) \<Rightarrow> Some (Inl e, y)
      | (Inr (ad, s, location, ctx), (w, sv, sh)) \<Rightarrow>
          map_option (\<lambda>(r, w1, sk).
              finish_pass ops clib (cbr_height (cci_current_tip (rx_identity ctx))) r sk (w1, sv, sh))
            (run_pass kind ops clib rlib pass ad ctx
               (w, \<lparr>wk_directory = location, wk_state = s, wk_observed_tip_height = None,
                    wk_last_recovery_error = None, wk_last_generation_conflict = None,
                    wk_last_storage_failure = None\<rparr>)))"

definition synchronize ::
  "io_kind \<Rightarrow> 'd store_ops \<Rightarrow> ('w, core_error, bool) meth \<Rightarrow> ('hdr, 'cm) consensus_lib \<Rightarrow> 'seed recovery_lib \<Rightarrow>
     (bytes \<Rightarrow> 'seed option) \<Rightarrow> ('w, 'd) sync_state \<Rightarrow> ((core_error + wallet_summary) \<times> ('w, 'd) sync_state) option" where
  "synchronize kind ops is_ready clib rlib seed_of = run_sync_pass kind ops is_ready clib rlib seed_of ToTip"

definition synchronize_live ::
  "io_kind \<Rightarrow> 'd store_ops \<Rightarrow> ('w, core_error, bool) meth \<Rightarrow> ('hdr, 'cm) consensus_lib \<Rightarrow> 'seed recovery_lib \<Rightarrow>
     (bytes \<Rightarrow> 'seed option) \<Rightarrow> ('w, 'd) sync_state \<Rightarrow> ((core_error + wallet_summary) \<times> ('w, 'd) sync_state) option" where
  "synchronize_live kind ops is_ready clib rlib seed_of = run_sync_pass kind ops is_ready clib rlib seed_of OnePage"

subsection \<open>The rescan from genesis\<close>

definition RESCAN_TRANSIENT_SYNC_ATTEMPTS :: nat where "RESCAN_TRANSIENT_SYNC_ATTEMPTS = 5"

text \<open>The attempts that are left; the last one returns, so no attempt left is not reached.\<close>

fun retry_transient_rescan ::
  "('x \<Rightarrow> ((core_error + 'a) \<times> 'x) option) \<Rightarrow> nat \<Rightarrow> 'x \<Rightarrow> ((core_error + 'a) \<times> 'x) option" where
  "retry_transient_rescan sync 0 x = Some (Inl KE_Panic, x)"
| "retry_transient_rescan sync (Suc n) x =
     (case sync x of
        Some (Inl e, y) \<Rightarrow>
          if (e = KE_NodeNotReady \<or> e = KE_Backend True) \<and> 0 < n
          then retry_transient_rescan sync n y else Some (Inl e, y)
      | res \<Rightarrow> res)"

definition genesis_reset :: "u64 \<Rightarrow> wallet_state \<Rightarrow> core_error + wallet_state" where
  "genesis_reset tip s =
     res_bind (map_sum (\<lambda>_. KE_Restore) id (rewind_recovery_state 0 tip s)) (\<lambda>s1.
       Inr (s1\<lparr>ws_core_scan_cursor := None, ws_recovery_canonical_blocks := [], ws_recovery_scanned_blocks := 0,
               ws_recovery_scanned_outputs := 0, ws_legacy_proof_only_outputs := 0\<rparr>))"

definition rescan_from_genesis ::
  "io_kind \<Rightarrow> 'd store_ops \<Rightarrow> ('w, core_error, bool) meth \<Rightarrow> ('hdr, 'cm) consensus_lib \<Rightarrow> 'seed recovery_lib \<Rightarrow>
     (bytes \<Rightarrow> 'seed option) \<Rightarrow> ('w, 'd) sync_state \<Rightarrow> ((core_error + wallet_summary) \<times> ('w, 'd) sync_state) option" where
  "rescan_from_genesis kind ops is_ready clib rlib seed_of x =
     (case op_then (lift_result (ok_or (sh_backend (snd (snd x))) KE_EmbeddedCoreRequired)) (\<lambda>ad.
           op_then (on_fst (map_err backend_error (current_identity clib ad))) (\<lambda>identity.
             on_snd (on_fst (with_clone ops (\<lambda>s.
               res_bind (genesis_reset (cbr_height (cci_current_tip identity)) s) (\<lambda>t. Inr (t, ()))))))) x of
        (Inl e, y) \<Rightarrow> Some (Inl e, y)
      | (Inr _, y) \<Rightarrow>
          retry_transient_rescan (synchronize kind ops is_ready clib rlib seed_of) RESCAN_TRANSIENT_SYNC_ATTEMPTS y)"

subsection \<open>What one page does to the wallet\<close>

text \<open>
  The abstract view of a synchronisation: the wallet advances by whole pages. A page step applies one
  scanned page with its cursor, after a rewind when the chain was reorganised, and bumps the
  generation; there is no state in between.
\<close>

definition page_step ::
  "('hdr, 'cm) consensus_lib \<Rightarrow> 'seed recovery_lib \<Rightarrow> 'seed restore_context \<Rightarrow> wallet_state \<Rightarrow> wallet_state \<Rightarrow> bool" where
  "page_step clib rlib ctx s t \<longleftrightarrow>
     (\<exists>batch cursor reorg s1 s2 u g. rewound_for reorg batch s = Inr s1 \<and>
        apply_recovery_batch rlib (rx_seed ctx) (rx_chain ctx) (rx_identity ctx) batch s1 = Inr s2 \<and>
        settle_page clib batch cursor s2 = Inr u \<and> t = u\<lparr>ws_generation := g\<rparr>)"

text \<open>No transaction is lost or reordered, and none has its exposure lowered.\<close>

definition txs_preserved :: "wallet_state \<Rightarrow> wallet_state \<Rightarrow> bool" where
  "txs_preserved s t \<longleftrightarrow>
     list_all2 (\<lambda>a b. tx_id b = tx_id a \<and> tx_exposure a \<le> tx_exposure b) (ws_transactions s) (ws_transactions t)"

lemma txs_preserved_refl: "ws_transactions t = ws_transactions s \<Longrightarrow> txs_preserved s t"
  by (simp add: txs_preserved_def list_all2_refl)

lemma txs_preserved_trans: "txs_preserved a b \<Longrightarrow> txs_preserved b c \<Longrightarrow> txs_preserved a c"
  unfolding txs_preserved_def by (erule list_all2_trans [rotated], assumption?) (auto intro: order_trans)

lemma txs_kept_preserved: "txs_kept s t \<Longrightarrow> txs_preserved s t"
  unfolding txs_kept_def txs_preserved_def
  by (erule list_all2_mono) (auto simp: tx_evidence_def tx_core_frame_def)

definition wallet_kept :: "wallet_state \<Rightarrow> wallet_state \<Rightarrow> bool" where
  "wallet_kept s t \<longleftrightarrow> wallet_core t = wallet_core s \<and> floors_mono s t \<and> txs_preserved s t"

lemma wallet_kept_trans: "wallet_kept a b \<Longrightarrow> wallet_kept b c \<Longrightarrow> wallet_kept a c"
  using floors_mono_trans txs_preserved_trans unfolding wallet_kept_def by metis

lemma wallet_kept_refl [simp]: "wallet_kept s s"
  by (simp add: wallet_kept_def txs_preserved_refl)

lemma wallet_keptI:
  "wallet_core t = wallet_core s \<Longrightarrow> same_floors s t \<Longrightarrow> txs_preserved s t \<Longrightarrow> wallet_kept s t"
  by (simp add: wallet_kept_def same_floors_mono)

lemma kernels_kept: "apply_block_kernels bs s = (r, t) \<Longrightarrow> wallet_kept s t"
proof (induction bs arbitrary: s r t)
  case Nil
  then show ?case by (simp add: lift_result_def wallet_kept_def txs_preserved_refl)
next
  case (Cons b bs)
  let ?k = "apply_kernel_evidence (csb_height b) (csb_block_hash b) (sort (remdups (map csk_excess (csb_kernels b))))"
  have step: "wallet_kept s u" if "?k s = (q, u)" for q u
  proof -
    have "evidence_frame s u" using that apply_kernels_loop_evidence by (simp add: apply_kernel_evidence_def)
    then show ?thesis
      using txs_kept_preserved [OF evidence_frame_txs]
      by (auto simp: evidence_frame_def wallet_core_def same_floors_def intro!: wallet_keptI)
  qed
  show ?case using Cons.prems unfolding apply_block_kernels.simps
    by (cases rule: op_thenE) (auto intro: step wallet_kept_trans Cons.IH)
qed

lemma expired_kept:
  assumes "cancel_expired_unfinalized_reservations tip s = (r, t)"
  shows "wallet_kept s t"
proof -
  obtain outs where "t = s\<lparr>ws_outputs := outs,
      ws_transactions := map (\<lambda>t. if expiring tip t then expired tip t else t) (ws_transactions s)\<rparr>"
    using cancel_expired_ok [of tip s] assms by auto
  then show ?thesis
    by (intro wallet_keptI)
      (auto simp: wallet_core_def same_floors_def txs_preserved_def expired_def list_all2_conv_all_nth)
qed

lemma settle_pageE:
  assumes "settle_page clib batch cursor s = Inr t"
  obtains r s1 q s2 where "apply_block_kernels (bt_blocks batch) s = (r, s1)"
    "cancel_expired_unfinalized_reservations (cbr_height (bt_observed_tip batch)) s1 = (q, s2)"
    "complete_restore_at clib batch cursor (s2\<lparr>ws_core_scan_cursor := Some cursor\<rparr>) = Inr t"
proof -
  obtain r s1 where s1: "apply_block_kernels (bt_blocks batch) s = (r, s1)" by fastforce
  obtain q s2 where s2: "cancel_expired_unfinalized_reservations (cbr_height (bt_observed_tip batch)) s1 = (q, s2)"
    by fastforce
  show thesis using assms that [OF s1 s2] unfolding settle_page_def s1 prod.case
    by (cases r; cases q) (simp_all add: s2 split: if_splits)
qed

lemma complete_restore_at_frame:
  assumes "complete_restore_at clib batch cursor s = Inr t"
  shows "\<exists>st sy. t = s\<lparr>ws_seed_restore_status := st, ws_sync_status := sy\<rparr>"
proof -
  have "\<exists>st sy. s = s\<lparr>ws_seed_restore_status := st, ws_sync_status := sy\<rparr>"
    by (rule exI [of _ "ws_seed_restore_status s"], rule exI [of _ "ws_sync_status s"]) simp
  then show ?thesis using assms by (auto simp: complete_restore_at_def res_simps split: if_splits)
qed

lemma settle_page_kept: "settle_page clib batch cursor s = Inr t \<Longrightarrow> wallet_kept s t"
proof -
  assume "settle_page clib batch cursor s = Inr t"
  then obtain r s1 q s2 where s1: "apply_block_kernels (bt_blocks batch) s = (r, s1)"
    and s2: "cancel_expired_unfinalized_reservations (cbr_height (bt_observed_tip batch)) s1 = (q, s2)"
    and t: "complete_restore_at clib batch cursor (s2\<lparr>ws_core_scan_cursor := Some cursor\<rparr>) = Inr t"
    by (rule settle_pageE)
  from t have "\<exists>st sy. t = s2\<lparr>ws_core_scan_cursor := Some cursor, ws_seed_restore_status := st, ws_sync_status := sy\<rparr>"
    by (rule complete_restore_at_frame)
  then have "wallet_kept s2 t"
    by (auto simp: same_floors_def intro!: wallet_keptI txs_preserved_refl)
  then show ?thesis using kernels_kept [OF s1] expired_kept [OF s2] wallet_kept_trans by blast
qed

lemma settle_page_cursor: "settle_page clib batch cursor s = Inr t \<Longrightarrow> ws_core_scan_cursor t = Some cursor"
  by (erule settle_pageE) (auto dest!: complete_restore_at_frame)

lemma rewound_for_kept: "rewound_for reorg batch s = Inr t \<Longrightarrow> wallet_kept s t"
proof (cases reorg)
  case (Some anchor)
  assume "rewound_for reorg batch s = Inr t"
  then have run: "rewind_recovery_state (cbr_height anchor) (cbr_height (bt_observed_tip batch)) s = Inr t"
    by (simp add: rewound_for_def Some)
  let ?h = "cbr_height anchor"
  from run obtain outs where
    roll: "rollback_confirmations_after_height ?h ((rewound_base ?h s)\<lparr>ws_outputs := outs\<rparr>) = (Inr (), t)"
    and frame: "restore_frame ((rewound_base ?h s)\<lparr>ws_outputs := outs,
       ws_transactions := map (reorged (\<lambda>h. ?h < h)) (ws_transactions s)\<rparr>) t"
    by (rule rewind_recovery_stateE)
  have "txs_kept ((rewound_base ?h s)\<lparr>ws_outputs := outs\<rparr>) t"
    by (rule rollback_txs) (use roll in \<open>simp add: rollback_confirmations_after_height_def\<close>)
  then have "txs_preserved s t"
    using txs_kept_preserved by (force simp: txs_preserved_def rewound_base_def rewind_counters_def Let_def)
  moreover have "same_floors s t"
    using restore_frame_floors [OF frame] by (simp add: same_floors_def rewound_base_def rewind_counters_def Let_def)
  ultimately show ?thesis using rewind_core [OF run] by (simp add: wallet_keptI)
qed (simp add: rewound_for_def wallet_kept_def txs_preserved_refl)

lemma apply_recovery_batch_kept:
  assumes "apply_recovery_batch rlib seed chain identity batch s = Inr t"
  shows "wallet_kept s t"
  unfolding wallet_kept_def
proof (intro conjI)
  show "wallet_core t = wallet_core s" using apply_recovery_batch_core [OF assms] .
  show "floors_mono s t" using batch_floors [OF assms] by blast
  show "txs_preserved s t"
    using apply_recovery_batch_frame [OF assms] by (intro txs_preserved_refl) (simp add: wallet_frame_def)
qed

lemma page_step_kept: "page_step clib rlib ctx s t \<Longrightarrow> wallet_kept s t"
proof -
  assume "page_step clib rlib ctx s t"
  then obtain batch cursor reorg s1 s2 u g where steps: "rewound_for reorg batch s = Inr s1"
    "apply_recovery_batch rlib (rx_seed ctx) (rx_chain ctx) (rx_identity ctx) batch s1 = Inr s2"
    "settle_page clib batch cursor s2 = Inr u" and t: "t = u\<lparr>ws_generation := g\<rparr>"
    unfolding page_step_def by blast
  have "wallet_kept u t"
    by (intro wallet_keptI) (simp_all add: t same_floors_def txs_preserved_refl)
  with rewound_for_kept [OF steps(1)] apply_recovery_batch_kept [OF steps(2)] settle_page_kept [OF steps(3)]
  show ?thesis by (meson wallet_kept_trans)
qed

lemma pages_kept: "(page_step clib rlib ctx)\<^sup>*\<^sup>* s t \<Longrightarrow> wallet_kept s t"
  by (induction rule: rtranclp_induct) (auto intro: page_step_kept wallet_kept_trans)

subsection \<open>The sink advances by whole pages\<close>

text \<open>
  \<open>page_synced\<close>: memory and disk hold the same state. \<open>page_reachable\<close>: after a failed commit the disk
  may already hold the next page; both are reached by whole pages.
\<close>

definition page_reachable ::
  "'env storage_env \<Rightarrow> ('hdr, 'cm) consensus_lib \<Rightarrow> 'seed recovery_lib \<Rightarrow> 'seed restore_context \<Rightarrow> wallet_state \<Rightarrow>
     ('env, 'p) wallet_files wallet_sink_state \<Rightarrow> bool" where
  "page_reachable env clib rlib ctx s0 sk \<longleftrightarrow> seal_opens env \<and> (page_step clib rlib ctx)\<^sup>*\<^sup>* s0 (wk_state sk) \<and>
     (\<exists>u. on_disk env (rx_password ctx) (wk_directory sk) u \<and> (page_step clib rlib ctx)\<^sup>*\<^sup>* s0 u)"

definition page_synced ::
  "'env storage_env \<Rightarrow> ('hdr, 'cm) consensus_lib \<Rightarrow> 'seed recovery_lib \<Rightarrow> 'seed restore_context \<Rightarrow> wallet_state \<Rightarrow>
     ('env, 'p) wallet_files wallet_sink_state \<Rightarrow> bool" where
  "page_synced env clib rlib ctx s0 sk \<longleftrightarrow> seal_opens env \<and> (page_step clib rlib ctx)\<^sup>*\<^sup>* s0 (wk_state sk) \<and>
     on_disk env (rx_password ctx) (wk_directory sk) (wk_state sk)"

lemma synced_reachable: "page_synced env clib rlib ctx s0 sk \<Longrightarrow> page_reachable env clib rlib ctx s0 sk"
  by (auto simp: page_synced_def page_reachable_def)

lemma wallet_sink_commit_ends:
  assumes run: "wallet_sink_commit kind (files_ops env) clib rlib ctx batch cursor reorg sk = (r, sk')"
    and inv: "page_synced env clib rlib ctx s0 sk"
  shows "if is_ok r then page_synced env clib rlib ctx s0 sk' else page_reachable env clib rlib ctx s0 sk'"
proof -
  have same: ?thesis if "\<exists>e. r = Inl e" "wk_state sk' = wk_state sk" "wk_directory sk' = wk_directory sk"
    using that inv by (auto simp: page_synced_def page_reachable_def is_ok_iff)
  show ?thesis
  proof (cases "\<exists>s1 s2 u. rewound_for reorg batch (wk_state sk) = Inr s1 \<and>
      apply_recovery_batch rlib (rx_seed ctx) (rx_chain ctx) (rx_identity ctx) batch s1 = Inr s2 \<and>
      settle_page clib batch cursor s2 = Inr u")
    case False
    then have "(\<exists>e. r = Inl e) \<and> wk_state sk' = wk_state sk \<and> wk_directory sk' = wk_directory sk"
      using run by (auto simp: wallet_sink_commit_def split: sum.splits)
    then show ?thesis using same by blast
  next
    case True
    then obtain s1 s2 u where page: "rewound_for reorg batch (wk_state sk) = Inr s1"
      "apply_recovery_batch rlib (rx_seed ctx) (rx_chain ctx) (rx_identity ctx) batch s1 = Inr s2"
      "settle_page clib batch cursor s2 = Inr u" by blast
    have next_page: "(page_step clib rlib ctx)\<^sup>*\<^sup>* s0 (u\<lparr>ws_generation := g\<rparr>)" for g
    proof -
      have "page_step clib rlib ctx (wk_state sk) (u\<lparr>ws_generation := g\<rparr>)"
        unfolding page_step_def using page by blast
      then show ?thesis using inv by (auto simp: page_synced_def)
    qed
    obtain q d where c: "so_commit (files_ops env) (rx_password ctx) (ws_generation (wk_state sk)) u (wk_directory sk) = (q, d)"
      by fastforce
    from inv have law: "seal_opens env" and disk: "on_disk env (rx_password ctx) (wk_directory sk) (wk_state sk)"
      and old: "(page_step clib rlib ctx)\<^sup>*\<^sup>* s0 (wk_state sk)" by (auto simp: page_synced_def)
    from commit_on_disk [OF law disk c] obtain v where v: "on_disk env (rx_password ctx) d v"
      "v = wk_state sk \<or> (\<exists>g. v = u\<lparr>ws_generation := g\<rparr>)" "\<forall>s2. q = Inr s2 \<longrightarrow> s2 = v" by blast
    then have "(page_step clib rlib ctx)\<^sup>*\<^sup>* s0 v" using old next_page by blast
    then show ?thesis
      using run page c v law old
      by (cases q) (auto simp: wallet_sink_commit_def wallet_sink_store_def page_synced_def page_reachable_def is_ok_iff)
  qed
qed

lemma wallet_sink_recover_ends:
  assumes run: "wallet_sink_recover (files_ops env) (rx_password ctx) e sk = (q, sk')"
    and inv: "page_reachable env clib rlib ctx s0 sk"
  shows "if q = Inr True then page_synced env clib rlib ctx s0 sk' else page_reachable env clib rlib ctx s0 sk'"
proof -
  obtain p d where l: "so_load (files_ops env) (rx_password ctx) (wk_directory sk) = (p, d)" by fastforce
  from inv obtain u where u: "on_disk env (rx_password ctx) (wk_directory sk) u" "(page_step clib rlib ctx)\<^sup>*\<^sup>* s0 u"
    by (auto simp: page_reachable_def)
  note load = load_on_disk [OF u(1) l]
  show ?thesis
  proof (cases "\<exists>current. snd e = KE_Storage (SE_ExpectedGenerationConflict current)")
    case True
    then obtain current where e: "snd e = KE_Storage (SE_ExpectedGenerationConflict current)" by blast
    have known: "seal_opens env" "(page_step clib rlib ctx)\<^sup>*\<^sup>* s0 (wk_state sk)"
      using inv by (simp_all add: page_reachable_def)
    show ?thesis
    proof (cases p)
      case (Inl a)
      then have "q \<noteq> Inr True" "sk' = sk\<lparr>wk_directory := d, wk_last_generation_conflict := None\<rparr>"
        using run l e by (auto simp: wallet_sink_recover_def)
      moreover have "\<exists>v. on_disk env (rx_password ctx) d v \<and> (page_step clib rlib ctx)\<^sup>*\<^sup>* s0 v"
        using load u(2) by (intro exI [of _ u]) simp
      ultimately show ?thesis using known by (simp add: page_reachable_def)
    next
      case (Inr v)
      then have "q = Inr True" "sk' = sk\<lparr>wk_directory := d, wk_state := u, wk_last_generation_conflict := Some current\<rparr>"
        using run l e load by (auto simp: wallet_sink_recover_def)
      then show ?thesis using known load u(2) by (simp add: page_synced_def)
    qed
  next
    case False
    then have "q = Inr False" "sk' = sk\<lparr>wk_last_generation_conflict := None\<rparr>"
      using run by (auto simp: wallet_sink_recover_def split: core_error.splits storage_error.splits)
    then show ?thesis using inv by (simp add: page_reachable_def)
  qed
qed

interpretation syncing: invariant_sink "wallet_sink kind (files_ops env) clib rlib ctx"
  "page_synced env clib rlib ctx s0" "page_reachable env clib rlib ctx s0"
  for kind and env :: "'env storage_env" and clib :: "('hdr, 'cm) consensus_lib" and rlib :: "'seed recovery_lib"
    and ctx :: "'seed restore_context" and s0
proof
  fix sk sk' r e q a b c
  show "page_synced env clib rlib ctx s0 sk \<Longrightarrow> page_reachable env clib rlib ctx s0 sk" by (rule synced_reachable)
  show "sk_commit_core_batch (wallet_sink kind (files_ops env) clib rlib ctx) b c sk = (r, sk') \<Longrightarrow>
      page_synced env clib rlib ctx s0 sk \<Longrightarrow>
      if is_ok r then page_synced env clib rlib ctx s0 sk' else page_reachable env clib rlib ctx s0 sk'"
    by (rule wallet_sink_commit_ends [where reorg = None]) (simp_all add: wallet_sink_def)
  show "sk_commit_core_reorg (wallet_sink kind (files_ops env) clib rlib ctx) a b c sk = (r, sk') \<Longrightarrow>
      page_synced env clib rlib ctx s0 sk \<Longrightarrow>
      if is_ok r then page_synced env clib rlib ctx s0 sk' else page_reachable env clib rlib ctx s0 sk'"
    by (rule wallet_sink_commit_ends [where reorg = "Some a"]) (simp_all add: wallet_sink_def)
  show "sk_recover_generation_conflict (wallet_sink kind (files_ops env) clib rlib ctx) e sk = (q, sk') \<Longrightarrow>
      page_reachable env clib rlib ctx s0 sk \<Longrightarrow>
      if q = Inr True then page_synced env clib rlib ctx s0 sk' else page_reachable env clib rlib ctx s0 sk'"
    by (rule wallet_sink_recover_ends) (simp_all add: wallet_sink_def)
qed

lemma wallet_publishing:
  assumes "durable_store ops"
  shows "publishing_sink (wallet_sink kind ops clib rlib ctx) (\<lambda>c. core_cursor_parse clib c (rx_identity ctx) = Inr c)"
proof -
  have "sk_core_cursor_state (wallet_sink kind ops clib rlib ctx) sk' = Inr (PC_Valid c)"
    if c: "core_cursor_parse clib c (rx_identity ctx) = Inr c"
      and run: "wallet_sink_commit kind ops clib rlib ctx b c reorg sk = (Inr (), sk')" for c b reorg sk sk'
  proof -
    from run obtain s2 u committed d where u: "settle_page clib b c s2 = Inr u"
      and com: "so_commit ops (rx_password ctx) (ws_generation (wk_state sk)) u (wk_directory sk) = (Inr committed, d)"
      and sk': "wk_state sk' = committed"
      by (auto simp: wallet_sink_commit_def wallet_sink_store_def split: sum.splits prod.splits)
    obtain g where "committed = u\<lparr>ws_generation := g\<rparr>" using durable_store.commit_exact [OF assms com] by blast
    then show ?thesis using c settle_page_cursor [OF u] sk' by (simp add: wallet_sink_def)
  qed
  then show ?thesis by unfold_locales (auto simp: wallet_sink_def)
qed

interpretation wallet_syncing: publishing_sink "wallet_sink kind (files_ops env) clib rlib ctx"
  "\<lambda>c. core_cursor_parse clib c (rx_identity ctx) = Inr c"
  for kind and env :: "'env storage_env" and clib :: "('hdr, 'cm) consensus_lib" and rlib :: "'seed recovery_lib"
    and ctx :: "'seed restore_context"
  by (rule wallet_publishing [OF files.durable_store_axioms])

subsection \<open>A pass of the service\<close>

lemma begin_pass_Inr:
  assumes "begin_pass is_ready clib seed_of (w, sv, sh) = (r, (w1, sv1, sh1))"
  shows "sv1 = sv \<and> sh1 = sh"
    and "r = Inr (ad, s, location, ctx) \<Longrightarrow> sv_unlocked sv = Some s \<and> sv_location sv = Some location \<and>
      sv_password sv = Some (rx_password ctx)"
proof -
  show "sv1 = sv \<and> sh1 = sh"
    using assms unfolding begin_pass_def prod.case
    by (elim op_thenE) (auto simp: lift_result_def on_fst_iff)
  show "r = Inr (ad, s, location, ctx) \<Longrightarrow> sv_unlocked sv = Some s \<and> sv_location sv = Some location \<and>
      sv_password sv = Some (rx_password ctx)"
    using assms by (auto simp: begin_pass_def res_simps)
qed

lemma run_pass_ends:
  assumes "run_pass kind (files_ops env) clib rlib pass ad ctx (w, sk) = Some (r, (w', sk'))"
    and "page_synced env clib rlib ctx s0 sk"
  shows "if is_ok r then page_synced env clib rlib ctx s0 sk' else page_reachable env clib rlib ctx s0 sk'"
proof (cases pass)
  case OnePage
  then have "reconcile_wallet_once clib ad (wallet_sink kind (files_ops env) clib rlib ctx) (w, sk) = (r, (w', sk'))"
    using assms(1) by (simp add: run_pass_def)
  from endsD [OF syncing.reconcile_wallet_once_ends this, of s0] assms(2) show ?thesis by (simp split: if_splits)
next
  case ToTip
  then have "reconcile_to_tip clib ad (wallet_sink kind (files_ops env) clib rlib ctx) (w, sk) = Some (r, (w', sk'))"
    using assms(1) by (simp add: run_pass_def)
  from syncing.reconcile_to_tip_ends [OF this, of s0] assms(2) show ?thesis by (simp split: if_splits)
qed

lemma finish_pass_service:
  assumes "finish_pass ops clib tip r sk (w, sv, sh) = (q, (w', sv', sh'))"
  shows "sv_unlocked sv' = Some (wk_state sk)" and "sv_location sv' = Some (wk_directory sk)"
    and "is_ok q \<Longrightarrow> is_ok r"
  using assms
  by (auto simp: finish_pass_def Let_def is_ok_iff split: sum.splits prod.splits)

text \<open>
  C6: a synchronisation pass advances the wallet by whole pages. Under every fault of the disk, every
  answer of the node, reorganisations and conflicting writers included, when a pass of either kind over
  an unlocked wallet returns, the state on disk is reached from the state before by complete page
  steps, each of them a page with the cursor that belongs to it; so is the state in memory, and after
  a success the two are equal. Along the way wallet, chain and root material stay the same, no
  allocation floor goes down, and no transaction is lost or has its exposure lowered.
\<close>

theorem sync_by_whole_pages:
  assumes "seal_opens env"
    and "sv_unlocked sv = Some s" and "sv_location sv = Some f" and "sv_password sv = Some pw"
    and "directory_of f = Some d" and "load_checked (quiet env) pw d = Inr (auth, s)"
    and "run_sync_pass kind (files_ops env) is_ready clib rlib seed_of pass (w, sv, sh) = Some (r, (w', sv', sh'))"
  shows "\<exists>f' d' auth' u m ctx. sv_location sv' = Some f' \<and> directory_of f' = Some d' \<and>
    load_checked (quiet env) pw d' = Inr (auth', u) \<and> sv_unlocked sv' = Some m \<and> (is_ok r \<longrightarrow> m = u) \<and>
    (page_step clib rlib ctx)\<^sup>*\<^sup>* s u \<and> (page_step clib rlib ctx)\<^sup>*\<^sup>* s m \<and>
    ws_wallet_id u = ws_wallet_id s \<and> ws_identity u = ws_identity s \<and> ws_root_material u = ws_root_material s \<and>
    floors_mono s u \<and>
    list_all2 (\<lambda>a b. tx_id b = tx_id a \<and> tx_exposure a \<le> tx_exposure b) (ws_transactions s) (ws_transactions u)"
proof -
  obtain q w1 sv1 sh1 where b: "begin_pass is_ready clib seed_of (w, sv, sh) = (q, (w1, sv1, sh1))"
    using prod_cases4 by blast
  note begin_pass = begin_pass_Inr [OF b]
  have finish: ?thesis if facts: "on_disk env pw f' u" "sv_location sv' = Some f'" "sv_unlocked sv' = Some m"
    "is_ok r \<Longrightarrow> m = u" "(page_step clib rlib ctx)\<^sup>*\<^sup>* s u" "(page_step clib rlib ctx)\<^sup>*\<^sup>* s m" for f' u m ctx
  proof -
    obtain d' auth' where "directory_of f' = Some d'" "load_checked (quiet env) pw d' = Inr (auth', u)"
      using facts(1) by (auto simp: on_disk_def)
    moreover have "wallet_kept s u" using pages_kept [OF facts(5)] .
    ultimately show ?thesis using facts unfolding wallet_kept_def wallet_core_def txs_preserved_def by blast
  qed
  have disk: "on_disk env pw f s" using assms(5,6) by (auto simp: on_disk_def)
  show ?thesis
  proof (cases q)
    case (Inl e)
    then have "sv' = sv" "r = Inl e" using assms(7) b begin_pass(1) by (auto simp: run_sync_pass_def)
    then show ?thesis by (intro finish [OF disk, of s undefined]) (simp_all add: assms(2,3) is_ok_iff)
  next
    case (Inr z)
    obtain ad s1 loc ctx where z: "z = (ad, s1, loc, ctx)" by (cases z)
    then have same: "s1 = s" "loc = f" "rx_password ctx = pw" "sv1 = sv" "sh1 = sh"
      using begin_pass Inr assms(2-4) by auto
    let ?sk = "\<lparr>wk_directory = f, wk_state = s, wk_observed_tip_height = None, wk_last_recovery_error = None,
      wk_last_generation_conflict = None, wk_last_storage_failure = None\<rparr>"
    from assms(7) b Inr z same obtain p w2 sk where
      run: "run_pass kind (files_ops env) clib rlib pass ad ctx (w1, ?sk) = Some (p, (w2, sk))"
      and fin: "finish_pass (files_ops env) clib (cbr_height (cci_current_tip (rx_identity ctx))) p sk (w2, sv, sh) =
        (r, (w', sv', sh'))"
      by (auto simp: run_sync_pass_def)
    have "page_synced env clib rlib ctx s ?sk" using assms(1) disk same by (simp add: page_synced_def)
    note ends = run_pass_ends [OF run this]
    note service = finish_pass_service [OF fin]
    show ?thesis
    proof (cases "is_ok p")
      case True
      then show ?thesis using ends service same by (intro finish) (auto simp: page_synced_def)
    next
      case False
      then obtain u where u: "on_disk env pw (wk_directory sk) u" "(page_step clib rlib ctx)\<^sup>*\<^sup>* s u"
        "(page_step clib rlib ctx)\<^sup>*\<^sup>* s (wk_state sk)"
        using ends same by (auto simp: page_reachable_def)
      then show ?thesis using service False by (intro finish [OF u(1) service(2,1)]) auto
    qed
  qed
qed

text \<open>A pass over the wallet of a finished restore, whose cursor stands at the tip.\<close>

definition tip_service :: "(wallet_state, rescan_plan) wallet_files wallet_service" where
  "tip_service = \<lparr>sv_unlocked = Some scanned_state, sv_location = Some scanned_stage, sv_password = Some ''password'',
     sv_metadata = None, sv_sender_secrets = None\<rparr>"

definition tip_shell :: "unit service_shell" where
  "tip_shell = \<lparr>sh_state = AS_Unlocked, sh_synchronization_error = None, sh_observed_tip_height = None,
     sh_backend = Some sample_adapter\<rparr>"

lemma tip_cursor_parses:
  "core_cursor_parse sample_consensus (sample_cursor_bytes tip_cursor) sample_chain_identity = Inr (sample_cursor_bytes tip_cursor)"
  using tip_cursor_bytes
  by (simp add: core_cursor_parse_def validate_cursor_identity_def sample_consensus_def)
    (simp add: tip_cursor_def sample_chain_identity_def sample_block_hash_def zeros_def)

lemma tip_identity: "current_identity sample_consensus sample_adapter () = (Inr sample_chain_identity, ())"
  by (simp add: current_identity_def sample_adapter_def sample_scan_api_def sample_consensus_def sample_chain_identity_def
      map_identity_def validate_same_chain_def lift_result_def op_then_def map_err_def sample_block_hash_def zeros_def Let_def)

lemma tip_pass:
  "\<exists>r w' sv' sh'. run_sync_pass kind (files_ops (sample_store NoFault)) (lift_result (Inr True)) sample_consensus sample_recovery
     (\<lambda>_. Some ()) OnePage ((), tip_service, tip_shell) = Some (Inr r, (w', sv', sh'))"
proof -
  let ?ctx = "\<lparr>rx_seed = (), rx_chain = \<lparr>rcc_network_magic = 77, rcc_chain_id = replicate 32 8\<rparr>,
    rx_identity = sample_chain_identity, rx_password = ''password''\<rparr>"
  let ?sk = "\<lparr>wk_directory = scanned_stage, wk_state = scanned_state, wk_observed_tip_height = None,
    wk_last_recovery_error = None, wk_last_generation_conflict = None, wk_last_storage_failure = None\<rparr>"
  have "require_domain_identity (ws_identity scanned_state) sample_chain_identity = Inr ()"
    by (simp add: scanned_state_def require_domain_identity_def domain_identity_def sample_chain_identity_def)
  then have begins: "begin_pass (lift_result (Inr True)) sample_consensus (\<lambda>_. Some ()) ((), tip_service, tip_shell) =
      (Inr (sample_adapter, scanned_state, scanned_stage, ?ctx), ((), tip_service, tip_shell))"
    using tip_identity
    by (simp add: begin_pass_def tip_service_def tip_shell_def op_then_def on_fst_def map_err_def lift_result_def ensure_def)
      (simp add: sample_chain_identity_def)
  have "synced_to sample_consensus (wallet_sink kind (files_ops (sample_store NoFault)) sample_consensus sample_recovery ?ctx)
      sample_chain_identity sample_chain (length sample_chain) ?sk"
  proof -
    have "cl_cursor_to_bytes sample_consensus = sample_cursor_bytes" "length sample_chain = 3"
      by (simp_all add: sample_consensus_def sample_chain_def)
    then show ?thesis
      using tip_cursor_parses tip_cursor by (simp add: synced_to_def wallet_sink_def cursor_bytes_at_def)
  qed
  from stable_at_tip [OF sample_stable_sync this] begins
  have "run_sync_pass kind (files_ops (sample_store NoFault)) (lift_result (Inr True)) sample_consensus sample_recovery
     (\<lambda>_. Some ()) OnePage ((), tip_service, tip_shell) =
     Some (finish_pass (files_ops (sample_store NoFault)) sample_consensus 2 (Inr RR_NoChanges) ?sk ((), tip_service, tip_shell))"
    by (simp add: run_sync_pass_def run_pass_def) (simp add: sample_chain_identity_def)
  moreover have "is_ok (so_metadata (files_ops (sample_store NoFault)) scanned_stage)"
    by (simp add: files_ops_def scanned_stage_def directory_of_def empty_files_def location_metadata_def io_read_def
        metadata_checked_def metadata_from_state_def is_ok_iff)
  ultimately show ?thesis
    by (auto simp: finish_pass_def Let_def service_summary_def is_ok_iff)
qed

theorem sync_by_whole_pages_witness:
  "\<exists>r w' sv' sh' u. run_sync_pass (IK_Other ''Other'') (files_ops (sample_store NoFault)) (lift_result (Inr True)) sample_consensus
       sample_recovery (\<lambda>_. Some ()) OnePage ((), tip_service, tip_shell) = Some (Inr r, (w', sv', sh')) \<and>
     sv_unlocked sv' = Some u \<and> ws_root_material u = ws_root_material scanned_state \<and> floors_mono scanned_state u"
proof -
  let ?env = "sample_store NoFault"
  let ?d = "\<lparr>wd_metadata = metadata_from_state scanned_state, wd_active = 0,
     wd_generations = [0 \<mapsto> (CompactV2, scanned_state)], wd_snapshot = None\<rparr>"
  obtain r w' sv' sh' where run: "run_sync_pass (IK_Other ''Other'') (files_ops ?env) (lift_result (Inr True)) sample_consensus
       sample_recovery (\<lambda>_. Some ()) OnePage ((), tip_service, tip_shell) = Some (Inr r, (w', sv', sh'))"
    using tip_pass by blast
  have law: "seal_opens ?env" by (simp add: seal_opens_def sample_store_def)
  have sv: "sv_unlocked tip_service = Some scanned_state" "sv_location tip_service = Some scanned_stage"
    "sv_password tip_service = Some ''password''" by (simp_all add: tip_service_def)
  have dir: "directory_of scanned_stage = Some ?d" by (simp add: scanned_stage_def directory_of_def empty_files_def)
  obtain auth where load: "load_checked (quiet ?env) ''password'' ?d = Inr (auth, scanned_state)"
    using storage_load_checked [OF scanned_load] load_checked_quiet by blast
  from sync_by_whole_pages [OF law sv dir load run] show ?thesis using run by (auto simp: is_ok_iff)
qed

end
