(* ===== verification/Core_Wallet.thy ===== *)
theory Core_Wallet
  imports Wallet_Sync Wallet_Seed
begin

text \<open>
  The life of a wallet in the service of \<open>dom-wallet-core\<close>: creation with its recovery phrase,
  opening, unlocking, locking, closing, the confirmation of the phrase, the restores, backups and the
  attachment of a backend. The state is the catalog of wallet directories, the path of the open wallet
  (the handle \<open>WalletDirectory\<close>), the service and its shell. The view of the open directory in the
  service (\<open>sv_location\<close>) is taken from the catalog before an operation of the service and written back
  after it (\<open>on_open\<close>). The mnemonic and hexadecimal libraries, the operating system's randomness, fresh
  identifiers, the readiness and the shutdown of the node are arguments.
\<close>

subsection \<open>State\<close>

record ('w, 'env, 'p) wallet_app =
  wa_node :: 'w
  wa_disk :: "('env, 'p) catalog"
  wa_path :: "string option"
  wa_service :: "('env, 'p) wallet_files wallet_service"
  wa_shell :: "'w service_shell"
  wa_authentication_error :: "string option"

type_synonym ('w, 'env, 'p, 'a) app_op = "(('w, 'env, 'p) wallet_app, core_error, 'a) meth"

definition app_default :: "'w \<Rightarrow> ('env, 'p) catalog \<Rightarrow> ('w, 'env, 'p) wallet_app" where
  "app_default node disk =
     \<lparr>wa_node = node, wa_disk = disk, wa_path = None,
      wa_service = \<lparr>sv_unlocked = None, sv_location = None, sv_password = None, sv_metadata = None,
        sv_sender_secrets = None\<rparr>,
      wa_shell = \<lparr>sh_state = AS_Closed, sh_synchronization_error = None, sh_observed_tip_height = None,
        sh_backend = None\<rparr>,
      wa_authentication_error = None\<rparr>"

definition opened_service :: "('w, 'env, 'p) wallet_app \<Rightarrow> ('env, 'p) wallet_files wallet_service" where
  "opened_service app = (wa_service app)\<lparr>sv_location := Option.bind (wa_path app) (wa_disk app)\<rparr>"

definition put_service ::
  "('env, 'p) wallet_files wallet_service \<Rightarrow> ('w, 'env, 'p) wallet_app \<Rightarrow> ('w, 'env, 'p) wallet_app" where
  "put_service sv app =
     app\<lparr>wa_service := sv,
         wa_disk := (case (wa_path app, sv_location sv) of
             (Some path, Some f) \<Rightarrow> (wa_disk app)(path \<mapsto> f)
           | _ \<Rightarrow> wa_disk app)\<rparr>"

definition on_open :: "(('env, 'p) wallet_files, 'a) service_op \<Rightarrow> ('w, 'env, 'p, 'a) app_op" where
  "on_open m app = (case m (opened_service app) of (r, sv) \<Rightarrow> (r, put_service sv app))"

definition on_disk_of ::
  "(('env, 'p) catalog, storage_error, 'a) meth \<Rightarrow> ('w, 'env, 'p, 'a) app_op" where
  "on_disk_of m app =
     (case m (wa_disk app) of
        (Inl e, disk) \<Rightarrow> (Inl (KE_Storage e), app\<lparr>wa_disk := disk\<rparr>)
      | (Inr a, disk) \<Rightarrow> (Inr a, app\<lparr>wa_disk := disk\<rparr>))"

definition set_state :: "application_state \<Rightarrow> ('w, 'env, 'p) wallet_app \<Rightarrow> ('w, 'env, 'p) wallet_app" where
  "set_state st app = app\<lparr>wa_shell := (wa_shell app)\<lparr>sh_state := st\<rparr>\<rparr>"

subsection \<open>Identities\<close>

text \<open>The hexadecimal encoding of the \<open>hex\<close> crate.\<close>

record hex_lib =
  hx_encode :: "bytes \<Rightarrow> string"
  hx_decode :: "string \<Rightarrow> bytes option"

definition decode_to_slice :: "hex_lib \<Rightarrow> nat \<Rightarrow> string \<Rightarrow> bytes option" where
  "decode_to_slice hx n text_value =
     Option.bind (hx_decode hx text_value) (\<lambda>bs. if length bs = n then Some bs else None)"

definition MAINNET_CHAIN_ID_HEX :: string where
  "MAINNET_CHAIN_ID_HEX = ''f9831fadabc8a4234beab35fbb6327e84581645f33e9f75ed2ea78e8bcf1165b''"

definition MAINNET_GENESIS_HASH_HEX :: string where
  "MAINNET_GENESIS_HASH_HEX = ''182e10af28e7ec072f462e6044f580dc9dd8c866cb78dfc293bbfaee4e9325ce''"

definition mainnet_network_identity :: "hex_lib \<Rightarrow> core_error + network_identity" where
  "mainnet_network_identity hx =
     res_bind (ok_or (decode_to_slice hx 32 MAINNET_CHAIN_ID_HEX) KE_IdentityMismatch) (\<lambda>chain_id.
     res_bind (ok_or (decode_to_slice hx 32 MAINNET_GENESIS_HASH_HEX) KE_IdentityMismatch) (\<lambda>genesis_id.
       Inr \<lparr>ni_network = Mainnet, ni_chain_id = chain_id, ni_genesis_id = genesis_id\<rparr>))"

definition require_mainnet_identity :: "hex_lib \<Rightarrow> network_identity \<Rightarrow> core_error + unit" where
  "require_mainnet_identity hx identity =
     (if ni_network identity \<noteq> Mainnet
       \<or> hx_encode hx (ni_chain_id identity) \<noteq> MAINNET_CHAIN_ID_HEX
       \<or> hx_encode hx (ni_genesis_id identity) \<noteq> MAINNET_GENESIS_HASH_HEX
      then Inl KE_IdentityMismatch else Inr ())"

definition require_canonical_mainnet_when_applicable :: "hex_lib \<Rightarrow> network_identity \<Rightarrow> core_error + unit" where
  "require_canonical_mainnet_when_applicable hx identity =
     (if ni_network identity = Mainnet then require_mainnet_identity hx identity else Inr ())"

definition require_backend_identity ::
  "hex_lib \<Rightarrow> network_identity \<Rightarrow> 'w core_chain_adapter option \<Rightarrow> core_error + unit" where
  "require_backend_identity hx identity backend =
     (case backend of
        None \<Rightarrow> Inr ()
      | Some ad \<Rightarrow> res_bind (require_canonical_mainnet_when_applicable hx identity) (\<lambda>_.
          require_domain_identity identity (ad_identity ad)))"

subsection \<open>Summaries\<close>

definition summary_locked :: "('w, 'env, 'p) wallet_app \<Rightarrow> core_error + wallet_summary" where
  "summary_locked app =
     res_bind (ok_or (sv_metadata (wa_service app)) KE_WalletNotOpen) (\<lambda>m.
       Inr \<lparr>sum_wallet_id = wm_wallet_id m, sum_network = ni_network (wm_identity m),
            sum_generation = wm_active_generation m, sum_cursor_height = None,
            sum_tip_height = sh_observed_tip_height (wa_shell app), sum_seed_restore_status = None,
            sum_balance = balance_default, sum_state = application_state_name (sh_state (wa_shell app)),
            sum_experimental = True, sum_unaudited = True\<rparr>)"

definition app_summary ::
  "('hdr, 'cm) consensus_lib \<Rightarrow> ('w, 'env, 'p) wallet_app \<Rightarrow> core_error + wallet_summary" where
  "app_summary clib app = service_summary clib (wa_service app) (wa_shell app)"

definition ensure_closed :: "('w, 'env, 'p) wallet_app \<Rightarrow> core_error + unit" where
  "ensure_closed app = ensure (sh_state (wa_shell app) = AS_Closed) KE_InvalidLifecycleState"

text \<open>A directory has been created, opened or imported: its metadata is read and it becomes the open wallet.\<close>

definition adopt :: "'env storage_env \<Rightarrow> string \<Rightarrow> ('w, 'env, 'p, wallet_summary) app_op" where
  "adopt env path app =
     (case res_bind (ok_or (wa_disk app path) SE_Io) (so_metadata (files_ops env)) of
        Inl e \<Rightarrow> (Inl (KE_Storage e), app)
      | Inr m \<Rightarrow>
          let app1 = set_state AS_Locked
                (app\<lparr>wa_path := Some path, wa_service := (wa_service app)\<lparr>sv_metadata := Some m\<rparr>\<rparr>)
          in (summary_locked app1, app1))"

subsection \<open>Creation\<close>

definition unconfirmed_state ::
  "uuid \<Rightarrow> uuid \<Rightarrow> network_identity \<Rightarrow> bytes \<Rightarrow> wallet_state" where
  "unconfirmed_state fresh_wallet_id fresh_account_id identity root_material =
     (wallet_new fresh_wallet_id fresh_account_id identity root_material (default_node_configuration identity))
       \<lparr>ws_recovery := Some \<lparr>rm_scheme = RECOVERY_SCHEME_BIP39_256_V1, rm_phrase_confirmed = False\<rparr>\<rparr>"

definition create_recoverable ::
  "'env storage_env \<Rightarrow> ('m, 'x) bip39_lib \<Rightarrow> bytes option \<Rightarrow> uuid \<Rightarrow> uuid \<Rightarrow> string \<Rightarrow> string \<Rightarrow> network_identity \<Rightarrow>
     ('w, 'env, 'p, wallet_summary \<times> string) app_op" where
  "create_recoverable env blib random fresh_wallet_id fresh_account_id path password identity app =
     op_then (lift_result (ensure_closed app)) (\<lambda>_.
     op_then (lift_result (validate_password password)) (\<lambda>_.
     op_then (lift_result (map_sum (\<lambda>_. KE_RecoveryPhraseInvalid) id (generate blib random))) (\<lambda>seed.
     op_then (on_disk_of (create env path
         (unconfirmed_state fresh_wallet_id fresh_account_id identity (copy_entropy_to blib seed)) password)) (\<lambda>_.
     op_then (adopt env path) (\<lambda>summary.
       lift_result (Inr (summary, mnemonic_text blib seed))))))) app"

definition create_recoverable_for_embedded ::
  "'env storage_env \<Rightarrow> ('m, 'x) bip39_lib \<Rightarrow> bytes option \<Rightarrow> uuid \<Rightarrow> uuid \<Rightarrow> string \<Rightarrow> string \<Rightarrow>
     ('w, 'env, 'p, wallet_summary \<times> string) app_op" where
  "create_recoverable_for_embedded env blib random fresh_wallet_id fresh_account_id path password app =
     op_then (lift_result (ok_or (sh_backend (wa_shell app)) KE_EmbeddedCoreRequired)) (\<lambda>ad.
       create_recoverable env blib random fresh_wallet_id fresh_account_id path password
         \<lparr>ni_network = map_network (cci_network (ad_identity ad)), ni_chain_id = cci_chain_id (ad_identity ad),
          ni_genesis_id = cci_genesis_hash (ad_identity ad)\<rparr>) app"

definition resume_recoverable_creation ::
  "'env storage_env \<Rightarrow> ('m, 'x) bip39_lib \<Rightarrow> string \<Rightarrow> string \<Rightarrow> ('w, 'env, 'p, wallet_summary \<times> string) app_op" where
  "resume_recoverable_creation env blib path password app =
     op_then (lift_result (ensure_closed app)) (\<lambda>_.
     op_then (lift_result (validate_password password)) (\<lambda>_.
     op_then (on_disk_of (resume_create env path password)) (\<lambda>(_, s).
     op_then (lift_result (ensure (unconfirmed_phrase s) KE_RecoveryPhraseAlreadyConfirmed)) (\<lambda>_.
     op_then (lift_result (map_sum (\<lambda>_. KE_RecoveryPhraseInvalid) id (from_entropy blib (ws_root_material s)))) (\<lambda>seed.
     op_then (adopt env path) (\<lambda>summary.
       lift_result (Inr (summary, mnemonic_text blib seed)))))))) app"

definition abort_recoverable_creation ::
  "'env storage_env \<Rightarrow> string \<Rightarrow> string \<Rightarrow> ('w, 'env, 'p, unit) app_op" where
  "abort_recoverable_creation env path password app =
     op_then (lift_result (ensure_closed app)) (\<lambda>_.
     op_then (lift_result (validate_password password)) (\<lambda>_.
       on_disk_of (abort_create env path password))) app"

subsection \<open>Opening, unlocking, locking, closing\<close>

definition open_wallet ::
  "hex_lib \<Rightarrow> 'env storage_env \<Rightarrow> string \<Rightarrow> ('w, 'env, 'p, wallet_summary) app_op" where
  "open_wallet hx env path app =
     op_then (lift_result (ensure_closed app)) (\<lambda>_.
     op_then (on_disk_of (\<lambda>disk. (open_directory env path disk, disk))) (\<lambda>_ app1.
       case res_bind (ok_or (wa_disk app1 path) SE_Io) (so_metadata (files_ops env)) of
         Inl e \<Rightarrow> (Inl (KE_Storage e), app1)
       | Inr m \<Rightarrow> op_then (lift_result (require_backend_identity hx (wm_identity m) (sh_backend (wa_shell app1))))
           (\<lambda>_. adopt env path) app1)) app"

fun storage_redacted_code :: "storage_error \<Rightarrow> string" where
  "storage_redacted_code SE_WriterActive = ''WALLET_WRITER_ACTIVE''"
| "storage_redacted_code (SE_ExpectedGenerationConflict current) = ''WALLET_STORAGE_GENERATION_CONFLICT''"
| "storage_redacted_code SE_InvalidPassword = ''INVALID_PASSWORD''"
| "storage_redacted_code SE_AuthenticationDataCorrupt = ''WALLET_AUTH_DATA_CORRUPT''"
| "storage_redacted_code SE_AuthenticatedPayloadCorrupt = ''WALLET_PAYLOAD_CORRUPT''"
| "storage_redacted_code SE_InvalidMetadata = ''WALLET_METADATA_CORRUPT''"
| "storage_redacted_code SE_NotFound = ''WALLET_NOT_FOUND''"
| "storage_redacted_code SE_StateTooLarge = WALLET_STATE_STORAGE_LIMIT_EXCEEDED"
| "storage_redacted_code SE_Io = WALLET_STORAGE_IO_FAILED"
| "storage_redacted_code (SE_Domain e) = ''WALLET_STATE_VALIDATION_FAILED''"
| "storage_redacted_code e = ''WALLET_STORAGE_FAILED''"

text \<open>A panic carries no code.\<close>

primrec redacted_code :: "core_error \<Rightarrow> string" where
  "redacted_code KE_WalletNotOpen = ''WALLET_NOT_OPEN''"
| "redacted_code KE_Locked = ''WALLET_LOCKED''"
| "redacted_code KE_InvalidLifecycleState = ''INVALID_WALLET_STATE''"
| "redacted_code KE_InvalidPassword = ''INVALID_PASSWORD''"
| "redacted_code KE_RandomnessUnavailable = ''RANDOMNESS_UNAVAILABLE''"
| "redacted_code KE_RecoveryCeremonyRequired = ''RECOVERY_CONFIRMATION_REQUIRED''"
| "redacted_code KE_RecoveryPhraseAlreadyConfirmed = ''RECOVERY_PHRASE_ALREADY_CONFIRMED''"
| "redacted_code KE_RecoveryPhraseInvalid = ''RECOVERY_PHRASE_INVALID''"
| "redacted_code KE_RecoveryUnavailable = ''RECOVERY_UNAVAILABLE''"
| "redacted_code KE_InvalidBackupDestination = ''BACKUP_DESTINATION_INVALID''"
| "redacted_code KE_EmbeddedCoreRequired = ''EMBEDDED_NODE_REQUIRED''"
| "redacted_code KE_NodeNotReady = ''EMBEDDED_NODE_NOT_READY''"
| "redacted_code KE_IdentityMismatch = ''CHAIN_IDENTITY_MISMATCH''"
| "redacted_code KE_AddressIdentityRequired = ''ADDRESS_IDENTITY_REQUIRED''"
| "redacted_code KE_InvalidTransactionInput = ''TRANSACTION_INPUT_INVALID''"
| "redacted_code KE_TransactionExpired = ''TRANSACTION_EXPIRED''"
| "redacted_code KE_TransactionLifetimeExceeded = ''TRANSACTION_LIFETIME_EXCEEDED''"
| "redacted_code KE_InsufficientFunds = ''INSUFFICIENT_FUNDS''"
| "redacted_code KE_UnsupportedSpendingEvidence = ''SPENDING_EVIDENCE_UNSUPPORTED''"
| "redacted_code KE_FeeTooLow = ''FEE_TOO_LOW''"
| "redacted_code KE_ArithmeticOverflow = ''ARITHMETIC_OVERFLOW''"
| "redacted_code KE_ReservationConflict = ''OUTPUT_RESERVATION_CONFLICT''"
| "redacted_code KE_InvalidScriptlessFundingRequest = ''SCRIPTLESS_FUNDING_REQUEST_INVALID''"
| "redacted_code KE_ScriptlessFundingSessionConflict = ''SCRIPTLESS_FUNDING_SESSION_CONFLICT''"
| "redacted_code KE_ScriptlessFundingShapeMismatch = ''SCRIPTLESS_FUNDING_SHAPE_MISMATCH''"
| "redacted_code KE_ScriptlessFundingReservationNotFound = ''SCRIPTLESS_FUNDING_RESERVATION_NOT_FOUND''"
| "redacted_code KE_ScriptlessFundingNotPrepared = ''SCRIPTLESS_FUNDING_NOT_PREPARED''"
| "redacted_code KE_ScriptlessFundingCannotExport = ''SCRIPTLESS_FUNDING_CANNOT_EXPORT''"
| "redacted_code KE_ScriptlessFundingSigningNotAuthorized = ''SCRIPTLESS_FUNDING_SIGNING_NOT_AUTHORIZED''"
| "redacted_code KE_ScriptlessFundingContextMismatch = ''SCRIPTLESS_FUNDING_CONTEXT_MISMATCH''"
| "redacted_code KE_ScriptlessFundingCannotRelease = ''SCRIPTLESS_FUNDING_CANNOT_RELEASE''"
| "redacted_code KE_ScriptlessSessionBindingRequired = ''SCRIPTLESS_SESSION_BINDING_REQUIRED''"
| "redacted_code KE_ScriptlessSessionBindingMismatch = ''SCRIPTLESS_SESSION_BINDING_MISMATCH''"
| "redacted_code KE_ScriptlessTemplateBindingMismatch = ''SCRIPTLESS_TEMPLATE_BINDING_MISMATCH''"
| "redacted_code KE_InvalidScriptlessPayoutRequest = ''SCRIPTLESS_PAYOUT_REQUEST_INVALID''"
| "redacted_code KE_ScriptlessPayoutSessionConflict = ''SCRIPTLESS_PAYOUT_SESSION_CONFLICT''"
| "redacted_code KE_ScriptlessPayoutReservationNotFound = ''SCRIPTLESS_PAYOUT_RESERVATION_NOT_FOUND''"
| "redacted_code KE_ScriptlessPayoutNotPrepared = ''SCRIPTLESS_PAYOUT_NOT_PREPARED''"
| "redacted_code KE_ScriptlessPayoutCannotExport = ''SCRIPTLESS_PAYOUT_CANNOT_EXPORT''"
| "redacted_code KE_ScriptlessPayoutContextMismatch = ''SCRIPTLESS_PAYOUT_CONTEXT_MISMATCH''"
| "redacted_code KE_ScriptlessPayoutSigningNotAuthorized = ''SCRIPTLESS_PAYOUT_SIGNING_NOT_AUTHORIZED''"
| "redacted_code KE_ScriptlessPayoutCannotRelease = ''SCRIPTLESS_PAYOUT_CANNOT_RELEASE''"
| "redacted_code KE_InvalidSlateTransport = ''SLATE_V4_TRANSPORT_INVALID''"
| "redacted_code KE_SlateReplayConflict = ''SLATE_REPLAY_CONFLICT''"
| "redacted_code KE_InvalidTransactionTransition = ''TRANSACTION_STATE_INVALID''"
| "redacted_code KE_MissingPrivateContext = ''SLATE_PRIVATE_CONTEXT_MISSING''"
| "redacted_code KE_ProtocolRejected = ''PROTOCOL_REJECTED''"
| "redacted_code KE_CoverPolicyRejected = ''COVER_POLICY_REJECTED''"
| "redacted_code KE_FinalizedTransactionConflict = ''FINALIZED_TRANSACTION_CONFLICT''"
| "redacted_code KE_MixedOutputRegime = ''MIXED_OUTPUT_REGIME''"
| "redacted_code KE_CannotCancelTransaction = ''TRANSACTION_CANNOT_CANCEL''"
| "redacted_code KE_ConfirmationRequired = ''CONFIRMATION_REQUIRED''"
| "redacted_code KE_TransactionNotFound = ''TRANSACTION_NOT_FOUND''"
| "redacted_code KE_InvalidCoreCursor = ''CURSOR_INVALID''"
| "redacted_code (KE_Backend transient) = ''EMBEDDED_NODE_OPERATION_FAILED''"
| "redacted_code KE_Protocol = ''PROTOCOL_VALIDATION_FAILED''"
| "redacted_code KE_Recovery = ''RECOVERY_MATERIAL_FAILED''"
| "redacted_code KE_Restore = ''RESTORE_FAILED''"
| "redacted_code (KE_Submission e) = ''TRANSACTION_SUBMISSION_FAILED''"
| "redacted_code (KE_Storage e) = storage_redacted_code e"
| "redacted_code (KE_Domain e) =
     (if e = SwapSessionNotFound then ''SWAP_SESSION_NOT_FOUND''
      else if e = InvalidSwapTransition then ''SWAP_TRANSITION_INVALID'' else ''WALLET_STATE_VALIDATION_FAILED'')"
| "redacted_code KE_Panic = []"

definition load_open :: "'env storage_env \<Rightarrow> string \<Rightarrow> ('w, 'env, 'p, wallet_state) app_op" where
  "load_open env password app =
     (case wa_path app of
        None \<Rightarrow> (Inl KE_WalletNotOpen, app)
      | Some path \<Rightarrow> on_disk_of (on_entry path (so_load (files_ops env) password)) app)"

definition secret_from_bytes :: "string \<Rightarrow> core_error + string" where
  "secret_from_bytes bs = (if bs = [] \<or> 4096 < length bs then Inl KE_InvalidPassword else Inr bs)"

definition unlock_checked ::
  "hex_lib \<Rightarrow> 'env storage_env \<Rightarrow> ('hdr, 'cm) consensus_lib \<Rightarrow> string \<Rightarrow> ('w, 'env, 'p, wallet_summary) app_op" where
  "unlock_checked hx env clib password =
     op_then (lift_result (secret_from_bytes password)) (\<lambda>secret.
     op_then (load_open env password) (\<lambda>s app.
     op_then (lift_result (require_backend_identity hx (ws_identity s) (sh_backend (wa_shell app)))) (\<lambda>_ app1.
       let app2 = set_state AS_Unlocked
             (app1\<lparr>wa_service := (wa_service app1)\<lparr>sv_password := Some secret, sv_unlocked := Some s\<rparr>\<rparr>)
       in (app_summary clib app2, app2)) app))"

definition unlock ::
  "hex_lib \<Rightarrow> 'env storage_env \<Rightarrow> ('hdr, 'cm) consensus_lib \<Rightarrow> string \<Rightarrow> ('w, 'env, 'p, wallet_summary) app_op" where
  "unlock hx env clib password app =
     (if sh_state (wa_shell app) \<noteq> AS_Locked then (Inl KE_InvalidLifecycleState, app)
      else case unlock_checked hx env clib password (set_state AS_Unlocking app) of
        (Inl e, app1) \<Rightarrow>
          (Inl e, (set_state AS_Locked app1)\<lparr>wa_authentication_error := Some (redacted_code e)\<rparr>)
      | (Inr summary, app1) \<Rightarrow> (Inr summary, app1\<lparr>wa_authentication_error := None\<rparr>))"

definition lock :: "('w, 'env, 'p, unit) app_op" where
  "lock app =
     (if wa_path app = None then (Inl KE_WalletNotOpen, app)
      else (Inr (), set_state AS_Locked
        (app\<lparr>wa_service := (wa_service app)
               \<lparr>sv_sender_secrets := None, sv_unlocked := None, sv_password := None\<rparr>\<rparr>)))"

definition on_node :: "('w, core_error, 'a) meth \<Rightarrow> ('w, 'env, 'p, 'a) app_op" where
  "on_node m app = (case m (wa_node app) of (r, w) \<Rightarrow> (r, app\<lparr>wa_node := w\<rparr>))"

text \<open>The backend is taken out of the service before its shutdown, whatever that reports.\<close>

definition close :: "('w, core_error, unit) meth \<Rightarrow> ('w, 'env, 'p, unit) app_op" where
  "close shutdown app =
     op_then (if wa_path app \<noteq> None then lock else lift_result (Inr ())) (\<lambda>_ app1.
     op_then (if sh_backend (wa_shell app1) = None then lift_result (Inr ())
         else (\<lambda>app2. on_node shutdown (app2\<lparr>wa_shell := (wa_shell app2)\<lparr>sh_backend := None\<rparr>\<rparr>))) (\<lambda>_ app2.
       (Inr (), set_state AS_Closed
          (app2\<lparr>wa_path := None, wa_service := (wa_service app2)\<lparr>sv_metadata := None\<rparr>\<rparr>))) app1) app"

subsection \<open>The backend\<close>

record probe_result =
  pr_source_identity :: string
  pr_network :: network
  pr_tip_height :: u64
  pr_connected :: bool

definition PRODUCTION_BACKEND_KIND :: string where
  "PRODUCTION_BACKEND_KIND = ''EMBEDDED_WALLET_CORE_API_ONLY''"

definition REMOTE_BACKEND_KIND :: string where
  "REMOTE_BACKEND_KIND = ''REMOTE_WALLET_CORE_API_SCAN_ONLY''"

definition attach_backend ::
  "('hdr, 'cm) consensus_lib \<Rightarrow> bool \<Rightarrow> 'w core_chain_adapter \<Rightarrow> ('w, 'env, 'p, probe_result) app_op" where
  "attach_backend clib embedded ad app =
     op_then (lift_result (ensure (sh_backend (wa_shell app) = None) KE_InvalidLifecycleState)) (\<lambda>_.
     op_then (lift_result (case sv_unlocked (wa_service app) of
         None \<Rightarrow> Inr () | Some s \<Rightarrow> require_domain_identity (ws_identity s) (ad_identity ad))) (\<lambda>_.
     op_then (on_node (map_err backend_error (current_identity clib ad))) (\<lambda>identity app1.
       let tip = cbr_height (cci_current_tip identity) in
       (Inr \<lparr>pr_source_identity = (if embedded then PRODUCTION_BACKEND_KIND else REMOTE_BACKEND_KIND),
             pr_network = map_network (cci_network identity), pr_tip_height = tip, pr_connected = True\<rparr>,
        app1\<lparr>wa_shell := (wa_shell app1)\<lparr>sh_backend := Some ad, sh_observed_tip_height := Some tip\<rparr>\<rparr>)))) app"

subsection \<open>Configuration and synchronization\<close>

definition mining_preferences_of :: "'d wallet_service \<Rightarrow> core_error + mining_preferences" where
  "mining_preferences_of sv = res_bind (ok_or (sv_unlocked sv) KE_Locked) (\<lambda>s. Inr (ws_mining_preferences s))"

definition set_mining_preferences ::
  "'env storage_env \<Rightarrow> bool \<Rightarrow> nat \<Rightarrow> ('w, 'env, 'p, mining_preferences) app_op" where
  "set_mining_preferences env enabled cpu_threads =
     on_open (op_then (lift_result (ensure (cpu_threads \<noteq> 0 \<and> cpu_threads \<le> 4096) KE_InvalidTransactionInput)) (\<lambda>_.
       op_then (with_clone (files_ops env) (\<lambda>s.
         Inr (s\<lparr>ws_mining_preferences := \<lparr>mp_enabled = enabled, mp_cpu_threads = cpu_threads\<rparr>\<rparr>, ()))) (\<lambda>_ sv.
           (mining_preferences_of sv, sv))))"

definition set_node_configuration ::
  "'env storage_env \<Rightarrow> node_configuration \<Rightarrow> ('w, 'env, 'p, unit) app_op" where
  "set_node_configuration env configuration =
     on_open (op_then (lift_result (map_sum KE_Domain id (node_configuration_validate configuration))) (\<lambda>_.
       with_clone (files_ops env) (\<lambda>s.
         if nc_expected_identity configuration \<noteq> ws_identity s then Inl KE_IdentityMismatch
         else Inr (s\<lparr>ws_node_configuration := configuration\<rparr>, ()))))"

text \<open>A pass of the synchronization, on the open directory.\<close>

definition app_sync_pass ::
  "io_kind \<Rightarrow> 'env storage_env \<Rightarrow> ('w, core_error, bool) meth \<Rightarrow> ('hdr, 'cm) consensus_lib \<Rightarrow> 'seed recovery_lib \<Rightarrow>
     (bytes \<Rightarrow> 'seed option) \<Rightarrow> sync_pass \<Rightarrow> ('w, 'env, 'p) wallet_app \<Rightarrow>
     ((core_error + wallet_summary) \<times> ('w, 'env, 'p) wallet_app) option" where
  "app_sync_pass kind env is_ready clib rlib seed_of pass app =
     map_option (\<lambda>(r, w, sv, sh). (r, put_service sv (app\<lparr>wa_node := w, wa_shell := sh\<rparr>)))
       (run_sync_pass kind (files_ops env) is_ready clib rlib seed_of pass
          (wa_node app, opened_service app, wa_shell app))"

subsection \<open>Restoring\<close>

definition restore_from_mnemonic_offline_with_identity ::
  "'env storage_env \<Rightarrow> ('m, 'x) bip39_lib \<Rightarrow> ('m, 'x) canonical_wallet_seed recovery_lib \<Rightarrow> uuid \<Rightarrow> uuid \<Rightarrow>
     string \<Rightarrow> string \<Rightarrow> string \<Rightarrow> network_identity \<Rightarrow> ('w, 'env, 'p, wallet_summary) app_op" where
  "restore_from_mnemonic_offline_with_identity env blib rlib fresh_wallet_id fresh_account_id path password phrase
       identity app =
     op_then (lift_result (ensure_closed app)) (\<lambda>_.
     op_then (lift_result (validate_password password)) (\<lambda>_.
     op_then (lift_result (case sh_backend (wa_shell app) of
         None \<Rightarrow> Inr () | Some ad \<Rightarrow> require_domain_identity identity (ad_identity ad))) (\<lambda>_.
     op_then (lift_result (map_sum (\<lambda>_. KE_RecoveryPhraseInvalid) id (parse_phrase blib phrase))) (\<lambda>seed.
     op_then (on_disk_of (create env path
         (offline_restore_state rlib fresh_wallet_id fresh_account_id seed identity) password)) (\<lambda>_.
     op_then (adopt env path) (\<lambda>summary.
       lift_result (Inr (summary\<lparr>sum_seed_restore_status := Some (seed_restore_status_name InProgress)\<rparr>)))))))) app"

definition restore_from_mnemonic_offline ::
  "hex_lib \<Rightarrow> 'env storage_env \<Rightarrow> ('m, 'x) bip39_lib \<Rightarrow> ('m, 'x) canonical_wallet_seed recovery_lib \<Rightarrow> uuid \<Rightarrow> uuid \<Rightarrow>
     string \<Rightarrow> string \<Rightarrow> string \<Rightarrow> ('w, 'env, 'p, wallet_summary) app_op" where
  "restore_from_mnemonic_offline hx env blib rlib fresh_wallet_id fresh_account_id path password phrase =
     op_then (lift_result (mainnet_network_identity hx)) (\<lambda>identity.
       restore_from_mnemonic_offline_with_identity env blib rlib fresh_wallet_id fresh_account_id path password
         phrase identity)"

definition backend_restore_service :: "'w core_chain_adapter \<Rightarrow> 'w seed_restore_service" where
  "backend_restore_service ad =
     \<lparr>sr_api = ad_api ad, sr_expected_identity = ad_identity ad, sr_batch_blocks = 256, sr_reorg_depth = 1024,
      sr_busy_retry_attempts = 12\<rparr>"

text \<open>\<open>None\<close>: the loop of the restore does not end.\<close>

definition restore_from_mnemonic ::
  "'env storage_env \<Rightarrow> ('hdr, 'cm) consensus_lib \<Rightarrow> ('m, 'x) bip39_lib \<Rightarrow>
     ('m, 'x) canonical_wallet_seed recovery_lib \<Rightarrow> uuid \<Rightarrow> uuid \<Rightarrow> string \<Rightarrow> string \<Rightarrow> string \<Rightarrow>
     ('w, 'env, 'p) wallet_app \<Rightarrow>
     ((core_error + wallet_summary \<times> seed_restore_result) \<times> ('w, 'env, 'p) wallet_app) option" where
  "restore_from_mnemonic env clib blib rlib fresh_wallet_id fresh_account_id path password phrase app =
     (case res_bind (ensure_closed app) (\<lambda>_. ok_or (sh_backend (wa_shell app)) KE_EmbeddedCoreRequired) of
        Inl e \<Rightarrow> Some (Inl e, app)
      | Inr ad \<Rightarrow>
          map_option (\<lambda>(r, w, disk).
              let app1 = app\<lparr>wa_node := w, wa_disk := disk\<rparr> in
              case r of
                Inl _ \<Rightarrow> (Inl KE_Restore, app1)
              | Inr recovery \<Rightarrow>
                  op_then (on_disk_of (\<lambda>disk. (open_directory env path disk, disk))) (\<lambda>_.
                  op_then (adopt env path) (\<lambda>summary. lift_result (Inr (summary, recovery)))) app1)
            (restore env clib rlib
               (\<lambda>p. case parse_phrase blib p of Inl _ \<Rightarrow> None | Inr seed \<Rightarrow> Some seed)
               (backend_restore_service ad) fresh_wallet_id fresh_account_id phrase password path
               (wa_node app, wa_disk app)))"

subsection \<open>The recovery ceremony\<close>

definition recovery_phrase_confirmed ::
  "'env storage_env \<Rightarrow> string \<Rightarrow> ('w, 'env, 'p, unit) app_op" where
  "recovery_phrase_confirmed env password app =
     op_then (lift_result (ensure (sh_state (wa_shell app) = AS_Locked) KE_InvalidLifecycleState)) (\<lambda>_.
     op_then (lift_result (validate_password password)) (\<lambda>_.
     op_then (lift_result (ok_or (wa_path app) KE_WalletNotOpen)) (\<lambda>path.
     op_then (load_open env password) (\<lambda>s.
     op_then (lift_result (ok_or (ws_recovery s) KE_RecoveryUnavailable)) (\<lambda>recovery.
     op_then (on_disk_of (on_entry path (so_commit (files_ops env) password (ws_generation s)
         (s\<lparr>ws_recovery := Some (recovery\<lparr>rm_phrase_confirmed := True\<rparr>)\<rparr>)))) (\<lambda>_.
     op_then (on_disk_of (on_entry path (\<lambda>f. (so_metadata (files_ops env) f, f)))) (\<lambda>m app1.
       (Inr (), app1\<lparr>wa_service := (wa_service app1)\<lparr>sv_metadata := Some m\<rparr>\<rparr>)))))))) app"

definition recovery_phrase_resume ::
  "'env storage_env \<Rightarrow> ('hdr, 'cm) consensus_lib \<Rightarrow> ('m, 'x) bip39_lib \<Rightarrow> string \<Rightarrow>
     ('w, 'env, 'p, wallet_summary \<times> string) app_op" where
  "recovery_phrase_resume env clib blib password app =
     op_then (lift_result (ensure (sh_state (wa_shell app) = AS_Locked \<or> sh_state (wa_shell app) = AS_Unlocked)
         KE_InvalidLifecycleState)) (\<lambda>_.
     op_then (lift_result (validate_password password)) (\<lambda>_.
     op_then (load_open env password) (\<lambda>s.
     op_then (lift_result (ok_or (ws_recovery s) KE_RecoveryUnavailable)) (\<lambda>recovery.
     op_then (lift_result (ensure (rm_scheme recovery = RECOVERY_SCHEME_BIP39_256_V1) KE_RecoveryPhraseInvalid)) (\<lambda>_.
     op_then (lift_result (ensure (\<not> rm_phrase_confirmed recovery) KE_RecoveryPhraseAlreadyConfirmed)) (\<lambda>_.
     op_then (lift_result (map_sum (\<lambda>_. KE_RecoveryPhraseInvalid) id (from_entropy blib (ws_root_material s)))) (\<lambda>seed app1.
     op_then (lift_result (if sh_state (wa_shell app1) = AS_Unlocked then app_summary clib app1 else summary_locked app1))
       (\<lambda>wallet. lift_result (Inr (wallet, mnemonic_text blib seed))) app1))))))) app"

subsection \<open>Backups\<close>

record backup_status =
  bs_format_version :: u16
  bs_destination_name :: string

text \<open>\<open>file_name\<close> is the last component of the destination, where it has one that is text.\<close>

definition backup_export ::
  "('env, 'p, 'b) files_env \<Rightarrow> string option \<Rightarrow> string \<Rightarrow>
     (('w, 'env, 'p) wallet_app \<times> 'b backup_container option, core_error, backup_status) meth" where
  "backup_export env file_name backup_password x =
     (let app = fst x in
      op_then (lift_result (validate_password backup_password)) (\<lambda>_.
      op_then (lift_result (ensure_phrase_confirmed (wa_service app))) (\<lambda>_.
      op_then (lift_result (ok_or (sv_unlocked (wa_service app)) KE_Locked)) (\<lambda>_.
      op_then (lift_result (ok_or (sv_password (wa_service app)) KE_Locked)) (\<lambda>wallet_password.
      op_then (lift_result (ok_or (Option.bind file_name (\<lambda>n. if n = [] then None else Some n))
          KE_InvalidBackupDestination)) (\<lambda>name.
      op_then (lift_result (ok_or (wa_path app) KE_WalletNotOpen)) (\<lambda>path x1.
        (case wa_disk (fst x1) path of
           None \<Rightarrow> (Inl (KE_Storage SE_Io), x1)
         | Some f \<Rightarrow>
             (case export_backup env wallet_password backup_password (f, snd x1) of
                (Inl e, (f1, file)) \<Rightarrow>
                  (Inl (KE_Storage e), ((fst x1)\<lparr>wa_disk := (wa_disk (fst x1))(path \<mapsto> f1)\<rparr>, file))
              | (Inr _, (f1, file)) \<Rightarrow>
                  (Inr \<lparr>bs_format_version = BACKUP_FORMAT_VERSION, bs_destination_name = name\<rparr>,
                   ((fst x1)\<lparr>wa_disk := (wa_disk (fst x1))(path \<mapsto> f1)\<rparr>, file)))))))))) x)"

definition backup_import ::
  "('env, 'p, 'b) files_env \<Rightarrow> string \<Rightarrow> 'b backup_container option \<Rightarrow> string \<Rightarrow> string \<Rightarrow> network_identity \<Rightarrow>
     ('w, 'env, 'p, wallet_summary) app_op" where
  "backup_import env destination backup backup_password wallet_password expected_identity app =
     op_then (lift_result (ensure_closed app)) (\<lambda>_.
     op_then (lift_result (validate_password backup_password)) (\<lambda>_.
     op_then (lift_result (validate_password wallet_password)) (\<lambda>_.
     op_then (on_disk_of (import_backup env destination backup backup_password wallet_password expected_identity)) (\<lambda>_.
       adopt (fe_store env) destination)))) app"

subsection \<open>The chain of a directory\<close>

text \<open>
  The chain identity in a directory's metadata never changes, whatever fails while it is written; a
  state that a commit or a load returns is one of that chain.
\<close>

definition files_chain :: "('env, 'p) wallet_files \<Rightarrow> network_identity option" where
  "files_chain f = map_option wm_identity (wf_metadata f)"

lemma files_chain_store:
  "directory_of f = Some d \<Longrightarrow> files_chain f = Some (wm_identity (wd_metadata d))"
  "files_chain (store_directory d f) = Some (wm_identity (wd_metadata d))"
  by (auto simp: files_chain_def directory_of_def store_directory_def split: option.splits)

lemma admitted_chain:
  assumes "stage_admits d expected s s1"
  shows "ws_identity s1 = wm_identity (wd_metadata d)"
proof -
  have "s1 = s\<lparr>ws_generation := ws_generation s1\<rparr>" and id: "ws_identity s = wm_identity (wd_metadata d)"
    using assms by (simp_all add: stage_admits_def)
  from arg_cong [OF this(1), of ws_identity] id show ?thesis by simp
qed

lemma commit_directory_chain:
  assumes run: "commit_with_encoding env expected s pw enc d = (r, d')"
  shows "wm_identity (wd_metadata d') = wm_identity (wd_metadata d)"
proof -
  obtain q d1 where stage: "stage_generation env expected s pw enc d = (q, d1)" by fastforce
  have d1: "wd_metadata d1 = wd_metadata d" using stage_keeps [OF stage] by (simp add: keeps_active_def)
  show ?thesis
  proof (cases q)
    case (Inl e)
    then show ?thesis using run stage d1 by (simp add: commit_with_encoding_def op_then_def)
  next
    case (Inr s1)
    obtain p d2 where pub: "publish_staged_generation env expected s1 d1 = (p, d2)" by fastforce
    have "stage_admits d expected s s1" using stage_ok(1) stage Inr by blast
    from admitted_chain [OF this] have "wm_identity (wd_metadata d2) = wm_identity (wd_metadata d)"
      using publish_cases [OF pub] d1 by (auto simp: keeps_active_def metadata_from_state_def)
    then show ?thesis
      using run stage Inr pub by (auto simp: commit_with_encoding_def op_then_def split: sum.splits)
  qed
qed

lemma commit_chain:
  assumes run: "so_commit (files_ops env) pw g s f = (r, f')"
  shows "files_chain f' = files_chain f \<and> (\<forall>t. r = Inr t \<longrightarrow> files_chain f = Some (ws_identity t))"
proof (cases "directory_of f")
  case None
  then show ?thesis using run by (auto simp: files_ops_def on_directory_def)
next
  case (Some d)
  then obtain d' where run': "commit_with_encoding env g s pw CompactV2 d = (r, d')" and "f' = store_directory d' f"
    using run by (auto simp: files_ops_def on_directory_def storage_commit_def split: prod.splits)
  then show ?thesis
    using commit_directory_chain [OF run'] commit_admits [of env g s pw CompactV2 d _ d'] admitted_chain Some
    by (fastforce simp: files_chain_store)
qed

lemma load_chain:
  assumes run: "so_load (files_ops env) pw f = (r, f')"
  shows "files_chain f' = files_chain f \<and> (\<forall>t. r = Inr t \<longrightarrow> files_chain f = Some (ws_identity t))"
proof (cases "directory_of f")
  case None
  then show ?thesis using run by (auto simp: files_ops_def on_directory_def)
next
  case (Some d)
  then obtain d' where run': "storage_load env pw d = (r, d')" and f': "f' = store_directory d' f"
    using run by (auto simp: files_ops_def on_directory_def split: prod.splits)
  show ?thesis
  proof (cases "load_checked env pw d")
    case (Inl e)
    then show ?thesis using run' f' Some by (auto simp: storage_load_def files_chain_store)
  next
    case (Inr x)
    then obtain a s where x: "load_checked env pw d = Inr (a, s)" by (cases x) auto
    then have id: "ws_identity s = wm_identity (wd_metadata d)" by (simp add: load_checked_iff)
    have "d' = d \<or> interrupted_publication d \<and> d' = d\<lparr>wd_metadata := metadata_from_state s\<rparr>"
      using run' x by (auto simp: storage_load_def split: if_splits elim!: op_thenE io_writeE)
    moreover have "\<forall>t. r = Inr t \<longrightarrow> t = s"
    proof (intro allI impI)
      fix t assume "r = Inr t"
      from storage_load_checked [OF run' [unfolded this]] x show "t = s" by simp
    qed
    moreover have "wm_identity (metadata_from_state s) = ws_identity s" by (simp add: metadata_from_state_def)
    ultimately have "wm_identity (wd_metadata d') = ws_identity s" using id by auto
    then show ?thesis
      using id \<open>\<forall>t. r = Inr t \<longrightarrow> t = s\<close> files_chain_store(1) [OF Some] files_chain_store(2) [of d' f] by (auto simp: f')
  qed
qed

subsection \<open>A synchronization stays on the wallet's chain\<close>

definition sink_on_chain :: "network_identity \<Rightarrow> ('env, 'p) wallet_files wallet_sink_state \<Rightarrow> bool" where
  "sink_on_chain i sk \<longleftrightarrow> files_chain (wk_directory sk) = Some i \<and> ws_identity (wk_state sk) = i"

lemma sink_commit_chain:
  assumes "wallet_sink_commit kind (files_ops env) clib rlib ctx batch cursor reorg sk = (r, sk')" and "sink_on_chain i sk"
  shows "sink_on_chain i sk'"
  using assms
  by (auto simp: wallet_sink_commit_def wallet_sink_store_def sink_on_chain_def split: sum.splits prod.splits
      dest!: commit_chain)

lemma sink_recover_chain:
  assumes "wallet_sink_recover (files_ops env) pw e sk = (q, sk')" and "sink_on_chain i sk"
  shows "sink_on_chain i sk'"
  using assms
  by (auto simp: wallet_sink_recover_def sink_on_chain_def dest!: load_chain
      split: sum.splits prod.splits core_error.splits storage_error.splits)

interpretation chained: invariant_sink "wallet_sink kind (files_ops env) clib rlib ctx" "sink_on_chain i" "sink_on_chain i"
  for kind and env :: "'env storage_env" and clib :: "('hdr, 'cm) consensus_lib" and rlib :: "'seed recovery_lib"
    and ctx :: "'seed restore_context" and i
  by unfold_locales (auto simp: wallet_sink_def intro: sink_commit_chain sink_recover_chain)

lemma run_pass_chain:
  assumes "run_pass kind (files_ops env) clib rlib pass ad ctx (w, sk) = Some (r, (w', sk'))" and "sink_on_chain i sk"
  shows "sink_on_chain i sk'"
proof (cases pass)
  case OnePage
  then have "reconcile_wallet_once clib ad (wallet_sink kind (files_ops env) clib rlib ctx) (w, sk) = (r, (w', sk'))"
    using assms(1) by (simp add: run_pass_def)
  from endsD [OF chained.reconcile_wallet_once_ends this, of i] assms(2) show ?thesis by simp
next
  case ToTip
  then have "reconcile_to_tip clib ad (wallet_sink kind (files_ops env) clib rlib ctx) (w, sk) = Some (r, (w', sk'))"
    using assms(1) by (simp add: run_pass_def)
  from chained.reconcile_to_tip_ends [OF this, of i] assms(2) show ?thesis by simp
qed

subsection \<open>The states of the service\<close>

definition no_secrets :: "'d wallet_service \<Rightarrow> bool" where
  "no_secrets sv \<longleftrightarrow> sv_unlocked sv = None \<and> sv_password sv = None \<and> sv_sender_secrets sv = None"

text \<open>An unlocked wallet: open, with its password, of the chain of its directory and of the backend.\<close>

definition open_chain :: "('w, 'env, 'p) wallet_app \<Rightarrow> network_identity option" where
  "open_chain app = Option.bind (Option.bind (wa_path app) (wa_disk app)) files_chain"

definition unlocked_on_chain :: "('w, 'env, 'p) wallet_app \<Rightarrow> bool" where
  "unlocked_on_chain app \<longleftrightarrow>
     (\<exists>s. sv_unlocked (wa_service app) = Some s \<and> sv_password (wa_service app) \<noteq> None \<and>
        open_chain app = Some (ws_identity s) \<and>
        pred_option (\<lambda>ad. require_domain_identity (ws_identity s) (ad_identity ad) = Inr ()) (sh_backend (wa_shell app)))"

definition app_inv :: "('w, 'env, 'p) wallet_app \<Rightarrow> bool" where
  "app_inv app \<longleftrightarrow>
     (case sh_state (wa_shell app) of
        AS_Closed \<Rightarrow> no_secrets (wa_service app) \<and> wa_path app = None
      | AS_Locked \<Rightarrow> no_secrets (wa_service app) \<and> wa_path app \<noteq> None
      | AS_Unlocked \<Rightarrow> unlocked_on_chain app
      | AS_Synchronizing \<Rightarrow> unlocked_on_chain app
      | _ \<Rightarrow> False)"

lemma app_inv_transfer:
  "open_chain app' = open_chain app \<Longrightarrow> wa_service app' = wa_service app \<Longrightarrow> wa_shell app' = wa_shell app \<Longrightarrow>
     wa_path app' = wa_path app \<Longrightarrow> app_inv app \<Longrightarrow> app_inv app'"
  by (auto simp: app_inv_def unlocked_on_chain_def split: application_state.splits)

definition closed_inv :: "('w, 'env, 'p) wallet_app \<Rightarrow> bool" where
  "closed_inv app \<longleftrightarrow> no_secrets (wa_service app) \<and> wa_path app = None \<and> sh_state (wa_shell app) = AS_Closed"

lemma closed_app_inv: "closed_inv app \<Longrightarrow> app_inv app"
  by (simp add: app_inv_def closed_inv_def)

lemma app_inv_default: "app_inv (app_default node disk)"
  by (simp add: app_default_def no_secrets_def app_inv_def)

text \<open>What an operation that starts in \<open>P\<close> ends in: \<open>Q\<close> when it succeeds, \<open>R\<close> when it fails.\<close>

definition leads :: "('s \<Rightarrow> bool) \<Rightarrow> ('s \<Rightarrow> bool) \<Rightarrow> ('s \<Rightarrow> bool) \<Rightarrow> ('s, 'e, 'a) meth \<Rightarrow> bool" where
  "leads P Q R m \<longleftrightarrow> (\<forall>x r y. m x = (r, y) \<longrightarrow> P x \<longrightarrow> (if is_ok r then Q y else R y))"

lemma leadsD: "leads P Q Q m \<Longrightarrow> m x = (r, y) \<Longrightarrow> P x \<Longrightarrow> Q y"
  unfolding leads_def by (metis (full_types))

lemma leads_then: "leads P Q R m \<Longrightarrow> (\<And>a. leads Q S R (k a)) \<Longrightarrow> leads P S R (op_then m k)"
  unfolding leads_def op_then_def is_ok_iff by (auto split: prod.splits sum.splits; fastforce)

lemma leads_lift: "(\<And>x. P x \<Longrightarrow> Q x) \<Longrightarrow> (\<And>x. P x \<Longrightarrow> R x) \<Longrightarrow> leads P Q R (lift_result r)"
  by (auto simp: leads_def lift_result_def)

lemma leads_weaken: "leads P Q R m \<Longrightarrow> (\<And>x. Q x \<Longrightarrow> S x) \<Longrightarrow> leads P S R m"
  unfolding leads_def by metis

lemma on_disk_of_frame: "on_disk_of m app = (r, app') \<Longrightarrow> \<exists>disk. app' = app\<lparr>wa_disk := disk\<rparr>"
  by (auto simp: on_disk_of_def split: prod.splits sum.splits)

lemma leads_disk: "leads closed_inv closed_inv app_inv (on_disk_of m)"
  by (auto simp: leads_def on_disk_of_def closed_inv_def app_inv_def split: prod.splits sum.splits)

lemma leads_adopt: "leads closed_inv app_inv app_inv (adopt env path)"
  by (auto simp: leads_def adopt_def closed_inv_def app_inv_def set_state_def Let_def no_secrets_def split: sum.splits)

text \<open>Every operation of a closed wallet.\<close>

lemma closed_op:
  assumes "op_then (lift_result (ensure_closed app)) (\<lambda>_. m) app = (r, app')" and inv: "app_inv app"
    and "leads closed_inv app_inv app_inv m"
  shows "app_inv app'"
  using assms(1)
proof (cases rule: op_thenE)
  case (2 u app1)
  then have "app1 = app" "closed_inv app"
    using inv by (auto simp: lift_result_def ensure_closed_def ensure_def closed_inv_def app_inv_def split: if_splits)
  then show ?thesis using leadsD [OF assms(3) 2(2)] by simp
qed (use inv in \<open>simp add: lift_result_def\<close>)

text \<open>Checks and work on the disk keep the wallet closed; the last step adopts a directory.\<close>

lemma closed_lift: "leads closed_inv closed_inv app_inv (lift_result r)"
  by (simp add: leads_lift closed_app_inv)

lemma closed_then:
  "leads closed_inv closed_inv app_inv m \<Longrightarrow> (\<And>a. leads closed_inv app_inv app_inv (k a)) \<Longrightarrow>
     leads closed_inv app_inv app_inv (op_then m k)"
  by (rule leads_then)

lemma adopt_then: "leads closed_inv app_inv app_inv (op_then (adopt env path) (\<lambda>c. lift_result (k c)))"
  by (rule leads_then [OF leads_adopt]) (simp add: leads_lift)

lemmas closed_steps = adopt_then closed_then closed_lift leads_disk leads_adopt

lemma create_recoverable_inv:
  assumes "create_recoverable env blib random wid aid path password identity app = (r, app')" and "app_inv app"
  shows "app_inv app'"
  using assms(1) unfolding create_recoverable_def
  by (rule closed_op) (intro closed_steps assms(2))+

lemma resume_recoverable_creation_inv:
  assumes "resume_recoverable_creation env blib path password app = (r, app')" and "app_inv app"
  shows "app_inv app'"
  using assms(1) unfolding resume_recoverable_creation_def split_def
  by (rule closed_op) (intro closed_steps assms(2))+

lemma abort_recoverable_creation_inv:
  assumes "abort_recoverable_creation env path password app = (r, app')" and "app_inv app"
  shows "app_inv app'"
proof -
  have final: "leads closed_inv app_inv app_inv (on_disk_of m)" for m :: "(('env, 'p) catalog, storage_error, unit) meth"
    by (rule leads_weaken [OF leads_disk closed_app_inv])
  show ?thesis
    using assms(1) unfolding abort_recoverable_creation_def
    by (rule closed_op) (intro closed_steps final assms(2))+
qed

lemma create_for_embedded_inv:
  assumes "create_recoverable_for_embedded env blib random wid aid path password app = (r, app')" and "app_inv app"
  shows "app_inv app'"
  using assms(1) unfolding create_recoverable_for_embedded_def
  by (cases rule: op_thenE) (use assms(2) create_recoverable_inv in \<open>auto simp: lift_result_def\<close>)

lemma open_wallet_inv:
  assumes "open_wallet hx env path app = (r, app')" and "app_inv app"
  shows "app_inv app'"
proof -
  let ?k = "\<lambda>app1. case res_bind (ok_or (wa_disk app1 path) SE_Io) (so_metadata (files_ops env)) of
         Inl e \<Rightarrow> (Inl (KE_Storage e), app1)
       | Inr m \<Rightarrow> op_then (lift_result (require_backend_identity hx (wm_identity m) (sh_backend (wa_shell app1))))
           (\<lambda>_. adopt env path) app1"
  have "leads closed_inv app_inv app_inv ?k"
    unfolding leads_def
  proof (intro allI impI)
    fix x r y assume run: "?k x = (r, y)" and "closed_inv x"
    moreover have "leads closed_inv app_inv app_inv (op_then (lift_result q) (\<lambda>_. adopt env path))" for q :: "core_error + unit"
      by (intro closed_steps)
    ultimately show "if is_ok r then app_inv y else app_inv y"
      by (auto simp: closed_app_inv dest: leadsD split: sum.splits)
  qed
  then show ?thesis
    using assms(1) unfolding open_wallet_def
    by (intro closed_op [of app "op_then (on_disk_of (\<lambda>disk. (open_directory env path disk, disk))) (\<lambda>_. ?k)" r app'] assms(2))
       (auto intro!: closed_steps)
qed

lemma restore_offline_inv:
  assumes "restore_from_mnemonic_offline_with_identity env blib rlib wid aid path password phrase identity app = (r, app')"
    and "app_inv app"
  shows "app_inv app'"
  using assms(1) unfolding restore_from_mnemonic_offline_with_identity_def
  by (rule closed_op) (intro closed_steps assms(2))+

lemma backup_import_inv:
  assumes "backup_import fenv destination backup backup_password wallet_password identity app = (r, app')" and "app_inv app"
  shows "app_inv app'"
  using assms(1) unfolding backup_import_def
  by (rule closed_op) (intro closed_steps assms(2))+

lemma restore_from_mnemonic_inv:
  assumes "restore_from_mnemonic env clib blib rlib wid aid path password phrase app = Some (r, app')" and "app_inv app"
  shows "app_inv app'"
proof (cases "res_bind (ensure_closed app) (\<lambda>_. ok_or (sh_backend (wa_shell app)) KE_EmbeddedCoreRequired)")
  case (Inl e)
  then show ?thesis using assms by (simp add: restore_from_mnemonic_def)
next
  case (Inr ad)
  then have closed: "closed_inv (app\<lparr>wa_node := w, wa_disk := disk\<rparr>)" for w disk
    using assms(2) by (auto simp: res_simps ensure_closed_def ensure_def closed_inv_def app_inv_def split: if_splits)
  have tail: "leads closed_inv app_inv app_inv (op_then (on_disk_of (\<lambda>disk. (open_directory env path disk, disk))) (\<lambda>_.
      op_then (adopt env path) (\<lambda>summary. lift_result (Inr (summary, recovery)))))" for recovery :: seed_restore_result
    by (intro closed_steps)
  from Inr assms(1) obtain q :: "seed_restore_error + seed_restore_result" and w disk
    where run: "(case q of Inl _ \<Rightarrow> (Inl KE_Restore, app\<lparr>wa_node := w, wa_disk := disk\<rparr>)
      | Inr recovery \<Rightarrow> op_then (on_disk_of (\<lambda>disk. (open_directory env path disk, disk))) (\<lambda>_.
          op_then (adopt env path) (\<lambda>summary. lift_result (Inr (summary, recovery)))) (app\<lparr>wa_node := w, wa_disk := disk\<rparr>))
      = (r, app')"
    by (auto simp: restore_from_mnemonic_def Let_def)
  then show ?thesis
    by (cases q) (use closed_app_inv [OF closed] leadsD [OF tail _ closed] in auto)
qed

subsection \<open>Unlocking, locking, closing\<close>

lemma load_open_frame:
  assumes "load_open env password app = (r, app')"
  shows "\<exists>disk. app' = app\<lparr>wa_disk := disk\<rparr>"
    and "r = Inr s \<Longrightarrow> open_chain app' = Some (ws_identity s)"
proof -
  show "\<exists>disk. app' = app\<lparr>wa_disk := disk\<rparr>"
  proof (cases "wa_path app")
    case None
    then have "app' = app\<lparr>wa_disk := wa_disk app\<rparr>" using assms by (simp add: load_open_def)
    then show ?thesis by blast
  next
    case (Some path)
    then show ?thesis using assms on_disk_of_frame by (auto simp: load_open_def)
  qed
  assume "r = Inr s"
  then obtain path f f' where "wa_path app' = Some path" "so_load (files_ops env) password f = (Inr s, f')"
    "wa_disk app' path = Some f'"
    using assms by (auto simp: load_open_def on_disk_of_def on_entry_Inr split: option.splits prod.splits sum.splits)
  then show "open_chain app' = Some (ws_identity s)" using load_chain by (fastforce simp: open_chain_def)
qed

lemma require_backend_identityD:
  "require_backend_identity hx identity backend = Inr u \<Longrightarrow>
     pred_option (\<lambda>ad. require_domain_identity identity (ad_identity ad) = Inr ()) backend"
  by (cases backend) (auto simp: require_backend_identity_def res_simps)

lemma unlock_checked_ends:
  assumes "unlock_checked hx env clib password app = (r, app')"
  shows "if is_ok r then sh_state (wa_shell app') = AS_Unlocked \<and> unlocked_on_chain app'
    else \<exists>disk. app' = app\<lparr>wa_disk := disk\<rparr>"
proof -
  have refl: "\<exists>disk. app = app\<lparr>wa_disk := disk\<rparr>" by (rule exI [of _ "wa_disk app"]) simp
  show ?thesis
    using assms unfolding unlock_checked_def
  proof (elim op_thenE, goal_cases)
    case (1 e)
    then show ?case using refl by (simp add: lift_result_def)
  next
    case (2 secret app1 e)
    then show ?case using load_open_frame(1) by (fastforce simp: lift_result_def)
  next
    case (3 secret app1 s app2 e)
    then show ?case using load_open_frame(1) by (fastforce simp: lift_result_def)
  next
    case (4 secret app1 s app2 u app3)
    then have app3: "app1 = app" "app3 = app2" by (auto simp: lift_result_def)
    have "open_chain app2 = Some (ws_identity s)" using load_open_frame(2) [OF 4(2), of s] by simp
    moreover have "pred_option (\<lambda>ad. require_domain_identity (ws_identity s) (ad_identity ad) = Inr ())
        (sh_backend (wa_shell app2))"
      using 4(3) by (auto simp: lift_result_def intro: require_backend_identityD)
    ultimately show ?case
      using 4(4) app3
      by (auto simp: Let_def set_state_def app_summary_def service_summary_def unlocked_on_chain_def open_chain_def)
  qed
qed

lemma unlock_inv:
  assumes "unlock hx env clib password app = (r, app')" and "app_inv app"
  shows "app_inv app'"
proof (cases "sh_state (wa_shell app) = AS_Locked")
  case False
  then show ?thesis using assms by (simp add: unlock_def)
next
  case True
  obtain q app1 where u: "unlock_checked hx env clib password (set_state AS_Unlocking app) = (q, app1)" by fastforce
  note ends = unlock_checked_ends [OF u]
  have "no_secrets (wa_service app)" "wa_path app \<noteq> None" using assms(2) True by (simp_all add: app_inv_def)
  then show ?thesis
    using assms(1) True u ends
    by (cases q) (auto simp: unlock_def app_inv_def set_state_def unlocked_on_chain_def open_chain_def)
qed

lemma lock_inv: "lock app = (r, app') \<Longrightarrow> app_inv app \<Longrightarrow> app_inv app'"
  by (auto simp: lock_def app_inv_def no_secrets_def set_state_def split: if_splits)

lemma close_inv:
  assumes "close shutdown app = (r, app')" and "app_inv app"
  shows "app_inv app'"
proof -
  let ?m = "if wa_path app \<noteq> None then lock else lift_result (Inr ())"
  obtain app1 where m: "?m app = (Inr (), app1)" and safe: "app_inv app1" "no_secrets (wa_service app1)"
    "sh_state (wa_shell app1) = (if wa_path app = None then AS_Closed else AS_Locked)"
  proof (cases "wa_path app")
    case None
    then have "sh_state (wa_shell app) = AS_Closed" "no_secrets (wa_service app)"
      using assms(2) by (auto simp: app_inv_def unlocked_on_chain_def open_chain_def split: application_state.splits)
    then show ?thesis using None assms(2) that by (simp add: lift_result_def)
  next
    case (Some path)
    then obtain app1 where l: "lock app = (Inr (), app1)" by (simp add: lock_def)
    then have "no_secrets (wa_service app1)" "sh_state (wa_shell app1) = AS_Locked"
      using Some by (auto simp: lock_def no_secrets_def set_state_def)
    then show ?thesis using Some l lock_inv [OF l assms(2)] that by simp
  qed
  then show ?thesis
    using assms(1) unfolding close_def op_then_def [of ?m]
    by (auto simp: op_then_def on_node_def lift_result_def app_inv_def no_secrets_def set_state_def
        split: if_splits prod.splits sum.splits application_state.splits)
qed

lemma attach_backend_inv:
  assumes "attach_backend clib embedded ad app = (r, app')" and "app_inv app"
  shows "app_inv app'"
  using assms unfolding attach_backend_def
  by (auto simp: op_then_def lift_result_def on_node_def Let_def app_inv_def unlocked_on_chain_def no_secrets_def open_chain_def
      split: sum.splits prod.splits option.splits application_state.splits if_splits)

subsection \<open>The recovery ceremony and backups\<close>

text \<open>Work on the open directory that keeps its chain.\<close>

definition keeps_chain :: "(('env, 'p) wallet_files, storage_error, 'a) meth \<Rightarrow> bool" where
  "keeps_chain m \<longleftrightarrow> (\<forall>f r f'. m f = (r, f') \<longrightarrow> files_chain f' = files_chain f)"

lemma files_keep_chain:
  "keeps_chain (so_load (files_ops env) pw)" "keeps_chain (so_commit (files_ops env) pw g s)"
  "keeps_chain (\<lambda>f. (q f, f))"
  using load_chain commit_chain by (fastforce simp: keeps_chain_def)+

lemma entry_inv:
  assumes "keeps_chain m" and "on_disk_of (on_entry path m) app = (r, app')" and "app_inv app"
  shows "app_inv app'"
proof (cases "wa_disk app path")
  case None
  then show ?thesis using assms(2,3) by (auto simp: on_disk_of_def on_entry_def)
next
  case (Some f)
  obtain q f' where m: "m f = (q, f')" by fastforce
  then have "files_chain f' = files_chain f" using assms(1) by (auto simp: keeps_chain_def)
  moreover have "app' = app\<lparr>wa_disk := (wa_disk app)(path \<mapsto> f')\<rparr>"
    using assms(2) Some m by (auto simp: on_disk_of_def on_entry_def split: sum.splits)
  ultimately have "open_chain app' = open_chain app" "wa_service app' = wa_service app" "wa_shell app' = wa_shell app"
    "wa_path app' = wa_path app"
    using Some by (auto simp: open_chain_def split: bind_splits)
  then show ?thesis using app_inv_transfer [OF _ _ _ _ assms(3)] by simp
qed

lemma load_open_inv: "load_open env password app = (r, app') \<Longrightarrow> app_inv app \<Longrightarrow> app_inv app'"
  by (auto simp: load_open_def split: option.splits intro: entry_inv [OF files_keep_chain(1)])

lemma leads_inv_lift: "leads app_inv app_inv app_inv (lift_result r)"
  by (simp add: leads_lift)

lemma leads_inv_load: "leads app_inv app_inv app_inv (load_open env password)"
  by (auto simp: leads_def intro: load_open_inv)

lemma leads_inv_entry: "keeps_chain m \<Longrightarrow> leads app_inv app_inv app_inv (on_disk_of (on_entry path m))"
  by (auto simp: leads_def intro: entry_inv)

lemma leads_inv_then:
  "leads app_inv app_inv app_inv m \<Longrightarrow> (\<And>a. leads app_inv app_inv app_inv (k a)) \<Longrightarrow>
     leads app_inv app_inv app_inv (op_then m k)"
  by (rule leads_then)

lemma inv_op:
  "op_then m k app = (r, app') \<Longrightarrow> app_inv app \<Longrightarrow> leads app_inv app_inv app_inv (op_then m k) \<Longrightarrow> app_inv app'"
  by (rule leadsD)

lemmas inv_steps = leads_inv_then leads_inv_lift leads_inv_load leads_inv_entry files_keep_chain

lemma recovery_phrase_confirmed_inv:
  fixes app :: "('w, 'env, 'p) wallet_app"
  assumes "recovery_phrase_confirmed env password app = (r, app')" and "app_inv app"
  shows "app_inv app'"
proof -
  have meta: "leads app_inv app_inv app_inv (\<lambda>app1 :: ('w, 'env, 'p) wallet_app.
      (Inr (), app1\<lparr>wa_service := (wa_service app1)\<lparr>sv_metadata := Some m\<rparr>\<rparr>) :: (core_error + unit) \<times> _)" for m
    by (auto simp: leads_def app_inv_def unlocked_on_chain_def no_secrets_def open_chain_def split: application_state.splits)
  show ?thesis
    using assms(1) unfolding recovery_phrase_confirmed_def
    by (rule inv_op [OF _ assms(2)]) (intro inv_steps meta)
qed

lemma recovery_phrase_resume_inv:
  assumes "recovery_phrase_resume env clib blib password app = (r, app')" and "app_inv app"
  shows "app_inv app'"
proof -
  have tail: "leads app_inv app_inv app_inv (\<lambda>x. op_then (lift_result (q x)) (\<lambda>a. lift_result (k a)) x)"
    for q :: "('a, 'b, 'c) wallet_app \<Rightarrow> core_error + wallet_summary" and k :: "wallet_summary \<Rightarrow> core_error + wallet_summary \<times> string"
    by (auto simp: leads_def op_then_def lift_result_def split: sum.splits)
  show ?thesis
    using assms(1) unfolding recovery_phrase_resume_def
    by (rule inv_op [OF _ assms(2)]) (intro inv_steps tail)
qed

lemma export_keeps_chain:
  assumes "export_backup fenv wallet_password backup_password (f, file) = (r, (f', file'))"
  shows "files_chain f' = files_chain f"
proof -
  have "on_directory (storage_load (fe_store fenv) wallet_password) f = (q, f1) \<Longrightarrow> files_chain f1 = files_chain f" for q f1
    using load_chain [of "fe_store fenv" wallet_password f q f1] by (simp add: files_ops_def)
  then show ?thesis
    using assms unfolding export_backup_def
    by (auto simp: on_fst_def on_snd_def split: if_splits prod.splits sum.splits elim!: op_thenE)
qed

lemma backup_export_inv:
  assumes "backup_export fenv file_name backup_password (app, file) = (r, (app', file'))" and "app_inv app"
  shows "app_inv app'"
proof -
  have same: "app_inv (app\<lparr>wa_disk := (wa_disk app)(path \<mapsto> f')\<rparr>)"
    if "wa_disk app path = Some f" "files_chain f' = files_chain f" for path f f'
  proof -
    have "open_chain (app\<lparr>wa_disk := (wa_disk app)(path \<mapsto> f')\<rparr>) = open_chain app"
      using that by (auto simp: open_chain_def split: bind_splits)
    then show ?thesis using app_inv_transfer [OF _ _ _ _ assms(2)] by simp
  qed
  show ?thesis
    using assms(1) unfolding backup_export_def Let_def
    by (elim op_thenE)
      (use assms(2) in \<open>auto simp: lift_result_def split: option.splits prod.splits sum.splits
        intro: same dest: export_keeps_chain\<close>)
qed

subsection \<open>Operations on the unlocked wallet\<close>

text \<open>
  Operations of the service on the open directory: the password stays, an unlocked wallet stays
  unlocked and on the chain of its directory, and a locked one stays locked.
\<close>

definition service_on_chain :: "('env, 'p) wallet_files wallet_service \<Rightarrow> bool" where
  "service_on_chain sv \<longleftrightarrow> (\<exists>s f. sv_unlocked sv = Some s \<and> sv_password sv \<noteq> None \<and> sv_location sv = Some f \<and>
     files_chain f = Some (ws_identity s))"

definition chain_kept :: "('env, 'p) wallet_files wallet_service \<Rightarrow> ('env, 'p) wallet_files wallet_service \<Rightarrow> bool" where
  "chain_kept sv sv' \<longleftrightarrow>
     (no_secrets sv \<longrightarrow> no_secrets sv') \<and>
     (service_on_chain sv \<longrightarrow> service_on_chain sv' \<and>
        map_option ws_identity (sv_unlocked sv') = map_option ws_identity (sv_unlocked sv))"

lemma chain_kept_trans: "chain_kept a b \<Longrightarrow> chain_kept b c \<Longrightarrow> chain_kept a c"
  by (auto simp: chain_kept_def)

lemma chain_kept_refl [simp]: "chain_kept sv sv"
  by (simp add: chain_kept_def)

lemma put_service_inv:
  assumes "chain_kept (opened_service app) sv" and "app_inv app"
  shows "app_inv (put_service sv app)"
proof -
  have path: "wa_path (put_service sv app) = wa_path app" "wa_shell (put_service sv app) = wa_shell app"
    "wa_service (put_service sv app) = sv"
    by (simp_all add: put_service_def)
  have locked: "no_secrets sv" if "no_secrets (wa_service app)"
    using that assms(1) by (simp add: chain_kept_def no_secrets_def opened_service_def)
  have unlocked: "unlocked_on_chain (put_service sv app)" if u: "unlocked_on_chain app"
  proof -
    from u obtain s where s: "sv_unlocked (wa_service app) = Some s" "sv_password (wa_service app) \<noteq> None"
      "open_chain app = Some (ws_identity s)"
      "pred_option (\<lambda>ad. require_domain_identity (ws_identity s) (ad_identity ad) = Inr ()) (sh_backend (wa_shell app))"
      by (auto simp: unlocked_on_chain_def)
    then obtain name f where f: "wa_path app = Some name" "wa_disk app name = Some f" "files_chain f = Some (ws_identity s)"
      by (auto simp: open_chain_def bind_eq_Some_conv)
    then have "service_on_chain (opened_service app)" using s by (simp add: service_on_chain_def opened_service_def)
    with assms(1) s obtain s' f' where "sv_unlocked sv = Some s'" "sv_password sv \<noteq> None" "sv_location sv = Some f'"
      "files_chain f' = Some (ws_identity s')" "ws_identity s' = ws_identity s"
      by (auto simp: chain_kept_def service_on_chain_def opened_service_def)
    then show ?thesis using s(4) f by (simp add: unlocked_on_chain_def open_chain_def put_service_def)
  qed
  show ?thesis
    using assms(2) locked unlocked path by (auto simp: app_inv_def split: application_state.splits)
qed

lemma commit_kept: "commit (files_ops env) s sv = (r, sv') \<Longrightarrow> chain_kept sv sv'"
  unfolding commit_def chain_kept_def service_on_chain_def no_secrets_def
  by (auto split: option.splits prod.splits sum.splits dest!: commit_chain)

lemma with_clone_kept: "with_clone (files_ops env) f sv = (r, sv') \<Longrightarrow> chain_kept sv sv'"
  by (auto simp: with_clone_def op_then_def split: sum.splits prod.splits dest: commit_kept)

lemma on_open_inv:
  assumes "\<And>sv r sv'. m sv = (r, sv') \<Longrightarrow> chain_kept sv sv'" and "on_open m app = (r, app')" and "app_inv app"
  shows "app_inv app'"
  using assms(2,3) put_service_inv [OF assms(1)] by (auto simp: on_open_def split: prod.splits)

lemma set_node_configuration_inv:
  assumes "set_node_configuration env configuration app = (r, app')" and "app_inv app"
  shows "app_inv app'"
  using assms(1) unfolding set_node_configuration_def
  by (rule on_open_inv [rotated])
    (auto simp: assms(2) lift_result_def elim!: op_thenE intro: with_clone_kept)

lemma send_kept:
  assumes "transaction_send_create hex (files_ops env) backend ent amount fee sender receiver lock_height expires sv = (r, sv')"
  shows "chain_kept sv sv'"
proof (cases "amount = 0 \<or> \<not> is_ok (send_guards backend lock_height expires sv)")
  case True
  then show ?thesis using assms by (auto simp: transaction_send_create_def is_ok_iff split: sum.splits if_splits)
next
  case False
  then obtain bk identity where "amount \<noteq> 0" "send_guards backend lock_height expires sv = Inr (bk, identity)"
    by (auto simp: is_ok_iff)
  note run = assms [unfolded transaction_send_create_def this(2) sum.case prod.case if_not_P [OF this(1)]]
  from run show ?thesis
  proof (cases rule: op_thenE)
    case (1 e)
    then show ?thesis using with_clone_kept by blast
  next
    case (2 x sv1)
    note k1 = with_clone_kept [OF 2(1)]
    have some: "\<not> no_secrets sv" using durable_store.with_clone_ok [OF files.durable_store_axioms 2(1)] by (auto simp: no_secrets_def)
    have secrets: "chain_kept sv (sv2\<lparr>sv_sender_secrets := p\<rparr>)" if "chain_kept sv sv2" for sv2 p
      using that some by (simp add: chain_kept_def service_on_chain_def)
    have summary: "sv3 = sv2" if "transaction_summary hex tid sv2 = (q, sv3)" for tid sv2 q sv3
      using that by (simp add: transaction_summary_def)
    from 2(2) show ?thesis
      by (cases x) (auto simp: Let_def k1 split: sum.splits prod.splits elim!: op_thenE
          dest!: with_clone_kept summary intro: secrets chain_kept_trans [OF k1])
  qed
qed

lemma finish_pass_shell:
  assumes "finish_pass ops clib tip r sk (w, sv, sh) = (q, (w', sv', sh'))"
  shows "sh_state sh' \<in> {AS_Unlocked, AS_Synchronizing} \<and> sh_backend sh' = sh_backend sh \<and> sv_password sv' = sv_password sv"
  using assms
  by (auto simp: finish_pass_def Let_def sync_failure_def finish_sync_failure_def split: sum.splits option.splits prod.splits)

lemma app_sync_pass_inv:
  assumes "app_sync_pass kind env is_ready clib rlib seed_of pass app = Some (r, app')" and inv: "app_inv app"
  shows "app_inv app'"
proof -
  let ?sv = "opened_service app" and ?sh = "wa_shell app"
  obtain q w sv sh where b: "begin_pass is_ready clib seed_of (wa_node app, ?sv, ?sh) = (q, (w, sv, sh))"
    by (metis prod.exhaust)
  have same: "sv = ?sv" "sh = ?sh" using begin_pass_Inr(1) [OF b] by auto
  show ?thesis
  proof (cases q)
    case (Inl e)
    have "app_inv (put_service ?sv (app\<lparr>wa_node := w\<rparr>))"
    proof (rule put_service_inv)
      show "chain_kept (opened_service (app\<lparr>wa_node := w\<rparr>)) ?sv" by (simp add: opened_service_def)
      show "app_inv (app\<lparr>wa_node := w\<rparr>)" by (rule app_inv_transfer [OF _ _ _ _ inv]) (simp_all add: open_chain_def)
    qed
    then show ?thesis using assms(1) b Inl same by (auto simp: app_sync_pass_def run_sync_pass_def)
  next
    case (Inr x)
    obtain ad s location ctx where x: "x = (ad, s, location, ctx)" by (metis prod.exhaust)
    note start = begin_pass_Inr(2) [OF b, of ad s location ctx, unfolded Inr x, OF refl]
    let ?sk = "\<lparr>wk_directory = location, wk_state = s, wk_observed_tip_height = None, wk_last_recovery_error = None,
      wk_last_generation_conflict = None, wk_last_storage_failure = None\<rparr>"
    from assms(1) b Inr x same obtain p w1 sk w2 sv2 sh2
      where run: "run_pass kind (files_ops env) clib rlib pass ad ctx (w, ?sk) = Some (p, (w1, sk))"
        and fin: "finish_pass (files_ops env) clib (cbr_height (cci_current_tip (rx_identity ctx))) p sk (w1, ?sv, ?sh)
          = (r, (w2, sv2, sh2))"
        and app': "app' = put_service sv2 (app\<lparr>wa_node := w2, wa_shell := sh2\<rparr>)"
      by (auto simp: app_sync_pass_def run_sync_pass_def)
    have unlocked: "unlocked_on_chain app"
      using inv start by (auto simp: app_inv_def opened_service_def no_secrets_def split: application_state.splits)
    then have "sink_on_chain (ws_identity s) ?sk"
      using start by (auto simp: sink_on_chain_def unlocked_on_chain_def open_chain_def opened_service_def bind_eq_Some_conv)
    from run_pass_chain [OF run this] have chain: "files_chain (wk_directory sk) = Some (ws_identity (wk_state sk))"
      "ws_identity (wk_state sk) = ws_identity s" by (auto simp: sink_on_chain_def)
    note ends = finish_pass_service(1,2) [OF fin] finish_pass_shell [OF fin]
    have "unlocked_on_chain app'"
      using unlocked start chain ends
      by (auto simp: app' unlocked_on_chain_def open_chain_def put_service_def opened_service_def bind_eq_Some_conv)
    then show ?thesis using ends by (auto simp: app_inv_def app' put_service_def)
  qed
qed

subsection \<open>The life of the service\<close>

text \<open>
  The operations of the service in any order, each with any arguments and any faults of the disk.
  \<open>clone\<close> stands for every operation that changes a copy of the unlocked state and commits it.
\<close>

definition with_faults :: "('env, 'p, 'b) files_env \<Rightarrow> (io_step \<Rightarrow> fault) \<Rightarrow> ('env, 'p, 'b) files_env" where
  "with_faults fenv faults = fenv\<lparr>fe_store := (fe_store fenv)\<lparr>se_fault := faults\<rparr>\<rparr>"

inductive app_step ::
  "hex_lib \<Rightarrow> ('hdr, 'cm) consensus_lib \<Rightarrow> ('m, 'x) bip39_lib \<Rightarrow> ('m, 'x) canonical_wallet_seed recovery_lib \<Rightarrow>
     ('sb, 'addr) slate_ops option \<Rightarrow> ('env, 'p, 'b) files_env \<Rightarrow> ('w, 'env, 'p) wallet_app \<Rightarrow> ('w, 'env, 'p) wallet_app \<Rightarrow> bool"
  for hx clib blib rlib slates fenv where
  created: "create_recoverable (fe_store (with_faults fenv faults)) blib random wid aid path password identity app = (rc, app')
    \<Longrightarrow> app_step hx clib blib rlib slates fenv app app'"
| created_embedded: "create_recoverable_for_embedded (fe_store (with_faults fenv faults)) blib random wid aid path password app
      = (rc, app') \<Longrightarrow> app_step hx clib blib rlib slates fenv app app'"
| resumed: "resume_recoverable_creation (fe_store (with_faults fenv faults)) blib path password app = (rc, app')
    \<Longrightarrow> app_step hx clib blib rlib slates fenv app app'"
| aborted: "abort_recoverable_creation (fe_store (with_faults fenv faults)) path password app = (ru, app')
    \<Longrightarrow> app_step hx clib blib rlib slates fenv app app'"
| opened: "open_wallet hx (fe_store (with_faults fenv faults)) path app = (rs, app')
    \<Longrightarrow> app_step hx clib blib rlib slates fenv app app'"
| unlocked: "unlock hx (fe_store (with_faults fenv faults)) clib password app = (rs, app')
    \<Longrightarrow> app_step hx clib blib rlib slates fenv app app'"
| locked: "lock app = (ru, app') \<Longrightarrow> app_step hx clib blib rlib slates fenv app app'"
| closed: "close shutdown app = (ru, app') \<Longrightarrow> app_step hx clib blib rlib slates fenv app app'"
| attached: "attach_backend clib embedded ad app = (rp, app') \<Longrightarrow> app_step hx clib blib rlib slates fenv app app'"
| configured: "set_node_configuration (fe_store (with_faults fenv faults)) configuration app = (ru, app')
    \<Longrightarrow> app_step hx clib blib rlib slates fenv app app'"
| restored_offline: "restore_from_mnemonic_offline_with_identity (fe_store (with_faults fenv faults)) blib rlib wid aid path
      password phrase identity app = (rs, app') \<Longrightarrow> app_step hx clib blib rlib slates fenv app app'"
| restored: "restore_from_mnemonic (fe_store (with_faults fenv faults)) clib blib rlib wid aid path password phrase app
      = Some (rr, app') \<Longrightarrow> app_step hx clib blib rlib slates fenv app app'"
| confirmed: "recovery_phrase_confirmed (fe_store (with_faults fenv faults)) password app = (ru, app')
    \<Longrightarrow> app_step hx clib blib rlib slates fenv app app'"
| shown: "recovery_phrase_resume (fe_store (with_faults fenv faults)) clib blib password app = (rc, app')
    \<Longrightarrow> app_step hx clib blib rlib slates fenv app app'"
| exported: "backup_export (with_faults fenv faults) file_name password (app, file) = (rb, (app', file'))
    \<Longrightarrow> app_step hx clib blib rlib slates fenv app app'"
| imported: "backup_import (with_faults fenv faults) path backup password wallet_password identity app = (rs, app')
    \<Longrightarrow> app_step hx clib blib rlib slates fenv app app'"
| clone: "on_open (with_clone (files_ops (fe_store (with_faults fenv faults))) change) app = (ru :: core_error + unit, app')
    \<Longrightarrow> app_step hx clib blib rlib slates fenv app app'"
| sent: "on_open (transaction_send_create hex (files_ops (fe_store (with_faults fenv faults))) slates ent amount fee sender
      receiver lock_height expires) app = (rt, app') \<Longrightarrow> app_step hx clib blib rlib slates fenv app app'"
| synchronized: "app_sync_pass kind (fe_store (with_faults fenv faults)) is_ready clib rlib seed_of pass app = Some (rs, app')
    \<Longrightarrow> app_step hx clib blib rlib slates fenv app app'"

lemma app_step_inv: "app_step hx clib blib rlib slates fenv app app' \<Longrightarrow> app_inv app \<Longrightarrow> app_inv app'"
  by (induction rule: app_step.induct)
    (auto intro: create_recoverable_inv create_for_embedded_inv resume_recoverable_creation_inv
      abort_recoverable_creation_inv open_wallet_inv unlock_inv lock_inv close_inv attach_backend_inv
      set_node_configuration_inv restore_offline_inv restore_from_mnemonic_inv recovery_phrase_confirmed_inv
      recovery_phrase_resume_inv backup_export_inv backup_import_inv on_open_inv [OF with_clone_kept]
      on_open_inv [OF send_kept] app_sync_pass_inv)

lemma app_run_inv: "(app_step hx clib blib rlib slates fenv)\<^sup>*\<^sup>* app app' \<Longrightarrow> app_inv app \<Longrightarrow> app_inv app'"
  by (induction rule: rtranclp_induct) (auto intro: app_step_inv)

text \<open>
  C7: a wallet service that is closed or locked holds no secret, and an unlocked one works on its own
  chain only. However the service got there from its default state, through creations, restores,
  unlocks, passes of the synchronization, sends, failures of the disk and of the node in any order: in
  the states \<open>Closed\<close> and \<open>Locked\<close> there is no decrypted state, no password and no private half of an
  offer in memory; whenever a decrypted state is in memory, so is the password, a directory is open
  whose metadata names the chain of that state, and an attached node has that same chain.
\<close>

theorem secrets_only_while_unlocked:
  assumes "(app_step hx clib blib rlib slates fenv)\<^sup>*\<^sup>* (app_default node disk) app"
  shows "(sh_state (wa_shell app) \<in> {AS_Closed, AS_Locked} \<longrightarrow> no_secrets (wa_service app)) \<and>
    (sv_unlocked (wa_service app) = None \<longrightarrow> no_secrets (wa_service app)) \<and>
    (\<forall>s. sv_unlocked (wa_service app) = Some s \<longrightarrow>
       sh_state (wa_shell app) \<in> {AS_Unlocked, AS_Synchronizing} \<and> sv_password (wa_service app) \<noteq> None \<and>
       open_chain app = Some (ws_identity s) \<and>
       pred_option (\<lambda>ad. require_domain_identity (ws_identity s) (ad_identity ad) = Inr ()) (sh_backend (wa_shell app)))"
  using app_run_inv [OF assms app_inv_default]
  by (auto simp: app_inv_def unlocked_on_chain_def no_secrets_def split: application_state.splits)

subsection \<open>The recovery phrase\<close>

lemma on_disk_of_Inr:
  "on_disk_of m app = (Inr a, app') \<longleftrightarrow> (\<exists>disk. m (wa_disk app) = (Inr a, disk) \<and> app' = app\<lparr>wa_disk := disk\<rparr>)"
  by (auto simp: on_disk_of_def split: prod.splits sum.splits)

lemma adopt_Inr:
  "adopt env path app = (Inr x, app') \<Longrightarrow>
     wa_disk app' = wa_disk app \<and> wa_path app' = Some path \<and> sh_state (wa_shell app') = AS_Locked \<and>
     sv_metadata (wa_service app') \<noteq> None"
  by (auto simp: adopt_def set_state_def Let_def split: sum.splits)

lemma created_on_disk:
  assumes "seal_opens env" and "\<And>ctx. se_authenticate env pw ctx = Inr auth"
    and run: "create env path s pw fs = (Inr d, fs')"
  shows "\<exists>f. fs' path = Some f \<and> on_disk env pw f s"
proof -
  have "fs path = None" using run by (auto simp: create_def Let_def split: if_splits)
  note pub = create_published [OF run this]
  from pub(1) obtain f where f: "fs' path = Some f" "holds_state env pw s f" by (auto simp: entry_published_def)
  with pub(3) holds_state_loads [OF assms(1) f(2) _ assms(2)] show ?thesis by (auto simp: on_disk_def)
qed

lemma create_recoverable_Inr:
  assumes "create_recoverable env blib random wid aid path pw identity app = (Inr (summary, phrase), app')"
  shows "\<exists>entropy seed d. validate_password pw = Inr () \<and> from_entropy blib entropy = Inr seed \<and> phrase = mnemonic_text blib seed \<and>
    create env path (unconfirmed_state wid aid identity (copy_entropy_to blib seed)) pw (wa_disk app) = (Inr d, wa_disk app') \<and>
    wa_path app' = Some path \<and> sh_state (wa_shell app') = AS_Locked \<and> sv_metadata (wa_service app') \<noteq> None"
  using assms
  by (auto simp: create_recoverable_def generate_def res_simps on_disk_of_Inr map_sum_id_Inr lift_result_def dest!: adopt_Inr)
    blast

lemma restore_offline_Inr:
  assumes "restore_from_mnemonic_offline_with_identity env blib rlib wid aid path pw phrase identity app = (Inr summary, app')"
  shows "\<exists>seed d. parse_phrase blib phrase = Inr seed \<and>
    create env path (offline_restore_state rlib wid aid seed identity) pw (wa_disk app) = (Inr d, wa_disk app')"
  using assms
  by (auto simp: restore_from_mnemonic_offline_with_identity_def res_simps on_disk_of_Inr map_sum_id_Inr lift_result_def
      dest!: adopt_Inr)

lemma load_open_on_disk:
  assumes "load_open env pw app = (r, app')" and "wa_path app = Some path" and "wa_disk app path = Some f"
    and "on_disk env pw f s"
  shows "r = Inr s \<or> (\<exists>e. r = Inl (KE_Storage e))"
proof -
  obtain q f' where "so_load (files_ops env) pw f = (q, f')" by fastforce
  with load_on_disk [OF assms(4) this] assms(1-3) show ?thesis
    by (auto simp: load_open_def on_disk_of_def on_entry_def split: sum.splits)
qed

lemma offline_restore_state_root: "ws_root_material (offline_restore_state rlib wid aid seed identity) = rl_entropy rlib seed"
  by (simp add: offline_restore_state_def wallet_new_def)

lemma unconfirmed_state_fields [simp]:
  "ws_root_material (unconfirmed_state wid aid identity root) = root"
  "ws_recovery (unconfirmed_state wid aid identity root) =
     Some \<lparr>rm_scheme = RECOVERY_SCHEME_BIP39_256_V1, rm_phrase_confirmed = False\<rparr>"
  by (simp_all add: unconfirmed_state_def wallet_new_def)

lemma load_open_Inr:
  "load_open env pw app = (Inr s, app') \<longleftrightarrow>
     (\<exists>path f f'. wa_path app = Some path \<and> wa_disk app path = Some f \<and> so_load (files_ops env) pw f = (Inr s, f') \<and>
        app' = app\<lparr>wa_disk := (wa_disk app)(path \<mapsto> f')\<rparr>)"
  by (auto simp: load_open_def on_disk_of_Inr on_entry_Inr split: option.splits)

lemma confirmed_Inr:
  assumes "recovery_phrase_confirmed env pw app = (Inr u, app')"
  shows "\<exists>path f s f1 recovery s' f2. wa_path app = Some path \<and> wa_disk app path = Some f \<and>
    so_load (files_ops env) pw f = (Inr s, f1) \<and> ws_recovery s = Some recovery \<and>
    so_commit (files_ops env) pw (ws_generation s) (s\<lparr>ws_recovery := Some (recovery\<lparr>rm_phrase_confirmed := True\<rparr>)\<rparr>) f1 = (Inr s', f2) \<and>
    wa_path app' = Some path \<and> wa_disk app' path = Some f2 \<and> sh_state (wa_shell app') = AS_Locked"
  using assms
  by (auto simp: recovery_phrase_confirmed_def res_simps on_disk_of_Inr on_entry_Inr lift_result_def ensure_def load_open_Inr
      split: if_splits)



subsection \<open>A wallet that is opened, unlocked and locked, and one that is created\<close>

definition seed_recovery :: "(bool, unit) canonical_wallet_seed recovery_lib" where
  "seed_recovery =
     \<lparr>rl_restore_canonical_scan = (\<lambda>seed chain blocks. Inr []), rl_legacy_coinbase_blinding = (\<lambda>seed h. None),
      rl_blinding_factor_valid = (\<lambda>b. True), rl_commit = (\<lambda>v b. []), rl_entropy = copy_entropy_to sample_bip39,
      rl_new_uuid = (\<lambda>s. 9)\<rparr>"

definition sample_hex :: hex_lib where
  "sample_hex = \<lparr>hx_encode = (\<lambda>bs. []), hx_decode = (\<lambda>cs. None)\<rparr>"

definition scanned_app :: "(unit, wallet_state, rescan_plan) wallet_app" where
  "scanned_app = (app_default () [''w'' \<mapsto> scanned_stage])
     \<lparr>wa_path := Some ''w'', wa_service := \<lparr>sv_unlocked = None, sv_location = None, sv_password = None,
        sv_metadata = Some (metadata_from_state scanned_state), sv_sender_secrets = None\<rparr>,
      wa_shell := \<lparr>sh_state = AS_Locked, sh_synchronization_error = None, sh_observed_tip_height = None, sh_backend = None\<rparr>\<rparr>"

lemma scanned_directory:
  "directory_of scanned_stage = Some \<lparr>wd_metadata = metadata_from_state scanned_state, wd_active = 0,
     wd_generations = [0 \<mapsto> (CompactV2, scanned_state)], wd_snapshot = None\<rparr>"
  "store_directory \<lparr>wd_metadata = metadata_from_state scanned_state, wd_active = 0,
     wd_generations = [0 \<mapsto> (CompactV2, scanned_state)], wd_snapshot = None\<rparr> scanned_stage = scanned_stage"
  by (simp_all add: scanned_stage_def directory_of_def store_directory_def empty_files_def)

lemma scanned_metadata: "so_metadata (files_ops (sample_store NoFault)) scanned_stage = Inr (metadata_from_state scanned_state)"
  using scanned_directory
  by (simp add: files_ops_def location_metadata_def io_read_def metadata_checked_def metadata_from_state_def)

lemma scanned_open:
  "\<exists>r. open_wallet sample_hex (sample_store NoFault) ''w'' (app_default () [''w'' \<mapsto> scanned_stage]) = (Inr r, scanned_app)"
proof -
  have "\<exists>d. open_directory (sample_store NoFault) ''w'' [''w'' \<mapsto> scanned_stage] = Inr d"
    using scanned_directory by (simp add: open_directory_def inspect_structure_def io_read_def acquire_writer_lock_def
        scanned_stage_def metadata_checked_def metadata_from_state_def)
  then show ?thesis
    using scanned_metadata
    by (auto simp: open_wallet_def op_then_def lift_result_def ensure_closed_def ensure_def app_default_def on_disk_of_def
        require_backend_identity_def adopt_def set_state_def summary_locked_def scanned_app_def Let_def)
qed

lemma scanned_load_open:
  assumes "wa_path app = Some ''w''" and "wa_disk app = [''w'' \<mapsto> scanned_stage]"
  shows "load_open (sample_store NoFault) pw app = (Inr scanned_state, app)"
proof -
  have "so_load (files_ops (sample_store NoFault)) pw scanned_stage = (Inr scanned_state, scanned_stage)"
    using scanned_directory scanned_load by (simp add: files_ops_def on_directory_def)
  moreover have "app\<lparr>wa_disk := [''w'' \<mapsto> scanned_stage]\<rparr> = app"
    unfolding assms(2) [symmetric] by simp
  ultimately show ?thesis
    using assms by (auto simp: load_open_Inr)
qed

lemma sample_faults:
  "fe_store (with_faults sample_files_env (\<lambda>_. NoFault)) = sample_store NoFault"
  by (simp add: with_faults_def sample_files_env_def sample_store_def)

lemma scanned_unlock:
  "\<exists>r app. unlock sample_hex (sample_store NoFault) sample_consensus ''password'' scanned_app = (Inr r, app) \<and>
     sh_state (wa_shell app) = AS_Unlocked \<and> sv_unlocked (wa_service app) = Some scanned_state \<and> wa_path app = Some ''w''"
proof -
  have "load_open (sample_store NoFault) ''password'' (set_state AS_Unlocking scanned_app) = (Inr scanned_state, set_state AS_Unlocking scanned_app)"
    by (rule scanned_load_open) (simp_all add: set_state_def scanned_app_def app_default_def)
  moreover have "sh_state (wa_shell scanned_app) = AS_Locked" "sh_backend (wa_shell scanned_app) = None" "wa_path scanned_app = Some ''w''"
    by (simp_all add: scanned_app_def)
  ultimately show ?thesis
    by (auto simp: unlock_def unlock_checked_def op_then_def lift_result_def secret_from_bytes_def require_backend_identity_def
        app_summary_def service_summary_def Let_def set_state_def)
qed

text \<open>The wallet is opened, unlocked and locked again.\<close>

theorem secrets_only_while_unlocked_witness:
  "\<exists>app app'. (app_step sample_hex sample_consensus sample_bip39 seed_recovery (None :: (unit, unit) slate_ops option) sample_files_env)\<^sup>*\<^sup>*
       (app_default () [''w'' \<mapsto> scanned_stage]) app \<and>
     sv_unlocked (wa_service app) = Some scanned_state \<and> sv_password (wa_service app) \<noteq> None \<and>
     open_chain app = Some (ws_identity scanned_state) \<and> lock app = (Inr (), app') \<and> no_secrets (wa_service app')"
proof -
  let ?step = "app_step sample_hex sample_consensus sample_bip39 seed_recovery (None :: (unit, unit) slate_ops option) sample_files_env"
  let ?start = "app_default () [''w'' \<mapsto> scanned_stage]"
  obtain r app where u: "unlock sample_hex (sample_store NoFault) sample_consensus ''password'' scanned_app = (Inr r, app)"
    "sv_unlocked (wa_service app) = Some scanned_state" "wa_path app = Some ''w''"
    using scanned_unlock by blast
  obtain r1 where o: "open_wallet sample_hex (sample_store NoFault) ''w'' ?start = (Inr r1, scanned_app)"
    using scanned_open by blast
  have "?step ?start scanned_app" using o by (intro app_step.opened [of _ _ "\<lambda>_. NoFault"]) (simp add: sample_faults)
  moreover have "?step scanned_app app" using u(1) by (intro app_step.unlocked [of _ _ "\<lambda>_. NoFault"]) (simp add: sample_faults)
  ultimately have run: "?step\<^sup>*\<^sup>* ?start app" by simp
  obtain app' where l: "lock app = (Inr (), app')" "sh_state (wa_shell app') = AS_Locked"
    using u(3) by (auto simp: lock_def set_state_def)
  have run': "?step\<^sup>*\<^sup>* ?start app'" using run app_step.locked [OF l(1)] by (rule rtranclp.rtrancl_into_rtrancl)
  from secrets_only_while_unlocked [OF run] secrets_only_while_unlocked [OF run'] show ?thesis
    using run u l by (intro exI [of _ app] exI [of _ app']) auto
qed

lemma unconfirmed_valid:
  "wallet_validate (unconfirmed_state 1 2 (domain_identity sample_chain_identity) (replicate 32 1)) = Inr ()"
  by (simp add: unconfirmed_state_def wallet_new_def validate_defs mining_default_def domain_identity_def
      default_node_configuration_def sample_chain_identity_def zeros_def ensure_def)

lemma sample_creation:
  "\<exists>summary phrase app'. create_recoverable (sample_store NoFault) sample_bip39 (Some (replicate 32 1)) 1 2 ''w'' ''password''
     (domain_identity sample_chain_identity) (app_default () Map.empty :: (unit, wallet_state, rescan_plan) wallet_app)
     = (Inr (summary, phrase), app')"
proof -
  let ?s = "unconfirmed_state 1 2 (domain_identity sample_chain_identity) (replicate 32 1)"
  obtain seed where seed: "generate sample_bip39 (Some (replicate 32 1)) = Inr seed" "copy_entropy_to sample_bip39 seed = replicate 32 1"
    by (simp add: generate_def from_entropy_def from_mnemonic_def sample_bip39_def copy_entropy_to_def)
  obtain d where "create (sample_store NoFault) ''w'' ?s ''password'' (Map.empty :: (wallet_state, rescan_plan) catalog) =
     (Inr d, [''w'' \<mapsto> \<lparr>wf_metadata = Some (metadata_from_state ?s), wf_active = Some (ws_generation ?s),
       wf_generations_dir = True, wf_generations = [ws_generation ?s \<mapsto> (CompactV2, ?s)],
       wf_snapshot = Some Snap_None, wf_authenticator = True, wf_plan = None\<rparr>])"
    using create_succeeds [of "sample_store NoFault" Map.empty "''w''" ?s "''password''" ?s] unconfirmed_valid sample_store_quiet
    by (auto simp: sample_store_def)
  with seed show ?thesis
    by (auto simp: create_recoverable_def op_then_def lift_result_def ensure_closed_def ensure_def app_default_def validate_password_def
        on_disk_of_def adopt_def files_ops_def directory_of_def location_metadata_def io_read_def metadata_checked_def
        metadata_from_state_def set_state_def summary_locked_def Let_def unconfirmed_state_def wallet_new_def)
qed


lemma sample_confirmation:
  "\<exists>app'. recovery_phrase_confirmed (sample_store NoFault) ''password'' scanned_app = (Inr (), app')"
proof -
  let ?r = "\<lparr>rm_scheme = RECOVERY_SCHEME_BIP39_256_V1, rm_phrase_confirmed = True\<rparr>"
  let ?t = "scanned_state\<lparr>ws_recovery := Some ?r\<rparr>"
  have valid: "wallet_validate (?t\<lparr>ws_generation := 1\<rparr>) = Inr ()"
    using tip_cursor_bytes tip_cursor
    by (simp add: scanned_state_def offline_restore_state_def wallet_new_def validate_defs mining_default_def domain_identity_def
        default_node_configuration_def sample_chain_identity_def sample_recovery_def zeros_def ensure_def)
  have rec: "ws_recovery scanned_state = Some ?r" by (simp add: scanned_state_def offline_restore_state_def)
  have "\<exists>s' f' m. so_commit (files_ops (sample_store NoFault)) ''password'' 0 ?t scanned_stage = (Inr s', f') \<and>
      so_metadata (files_ops (sample_store NoFault)) f' = Inr m"
    using valid scanned_directory
    by (simp add: files_ops_def storage_commit_def on_directory_def commit_with_encoding_def op_then_def
      stage_generation_def location_metadata_def io_read_def sample_store_def metadata_checked_def
      metadata_from_state_def active_generation_def remove_unpublished_generation_def
      write_generation_def io_write_def publish_staged_generation_def
      record_pre_migration_snapshot_def generation_encoding_def publish_pointer_and_metadata_def
      checked_add_def)
  then obtain s' f' m where commit: "so_commit (files_ops (sample_store NoFault)) ''password'' 0 ?t scanned_stage = (Inr s', f')"
    "so_metadata (files_ops (sample_store NoFault)) f' = Inr m" by blast
  have load: "load_open (sample_store NoFault) ''password'' scanned_app = (Inr scanned_state, scanned_app)"
    by (rule scanned_load_open) (simp_all add: scanned_app_def app_default_def)
  have app: "wa_path scanned_app = Some ''w''" "wa_disk scanned_app = [''w'' \<mapsto> scanned_stage]" "sh_state (wa_shell scanned_app) = AS_Locked"
    by (simp_all add: scanned_app_def app_default_def)
  show ?thesis
    using commit load app rec
    by (simp add: recovery_phrase_confirmed_def op_then_def lift_result_def ensure_def validate_password_def on_disk_of_def on_entry_def)
qed


end
